(* ===== verification/Prelude.thy ===== *)
theory Prelude
  imports Main "HOL-Library.Word" "HOL-Library.AList" "HOL-Library.Code_Target_Nat"
begin

unbundle bit_operations_syntax

text \<open>
  The shared vocabulary of the development: machine integers, results with panics, slices,
  little-endian integers and hash maps, as the Rust sources use them, and the generic lemmas
  the component theories rely on.

  \<^item> Integers keep their width: \<open>u8\<close> \<dots> \<open>u64\<close> and \<open>i32\<close>, \<open>i64\<close> are words (\<^const>\<open>sint\<close>
    reads the signed ones). \<open>usize\<close> values are slice lengths and offsets; they are \<open>nat\<close>, with the
    64-bit bound written out wherever the source checks or saturates.
  \<^item> A fallible computation returns \<open>('e, 'a) result\<close>: a value, an error of the source's error type,
    or \<open>Panic\<close>, which models an out-of-range index or slice. The release profile is built with
    \<open>panic = "abort"\<close>, so reaching \<open>Panic\<close> would end the sensor.
  \<^item> A hash map is an association list with distinct keys, in its iteration order.
\<close>

named_theorems res_simps \<open>equations of the result monad\<close>
named_theorems no_panic \<open>operations that cannot panic\<close>
named_theorems yield_rules \<open>rules for the postcondition of a computation\<close>
named_theorems succeed_rules \<open>rules for computations that return a value\<close>
named_theorems advances \<open>parsers that do not move backwards\<close>

subsection \<open>Machine integers\<close>

type_synonym u8 = "8 word"
type_synonym u16 = "16 word"
type_synonym u32 = "32 word"
type_synonym u64 = "64 word"
type_synonym i32 = "32 word"
type_synonym i64 = "64 word"
type_synonym usize = nat
type_synonym bytes = "u8 list"

definition usize_max :: usize where
  "usize_max = 2 ^ 64 - 1"

definition checked_add :: "usize \<Rightarrow> usize \<Rightarrow> usize option" where
  "checked_add a b = (if a + b \<le> usize_max then Some (a + b) else None)"

definition saturating_add_usize :: "usize \<Rightarrow> usize \<Rightarrow> usize" where
  "saturating_add_usize a b = min (a + b) usize_max"

definition saturating_add :: "'w::len word \<Rightarrow> 'w word \<Rightarrow> 'w word" where
  "saturating_add a b = (if unat a + unat b < 2 ^ LENGTH('w) then a + b else - 1)"

definition saturating_sub :: "'w::len word \<Rightarrow> 'w word \<Rightarrow> 'w word" where
  "saturating_sub a b = (if a < b then 0 else a - b)"

text \<open>\<open>i as usize\<close> for a signed 32-bit value: sign extension to 64 bits.\<close>

definition i32_as_usize :: "i32 \<Rightarrow> usize" where
  "i32_as_usize i = nat (sint i mod 2 ^ 64)"

text \<open>\<open>u32::try_from(n).unwrap_or(u32::MAX)\<close> for a length.\<close>

definition u32_of_usize :: "usize \<Rightarrow> u32" where
  "u32_of_usize n = (if n < 2 ^ 32 then of_nat n else - 1)"

lemma checked_add_eq_Some [simp]:
  "checked_add a b = Some c \<longleftrightarrow> c = a + b \<and> a + b \<le> usize_max"
  by (auto simp: checked_add_def)

lemma checked_add_eq_None [simp]: "checked_add a b = None \<longleftrightarrow> usize_max < a + b"
  by (auto simp: checked_add_def)

lemma unat_saturating_add:
  "unat (saturating_add a b) = min (unat a + unat b) (2 ^ LENGTH('w) - 1)"
  for a b :: "'w::len word"
proof (cases "unat a + unat b < 2 ^ LENGTH('w)")
  case True
  then show ?thesis by (simp add: saturating_add_def unat_word_ariths)
next
  case False
  then show ?thesis by (simp add: saturating_add_def unat_word_ariths unsigned_minus_1_eq_mask mask_eq_exp_minus_1)
qed

lemma unat_saturating_sub: "unat (saturating_sub a b) = unat a - unat b"
  by (auto simp: saturating_sub_def unat_sub_if' word_le_nat_alt word_less_nat_alt)

lemma i32_as_usize_nonneg: "0 \<le> sint i \<Longrightarrow> i32_as_usize i = nat (sint i)"
proof -
  assume "0 \<le> sint i"
  moreover have "sint i < 2 ^ 31"
    using sint_lt [of i] by simp
  ultimately show ?thesis by (simp add: i32_as_usize_def)
qed

lemma i32_as_usize_bound: "0 \<le> sint i \<Longrightarrow> i32_as_usize i < 2 ^ 31"
  using sint_lt [of i] by (simp add: i32_as_usize_nonneg)

lemma i32_as_usize_neg: "sint i < 0 \<Longrightarrow> 2 ^ 63 < i32_as_usize i"
proof -
  assume neg: "sint i < 0"
  have low: "- (2 ^ 31) \<le> sint i"
    using sint_ge [of i] by simp
  have "sint i mod 2 ^ 64 = (sint i + 2 ^ 64) mod 2 ^ 64" by simp
  also have "\<dots> = sint i + 2 ^ 64"
    using neg low by (intro mod_pos_pos_trivial) simp_all
  finally show ?thesis
    using low by (simp add: i32_as_usize_def)
qed

lemma i32_as_usize_le_sint: "int n \<le> sint i \<Longrightarrow> n \<le> i32_as_usize i"
  by (simp add: i32_as_usize_nonneg nat_le_iff le_nat_iff)

subsection \<open>Results, errors and panics\<close>

datatype 'e fault = Err 'e | Panic

type_synonym ('e, 'a) result = "'e fault + 'a"

abbreviation Ok :: "'a \<Rightarrow> ('e, 'a) result" where
  "Ok x \<equiv> Inr x"

abbreviation Fail :: "'e \<Rightarrow> ('e, 'a) result" where
  "Fail e \<equiv> Inl (Err e)"

abbreviation panicked :: "('e, 'a) result" where
  "panicked \<equiv> Inl Panic"

text \<open>The \<open>?\<close> operator: an error, or a panic, ends the function.\<close>

definition rbind :: "('e, 'a) result \<Rightarrow> ('a \<Rightarrow> ('e, 'b) result) \<Rightarrow> ('e, 'b) result" where
  "rbind r f = (case r of Inl e \<Rightarrow> Inl e | Inr x \<Rightarrow> f x)"

text \<open>\<open>.ok()\<close> and \<open>if let Ok(_)\<close>: an error becomes \<^const>\<open>None\<close>; a panic is not caught.\<close>

definition attempt :: "('e, 'a) result \<Rightarrow> ('f, 'a option) result" where
  "attempt r = (case r of Inl (Err e) \<Rightarrow> Ok None | Inl Panic \<Rightarrow> panicked | Inr x \<Rightarrow> Ok (Some x))"

definition ok_or :: "'a option \<Rightarrow> 'e \<Rightarrow> ('e, 'a) result" where
  "ok_or v e = (case v of None \<Rightarrow> Fail e | Some x \<Rightarrow> Ok x)"

definition option_or :: "'a option \<Rightarrow> 'a option \<Rightarrow> 'a option" where
  "option_or a b = (case a of None \<Rightarrow> b | Some x \<Rightarrow> Some x)"

definition then_some :: "bool \<Rightarrow> 'a \<Rightarrow> 'a option" where
  "then_some b x = (if b then Some x else None)"

text \<open>The computation does not panic.\<close>

definition safe :: "('e, 'a) result \<Rightarrow> bool" where
  "safe r \<longleftrightarrow> r \<noteq> panicked"

lemma rbind_simps [simp, res_simps]:
  "rbind (Inl e) f = Inl e"
  "rbind (Inr x) f = f x"
  by (simp_all add: rbind_def)

lemma attempt_simps [simp, res_simps]:
  "attempt (Inr x) = Ok (Some x)"
  "attempt (Fail e) = Ok None"
  "attempt panicked = panicked"
  by (simp_all add: attempt_def)

lemma ok_or_simps [simp, res_simps]:
  "ok_or None e = Fail e"
  "ok_or (Some x) e = Ok x"
  by (simp_all add: ok_or_def)

lemma option_or_simps [simp]:
  "option_or None b = b"
  "option_or (Some x) b = Some x"
  by (simp_all add: option_or_def)

lemma then_some_simps [simp]:
  "then_some True x = Some x"
  "then_some False x = None"
  by (simp_all add: then_some_def)

lemma rbind_eq_Inr [simp]: "rbind r f = Inr y \<longleftrightarrow> (\<exists>x. r = Inr x \<and> f x = Inr y)"
  by (cases r) simp_all

lemma attempt_eq_Inr_Some [simp]: "attempt r = Inr (Some x) \<longleftrightarrow> r = Inr x"
  by (auto simp: attempt_def split: sum.splits fault.splits)

lemma ok_or_eq_Inr [simp]: "ok_or v e = Inr x \<longleftrightarrow> v = Some x"
  by (cases v) simp_all

lemma rbind_assoc: "rbind (rbind r f) g = rbind r (\<lambda>x. rbind (f x) g)"
  by (cases r) simp_all

text \<open>Evaluation order for recursive definitions: the continuation runs only on a value.\<close>

lemma rbind_cong [fundef_cong]:
  "r = r' \<Longrightarrow> (\<And>x. r' = Inr x \<Longrightarrow> f x = f' x) \<Longrightarrow> rbind r f = rbind r' f'"
  by (cases r') simp_all

lemma safe_simps [simp]:
  "safe (Inr x)"
  "safe (Fail e)"
  "\<not> safe panicked"
  by (simp_all add: safe_def)

lemmas safe_value [no_panic] = safe_simps(1)
lemmas safe_error [no_panic] = safe_simps(2)

lemma safe_rbind [no_panic]:
  "safe r \<Longrightarrow> (\<And>x. r = Inr x \<Longrightarrow> safe (f x)) \<Longrightarrow> safe (rbind r f)"
  by (cases r) (auto simp: safe_def)

lemma safe_attempt [no_panic]: "safe r \<Longrightarrow> safe (attempt r)"
  by (auto simp: safe_def attempt_def split: sum.splits fault.splits)

lemma safe_ok_or [no_panic]: "safe (ok_or v e)"
  by (cases v) simp_all

lemma safe_case_option [no_panic]:
  "(v = None \<Longrightarrow> safe a) \<Longrightarrow> (\<And>x. v = Some x \<Longrightarrow> safe (f x)) \<Longrightarrow>
   safe (case v of None \<Rightarrow> a | Some x \<Rightarrow> f x)"
  by (cases v) simp_all

lemma safe_case_prod [no_panic]:
  "(\<And>a b. p = (a, b) \<Longrightarrow> safe (f a b)) \<Longrightarrow> safe (case p of (a, b) \<Rightarrow> f a b)"
  by (cases p) simp_all

lemma safe_if [no_panic]:
  "(c \<Longrightarrow> safe x) \<Longrightarrow> (\<not> c \<Longrightarrow> safe y) \<Longrightarrow> safe (if c then x else y)"
  by simp

text \<open>Every value the computation returns satisfies \<open>P\<close>.\<close>

definition yields :: "('e, 'a) result \<Rightarrow> ('a \<Rightarrow> bool) \<Rightarrow> bool" where
  "yields r P \<longleftrightarrow> (\<forall>x. r = Inr x \<longrightarrow> P x)"

lemma yieldsD: "yields r P \<Longrightarrow> r = Inr x \<Longrightarrow> P x"
  by (simp add: yields_def)

lemma yields_mono: "yields r P \<Longrightarrow> (\<And>x. P x \<Longrightarrow> Q x) \<Longrightarrow> yields r Q"
  by (simp add: yields_def)

lemma yields_value [yield_rules]: "P x \<Longrightarrow> yields (Inr x) P"
  by (simp add: yields_def)

lemma yields_error [yield_rules]: "yields (Inl e) P"
  by (simp add: yields_def)

lemma yields_rbind [yield_rules]: "(\<And>x. r = Inr x \<Longrightarrow> yields (f x) P) \<Longrightarrow> yields (rbind r f) P"
  by (cases r) (simp_all add: yields_def)

lemma yields_case_option [yield_rules]:
  "(v = None \<Longrightarrow> yields a P) \<Longrightarrow> (\<And>x. v = Some x \<Longrightarrow> yields (f x) P) \<Longrightarrow>
   yields (case v of None \<Rightarrow> a | Some x \<Rightarrow> f x) P"
  by (cases v) simp_all

lemma yields_case_prod [yield_rules]:
  "(\<And>a b. p = (a, b) \<Longrightarrow> yields (f a b) P) \<Longrightarrow> yields (case p of (a, b) \<Rightarrow> f a b) P"
  by (cases p) simp_all

lemma yields_if [yield_rules]:
  "(c \<Longrightarrow> yields x P) \<Longrightarrow> (\<not> c \<Longrightarrow> yields y P) \<Longrightarrow> yields (if c then x else y) P"
  by simp

text \<open>The computation returns a value.\<close>

definition succeeds :: "('e, 'a) result \<Rightarrow> bool" where
  "succeeds r \<longleftrightarrow> (\<exists>x. r = Inr x)"

lemma succeeds_value [succeed_rules]: "succeeds (Inr x)"
  by (simp add: succeeds_def)

lemma succeeds_rbind [succeed_rules]:
  "succeeds r \<Longrightarrow> (\<And>x. r = Inr x \<Longrightarrow> succeeds (f x)) \<Longrightarrow> succeeds (rbind r f)"
  by (auto simp: succeeds_def)

lemma succeeds_attempt [succeed_rules]: "safe r \<Longrightarrow> succeeds (attempt r)"
  by (auto simp: succeeds_def safe_def attempt_def split: sum.splits fault.splits)

lemma succeeds_if [succeed_rules]:
  "(c \<Longrightarrow> succeeds x) \<Longrightarrow> (\<not> c \<Longrightarrow> succeeds y) \<Longrightarrow> succeeds (if c then x else y)"
  by simp

lemma succeeds_case_option [succeed_rules]:
  "(v = None \<Longrightarrow> succeeds a) \<Longrightarrow> (\<And>x. v = Some x \<Longrightarrow> succeeds (f x)) \<Longrightarrow>
   succeeds (case v of None \<Rightarrow> a | Some x \<Rightarrow> f x)"
  by (cases v) simp_all

lemma succeeds_case_prod [succeed_rules]:
  "(\<And>a b. p = (a, b) \<Longrightarrow> succeeds (f a b)) \<Longrightarrow> succeeds (case p of (a, b) \<Rightarrow> f a b)"
  by (cases p) simp_all

subsection \<open>Slices\<close>

text \<open>\<open>xs.get(i)\<close>, \<open>xs.get(a..b)\<close>, \<open>xs.get(a..)\<close>, and the panicking \<open>xs[i]\<close>, \<open>&xs[a..b]\<close>.\<close>

definition slice_get :: "'a list \<Rightarrow> usize \<Rightarrow> 'a option" where
  "slice_get xs i = (if i < length xs then Some (xs ! i) else None)"

definition slice_range :: "'a list \<Rightarrow> usize \<Rightarrow> usize \<Rightarrow> 'a list option" where
  "slice_range xs a b = (if a \<le> b \<and> b \<le> length xs then Some (take (b - a) (drop a xs)) else None)"

definition slice_from :: "'a list \<Rightarrow> usize \<Rightarrow> 'a list option" where
  "slice_from xs a = (if a \<le> length xs then Some (drop a xs) else None)"

definition slice_index :: "'a list \<Rightarrow> usize \<Rightarrow> ('e, 'a) result" where
  "slice_index xs i = (if i < length xs then Ok (xs ! i) else panicked)"

definition slice_sub :: "'a list \<Rightarrow> usize \<Rightarrow> usize \<Rightarrow> ('e, 'a list) result" where
  "slice_sub xs a b = (if a \<le> b \<and> b \<le> length xs then Ok (take (b - a) (drop a xs)) else panicked)"

text \<open>\<open>xs.iter().position(p)\<close>.\<close>

fun position :: "('a \<Rightarrow> bool) \<Rightarrow> 'a list \<Rightarrow> usize option" where
  "position p [] = None"
| "position p (x # xs) = (if p x then Some 0 else map_option Suc (position p xs))"

lemma slice_range_eq_Some [simp]:
  "slice_range xs a b = Some ys \<longleftrightarrow> a \<le> b \<and> b \<le> length xs \<and> ys = take (b - a) (drop a xs)"
  by (auto simp: slice_range_def)

lemma slice_index_ok [no_panic]: "i < length xs \<Longrightarrow> safe (slice_index xs i)"
  by (simp add: slice_index_def)

lemma slice_sub_ok [no_panic]: "a \<le> b \<Longrightarrow> b \<le> length xs \<Longrightarrow> safe (slice_sub xs a b)"
  by (simp add: slice_sub_def)

lemma slice_sub_eq_Inr [simp]:
  "slice_sub xs a b = Inr ys \<longleftrightarrow> a \<le> b \<and> b \<le> length xs \<and> ys = take (b - a) (drop a xs)"
  by (auto simp: slice_sub_def)

lemma slice_index_eq_Inr [simp]:
  "slice_index xs i = Inr y \<longleftrightarrow> i < length xs \<and> y = xs ! i"
  by (auto simp: slice_index_def)

lemma position_SomeD: "position p xs = Some i \<Longrightarrow> i < length xs \<and> p (xs ! i) \<and> (\<forall>j < i. \<not> p (xs ! j))"
proof (induction xs arbitrary: i)
  case Nil
  then show ?case by simp
next
  case (Cons x xs)
  show ?case
  proof (cases "p x")
    case True
    with Cons.prems show ?thesis by simp
  next
    case False
    with Cons.prems obtain j where "position p xs = Some j" "i = Suc j" by auto
    with Cons.IH [of j] False show ?thesis by (auto simp: nth_Cons split: nat.splits)
  qed
qed

lemma position_append:
  "\<forall>x \<in> set xs. \<not> p x \<Longrightarrow> p y \<Longrightarrow> position p (xs @ y # ys) = Some (length xs)"
  by (induction xs) auto

lemma position_take:
  "position p xs = Some i \<Longrightarrow> i < n \<Longrightarrow> position p (take n xs) = Some i"
proof (induction xs arbitrary: i n)
  case Nil
  then show ?case by simp
next
  case (Cons x xs)
  then show ?case by (cases n) (auto split: if_splits)
qed

lemma position_takeD: "position p (take n xs) = Some i \<Longrightarrow> position p xs = Some i"
proof (induction xs arbitrary: i n)
  case Nil
  then show ?case by simp
next
  case (Cons x xs)
  then show ?case by (cases n) (auto split: if_splits)
qed

text \<open>
  A reader at \<open>offset\<close> sees the suffix \<open>drop offset xs\<close>; what it returns when that suffix starts with
  a known part.
\<close>

lemma drop_next: "drop offset bs = a @ b \<Longrightarrow> drop (offset + length a) bs = b"
  by (metis add.commute append_eq_conv_conj drop_drop)

lemma drop_length: "drop offset bs = a @ b \<Longrightarrow> offset \<le> length bs \<Longrightarrow> length bs = offset + length a + length b"
  by (metis append_take_drop_id length_append length_take min.absorb2 add.assoc)

lemma slice_range_reads:
  "drop offset bs = a @ b \<Longrightarrow> offset \<le> length bs \<Longrightarrow> slice_range bs offset (offset + length a) = Some a"
  by (auto dest: drop_length)

lemma slice_index_reads:
  "drop offset bs = x # b \<Longrightarrow> offset \<le> length bs \<Longrightarrow> slice_index bs offset = Ok x"
  by (cases "offset < length bs") (auto simp: slice_index_def Cons_nth_drop_Suc [symmetric])

lemma slice_get_reads:
  "drop offset bs = x # b \<Longrightarrow> offset \<le> length bs \<Longrightarrow> slice_get bs offset = Some x"
  by (cases "offset < length bs") (auto simp: slice_get_def Cons_nth_drop_Suc [symmetric])

subsection \<open>Little-endian integers\<close>

fun le_nat :: "bytes \<Rightarrow> nat" where
  "le_nat [] = 0"
| "le_nat (b # bs) = unat b + 256 * le_nat bs"

definition from_le_bytes :: "bytes \<Rightarrow> 'w::len word" where
  "from_le_bytes bs = word_of_nat (le_nat bs)"

text \<open>\<open>x.to_le_bytes()\<close> for a value of \<open>n\<close> bytes.\<close>

fun le_bytes :: "nat \<Rightarrow> nat \<Rightarrow> bytes" where
  "le_bytes 0 x = []"
| "le_bytes (Suc n) x = word_of_nat (x mod 256) # le_bytes n (x div 256)"

definition to_le_bytes :: "'w::len word \<Rightarrow> bytes" where
  "to_le_bytes w = le_bytes (LENGTH('w) div 8) (unat w)"

lemma length_le_bytes [simp]: "length (le_bytes n x) = n"
  by (induction n arbitrary: x) auto

lemma le_nat_le_bytes: "x < 256 ^ n \<Longrightarrow> le_nat (le_bytes n x) = x"
proof (induction n arbitrary: x)
  case 0
  then show ?case by simp
next
  case (Suc n)
  then have "x div 256 < 256 ^ n"
    by (simp add: less_mult_imp_div_less mult.commute)
  then have "le_nat (le_bytes n (x div 256)) = x div 256" by (rule Suc.IH)
  then show ?case by (simp add: unat_of_nat)
qed

lemma le_nat_bound: "le_nat bs < 256 ^ length bs"
proof (induction bs)
  case Nil
  then show ?case by simp
next
  case (Cons b bs)
  have "unat b < 256" using unsigned_less [of b, where ?'a = nat] by simp
  with Cons show ?case by simp
qed

lemma from_le_to_le_32 [simp]: "from_le_bytes (le_bytes 4 (unat (w :: 32 word))) = w"
  using unsigned_less [of w, where ?'a = nat] by (simp add: from_le_bytes_def le_nat_le_bytes)

lemma from_le_to_le_64 [simp]: "from_le_bytes (le_bytes 8 (unat (w :: 64 word))) = w"
  using unsigned_less [of w, where ?'a = nat] by (simp add: from_le_bytes_def le_nat_le_bytes)

lemma to_le_bytes_32: "to_le_bytes (w :: 32 word) = le_bytes 4 (unat w)"
  by (simp add: to_le_bytes_def)

lemma to_le_bytes_64: "to_le_bytes (w :: 64 word) = le_bytes 8 (unat w)"
  by (simp add: to_le_bytes_def)

lemma length_to_le_bytes [simp]:
  "length (to_le_bytes (w :: 'w::len word)) = LENGTH('w) div 8"
  by (simp add: to_le_bytes_def)

subsection \<open>Hash maps\<close>

text \<open>
  \<open>HashMap\<close> as an association list with distinct keys. The list order stands for the iteration
  order, which Rust leaves unspecified; no lemma below depends on it.
\<close>

type_synonym ('k, 'v) hashmap = "('k \<times> 'v) list"

definition hm_wf :: "('k, 'v) hashmap \<Rightarrow> bool" where
  "hm_wf m \<longleftrightarrow> distinct (map fst m)"

definition hm_get :: "('k, 'v) hashmap \<Rightarrow> 'k \<Rightarrow> 'v option" where
  "hm_get m k = map_of m k"

definition hm_insert :: "'k \<Rightarrow> 'v \<Rightarrow> ('k, 'v) hashmap \<Rightarrow> ('k, 'v) hashmap" where
  "hm_insert k v m = AList.update k v m"

definition hm_remove :: "'k \<Rightarrow> ('k, 'v) hashmap \<Rightarrow> ('k, 'v) hashmap" where
  "hm_remove k m = AList.delete k m"

definition hm_retain :: "('k \<Rightarrow> 'v \<Rightarrow> bool) \<Rightarrow> ('k, 'v) hashmap \<Rightarrow> ('k, 'v) hashmap" where
  "hm_retain p m = filter (\<lambda>(k, v). p k v) m"

text \<open>\<open>m.entry(k).or_insert(d)\<close> read: the present value or the default.\<close>

definition hm_get_or :: "'v \<Rightarrow> ('k, 'v) hashmap \<Rightarrow> 'k \<Rightarrow> 'v" where
  "hm_get_or d m k = (case hm_get m k of None \<Rightarrow> d | Some v \<Rightarrow> v)"

lemma hm_wf_empty [simp]: "hm_wf []"
  by (simp add: hm_wf_def)

lemma hm_get_empty [simp]: "hm_get [] k = None"
  by (simp add: hm_get_def)

lemma hm_wf_insert [simp, intro]: "hm_wf m \<Longrightarrow> hm_wf (hm_insert k v m)"
  by (simp add: hm_wf_def hm_insert_def distinct_update)

lemma hm_wf_remove [simp, intro]: "hm_wf m \<Longrightarrow> hm_wf (hm_remove k m)"
  by (simp add: hm_wf_def hm_remove_def distinct_delete)

lemma hm_wf_retain [simp, intro]: "hm_wf m \<Longrightarrow> hm_wf (hm_retain p m)"
  by (simp add: hm_wf_def hm_retain_def distinct_map_filter)

lemma hm_get_insert: "hm_get (hm_insert k v m) k' = (if k' = k then Some v else hm_get m k')"
  by (simp add: hm_get_def hm_insert_def update_conv')

lemma hm_get_remove: "hm_get (hm_remove k m) k' = (if k' = k then None else hm_get m k')"
  by (simp add: hm_get_def hm_remove_def delete_conv')

lemma set_hm_insert: "x \<in> set (hm_insert k v m) \<Longrightarrow> x = (k, v) \<or> x \<in> set m"
  by (induction m) (auto simp: hm_insert_def split: if_splits)

lemma set_hm_remove: "set (hm_remove k m) \<subseteq> set m"
  by (auto simp: hm_remove_def AList.delete_eq)

lemma set_hm_retain: "set (hm_retain p m) = {(k, v) \<in> set m. p k v}"
  by (auto simp: hm_retain_def)

lemma hm_get_SomeD: "hm_get m k = Some v \<Longrightarrow> (k, v) \<in> set m"
  by (simp add: hm_get_def map_of_SomeD)

lemma hm_get_in_set: "hm_wf m \<Longrightarrow> (k, v) \<in> set m \<Longrightarrow> hm_get m k = Some v"
  by (simp add: hm_get_def hm_wf_def)

lemma length_hm_insert: "length (hm_insert k v m) \<le> Suc (length m)"
  by (induction m) (auto simp: hm_insert_def)

lemma length_hm_remove: "length (hm_remove k m) \<le> length m"
  by (simp add: hm_remove_def length_delete_le)

lemma length_hm_remove_present:
  "hm_get m k \<noteq> None \<Longrightarrow> length (hm_remove k m) < length m"
proof (induction m)
  case Nil
  then show ?case by simp
next
  case (Cons a m)
  have "length (AList.delete k m) \<le> length m" by (rule length_delete_le)
  with Cons show ?case
    by (cases a) (auto simp: hm_get_def hm_remove_def)
qed

lemma length_hm_retain: "length (hm_retain p m) \<le> length m"
  by (simp add: hm_retain_def)

lemma hm_get_retain:
  "hm_wf m \<Longrightarrow> hm_get (hm_retain p m) k = (case hm_get m k of None \<Rightarrow> None | Some v \<Rightarrow> if p k v then Some v else None)"
proof (induction m)
  case Nil
  then show ?case by (simp add: hm_retain_def)
next
  case (Cons a m)
  then have IH: "hm_get (hm_retain p m) k = (case hm_get m k of None \<Rightarrow> None | Some v \<Rightarrow> if p k v then Some v else None)"
    by (simp add: hm_wf_def)
  have "map_of m (fst a) = None"
    using Cons.prems by (simp add: hm_wf_def map_of_eq_None_iff)
  with IH show ?case
    by (cases a) (auto simp: hm_retain_def hm_get_def split: option.splits)
qed

end
