(* ===== verification/Rust_Str.thy ===== *)
theory Rust_Str
  imports Prelude
begin

text \<open>
  Rust strings. A \<open>String\<close> or \<open>&str\<close> is its UTF-8 byte sequence, here an HOL \<open>string\<close> (an HOL
  \<open>char\<close> is one byte), so \<open>len()\<close> is \<^const>\<open>length\<close> and byte offsets are list positions. The
  functions below are those of the standard library that the sources call.
\<close>

subsection \<open>Bytes and UTF-8\<close>

definition byte_char :: "u8 \<Rightarrow> char" where
  "byte_char b = char_of (unat b)"

definition char_byte :: "char \<Rightarrow> u8" where
  "char_byte c = word_of_nat (of_char c)"

definition as_bytes :: "string \<Rightarrow> bytes" where
  "as_bytes s = map char_byte s"

definition utf8_cont :: "u8 \<Rightarrow> bool" where
  "utf8_cont b \<longleftrightarrow> 0x80 \<le> b \<and> b \<le> 0xBF"

text \<open>Well-formed UTF-8: the byte sequences \<open>std::str::from_utf8\<close> accepts.\<close>

fun utf8_valid :: "bytes \<Rightarrow> bool" where
  "utf8_valid [] = True"
| "utf8_valid (a # r) =
     (if a < 0x80 then utf8_valid r
      else if a < 0xC2 then False
      else (case r of
          [] \<Rightarrow> False
        | b # r1 \<Rightarrow>
            if a \<le> 0xDF then utf8_cont b \<and> utf8_valid r1
            else (case r1 of
                [] \<Rightarrow> False
              | c # r2 \<Rightarrow>
                  if a \<le> 0xEF then
                    (if a = 0xE0 then 0xA0 \<le> b \<and> b \<le> 0xBF
                     else if a = 0xED then 0x80 \<le> b \<and> b \<le> 0x9F
                     else utf8_cont b) \<and> utf8_cont c \<and> utf8_valid r2
                  else if a \<le> 0xF4 then (case r2 of
                      [] \<Rightarrow> False
                    | d # r3 \<Rightarrow>
                        (if a = 0xF0 then 0x90 \<le> b \<and> b \<le> 0xBF
                         else if a = 0xF4 then 0x80 \<le> b \<and> b \<le> 0x8F
                         else utf8_cont b) \<and> utf8_cont c \<and> utf8_cont d \<and> utf8_valid r3)
                  else False)))"

declare utf8_valid.simps(2) [simp del]

definition from_utf8 :: "bytes \<Rightarrow> string option" where
  "from_utf8 bs = (if utf8_valid bs then Some (map byte_char bs) else None)"

lemma byte_char_inverse [simp]: "byte_char (char_byte c) = c"
  by (simp add: byte_char_def char_byte_def unat_of_nat)

lemma char_byte_inverse [simp]: "char_byte (byte_char b) = b"
proof -
  have "unat b < 256" using unsigned_less [of b, where ?'a = nat] by simp
  then have "(of_char (char_of (unat b)) :: nat) = unat b" by (simp add: of_char_of)
  then show ?thesis by (simp add: byte_char_def char_byte_def)
qed

lemma from_utf8_as_bytes: "utf8_valid (as_bytes s) \<Longrightarrow> from_utf8 (as_bytes s) = Some s"
  by (simp add: from_utf8_def as_bytes_def comp_def)

lemma from_utf8_SomeD: "from_utf8 bs = Some s \<Longrightarrow> bs = as_bytes s \<and> utf8_valid bs"
  by (auto simp: from_utf8_def as_bytes_def comp_def split: if_splits)

lemma length_as_bytes [simp]: "length (as_bytes s) = length s"
  by (simp add: as_bytes_def)

lemma as_bytes_append [simp]: "as_bytes (s @ t) = as_bytes s @ as_bytes t"
  by (simp add: as_bytes_def)

lemma as_bytes_eq_iff [simp]: "as_bytes s = as_bytes t \<longleftrightarrow> s = t"
  by (metis as_bytes_def byte_char_inverse inj_onI inj_map_eq_map)

lemma utf8_valid_ascii: "\<forall>b \<in> set bs. b < 0x80 \<Longrightarrow> utf8_valid bs"
  by (induction bs) (auto simp: utf8_valid.simps)

subsection \<open>Character classes and case\<close>

definition in_range :: "char \<Rightarrow> nat \<Rightarrow> nat \<Rightarrow> bool" where
  "in_range c lo hi \<longleftrightarrow> lo \<le> (of_char c :: nat) \<and> (of_char c :: nat) \<le> hi"

definition is_ascii_digit :: "char \<Rightarrow> bool" where
  "is_ascii_digit c \<longleftrightarrow> in_range c 48 57"

definition is_ascii_hexdigit :: "char \<Rightarrow> bool" where
  "is_ascii_hexdigit c \<longleftrightarrow> in_range c 48 57 \<or> in_range c 65 70 \<or> in_range c 97 102"

definition is_ascii_alphanumeric :: "char \<Rightarrow> bool" where
  "is_ascii_alphanumeric c \<longleftrightarrow> in_range c 48 57 \<or> in_range c 65 90 \<or> in_range c 97 122"

definition char_lower :: "char \<Rightarrow> char" where
  "char_lower c = (if in_range c 65 90 then char_of ((of_char c :: nat) + 32) else c)"

definition to_ascii_lowercase :: "string \<Rightarrow> string" where
  "to_ascii_lowercase s = map char_lower s"

definition eq_ignore_ascii_case :: "string \<Rightarrow> string \<Rightarrow> bool" where
  "eq_ignore_ascii_case s t \<longleftrightarrow> to_ascii_lowercase s = to_ascii_lowercase t"

text \<open>
  \<open>s.chars().any(char::is_control)\<close>: the code points U+0000..U+001F and U+007F..U+009F, which in
  UTF-8 are one byte, or the byte C2 followed by 80..9F.
\<close>

fun has_control :: "string \<Rightarrow> bool" where
  "has_control [] = False"
| "has_control (c # s) =
     (in_range c 0 31 \<or> (of_char c :: nat) = 127 \<or>
      ((of_char c :: nat) = 194 \<and> (case s of [] \<Rightarrow> False | d # _ \<Rightarrow> in_range d 128 159)) \<or>
      has_control s)"

lemma length_to_ascii_lowercase [simp]: "length (to_ascii_lowercase s) = length s"
  by (simp add: to_ascii_lowercase_def)

lemma to_ascii_lowercase_append [simp]:
  "to_ascii_lowercase (s @ t) = to_ascii_lowercase s @ to_ascii_lowercase t"
  by (simp add: to_ascii_lowercase_def)

lemma char_lower_idem [simp]: "char_lower (char_lower c) = char_lower c"
proof (cases "in_range c 65 90")
  case True
  then have "(of_char c :: nat) + 32 < 256" by (simp add: in_range_def)
  then have "(of_char (char_of ((of_char c :: nat) + 32)) :: nat) = of_char c + 32"
    by (simp add: of_char_of)
  with True show ?thesis by (simp add: char_lower_def in_range_def)
qed (simp add: char_lower_def)

lemma to_ascii_lowercase_idem [simp]:
  "to_ascii_lowercase (to_ascii_lowercase s) = to_ascii_lowercase s"
  by (simp add: to_ascii_lowercase_def comp_def)

subsection \<open>Trimming\<close>

text \<open>
  \<open>str::trim\<close> removes the code points with the Unicode property \<open>White_Space\<close>: U+0009..U+000D,
  U+0020, U+0085, U+00A0, U+1680, U+2000..U+200A, U+2028, U+2029, U+202F, U+205F and U+3000.
\<close>

definition ws1 :: "char \<Rightarrow> bool" where
  "ws1 a \<longleftrightarrow> in_range a 9 13 \<or> (of_char a :: nat) = 32"

definition ws2 :: "char \<Rightarrow> char \<Rightarrow> bool" where
  "ws2 a b \<longleftrightarrow> (of_char a :: nat) = 0xC2 \<and> (of_char b :: nat) \<in> {0x85, 0xA0}"

definition ws3 :: "char \<Rightarrow> char \<Rightarrow> char \<Rightarrow> bool" where
  "ws3 a b c \<longleftrightarrow>
     ((of_char a :: nat) = 0xE1 \<and> (of_char b :: nat) = 0x9A \<and> (of_char c :: nat) = 0x80) \<or>
     ((of_char a :: nat) = 0xE2 \<and> (of_char b :: nat) = 0x80 \<and>
        (in_range c 0x80 0x8A \<or> (of_char c :: nat) \<in> {0xA8, 0xA9, 0xAF})) \<or>
     ((of_char a :: nat) = 0xE2 \<and> (of_char b :: nat) = 0x81 \<and> (of_char c :: nat) = 0x9F) \<or>
     ((of_char a :: nat) = 0xE3 \<and> (of_char b :: nat) = 0x80 \<and> (of_char c :: nat) = 0x80)"

definition ws_len :: "string \<Rightarrow> nat" where
  "ws_len s = (case s of
      [] \<Rightarrow> 0
    | a # s1 \<Rightarrow> if ws1 a then 1 else (case s1 of
          [] \<Rightarrow> 0
        | b # s2 \<Rightarrow> if ws2 a b then 2 else (case s2 of
              [] \<Rightarrow> 0
            | c # _ \<Rightarrow> if ws3 a b c then 3 else 0)))"

text \<open>The same from the end, on the reversed string.\<close>

definition ws_len_rev :: "string \<Rightarrow> nat" where
  "ws_len_rev s = (case s of
      [] \<Rightarrow> 0
    | c # s1 \<Rightarrow> if ws1 c then 1 else (case s1 of
          [] \<Rightarrow> 0
        | b # s2 \<Rightarrow> if ws2 b c then 2 else (case s2 of
              [] \<Rightarrow> 0
            | a # _ \<Rightarrow> if ws3 a b c then 3 else 0)))"

function drop_while_len :: "(string \<Rightarrow> nat) \<Rightarrow> string \<Rightarrow> string" where
  "drop_while_len f s = (if f s = 0 \<or> s = [] then s else drop_while_len f (drop (f s) s))"
  by pat_completeness auto
termination
  by (relation "measure (\<lambda>(f, s). length s)") auto

declare drop_while_len.simps [simp del]

definition trim_start :: "string \<Rightarrow> string" where
  "trim_start s = drop_while_len ws_len s"

definition trim_end :: "string \<Rightarrow> string" where
  "trim_end s = rev (drop_while_len ws_len_rev (rev s))"

definition trim :: "string \<Rightarrow> string" where
  "trim s = trim_end (trim_start s)"

definition blank :: "string \<Rightarrow> bool" where
  "blank s \<longleftrightarrow> trim s = []"

lemma alnum_not_ws:
  assumes "is_ascii_alphanumeric c"
  shows "\<not> ws1 c" "\<not> ws2 c d" "\<not> ws2 d c" "\<not> ws3 c d e" "\<not> ws3 d c e" "\<not> ws3 d e c"
  using assms by (auto simp: is_ascii_alphanumeric_def in_range_def ws1_def ws2_def ws3_def)

lemma ws_len_alnum:
  "is_ascii_alphanumeric c \<Longrightarrow> c \<notin> set (take (ws_len s) s)"
  "is_ascii_alphanumeric c \<Longrightarrow> c \<notin> set (take (ws_len_rev s) s)"
  by (auto simp: ws_len_def ws_len_rev_def alnum_not_ws numeral_3_eq_3 split: list.splits if_splits)

lemma drop_while_len_keeps:
  "(\<And>t. c \<notin> set (take (f t) t)) \<Longrightarrow> c \<in> set s \<Longrightarrow> c \<in> set (drop_while_len f s)"
proof (induction f s rule: drop_while_len.induct)
  case (1 f s)
  have "set s = set (take (f s) s) \<union> set (drop (f s) s)"
    by (metis append_take_drop_id set_append)
  with "1.prems" have "c \<in> set (drop (f s) s)" by auto
  with "1.IH" "1.prems" show ?case
    by (subst drop_while_len.simps) auto
qed

text \<open>Trimming keeps every ASCII letter and digit, so a string that has one is not blank.\<close>

lemma not_blank_alnum:
  assumes "is_ascii_alphanumeric c" and "c \<in> set s"
  shows "\<not> blank s"
proof -
  have "c \<in> set (trim_start s)"
    unfolding trim_start_def using assms by (auto intro: drop_while_len_keeps simp: ws_len_alnum)
  then have "c \<in> set (drop_while_len ws_len_rev (rev (trim_start s)))"
    using assms(1) by (auto intro: drop_while_len_keeps simp: ws_len_alnum)
  then show ?thesis by (auto simp: blank_def trim_def trim_end_def)
qed

lemma blank_Nil [simp]: "blank []"
  by (simp add: blank_def trim_def trim_end_def trim_start_def drop_while_len.simps)

subsection \<open>Prefixes, splitting and replacement\<close>

fun strip_prefix :: "string \<Rightarrow> string \<Rightarrow> string option" where
  "strip_prefix [] s = Some s"
| "strip_prefix (p # ps) [] = None"
| "strip_prefix (p # ps) (c # s) = (if p = c then strip_prefix ps s else None)"

definition starts_with :: "string \<Rightarrow> string \<Rightarrow> bool" where
  "starts_with p s \<longleftrightarrow> strip_prefix p s \<noteq> None"

definition strip_suffix :: "string \<Rightarrow> string \<Rightarrow> string option" where
  "strip_suffix p s = map_option rev (strip_prefix (rev p) (rev s))"

fun split_once :: "char \<Rightarrow> string \<Rightarrow> (string \<times> string) option" where
  "split_once d [] = None"
| "split_once d (c # s) =
     (if c = d then Some ([], s)
      else (case split_once d s of None \<Rightarrow> None | Some (a, b) \<Rightarrow> Some (c # a, b)))"

fun split_on :: "char \<Rightarrow> string \<Rightarrow> string list" where
  "split_on d [] = [[]]"
| "split_on d (c # s) =
     (if c = d then [] # split_on d s
      else (case split_on d s of [] \<Rightarrow> [[c]] | a # as \<Rightarrow> (c # a) # as))"

text \<open>\<open>s.splitn(n, d)\<close>.\<close>

fun splitn :: "nat \<Rightarrow> char \<Rightarrow> string \<Rightarrow> string list" where
  "splitn 0 d s = []"
| "splitn (Suc n) d s =
     (if n = 0 then [s]
      else (case split_once d s of None \<Rightarrow> [s] | Some (a, b) \<Rightarrow> a # splitn n d b))"

text \<open>\<open>s.replace(pat, to)\<close> for a non-empty pattern: leftmost matches, without overlap.\<close>

function str_replace :: "string \<Rightarrow> string \<Rightarrow> string \<Rightarrow> string" where
  "str_replace pat to [] = []"
| "str_replace pat to (c # s) =
     (case strip_prefix pat (c # s) of
        Some rest \<Rightarrow> if length rest < length (c # s) then to @ str_replace pat to rest else c # s
      | None \<Rightarrow> c # str_replace pat to s)"
  by pat_completeness auto
termination
  by (relation "measure (\<lambda>(pat, to, s). length s)") auto

lemma strip_prefix_eq_Some [simp]: "strip_prefix p s = Some t \<longleftrightarrow> s = p @ t"
  by (induction p s rule: strip_prefix.induct) auto

lemma strip_prefix_append [simp]: "strip_prefix p (p @ t) = Some t"
  by simp

lemma starts_with_iff: "starts_with p s \<longleftrightarrow> (\<exists>t. s = p @ t)"
proof -
  have "strip_prefix p s \<noteq> None \<longleftrightarrow> (\<exists>t. strip_prefix p s = Some t)" by auto
  then show ?thesis by (simp add: starts_with_def)
qed

lemma strip_suffix_eq_Some [simp]: "strip_suffix p s = Some t \<longleftrightarrow> s = t @ p"
proof -
  have "strip_suffix p s = Some t \<longleftrightarrow> rev s = rev p @ rev t"
    by (auto simp: strip_suffix_def)
  also have "\<dots> \<longleftrightarrow> s = t @ p"
    by (metis rev_append rev_rev_ident)
  finally show ?thesis .
qed

lemma strip_suffix_append [simp]: "strip_suffix p (t @ p) = Some t"
  by simp

lemma split_once_SomeD: "split_once d s = Some (a, b) \<Longrightarrow> s = a @ d # b \<and> d \<notin> set a"
  by (induction s arbitrary: a b) (auto split: if_splits option.splits)

lemma split_once_append: "d \<notin> set a \<Longrightarrow> split_once d (a @ d # b) = Some (a, b)"
  by (induction a) auto

lemma split_on_not_Nil [simp]: "split_on d s \<noteq> []"
  by (induction s) (auto split: list.splits)

lemma split_on_append: "d \<notin> set a \<Longrightarrow> split_on d (a @ d # b) = a # split_on d b"
  by (induction a) auto

lemma split_on_no_sep: "d \<notin> set a \<Longrightarrow> split_on d a = [a]"
  by (induction a) auto

lemma split_on_pieces: "p \<in> set (split_on d s) \<Longrightarrow> d \<notin> set p"
  by (induction s arbitrary: p) (auto split: if_splits list.splits)

subsection \<open>Numbers as text\<close>

text \<open>Decimal and lower-case hexadecimal digits, and zero padding to a minimal width.\<close>

definition digit_char :: "nat \<Rightarrow> char" where
  "digit_char d = char_of (if d < 10 then 48 + d else 87 + d)"

fun digits_of :: "nat \<Rightarrow> nat \<Rightarrow> string" where
  "digits_of base n =
     (if base < 2 \<or> n < base then [digit_char n]
      else digits_of base (n div base) @ [digit_char (n mod base)])"

declare digits_of.simps [simp del]

definition nat_string :: "nat \<Rightarrow> string" where
  "nat_string n = digits_of 10 n"

definition int_string :: "int \<Rightarrow> string" where
  "int_string i = (if i < 0 then ''-'' @ nat_string (nat (- i)) else nat_string (nat i))"

definition zero_pad :: "nat \<Rightarrow> string \<Rightarrow> string" where
  "zero_pad w s = replicate (w - length s) (CHR ''0'') @ s"

lemma digits_of_10: "c \<in> set (digits_of 10 n) \<Longrightarrow> is_ascii_digit c"
proof (induction "10 :: nat" n rule: digits_of.induct)
  case (1 n)
  have "is_ascii_digit (digit_char d)" if "d < 10" for d
    using that by (simp add: is_ascii_digit_def in_range_def digit_char_def of_char_of)
  with 1 show ?case
    by (subst (asm) (2) digits_of.simps) (auto split: if_splits)
qed

end
