(* ===== verification/Rust_Text.thy ===== *)
theory Rust_Text
  imports Rust_Str
begin

text \<open>
  Text processing of the standard library that the \<open>/proc\<close> readers use: lines, words, integer
  parsing, suffix removal, lossy UTF-8 decoding and the textual form of IP addresses.
\<close>

subsection \<open>Lines and words\<close>

definition strip_cr :: "string \<Rightarrow> string" where
  "strip_cr s = (case strip_suffix [CHR 0x0D] s of None \<Rightarrow> s | Some t \<Rightarrow> t)"

function lines :: "string \<Rightarrow> string list" where
  "lines s =
     (if s = [] then []
      else (case split_once (CHR 0x0A) s of
              None \<Rightarrow> [s]
            | Some (line, rest) \<Rightarrow> strip_cr line # lines rest))"
  by pat_completeness auto
termination
  by (relation "measure length") (auto dest!: split_once_SomeD)

declare lines.simps [simp del]

function split_whitespace_loop :: "string \<Rightarrow> string \<Rightarrow> string list" where
  "split_whitespace_loop s word =
     (case s of
        [] \<Rightarrow> if word = [] then [] else [rev word]
      | c # rest \<Rightarrow>
          if ws_len s = 0 then split_whitespace_loop rest (c # word)
          else (if word = [] then [] else [rev word]) @ split_whitespace_loop (drop (ws_len s) s) [])"
  by pat_completeness auto
termination
  by (relation "measure (\<lambda>(s, _). length s)") auto

declare split_whitespace_loop.simps [simp del]

definition split_whitespace :: "string \<Rightarrow> string list" where
  "split_whitespace s = split_whitespace_loop s []"

text \<open>\<open>s.trim_end_matches(suffix)\<close> for a non-empty suffix: every repetition is removed.\<close>

function trim_end_matches :: "string \<Rightarrow> string \<Rightarrow> string" where
  "trim_end_matches suffix s =
     (case strip_suffix suffix s of
        None \<Rightarrow> s
      | Some t \<Rightarrow> if suffix = [] then s else trim_end_matches suffix t)"
  by pat_completeness auto
termination
  by (relation "measure (\<lambda>(_, s). length s)") auto

declare trim_end_matches.simps [simp del]

subsection \<open>Integers\<close>

definition digit_value :: "nat \<Rightarrow> char \<Rightarrow> nat option" where
  "digit_value base c =
     (let n = (of_char c :: nat);
          d = (if 48 \<le> n \<and> n \<le> 57 then n - 48
               else if 97 \<le> n \<and> n \<le> 122 then n - 87
               else if 65 \<le> n \<and> n \<le> 90 then n - 55 else base)
      in if d < base then Some d else None)"

fun parse_digits :: "nat \<Rightarrow> nat \<Rightarrow> nat \<Rightarrow> string \<Rightarrow> nat option" where
  "parse_digits base limit acc [] = Some acc"
| "parse_digits base limit acc (c # s) =
     (case digit_value base c of
        None \<Rightarrow> None
      | Some d \<Rightarrow> if base * acc + d > limit then None else parse_digits base limit (base * acc + d) s)"

text \<open>\<open>from_str_radix\<close> and \<open>parse\<close> for an unsigned type with the given maximum.\<close>

definition strip_plus :: "string \<Rightarrow> string" where
  "strip_plus s = (case s of c # r \<Rightarrow> if c = CHR ''+'' \<and> r \<noteq> [] then r else s | [] \<Rightarrow> s)"

definition from_str_radix :: "nat \<Rightarrow> nat \<Rightarrow> string \<Rightarrow> nat option" where
  "from_str_radix base limit s =
     (if strip_plus s = [] then None else parse_digits base limit 0 (strip_plus s))"

lemma digit_value_char: "d < base \<Longrightarrow> base \<le> 16 \<Longrightarrow> digit_value base (digit_char d) = Some d"
  by (auto simp: digit_value_def digit_char_def of_char_of Let_def)

lemma parse_digits_append:
  "parse_digits base limit acc (s @ t) =
     (case parse_digits base limit acc s of None \<Rightarrow> None | Some n \<Rightarrow> parse_digits base limit n t)"
  by (induction s arbitrary: acc) (auto split: option.splits)

lemma parse_digits_of:
  "2 \<le> base \<Longrightarrow> base \<le> 16 \<Longrightarrow> n \<le> limit \<Longrightarrow> parse_digits base limit 0 (digits_of base n) = Some n"
proof (induction base n rule: digits_of.induct)
  case (1 base n)
  show ?case
  proof (cases "n < base")
    case True
    with "1.prems" show ?thesis by (subst digits_of.simps) (simp add: digit_value_char)
  next
    case False
    have div: "parse_digits base limit 0 (digits_of base (n div base)) = Some (n div base)"
      using "1.IH" "1.prems" False by (meson div_le_dividend le_trans not_less)
    have "digit_value base (digit_char (n mod base)) = Some (n mod base)"
      using "1.prems" by (intro digit_value_char) auto
    with div False "1.prems" show ?thesis
      by (subst digits_of.simps) (simp add: parse_digits_append)
  qed
qed

lemma parse_digits_zeros:
  "2 \<le> base \<Longrightarrow> base \<le> 16 \<Longrightarrow> parse_digits base limit 0 (replicate k (CHR ''0'') @ s) = parse_digits base limit 0 s"
proof (induction k)
  case (Suc k)
  have "digit_value base (CHR ''0'') = Some 0" using Suc.prems by (simp add: digit_value_def)
  with Suc show ?case by simp
qed simp

lemma digits_of_not_Nil: "digits_of base n \<noteq> []"
  by (subst digits_of.simps) simp

lemma digit_char_plus: "d < 16 \<Longrightarrow> digit_char d \<noteq> CHR ''+''"
proof
  assume "d < 16" "digit_char d = CHR ''+''"
  then have "(of_char (digit_char d) :: nat) = 43" by simp
  with \<open>d < 16\<close> show False by (simp add: digit_char_def of_char_of split: if_splits)
qed

lemma digits_of_plus: "2 \<le> base \<Longrightarrow> base \<le> 16 \<Longrightarrow> c \<in> set (digits_of base n) \<Longrightarrow> c \<noteq> CHR ''+''"
proof (induction base n rule: digits_of.induct)
  case (1 base n)
  have last: "digit_char (n mod base) \<noteq> CHR ''+''" 
  proof (rule digit_char_plus)
    have "n mod base < base" using "1.prems"(1) by simp
    with "1.prems"(2) show "n mod base < 16" by linarith
  qed
  show ?case
  proof (cases "n < base")
    case True
    with "1.prems" digit_char_plus [of n] show ?thesis by (subst (asm) digits_of.simps) auto
  next
    case False
    with "1.IH" "1.prems" last show ?thesis by (subst (asm) (2) digits_of.simps) auto
  qed
qed

text \<open>Padded digits parse back.\<close>

lemma from_str_radix_padded:
  assumes "2 \<le> base" "base \<le> 16" "n \<le> limit"
  shows "from_str_radix base limit (zero_pad width (digits_of base n)) = Some n"
proof -
  let ?s = "zero_pad width (digits_of base n)"
  have "c \<noteq> CHR ''+''" if "c \<in> set ?s" for c
    using that digits_of_plus [OF assms(1,2)] by (auto simp: zero_pad_def)
  then have "strip_plus ?s = ?s"
    by (cases ?s) (auto simp: strip_plus_def)
  moreover have "?s \<noteq> []" by (simp add: zero_pad_def digits_of_not_Nil)
  ultimately show ?thesis
    using assms parse_digits_zeros [of base limit "width - length (digits_of base n)" "digits_of base n"]
    by (simp add: from_str_radix_def parse_digits_of) (simp add: zero_pad_def parse_digits_of)
qed

subsection \<open>Lossy UTF-8\<close>

text \<open>
  The first step of \<open>String::from_utf8_lossy\<close>: whether a scalar value starts the bytes, and how many
  bytes it, or the ill-formed part to be replaced, has.
\<close>

definition utf8_second :: "u8 \<Rightarrow> u8 \<Rightarrow> bool" where
  "utf8_second a b \<longleftrightarrow>
     (if a = 0xE0 then 0xA0 \<le> b \<and> b \<le> 0xBF else if a = 0xED then 0x80 \<le> b \<and> b \<le> 0x9F
      else if a = 0xF0 then 0x90 \<le> b \<and> b \<le> 0xBF else if a = 0xF4 then 0x80 \<le> b \<and> b \<le> 0x8F
      else utf8_cont b)"

definition utf8_width :: "u8 \<Rightarrow> nat" where
  "utf8_width a =
     (if a < 0x80 then 1 else if a < 0xC2 then 0 else if a \<le> 0xDF then 2
      else if a \<le> 0xEF then 3 else if a \<le> 0xF4 then 4 else 0)"

definition utf8_step :: "bytes \<Rightarrow> bool \<times> nat" where
  "utf8_step bs =
     (case bs of
        [] \<Rightarrow> (False, 1)
      | a # r \<Rightarrow>
          let width = utf8_width a;
              good = (if r \<noteq> [] \<and> utf8_second a (hd r)
                      then Suc (Suc (length (takeWhile utf8_cont (take (width - 2) (tl r))))) else 1)
          in if width = 0 then (False, 1)
             else if width = 1 then (True, 1)
             else (good = width, min good width))"

function from_utf8_lossy :: "bytes \<Rightarrow> string" where
  "from_utf8_lossy bs =
     (if bs = [] then []
      else
        let k = max 1 (snd (utf8_step bs)) in
        (if fst (utf8_step bs) then map byte_char (take k bs)
         else [CHR 0xEF, CHR 0xBF, CHR 0xBD]) @ from_utf8_lossy (drop k bs))"
  by pat_completeness auto
termination
  by (relation "measure length") auto

declare from_utf8_lossy.simps [simp del]

lemma from_utf8_lossy_ascii: "list_all (\<lambda>b. b < 0x80) bs \<Longrightarrow> from_utf8_lossy bs = map byte_char bs"
proof (induction bs)
  case Nil
  then show ?case by (simp add: from_utf8_lossy.simps)
next
  case (Cons a bs)
  then show ?case
    by (simp add: from_utf8_lossy.simps [of "a # bs"] utf8_step_def utf8_width_def Let_def)
qed

subsection \<open>IP addresses\<close>

text \<open>\<open>Ipv4Addr\<close> and \<open>Ipv6Addr\<close> as text; the longest run of at least two zero groups is elided.\<close>

definition ipv4_string :: "bytes \<Rightarrow> string" where
  "ipv4_string bs =
     (case map (nat_string \<circ> unat) bs of
        [a, b, c, d] \<Rightarrow> a @ ''.'' @ b @ ''.'' @ c @ ''.'' @ d
      | _ \<Rightarrow> [])"

fun colon_join :: "string list \<Rightarrow> string" where
  "colon_join [] = []"
| "colon_join [g] = g"
| "colon_join (g # h # gs) = g @ '':'' @ colon_join (h # gs)"

fun ipv6_groups :: "bytes \<Rightarrow> nat list" where
  "ipv6_groups (hi # lo # bs) = (256 * unat hi + unat lo) # ipv6_groups bs"
| "ipv6_groups _ = []"

text \<open>Start and length of the first longest run of zeros.\<close>

fun zero_runs :: "nat \<Rightarrow> nat list \<Rightarrow> nat \<Rightarrow> nat \<Rightarrow> nat \<times> nat \<Rightarrow> nat \<times> nat" where
  "zero_runs i [] start len best = best"
| "zero_runs i (g # gs) start len best =
     (if g = 0 then
        let start = (if len = 0 then i else start); len = len + 1 in
        zero_runs (Suc i) gs start len (if len > snd best then (start, len) else best)
      else zero_runs (Suc i) gs 0 0 best)"

definition ipv6_string :: "bytes \<Rightarrow> string" where
  "ipv6_string bs =
     (let groups = ipv6_groups bs in
      if take 12 bs = replicate 10 0 @ [0xff, 0xff] then ''::ffff:'' @ ipv4_string (drop 12 bs)
      else
        (case zero_runs 0 groups 0 0 (0, 0) of (start, len) \<Rightarrow>
           if len > 1 then
             colon_join (map (digits_of 16) (take start groups)) @ ''::'' @
             colon_join (map (digits_of 16) (drop (start + len) groups))
           else colon_join (map (digits_of 16) groups)))"

end
