(* ===== verification/Rust_Float.thy ===== *)
theory Rust_Float
  imports Complex_Main Prelude
begin

text \<open>
  \<open>f64\<close> as the sources use it: IEEE 754 binary64 values kept as their 64 bits, the comparisons of
  a value with integers, \<open>fract() == 0.0\<close>, and the truncating, saturating \<open>as\<close> casts. The
  comparisons are computed on integers; \<open>f64_real\<close> gives the real number a finite value denotes and
  the lemmas at the end show that the integer computations agree with it.
\<close>

type_synonym f64 = u64

definition f64_negative :: "f64 \<Rightarrow> bool" where
  "f64_negative b \<longleftrightarrow> 2 ^ 63 \<le> unat b"

definition f64_exponent :: "f64 \<Rightarrow> nat" where
  "f64_exponent b = unat b div 2 ^ 52 mod 2 ^ 11"

definition f64_fraction :: "f64 \<Rightarrow> nat" where
  "f64_fraction b = unat b mod 2 ^ 52"

definition f64_is_finite :: "f64 \<Rightarrow> bool" where
  "f64_is_finite b \<longleftrightarrow> f64_exponent b \<noteq> 2047"

definition f64_is_nan :: "f64 \<Rightarrow> bool" where
  "f64_is_nan b \<longleftrightarrow> f64_exponent b = 2047 \<and> f64_fraction b \<noteq> 0"

text \<open>A finite value is \<open>mantissa * 2 powi scale\<close>, with the sign in the mantissa.\<close>

definition f64_mantissa :: "f64 \<Rightarrow> int" where
  "f64_mantissa b =
     (let m = (if f64_exponent b = 0 then f64_fraction b else f64_fraction b + 2 ^ 52)
      in if f64_negative b then - int m else int m)"

definition f64_scale :: "f64 \<Rightarrow> int" where
  "f64_scale b = (if f64_exponent b = 0 then - 1074 else int (f64_exponent b) - 1075)"

text \<open>\<open>value != 0.0\<close>: false for both zeros only, true for a NaN.\<close>

definition f64_nonzero :: "f64 \<Rightarrow> bool" where
  "f64_nonzero b \<longleftrightarrow> unat b mod 2 ^ 63 \<noteq> 0"

text \<open>\<open>value >= k\<close> and \<open>value <= k\<close> for an integer that \<open>f64\<close> represents exactly.\<close>

definition f64_ge_int :: "f64 \<Rightarrow> int \<Rightarrow> bool" where
  "f64_ge_int b k \<longleftrightarrow>
     (if f64_is_finite b then
        (if 0 \<le> f64_scale b then k \<le> f64_mantissa b * 2 ^ nat (f64_scale b)
         else k * 2 ^ nat (- f64_scale b) \<le> f64_mantissa b)
      else \<not> f64_is_nan b \<and> \<not> f64_negative b)"

definition f64_le_int :: "f64 \<Rightarrow> int \<Rightarrow> bool" where
  "f64_le_int b k \<longleftrightarrow>
     (if f64_is_finite b then
        (if 0 \<le> f64_scale b then f64_mantissa b * 2 ^ nat (f64_scale b) \<le> k
         else f64_mantissa b \<le> k * 2 ^ nat (- f64_scale b))
      else \<not> f64_is_nan b \<and> f64_negative b)"

text \<open>\<open>value.fract() == 0.0\<close> for a finite value.\<close>

definition f64_is_integer :: "f64 \<Rightarrow> bool" where
  "f64_is_integer b \<longleftrightarrow>
     0 \<le> f64_scale b \<or> \<bar>f64_mantissa b\<bar> mod 2 ^ nat (- f64_scale b) = 0"

text \<open>The integer part of a finite value, rounded towards zero.\<close>

definition f64_trunc :: "f64 \<Rightarrow> int" where
  "f64_trunc b =
     (if 0 \<le> f64_scale b then f64_mantissa b * 2 ^ nat (f64_scale b)
      else sgn (f64_mantissa b) * (\<bar>f64_mantissa b\<bar> div 2 ^ nat (- f64_scale b)))"

text \<open>\<open>value as i32\<close> and \<open>value as u64\<close> of a finite value: truncated, then saturated.\<close>

definition f64_as_i32 :: "f64 \<Rightarrow> i32" where
  "f64_as_i32 b = word_of_int (max (- (2 ^ 31)) (min (2 ^ 31 - 1) (f64_trunc b)))"

definition f64_as_u64 :: "f64 \<Rightarrow> u64" where
  "f64_as_u64 b = word_of_int (max 0 (min (2 ^ 64 - 1) (f64_trunc b)))"

text \<open>\<open>value.to_string()\<close> of a value that is not finite.\<close>

definition f64_nonfinite_string :: "f64 \<Rightarrow> string" where
  "f64_nonfinite_string b =
     (if f64_is_nan b then ''NaN'' else if f64_negative b then ''-inf'' else ''inf'')"

subsection \<open>Agreement with the real numbers\<close>

definition f64_real :: "f64 \<Rightarrow> real" where
  "f64_real b = of_int (f64_mantissa b) * 2 powi f64_scale b"

lemma f64_real_nonneg_scale:
  "0 \<le> f64_scale b \<Longrightarrow> f64_real b = of_int (f64_mantissa b * 2 ^ nat (f64_scale b))"
  by (simp add: f64_real_def power_int_def)

lemma f64_real_neg_scale:
  "f64_scale b < 0 \<Longrightarrow> f64_real b = of_int (f64_mantissa b) / 2 ^ nat (- f64_scale b)"
  by (simp add: f64_real_def power_int_def field_simps)

lemma f64_ge_int_real:
  assumes "f64_is_finite b"
  shows "f64_ge_int b k \<longleftrightarrow> of_int k \<le> f64_real b"
proof (cases "0 \<le> f64_scale b")
  case True
  with assms show ?thesis
    by (simp only: f64_ge_int_def f64_real_nonneg_scale of_int_le_iff if_True)
next
  case False
  have "of_int k \<le> f64_real b \<longleftrightarrow> (of_int (k * 2 ^ nat (- f64_scale b)) :: real) \<le> of_int (f64_mantissa b)"
    using False by (simp add: f64_real_neg_scale pos_le_divide_eq)
  with False assms show ?thesis
    by (simp only: f64_ge_int_def of_int_le_iff if_True if_False)
qed

lemma f64_le_int_real:
  assumes "f64_is_finite b"
  shows "f64_le_int b k \<longleftrightarrow> f64_real b \<le> of_int k"
proof (cases "0 \<le> f64_scale b")
  case True
  with assms show ?thesis
    by (simp only: f64_le_int_def f64_real_nonneg_scale of_int_le_iff if_True)
next
  case False
  have "f64_real b \<le> of_int k \<longleftrightarrow> (of_int (f64_mantissa b) :: real) \<le> of_int (k * 2 ^ nat (- f64_scale b))"
    using False by (simp add: f64_real_neg_scale pos_divide_le_eq)
  with False assms show ?thesis
    by (simp only: f64_le_int_def of_int_le_iff if_True if_False)
qed

lemma f64_trunc_integer:
  assumes "f64_is_integer b"
  shows "of_int (f64_trunc b) = f64_real b"
proof (cases "0 \<le> f64_scale b")
  case True
  then show ?thesis by (simp add: f64_trunc_def f64_real_nonneg_scale)
next
  case False
  let ?d = "2 ^ nat (- f64_scale b) :: int"
  have "?d dvd \<bar>f64_mantissa b\<bar>"
    using assms False by (simp add: f64_is_integer_def dvd_eq_mod_eq_0)
  then have "sgn (f64_mantissa b) * (\<bar>f64_mantissa b\<bar> div ?d) * ?d = f64_mantissa b"
    by (simp add: mult.assoc mult_sgn_abs)
  then have "(of_int (f64_trunc b) :: real) * of_int ?d = of_int (f64_mantissa b)"
    using False by (simp only: f64_trunc_def if_False flip: of_int_mult)
  then show ?thesis
    using False by (simp add: f64_real_neg_scale eq_divide_eq)
qed

end
