(* ===== verification/Bson.thy ===== *)
theory Bson
  imports Rust_Str Rust_Float
begin

text \<open>
  The BSON reader of \<open>crates/mongo-protocol/src/lib.rs\<close>: the error type, the bounds-checked integer,
  string and binary readers, \<open>skip_value\<close>, the conversion of documents to JSON values, and the
  classification of delete statements. The lemmas show that every reader stays inside its slice,
  moves forward and cannot panic.
\<close>

subsection \<open>Errors and JSON values\<close>

datatype decode_error =
    InvalidFrameLength i32
  | FrameTooLarge
  | BufferTooLarge
  | Truncated
  | UnsupportedOpcode i32
  | UnsupportedSection u8
  | InvalidBson
  | InvalidCompressed
  | UnsupportedCompressor u8
  | Decompression string

type_synonym 'a decode = "(decode_error, 'a) result"

text \<open>
  \<open>serde_json::Value\<close>: a number is a non-negative or negative 64-bit integer or a finite double; an
  object is a map with distinct keys, whose \<open>insert\<close> replaces the value of a present key.
\<close>

datatype json_number = PosInt u64 | NegInt i64 | Float f64

datatype json_value =
    JNull
  | JBool bool
  | JNumber json_number
  | JString string
  | JArray "json_value list"
  | JObject "(string \<times> json_value) list"

definition json_i64 :: "i64 \<Rightarrow> json_value" where
  "json_i64 v = JNumber (if sint v < 0 then NegInt v else PosInt v)"

definition json_i32 :: "i32 \<Rightarrow> json_value" where
  "json_i32 v = json_i64 (scast v)"

datatype delete_scope = Single | Multi | Mixed

subsection \<open>Integers and strings\<close>

definition read_i32 :: "bytes \<Rightarrow> usize \<Rightarrow> i32 decode" where
  "read_i32 bs offset =
     rbind (ok_or (slice_range bs offset (offset + 4)) Truncated) (\<lambda>b. Ok (from_le_bytes b))"

definition read_u32 :: "bytes \<Rightarrow> usize \<Rightarrow> u32 decode" where
  "read_u32 bs offset =
     rbind (ok_or (slice_range bs offset (offset + 4)) Truncated) (\<lambda>b. Ok (from_le_bytes b))"

definition read_i64 :: "bytes \<Rightarrow> usize \<Rightarrow> i64 decode" where
  "read_i64 bs offset =
     rbind (ok_or (slice_range bs offset (offset + 8)) Truncated) (\<lambda>b. Ok (from_le_bytes b))"

definition read_u64 :: "bytes \<Rightarrow> usize \<Rightarrow> u64 decode" where
  "read_u64 bs offset =
     rbind (ok_or (slice_range bs offset (offset + 8)) Truncated) (\<lambda>b. Ok (from_le_bytes b))"

definition read_cstring :: "bytes \<Rightarrow> usize \<Rightarrow> (string \<times> usize) decode" where
  "read_cstring bs offset =
     rbind (ok_or (slice_from bs offset) InvalidBson) (\<lambda>rest.
     rbind (ok_or (position (\<lambda>b. b = 0) rest) InvalidBson) (\<lambda>relative_end.
     rbind (slice_sub bs offset (offset + relative_end)) (\<lambda>value.
     rbind (ok_or (from_utf8 value) InvalidBson) (\<lambda>s.
     Ok (s, offset + relative_end + 1)))))"

definition read_bson_string :: "bytes \<Rightarrow> usize \<Rightarrow> string decode" where
  "read_bson_string bs offset =
     rbind (read_i32 bs offset) (\<lambda>len.
     if sint len < 1 then Fail InvalidBson
     else rbind (ok_or (checked_add (offset + 4) (i32_as_usize len)) InvalidBson) (\<lambda>end'.
     if end' > length bs then Fail InvalidBson
     else rbind (slice_index bs (end' - 1)) (\<lambda>terminator.
     if terminator \<noteq> 0 then Fail InvalidBson
     else rbind (slice_sub bs (offset + 4) (end' - 1)) (\<lambda>s.
     ok_or (from_utf8 s) InvalidBson))))"

definition read_bson_binary :: "bytes \<Rightarrow> usize \<Rightarrow> bytes decode" where
  "read_bson_binary bs offset =
     rbind (read_i32 bs offset) (\<lambda>len.
     if sint len < 0 then Fail InvalidBson
     else rbind (ok_or (checked_add offset 5) InvalidBson) (\<lambda>start.
     rbind (ok_or (checked_add start (i32_as_usize len)) InvalidBson) (\<lambda>end'.
     ok_or (slice_range bs start end') InvalidBson)))"

subsection \<open>Skipping a value\<close>

definition fixed_size :: "u8 \<Rightarrow> usize option" where
  "fixed_size element_type =
     (if element_type \<in> {0x01, 0x09, 0x11, 0x12} then Some 8
      else if element_type = 0x07 then Some 12
      else if element_type = 0x08 then Some 1
      else if element_type \<in> {0x0A, 0x06, 0x7f, 0xff} then Some 0
      else if element_type = 0x10 then Some 4
      else if element_type = 0x13 then Some 16
      else None)"

text \<open>\<open>offset.checked_add(n).filter(|end| *end <= bytes.len()).ok_or(InvalidBson)\<close>.\<close>

definition end_within :: "bytes \<Rightarrow> usize \<Rightarrow> usize \<Rightarrow> usize decode" where
  "end_within bs offset n =
     (case checked_add offset n of
        None \<Rightarrow> Fail InvalidBson
      | Some end' \<Rightarrow> if end' \<le> length bs then Ok end' else Fail InvalidBson)"

definition skip_value :: "bytes \<Rightarrow> usize \<Rightarrow> u8 \<Rightarrow> usize decode" where
  "skip_value bs offset element_type =
     (case fixed_size element_type of
        Some len \<Rightarrow> end_within bs offset len
      | None \<Rightarrow>
          if element_type \<in> {0x02, 0x0d, 0x0e} then
            rbind (read_i32 bs offset) (\<lambda>len.
            if sint len < 1 then Fail InvalidBson else end_within bs offset (4 + i32_as_usize len))
          else if element_type \<in> {0x03, 0x04, 0x0f} then
            rbind (read_i32 bs offset) (\<lambda>len.
            if sint len < 5 then Fail InvalidBson else end_within bs offset (i32_as_usize len))
          else if element_type = 0x05 then
            rbind (read_i32 bs offset) (\<lambda>len.
            if sint len < 0 then Fail InvalidBson else end_within bs offset (5 + i32_as_usize len))
          else if element_type = 0x0b then
            rbind (read_cstring bs offset) (\<lambda>(_, after_pattern).
            rbind (read_cstring bs after_pattern) (\<lambda>(_, after_options).
            Ok after_options))
          else if element_type = 0x0c then
            rbind (read_i32 bs offset) (\<lambda>len.
            if sint len < 1 then Fail InvalidBson
            else end_within bs offset (4 + i32_as_usize len + 12))
          else Fail InvalidBson)"

subsection \<open>Scalar readers\<close>

definition read_f64_bits :: "bytes \<Rightarrow> usize \<Rightarrow> u64 option" where
  "read_f64_bits bs offset = map_option from_le_bytes (slice_range bs offset (offset + 8))"

definition result_ok :: "'a decode \<Rightarrow> 'a option" where
  "result_ok r = (case r of Inr x \<Rightarrow> Some x | Inl _ \<Rightarrow> None)"

definition read_boolish :: "bytes \<Rightarrow> usize \<Rightarrow> u8 \<Rightarrow> bool option" where
  "read_boolish bs offset element_type =
     (if element_type = 0x01 then map_option f64_nonzero (read_f64_bits bs offset)
      else if element_type = 0x08 then map_option (\<lambda>b. b \<noteq> 0) (slice_get bs offset)
      else if element_type = 0x10 then map_option (\<lambda>i. i \<noteq> 0) (result_ok (read_i32 bs offset))
      else if element_type = 0x12 then map_option (\<lambda>i. i \<noteq> 0) (read_f64_bits bs offset)
      else None)"

definition i32_of_i64 :: "i64 \<Rightarrow> i32 option" where
  "i32_of_i64 v =
     (if - (2 ^ 31) \<le> sint v \<and> sint v \<le> 2 ^ 31 - 1 then Some (scast v) else None)"

definition read_i32ish :: "bytes \<Rightarrow> usize \<Rightarrow> u8 \<Rightarrow> i32 option" where
  "read_i32ish bs offset element_type =
     (if element_type = 0x10 then result_ok (read_i32 bs offset)
      else if element_type = 0x12 then Option.bind (read_f64_bits bs offset) i32_of_i64
      else if element_type = 0x01 then
        Option.bind (read_f64_bits bs offset) (\<lambda>value.
          if f64_ge_int value (- (2 ^ 31)) \<and> f64_le_int value (2 ^ 31 - 1)
          then Some (f64_as_i32 value) else None)
      else None)"

text \<open>\<open>u64::MAX as f64\<close> rounds to \<open>2 ^ 64\<close>, so that is the bound the comparison uses.\<close>

definition read_u64ish :: "bytes \<Rightarrow> usize \<Rightarrow> u8 \<Rightarrow> u64 option" where
  "read_u64ish bs offset element_type =
     (if element_type = 0x10 then
        Option.bind (result_ok (read_i32 bs offset)) (\<lambda>i. if 0 \<le> sint i then Some (scast i) else None)
      else if element_type = 0x12 then
        Option.bind (read_f64_bits bs offset) (\<lambda>i. if 0 \<le> sint i then Some i else None)
      else if element_type = 0x01 then
        Option.bind (read_f64_bits bs offset) (\<lambda>value.
          if f64_is_finite value \<and> f64_ge_int value 0 \<and> f64_is_integer value \<and>
             f64_le_int value (2 ^ 64)
          then Some (f64_as_u64 value) else None)
      else None)"

subsection \<open>Readers stay in bounds, move forward and do not panic\<close>

lemma read_i32_safe [no_panic, simp]: "safe (read_i32 bs offset)"
  by (auto simp: read_i32_def intro!: no_panic)

lemma read_u32_safe [no_panic, simp]: "safe (read_u32 bs offset)"
  by (auto simp: read_u32_def intro!: no_panic)

lemma read_i64_safe [no_panic, simp]: "safe (read_i64 bs offset)"
  by (auto simp: read_i64_def intro!: no_panic)

lemma read_u64_safe [no_panic, simp]: "safe (read_u64 bs offset)"
  by (auto simp: read_u64_def intro!: no_panic)

lemma read_i32_bound: "read_i32 bs offset = Inr v \<Longrightarrow> offset + 4 \<le> length bs"
  by (simp add: read_i32_def)

lemma read_cstring_safe [no_panic, simp]: "safe (read_cstring bs offset)"
  unfolding read_cstring_def
  by (intro no_panic) (auto simp: slice_from_def split: if_splits dest!: position_SomeD)

lemma read_cstring_bounds [advances]:
  "read_cstring bs offset = Inr (s, after) \<Longrightarrow> offset < after \<and> after \<le> length bs"
  by (auto simp: read_cstring_def slice_from_def split: if_splits dest!: position_SomeD)

lemma read_bson_string_safe [no_panic, simp]: "safe (read_bson_string bs offset)"
  unfolding read_bson_string_def
  by (intro no_panic) (auto simp: not_less dest: i32_as_usize_le_sint [where n = 1, simplified])

lemma read_bson_binary_safe [no_panic, simp]: "safe (read_bson_binary bs offset)"
  unfolding read_bson_binary_def by (intro no_panic)

lemma end_within_eq_Inr [simp]:
  "end_within bs offset n = Inr e \<longleftrightarrow> e = offset + n \<and> e \<le> usize_max \<and> e \<le> length bs"
  by (auto simp: end_within_def split: option.splits)

lemma end_within_safe [no_panic, simp]: "safe (end_within bs offset n)"
  by (simp add: end_within_def split: option.splits)

lemma skip_value_safe [no_panic, simp]: "safe (skip_value bs offset t)"
  unfolding skip_value_def
  by (cases "fixed_size t") (auto intro!: no_panic split: prod.splits)

lemma skip_value_bounds [advances]:
  "skip_value bs offset t = Inr e \<Longrightarrow> offset \<le> e \<and> e \<le> length bs"
  by (fastforce simp: skip_value_def split: option.splits if_splits dest: read_cstring_bounds)

end
