(* ===== verification/Schema.thy ===== *)
theory Schema
  imports Bson
begin

text \<open>
  The wire schema of activity batches, \<open>crates/schema/src/lib.rs\<close>: the event and batch records and
  \<open>DamBatch::validate\<close>, the gate every batch passes before Outpost accepts it. Instants
  (\<open>OffsetDateTime\<close>) are nanoseconds since the Unix epoch; \<open>serde_json::Value\<close> is
  \<^typ>\<open>json_value\<close>.
\<close>

subsection \<open>Records\<close>

definition EVENT_SCHEMA_VERSION :: u16 where "EVENT_SCHEMA_VERSION = 1"
definition BATCH_SCHEMA_VERSION :: u16 where "BATCH_SCHEMA_VERSION = 1"

type_synonym instant = int

datatype capture_source =
    CleartextSyscall | OpenSslUprobe | UserUprobe | KernelTracepoint | PerfEvent | Sensor

datatype capture_confidence = Complete | Partial | Inferred | Unknown

record capture_metadata =
  cap_sensor_id :: string
  cap_node_name :: string
  cap_source :: capture_source
  cap_confidence :: capture_confidence
  cap_metadata_only :: bool
  cap_truncated :: bool

record kubernetes_metadata =
  k8s_cluster_name :: "string option"
  k8s_namespace :: "string option"
  k8s_pod_name :: "string option"
  k8s_pod_uid :: "string option"
  k8s_container_name :: "string option"
  k8s_workload_kind :: "string option"
  k8s_workload_name :: "string option"
  k8s_labels :: "(string, string) hashmap option"

record process_metadata =
  proc_pid :: u32
  proc_tgid :: u32
  proc_uid :: "u32 option"
  proc_gid :: "u32 option"
  proc_cgroup_id :: "u64 option"
  proc_command :: string
  proc_executable :: "string option"

record external_identity =
  xid_provider :: string
  xid_principal_type :: string
  xid_principal_arn :: string
  xid_account_id :: string
  xid_credential_source :: string
  xid_credential_resource :: string

record network_endpoint =
  ep_address :: "string option"
  ep_port :: "u16 option"

record connection_metadata =
  conn_connection_id :: string
  conn_fd :: i32
  conn_local :: "network_endpoint option"
  conn_remote :: "network_endpoint option"
  conn_tcp_srtt_us :: "u32 option"
  conn_retransmits :: "u32 option"
  conn_tls :: "bool option"

record mongodb_activity =
  act_command :: string
  act_database :: "string option"
  act_collection :: "string option"
  act_principal :: "string option"
  act_principal_hashed :: bool
  act_delete_scope :: "string option"
  act_delete_statements :: "u32 option"
  act_affected_documents :: "u64 option"
  act_query :: "json_value option"
  act_request_id :: i32
  act_response_id :: "i32 option"
  act_request_bytes :: u32
  act_response_bytes :: "u32 option"
  act_duration_us :: "u64 option"
  act_succeeded :: "bool option"
  act_error_code :: "i32 option"
  act_error_name :: "string option"
  act_expects_response :: bool
  act_compressed :: bool
  act_connection :: connection_metadata

record mongodb_connection =
  mc_state :: string
  mc_connection :: connection_metadata
  mc_duration_us :: "u64 option"
  mc_reason :: "string option"

record mongodb_auth =
  au_mechanism :: string
  au_principal :: "string option"
  au_principal_hashed :: bool
  au_succeeded :: "bool option"
  au_connection_id :: string

record dns_activity =
  dns_operation :: string
  dns_transport :: string
  dns_query_id :: u16
  dns_name :: "string option"
  dns_record_type :: "string option"
  dns_response_code :: "u8 option"
  dns_answer_count :: "u16 option"
  dns_duration_us :: "u64 option"
  dns_connection :: connection_metadata

record host_io =
  io_operation :: string
  io_duration_us :: u64
  io_bytes :: "u64 option"
  io_fd :: "i32 option"
  io_result :: i64

record profile_sample =
  prof_profile_type :: string
  prof_period_hz :: u32
  prof_count :: u64
  prof_user_stack_id :: i32
  prof_kernel_stack_id :: i32
  prof_duration_us :: "u64 option"
  prof_user_stack_addresses :: "u64 list"
  prof_kernel_stack_addresses :: "u64 list"

record process_lifecycle =
  pl_state :: string
  pl_executable :: "string option"

record sensor_health =
  sh_status :: string
  sh_component :: string
  sh_reason :: string
  sh_dropped_events :: u64
  sh_parse_errors :: u64
  sh_spool_bytes :: u64

datatype event_payload =
    MongodbActivity mongodb_activity
  | MongodbConnection mongodb_connection
  | MongodbAuth mongodb_auth
  | DnsActivity dns_activity
  | HostIo host_io
  | Profile profile_sample
  | ProcessLifecycle process_lifecycle
  | SensorHealth sensor_health

record dam_event =
  ev_schema_version :: u16
  ev_event_id :: string
  ev_observed_at :: instant
  ev_monotonic_timestamp_ns :: u64
  ev_customer_id :: string
  ev_tenant_id :: string
  ev_source_id :: string
  ev_regional_cell_id :: string
  ev_capture :: capture_metadata
  ev_kubernetes :: "kubernetes_metadata option"
  ev_process :: "process_metadata option"
  ev_identity :: "external_identity option"
  ev_payload :: event_payload

record dam_batch =
  ba_schema_version :: u16
  ba_batch_id :: string
  ba_customer_id :: string
  ba_tenant_id :: string
  ba_source_id :: string
  ba_regional_cell_id :: string
  ba_created_at :: instant
  ba_events :: "dam_event list"

subsection \<open>Validation\<close>

text \<open>The last test of \<open>validate\<close>: a MongoDB activity with a query is not metadata only, every other event is.\<close>

definition capture_mismatch :: "dam_event \<Rightarrow> bool" where
  "capture_mismatch event \<longleftrightarrow>
     (case ev_payload event of
        MongodbActivity activity \<Rightarrow> (act_query activity \<noteq> None) = cap_metadata_only (ev_capture event)
      | _ \<Rightarrow> \<not> cap_metadata_only (ev_capture event))"

definition validate :: "dam_batch \<Rightarrow> (string, unit) result" where
  "validate batch =
     (if ba_schema_version batch \<noteq> BATCH_SCHEMA_VERSION then Fail ''unsupported batch schema_version''
      else if blank (ba_batch_id batch) \<or> blank (ba_customer_id batch) \<or> blank (ba_tenant_id batch) \<or>
        blank (ba_source_id batch) \<or> blank (ba_regional_cell_id batch)
      then Fail ''batch identity fields must not be empty''
      else if ba_events batch = [] then Fail ''batch must contain at least one event''
      else if list_ex (\<lambda>event. ev_schema_version event \<noteq> EVENT_SCHEMA_VERSION) (ba_events batch)
      then Fail ''unsupported event schema_version''
      else if list_ex (\<lambda>event. blank (ev_event_id event) \<or> blank (cap_sensor_id (ev_capture event)) \<or>
        blank (cap_node_name (ev_capture event))) (ba_events batch)
      then Fail ''event identity fields must not be empty''
      else if list_ex (\<lambda>event. ev_customer_id event \<noteq> ba_customer_id batch \<or>
        ev_tenant_id event \<noteq> ba_tenant_id batch \<or> ev_source_id event \<noteq> ba_source_id batch \<or>
        ev_regional_cell_id event \<noteq> ba_regional_cell_id batch) (ba_events batch)
      then Fail ''event identity does not match batch identity''
      else if list_ex capture_mismatch (ba_events batch)
      then Fail ''capture metadata does not match MongoDB query-content presence''
      else Ok ())"

subsection \<open>What validation accepts\<close>

text \<open>An event that belongs to a batch of the given identity.\<close>

definition event_ok :: "string \<times> string \<times> string \<times> string \<Rightarrow> dam_event \<Rightarrow> bool" where
  "event_ok identity event \<longleftrightarrow>
     ev_schema_version event = EVENT_SCHEMA_VERSION \<and>
     \<not> blank (ev_event_id event) \<and> \<not> blank (cap_sensor_id (ev_capture event)) \<and>
     \<not> blank (cap_node_name (ev_capture event)) \<and>
     (ev_customer_id event, ev_tenant_id event, ev_source_id event, ev_regional_cell_id event) = identity \<and>
     \<not> capture_mismatch event"

definition batch_identity :: "dam_batch \<Rightarrow> string \<times> string \<times> string \<times> string" where
  "batch_identity batch =
     (ba_customer_id batch, ba_tenant_id batch, ba_source_id batch, ba_regional_cell_id batch)"

lemma validate_ok_iff:
  "validate batch = Ok () \<longleftrightarrow>
     ba_schema_version batch = BATCH_SCHEMA_VERSION \<and>
     \<not> blank (ba_batch_id batch) \<and> \<not> blank (ba_customer_id batch) \<and> \<not> blank (ba_tenant_id batch) \<and>
     \<not> blank (ba_source_id batch) \<and> \<not> blank (ba_regional_cell_id batch) \<and>
     ba_events batch \<noteq> [] \<and> (\<forall>event \<in> set (ba_events batch). event_ok (batch_identity batch) event)"
  unfolding validate_def event_ok_def batch_identity_def list_ex_iff by auto

text \<open>
  Validation isolates tenants. A batch is accepted exactly when it has the schema version,
  non-blank identity and at least one event, and every event has its schema version, non-blank
  identity fields, the customer, tenant, source and cell of the batch, and is marked metadata-only
  if and only if it carries no query content.
\<close>

theorem validate_accepts_exactly:
  "validate batch = Ok () \<longleftrightarrow>
     ba_schema_version batch = 1 \<and>
     \<not> blank (ba_batch_id batch) \<and> \<not> blank (ba_customer_id batch) \<and> \<not> blank (ba_tenant_id batch) \<and>
     \<not> blank (ba_source_id batch) \<and> \<not> blank (ba_regional_cell_id batch) \<and>
     0 < length (ba_events batch) \<and>
     list_all (\<lambda>event.
       ev_schema_version event = 1 \<and>
       \<not> blank (ev_event_id event) \<and> \<not> blank (cap_sensor_id (ev_capture event)) \<and>
       \<not> blank (cap_node_name (ev_capture event)) \<and>
       ev_customer_id event = ba_customer_id batch \<and> ev_tenant_id event = ba_tenant_id batch \<and>
       ev_source_id event = ba_source_id batch \<and> ev_regional_cell_id event = ba_regional_cell_id batch \<and>
       cap_metadata_only (ev_capture event) =
         (case ev_payload event of MongodbActivity activity \<Rightarrow> act_query activity = None | _ \<Rightarrow> True))
       (ba_events batch)"
proof -
  have capture: "\<not> capture_mismatch event \<longleftrightarrow> cap_metadata_only (ev_capture event) =
      (case ev_payload event of MongodbActivity activity \<Rightarrow> act_query activity = None | _ \<Rightarrow> True)" for event
    by (auto simp: capture_mismatch_def split: event_payload.split)
  show ?thesis
    unfolding validate_ok_iff list_all_iff event_ok_def capture batch_identity_def
      EVENT_SCHEMA_VERSION_def BATCH_SCHEMA_VERSION_def
    by auto
qed

end
