(* ===== verification/Proc.thy ===== *)
theory Proc
  imports Rust_Text Schema
begin

text \<open>
  The readers of the host's \<open>/proc\<close> tree in \<open>crates/observer/src/lib.rs\<close>: the executable, credentials
  and command name of a process, the Kubernetes pod it runs in, and the endpoints of a socket. The
  tree itself is the kernel's; it is the parameter \<open>proc_fs\<close>, whose two functions answer a path, a
  list of components that starts with the mount point, with the link target or the file's bytes.
\<close>

record proc_fs =
  fs_link :: "string list \<Rightarrow> bytes option"
  fs_file :: "string list \<Rightarrow> bytes option"

definition read_to_string :: "proc_fs \<Rightarrow> string list \<Rightarrow> string option" where
  "read_to_string fs path = Option.bind (fs_file fs path) from_utf8"

definition u32_string :: "u32 \<Rightarrow> string" where
  "u32_string n = nat_string (unat n)"

definition process_executable :: "proc_fs \<Rightarrow> string \<Rightarrow> u32 \<Rightarrow> string option" where
  "process_executable fs host_proc tgid =
     map_option (\<lambda>path. trim_end_matches '' (deleted)'' (from_utf8_lossy path))
       (fs_link fs [host_proc, u32_string tgid, ''exe''])"

fun find_map :: "('a \<Rightarrow> 'b option) \<Rightarrow> 'a list \<Rightarrow> 'b option" where
  "find_map f [] = None"
| "find_map f (x # xs) = (case f x of None \<Rightarrow> find_map f xs | Some y \<Rightarrow> Some y)"

text \<open>The first word after \<open>label\<close> on its line of \<open>/proc/<tgid>/status\<close>, as an unsigned 32-bit number.\<close>

definition status_number :: "string \<Rightarrow> string \<Rightarrow> u32 option" where
  "status_number label status =
     Option.bind (find_map (strip_prefix label) (lines status)) (\<lambda>line.
     Option.bind (slice_get (split_whitespace line) 0) (\<lambda>word.
     map_option of_nat (from_str_radix 10 (2 ^ 32 - 1) word)))"

definition process_credentials :: "proc_fs \<Rightarrow> string \<Rightarrow> u32 \<Rightarrow> (u32 \<times> u32) option" where
  "process_credentials fs host_proc tgid =
     Option.bind (read_to_string fs [host_proc, u32_string tgid, ''status'']) (\<lambda>status.
     Option.bind (status_number ''Uid:'' status) (\<lambda>uid.
     map_option (\<lambda>gid. (uid, gid)) (status_number ''Gid:'' status)))"

definition process_command :: "proc_fs \<Rightarrow> string \<Rightarrow> u32 \<Rightarrow> string option" where
  "process_command fs host_proc tgid =
     Option.bind (read_to_string fs [host_proc, u32_string tgid, ''comm'']) (\<lambda>command.
     let command = trim_end command in if command = [] then None else Some command)"

subsection \<open>Pods\<close>

text \<open>What follows each occurrence of a non-empty pattern, in order (\<open>str::match_indices\<close>).\<close>

function match_suffixes :: "string \<Rightarrow> string \<Rightarrow> string list" where
  "match_suffixes pat s =
     (if s = [] \<or> pat = [] then []
      else (case strip_prefix pat s of
              None \<Rightarrow> match_suffixes pat (tl s)
            | Some suffix \<Rightarrow> suffix # match_suffixes pat suffix))"
  by pat_completeness auto
termination
  by (relation "measure (\<lambda>(_, s). length s)") auto

declare match_suffixes.simps [simp del]

definition pod_char :: "char \<Rightarrow> bool" where
  "pod_char c \<longleftrightarrow> is_ascii_hexdigit c \<or> c = CHR ''-'' \<or> c = CHR ''_''"

definition dashes :: "string \<Rightarrow> string" where
  "dashes s = map (\<lambda>c. if c = CHR ''_'' then CHR ''-'' else c) s"

definition uid_char :: "nat \<Rightarrow> char \<Rightarrow> bool" where
  "uid_char i c \<longleftrightarrow> (if i \<in> {8, 13, 18, 23} then c = CHR ''-'' else is_ascii_hexdigit c)"

text \<open>The body of the loop: the identifier after one occurrence of \<open>pod\<close>.\<close>

definition pod_uid_at :: "string \<Rightarrow> string option" where
  "pod_uid_at suffix =
     (let normalized = dashes (takeWhile pod_char suffix) in
      if 36 \<le> length normalized \<and> list_all (\<lambda>(i, c). uid_char i c) (enumerate 0 (take 36 normalized))
      then Some (to_ascii_lowercase (take 36 normalized)) else None)"

definition extract_pod_uid :: "string \<Rightarrow> string option" where
  "extract_pod_uid cgroup = find_map pod_uid_at (match_suffixes ''pod'' cgroup)"

definition default_kubernetes :: kubernetes_metadata where
  "default_kubernetes =
     \<lparr>k8s_cluster_name = None, k8s_namespace = None, k8s_pod_name = None, k8s_pod_uid = None,
      k8s_container_name = None, k8s_workload_kind = None, k8s_workload_name = None,
      k8s_labels = None\<rparr>"

definition pod_metadata :: "proc_fs \<Rightarrow> string \<Rightarrow> u32 \<Rightarrow> string \<Rightarrow> kubernetes_metadata option" where
  "pod_metadata fs host_proc tgid cluster_name =
     Option.bind (read_to_string fs [host_proc, u32_string tgid, ''cgroup'']) (\<lambda>cgroup.
     Option.bind (extract_pod_uid cgroup) (\<lambda>pod_uid.
     Some (default_kubernetes\<lparr>k8s_cluster_name := Some cluster_name, k8s_pod_uid := Some pod_uid\<rparr>)))"

subsection \<open>Socket endpoints\<close>

definition parse_ipv4 :: "string \<Rightarrow> string option" where
  "parse_ipv4 address =
     map_option (\<lambda>n. ipv4_string (le_bytes 4 n)) (from_str_radix 16 (2 ^ 32 - 1) address)"

text \<open>The loop over \<open>address.as_bytes().chunks_exact(8)\<close>.\<close>

fun ipv6_words :: "nat \<Rightarrow> string \<Rightarrow> bytes option" where
  "ipv6_words 0 s = Some []"
| "ipv6_words (Suc n) s =
     Option.bind (from_utf8 (as_bytes (take 8 s))) (\<lambda>word.
     Option.bind (from_str_radix 16 (2 ^ 32 - 1) word) (\<lambda>decoded.
     map_option (\<lambda>bs. le_bytes 4 decoded @ bs) (ipv6_words n (drop 8 s))))"

definition parse_endpoint :: "string \<Rightarrow> bool \<Rightarrow> network_endpoint option" where
  "parse_endpoint field ipv6 =
     Option.bind (split_once (CHR '':'') field) (\<lambda>(address, port).
     Option.bind (from_str_radix 16 (2 ^ 16 - 1) port) (\<lambda>port.
     Option.bind
       (if ipv6 then if length address \<noteq> 32 then None else map_option ipv6_string (ipv6_words 4 address)
        else parse_ipv4 address) (\<lambda>address.
     Some \<lparr>ep_address = Some address, ep_port = Some (of_nat port)\<rparr>)))"

fun proc_net_rows :: "string list \<Rightarrow> string \<Rightarrow> bool \<Rightarrow> (network_endpoint \<times> network_endpoint) option" where
  "proc_net_rows [] wanted_inode ipv6 = None"
| "proc_net_rows (row # rows) wanted_inode ipv6 =
     (let cells = split_whitespace row in
      if length cells < 10 \<or> cells ! 9 \<noteq> wanted_inode then proc_net_rows rows wanted_inode ipv6
      else Option.bind (parse_endpoint (cells ! 1) ipv6) (\<lambda>near.
           map_option (\<lambda>far. (near, far)) (parse_endpoint (cells ! 2) ipv6)))"

definition parse_proc_net_tcp :: "string \<Rightarrow> string \<Rightarrow> bool \<Rightarrow> (network_endpoint \<times> network_endpoint) option" where
  "parse_proc_net_tcp table wanted_inode ipv6 = proc_net_rows (drop 1 (lines table)) wanted_inode ipv6"

text \<open>The loop over the four tables; a table that cannot be read ends the search.\<close>

fun search_tables ::
  "proc_fs \<Rightarrow> string \<Rightarrow> u32 \<Rightarrow> string \<Rightarrow> (string \<times> bool) list \<Rightarrow> (network_endpoint \<times> network_endpoint) option"
  where
  "search_tables fs host_proc tgid inode [] = None"
| "search_tables fs host_proc tgid inode ((name, ipv6) # tables) =
     Option.bind (read_to_string fs [host_proc, u32_string tgid, ''net'', name]) (\<lambda>table.
     (case parse_proc_net_tcp table inode ipv6 of
        Some endpoints \<Rightarrow> Some endpoints
      | None \<Rightarrow> search_tables fs host_proc tgid inode tables))"

definition socket_tables :: "(string \<times> bool) list" where
  "socket_tables = [(''tcp'', False), (''tcp6'', True), (''udp'', False), (''udp6'', True)]"

definition resolve_socket_endpoints ::
  "proc_fs \<Rightarrow> string \<Rightarrow> u32 \<Rightarrow> i32 \<Rightarrow> (network_endpoint \<times> network_endpoint) option" where
  "resolve_socket_endpoints fs host_proc tgid fd =
     Option.bind (fs_link fs [host_proc, u32_string tgid, ''fd'', int_string (sint fd)]) (\<lambda>link.
     Option.bind (strip_prefix ''socket:['' (from_utf8_lossy link)) (\<lambda>rest.
     Option.bind (strip_suffix '']'' rest) (\<lambda>inode.
     search_tables fs host_proc tgid inode socket_tables)))"

subsection \<open>Correctness\<close>

text \<open>A pod identifier in its canonical form: 36 characters, lower-case hexadecimal digits and dashes.\<close>

definition canonical_uid :: "string \<Rightarrow> bool" where
  "canonical_uid uid \<longleftrightarrow>
     length uid = 36 \<and> list_all (\<lambda>(i, c). uid_char i c) (enumerate 0 uid) \<and> to_ascii_lowercase uid = uid"

lemma uid_chars_iff:
  "list_all (\<lambda>(i, c). uid_char i c) (enumerate 0 s) \<longleftrightarrow> (\<forall>i < length s. uid_char i (s ! i))"
  by (auto simp: list_all_length nth_enumerate_eq)

lemma hexdigit_lower: "is_ascii_hexdigit c \<Longrightarrow> is_ascii_hexdigit (char_lower c)"
  by (auto simp: is_ascii_hexdigit_def is_ascii_digit_def char_lower_def in_range_def of_char_of)

lemma uid_char_lower: "uid_char i c \<Longrightarrow> uid_char i (char_lower c)"
  using hexdigit_lower [of c] by (auto simp: uid_char_def char_lower_def [of "CHR ''-''"] in_range_def)

lemma pod_uid_at_canonical: "pod_uid_at suffix = Some uid \<Longrightarrow> canonical_uid uid"
  by (auto simp: pod_uid_at_def canonical_uid_def uid_chars_iff Let_def to_ascii_lowercase_def
      uid_char_lower split: if_splits)

lemma find_map_SomeD: "find_map f xs = Some y \<Longrightarrow> \<exists>x \<in> set xs. f x = Some y"
  by (induction xs) (auto split: option.splits)

lemma extract_pod_uid_canonical: "extract_pod_uid cgroup = Some uid \<Longrightarrow> canonical_uid uid"
  using pod_uid_at_canonical by (auto simp: extract_pod_uid_def dest: find_map_SomeD)

text \<open>Both spellings of an identifier, with dashes or underscores, are read back, whatever follows.\<close>

lemma uid_char_pod_char: "uid_char i c \<Longrightarrow> pod_char c"
  by (auto simp: uid_char_def pod_char_def split: if_splits)

lemma uid_char_no_underscore: "uid_char i c \<Longrightarrow> c \<noteq> CHR ''_''"
  by (auto simp: uid_char_def is_ascii_hexdigit_def is_ascii_digit_def in_range_def split: if_splits)

lemma canonical_uid_chars:
  assumes "canonical_uid uid" "c \<in> set uid"
  shows "pod_char c" "c \<noteq> CHR ''_''"
  using assms by (auto simp: canonical_uid_def uid_chars_iff in_set_conv_nth uid_char_pod_char
      dest: uid_char_no_underscore)

definition underscores :: "string \<Rightarrow> string" where
  "underscores s = map (\<lambda>c. if c = CHR ''-'' then CHR ''_'' else c) s"

lemma pod_uid_at_spelled:
  assumes uid: "canonical_uid uid" and spelled: "dashes spelling = uid" "list_all pod_char spelling"
  shows "pod_uid_at (spelling @ rest) = Some uid"
proof -
  have len: "length uid = 36" using uid by (simp add: canonical_uid_def)
  have "takeWhile pod_char (spelling @ rest) = spelling @ takeWhile pod_char rest"
    using spelled(2) by (simp add: list_all_iff takeWhile_append2)
  then have "dashes (takeWhile pod_char (spelling @ rest)) = uid @ dashes (takeWhile pod_char rest)"
    using spelled(1) by (simp add: dashes_def)
  with uid len show ?thesis by (simp add: pod_uid_at_def canonical_uid_def Let_def)
qed

lemma pod_uid_at_dashes: "canonical_uid uid \<Longrightarrow> pod_uid_at (uid @ rest) = Some uid"
proof (rule pod_uid_at_spelled)
  assume uid: "canonical_uid uid"
  then show "canonical_uid uid" .
  show "dashes uid = uid"
    using canonical_uid_chars(2) [OF uid] unfolding dashes_def by (intro map_idI) auto
  show "list_all pod_char uid"
    using canonical_uid_chars(1) [OF uid] by (simp add: list_all_iff)
qed

lemma pod_uid_at_underscores: "canonical_uid uid \<Longrightarrow> pod_uid_at (underscores uid @ rest) = Some uid"
proof (rule pod_uid_at_spelled)
  assume uid: "canonical_uid uid"
  then show "canonical_uid uid" .
  show "dashes (underscores uid) = uid"
    using canonical_uid_chars(2) [OF uid] unfolding dashes_def underscores_def map_map o_def
    by (intro map_idI) auto
  show "list_all pod_char (underscores uid)"
    using canonical_uid_chars(1) [OF uid] by (auto simp: list_all_iff underscores_def pod_char_def)
qed

lemma match_suffixes_step:
  "strip_prefix pat (c # s) = None \<Longrightarrow> pat \<noteq> [] \<Longrightarrow> match_suffixes pat (c # s) = match_suffixes pat s"
  by (simp add: match_suffixes.simps [of pat "c # s"])

lemma match_suffixes_hit:
  "pat \<noteq> [] \<Longrightarrow> match_suffixes pat (pat @ s) = s # match_suffixes pat s"
  by (simp add: match_suffixes.simps [of pat "pat @ s"])

lemma match_pod:
  "match_suffixes ''pod'' (CHR ''p'' # CHR ''o'' # CHR ''d'' # s) = s # match_suffixes ''pod'' s"
  using match_suffixes_hit [of "''pod''" s] by simp

lemma pod_uid_at_short: "\<not> pod_char c \<Longrightarrow> pod_uid_at (c # s) = None"
  by (simp add: pod_uid_at_def dashes_def)

text \<open>
  The pod identifier attached to an event is always a canonical lower-case UUID, and the reader
  finds it in both cgroup layouts Kubernetes uses: the systemd driver's, which spells it with
  underscores, and the cgroupfs driver's.
\<close>

theorem pod_uid_is_canonical_and_found:
  assumes "canonical_uid uid"
  shows "pred_option canonical_uid (extract_pod_uid cgroup) \<and>
    extract_pod_uid (''0::/kubepods.slice/kubepods-burstable-pod'' @ underscores uid @ rest) = Some uid \<and>
    extract_pod_uid (''0::/kubepods/burstable/pod'' @ uid @ rest) = Some uid"
  using extract_pod_uid_canonical [of cgroup] pod_uid_at_dashes [OF assms] pod_uid_at_underscores [OF assms]
  by (cases "extract_pod_uid cgroup")
    (simp_all add: extract_pod_uid_def match_suffixes_step match_pod pod_uid_at_short pod_char_def
      is_ascii_hexdigit_def is_ascii_digit_def in_range_def)

theorem pod_uid_is_canonical_and_found_witness:
  "extract_pod_uid (''0::/kubepods/burstable/pod'' @ ''08f20c35-9ab0-4a41-94b8-2e19e20c14c8'' @ ''/deadbeef'') =
     Some ''08f20c35-9ab0-4a41-94b8-2e19e20c14c8''"
proof -
  have "canonical_uid ''08f20c35-9ab0-4a41-94b8-2e19e20c14c8''" by code_simp
  from pod_uid_is_canonical_and_found [OF this, of "[]" "''/deadbeef''"] show ?thesis by blast
qed

text \<open>Endpoints as the kernel prints them: \<open>%08X\<close> per 32-bit word of the address, \<open>:%04X\<close> for the port.\<close>

definition char_upper :: "char \<Rightarrow> char" where
  "char_upper c = (if in_range c 97 122 then char_of ((of_char c :: nat) - 32) else c)"

definition hex_upper :: "nat \<Rightarrow> nat \<Rightarrow> string" where
  "hex_upper width n = map char_upper (zero_pad width (digits_of 16 n))"

lemma of_char_upper:
  "(of_char (char_upper c) :: nat) = (if in_range c 97 122 then of_char c - 32 else of_char c)"
proof -
  have "((of_char c :: nat) - 32) mod 256 = of_char c - 32"
    using nat_of_char_less_256 [of c] by (intro mod_less) linarith
  then show ?thesis by (simp add: char_upper_def of_char_of)
qed

lemma digit_value_upper: "digit_value 16 (char_upper c) = digit_value 16 c"
  by (auto simp: digit_value_def of_char_upper in_range_def Let_def)

lemma parse_digits_upper: "parse_digits 16 limit acc (map char_upper s) = parse_digits 16 limit acc s"
  by (induction s arbitrary: acc) (simp_all add: digit_value_upper split: option.split)

lemma char_upper_plus: "char_upper c = CHR ''+'' \<longleftrightarrow> c = CHR ''+''"
proof
  assume "char_upper c = CHR ''+''"
  then have "(of_char (char_upper c) :: nat) = of_char (CHR ''+'')" by simp
  then have "(of_char c :: nat) = of_char (CHR ''+'')"
    by (auto simp: of_char_upper in_range_def split: if_splits)
  then show "c = CHR ''+''" by (simp only: of_char_eq_iff)
qed (simp add: char_upper_def in_range_def)

lemma from_str_radix_upper: "from_str_radix 16 limit (map char_upper s) = from_str_radix 16 limit s"
  by (cases s) (auto simp: from_str_radix_def strip_plus_def parse_digits_upper char_upper_plus
      digit_value_upper split: option.split)

lemma from_str_radix_hex_upper: "n \<le> limit \<Longrightarrow> from_str_radix 16 limit (hex_upper width n) = Some n"
  by (simp add: hex_upper_def from_str_radix_upper from_str_radix_padded)

lemma digits_of_hex: "c \<in> set (digits_of 16 n) \<Longrightarrow> is_ascii_hexdigit c"
proof (induction "16 :: nat" n rule: digits_of.induct)
  case (1 n)
  have digit: "is_ascii_hexdigit (digit_char d)" if "d < 16" for d
    using that by (auto simp: digit_char_def is_ascii_hexdigit_def is_ascii_digit_def in_range_def of_char_of)
  show ?case
  proof (cases "n < 16")
    case True
    with "1.prems" digit show ?thesis by (subst (asm) digits_of.simps) auto
  next
    case False
    with "1.hyps" "1.prems" digit [of "n mod 16"] show ?thesis by (subst (asm) (2) digits_of.simps) auto
  qed
qed

lemma hexdigit_upper: "is_ascii_hexdigit c \<Longrightarrow> is_ascii_hexdigit (char_upper c)"
  by (auto simp: is_ascii_hexdigit_def is_ascii_digit_def in_range_def of_char_upper split: if_splits)

lemma hex_upper_digits: "c \<in> set (hex_upper width n) \<Longrightarrow> is_ascii_hexdigit c"
  by (auto simp: hex_upper_def zero_pad_def intro!: hexdigit_upper dest: digits_of_hex)
    (simp add: is_ascii_hexdigit_def is_ascii_digit_def in_range_def)

lemma length_digits_of: "n < 16 ^ Suc k \<Longrightarrow> length (digits_of 16 n) \<le> Suc k"
proof (induction k arbitrary: n)
  case 0
  then show ?case by (subst digits_of.simps) simp
next
  case (Suc k)
  then have "length (digits_of 16 (n div 16)) \<le> Suc k" by simp
  then show ?case by (subst digits_of.simps) simp
qed

lemma length_hex_upper: "n < 16 ^ Suc k \<Longrightarrow> length (hex_upper (Suc k) n) = Suc k"
  using length_digits_of [of n k] by (simp add: hex_upper_def zero_pad_def)

lemma le_bytes_le_nat: "le_bytes (length bs) (le_nat bs) = bs"
proof (induction bs)
  case (Cons b bs)
  have "unat b < 256" using unsigned_less [of b, where ?'a = nat] by simp
  with Cons show ?case by simp
qed simp

lemma hexdigit_ascii: "is_ascii_hexdigit c \<Longrightarrow> char_byte c < 0x80"
  by (auto simp: is_ascii_hexdigit_def is_ascii_digit_def in_range_def char_byte_def word_less_nat_alt unat_of_nat)

fun proc_words :: "nat \<Rightarrow> bytes \<Rightarrow> string" where
  "proc_words 0 bs = []"
| "proc_words (Suc n) bs = hex_upper 8 (le_nat (take 4 bs)) @ proc_words n (drop 4 bs)"

definition proc_endpoint :: "nat \<Rightarrow> bytes \<Rightarrow> u16 \<Rightarrow> string" where
  "proc_endpoint n address port = proc_words n address @ '':'' @ hex_upper 4 (unat port)"

lemma word_bound: "length bs = 4 \<Longrightarrow> le_nat bs < 16 ^ Suc 7"
  using le_nat_bound [of bs] by simp

lemma word_digits: "length bs = 4 \<Longrightarrow> length (hex_upper 8 (le_nat bs)) = 8"
  using length_hex_upper [of "le_nat bs" 7] word_bound [of bs] by simp

lemma word_reads:
  assumes "length bs = 4"
  shows "from_str_radix 16 (2 ^ 32 - 1) (hex_upper 8 (le_nat bs)) = Some (le_nat bs)"
  using word_bound [OF assms] by (intro from_str_radix_hex_upper) simp

lemma ipv6_words_reads: "length bs = 4 * n \<Longrightarrow> ipv6_words n (proc_words n bs @ rest) = Some bs"
proof (induction n arbitrary: bs)
  case (Suc n)
  let ?w = "hex_upper 8 (le_nat (take 4 bs))"
  have four: "length (take 4 bs) = 4" using Suc.prems by simp
  have "\<forall>b \<in> set (as_bytes ?w). b < 0x80"
    using hex_upper_digits hexdigit_ascii by (auto simp: as_bytes_def)
  then have "from_utf8 (as_bytes ?w) = Some ?w"
    by (intro from_utf8_as_bytes utf8_valid_ascii)
  moreover have "le_bytes 4 (le_nat (take 4 bs)) = take 4 bs"
    using le_bytes_le_nat [of "take 4 bs"] four by simp
  moreover have "ipv6_words n (proc_words n (drop 4 bs) @ rest) = Some (drop 4 bs)"
    using Suc by simp
  ultimately show ?case
    using word_digits [OF four] word_reads [OF four] by simp
qed simp

lemma proc_words_digits: "c \<in> set (proc_words n bs) \<Longrightarrow> is_ascii_hexdigit c"
  by (induction n arbitrary: bs) (auto dest: hex_upper_digits)

lemma length_proc_words: "length bs = 4 * n \<Longrightarrow> length (proc_words n bs) = 8 * n"
  by (induction n arbitrary: bs) (simp_all add: word_digits)

lemma proc_endpoint_split:
  "split_once (CHR '':'') (proc_endpoint n address port) = Some (proc_words n address, hex_upper 4 (unat port))"
proof -
  have "CHR '':'' \<notin> set (proc_words n address)"
    by (auto dest!: proc_words_digits simp: is_ascii_hexdigit_def is_ascii_digit_def in_range_def)
  then show ?thesis by (simp add: proc_endpoint_def split_once_append)
qed

lemma port_reads: "from_str_radix 16 65535 (hex_upper 4 (unat (port :: u16))) = Some (unat port)"
  using unsigned_less [of port, where ?'a = nat] by (intro from_str_radix_hex_upper) simp

text \<open>
  An endpoint the kernel prints in \<open>/proc/net/tcp\<close>, \<open>tcp6\<close>, \<open>udp\<close> or \<open>udp6\<close> is read back as the
  address and port it stands for: the words are in host byte order, the port is a number.
\<close>

theorem proc_endpoint_round_trip:
  assumes "length v4 = 4" and "length v6 = 16"
  shows "parse_endpoint (proc_endpoint 1 v4 port) False =
      Some \<lparr>ep_address = Some (ipv4_string v4), ep_port = Some port\<rparr> \<and>
    parse_endpoint (proc_endpoint 4 v6 port) True =
      Some \<lparr>ep_address = Some (ipv6_string v6), ep_port = Some port\<rparr>"
proof
  have "proc_words 1 v4 = hex_upper 8 (le_nat v4)" using assms(1) by simp
  then have "parse_ipv4 (proc_words 1 v4) = Some (ipv4_string v4)"
    using word_reads [OF assms(1)] le_bytes_le_nat [of v4] assms(1) by (simp add: parse_ipv4_def)
  then show "parse_endpoint (proc_endpoint 1 v4 port) False =
      Some \<lparr>ep_address = Some (ipv4_string v4), ep_port = Some port\<rparr>"
    by (simp add: parse_endpoint_def proc_endpoint_split port_reads del: proc_words.simps)
  show "parse_endpoint (proc_endpoint 4 v6 port) True =
      Some \<lparr>ep_address = Some (ipv6_string v6), ep_port = Some port\<rparr>"
    using ipv6_words_reads [of v6 4 "[]"] length_proc_words [of v6 4] assms(2)
    by (simp add: parse_endpoint_def proc_endpoint_split port_reads)
qed

theorem proc_endpoint_round_trip_witness:
  "parse_endpoint ''0100007F:6989'' False = Some \<lparr>ep_address = Some ''127.0.0.1'', ep_port = Some 27017\<rparr>"
proof -
  have "proc_endpoint 1 [127, 0, 0, 1] 27017 = ''0100007F:6989''" "ipv4_string [127, 0, 0, 1] = ''127.0.0.1''"
    by code_simp+
  with proc_endpoint_round_trip [of "[127, 0, 0, 1]" "replicate 16 0" 27017] show ?thesis by simp
qed

end
