(* ===== verification/Dns.thy ===== *)
theory Dns
  imports Rust_Str
begin

text \<open>
  The DNS decoder of \<open>crates/observer/src/lib.rs\<close>: header, question name with compression pointers,
  record type. The input is whatever a process sends to port 53, so the theorems are about arbitrary
  bytes: the name loop ends, nothing panics, and a name that is returned is a bounded lower-case
  host name. An encoded query decodes to what was encoded.
\<close>

subsection \<open>Decoder\<close>

record decoded_dns_message =
  dd_query_id :: u16
  dd_response :: bool
  dd_response_code :: u8
  dd_answer_count :: u16
  dd_name :: "string option"
  dd_record_type :: "string option"

type_synonym 'a text_result = "(string, 'a) result"

text \<open>\<open>u16::from_be_bytes\<close>.\<close>

definition from_be_bytes16 :: "u8 \<Rightarrow> u8 \<Rightarrow> u16" where
  "from_be_bytes16 hi lo = word_of_nat (256 * unat hi + unat lo)"

definition read_network_u16 :: "bytes \<Rightarrow> usize \<Rightarrow> u16 text_result" where
  "read_network_u16 bs offset =
     (case slice_range bs offset (offset + 2) of
        Some [hi, lo] \<Rightarrow> Ok (from_be_bytes16 hi lo)
      | _ \<Rightarrow> Fail ''truncated DNS integer'')"

definition dns_record_type :: "u16 \<Rightarrow> string" where
  "dns_record_type v =
     (if v = 1 then ''A'' else if v = 2 then ''NS'' else if v = 5 then ''CNAME''
      else if v = 6 then ''SOA'' else if v = 12 then ''PTR'' else if v = 15 then ''MX''
      else if v = 16 then ''TXT'' else if v = 28 then ''AAAA'' else if v = 33 then ''SRV''
      else if v = 41 then ''OPT'' else if v = 255 then ''ANY'' else nat_string (unat v))"

text \<open>The bytes a label may have.\<close>

definition label_char :: "char \<Rightarrow> bool" where
  "label_char c \<longleftrightarrow> is_ascii_alphanumeric c \<or> c = CHR ''-'' \<or> c = CHR ''_''"

fun join :: "string \<Rightarrow> string list \<Rightarrow> string" where
  "join sep [] = []"
| "join sep [s] = s"
| "join sep (s # t # ss) = s @ sep @ join sep (t # ss)"

text \<open>
  The loop of \<open>parse_dns_name\<close>. Its state is the cursor, the position after the name once a pointer
  was followed, the number of jumps, the bytes decoded so far and the labels.
\<close>

function parse_dns_name_loop ::
  "bytes \<Rightarrow> usize \<Rightarrow> usize option \<Rightarrow> usize \<Rightarrow> usize \<Rightarrow> string list \<Rightarrow> (string \<times> usize) text_result" where
  "parse_dns_name_loop bs cursor after_name jumps decoded_bytes labels =
     (case slice_get bs cursor of
        None \<Rightarrow> Fail ''truncated DNS name''
      | Some len \<Rightarrow>
          if len AND 0xc0 = 0xc0 then
            (case slice_get bs (cursor + 1) of
               None \<Rightarrow> Fail ''truncated DNS compression pointer''
             | Some second \<Rightarrow>
                 if jumps + 1 > 16 then Fail ''DNS compression pointer loop''
                 else parse_dns_name_loop bs (256 * unat (len AND 0x3f) + unat second)
                        (option_or after_name (Some (cursor + 2))) (jumps + 1) decoded_bytes labels)
          else if len AND 0xc0 \<noteq> 0 then Fail ''invalid DNS label type''
          else if len = 0 then
            Ok (to_ascii_lowercase (join ''.'' labels),
                case after_name of None \<Rightarrow> cursor + 1 | Some p \<Rightarrow> p)
          else if len > 63 then Fail ''invalid DNS label length''
          else
            rbind (ok_or (checked_add (cursor + 1) (unat len)) ''invalid DNS label length'') (\<lambda>end'.
            case slice_range bs (cursor + 1) end' of
               None \<Rightarrow> Fail ''truncated DNS label''
             | Some label \<Rightarrow>
                 if \<not> list_all (label_char \<circ> byte_char) label then Fail ''DNS label contains unsupported bytes''
                 else
                   let decoded_bytes = saturating_add_usize decoded_bytes (length label + 1) in
                   if decoded_bytes > 254 then Fail ''DNS name exceeds protocol limit''
                   else parse_dns_name_loop bs end' after_name jumps decoded_bytes
                          (labels @ [map byte_char label])))"
  by pat_completeness auto
termination
  by (relation "inv_image (less_than <*lex*> less_than)
      (\<lambda>(bs, cursor, _, jumps, _, _). (17 - jumps, length bs - cursor))")
    (auto simp: slice_get_def split: if_splits)

declare parse_dns_name_loop.simps [simp del]

definition parse_dns_name :: "bytes \<Rightarrow> usize \<Rightarrow> (string \<times> usize) text_result" where
  "parse_dns_name bs offset = parse_dns_name_loop bs offset None 0 0 []"

definition decode_dns_message :: "bytes \<Rightarrow> decoded_dns_message text_result" where
  "decode_dns_message bs =
     (if length bs < 12 then Fail ''truncated DNS header''
      else rbind (read_network_u16 bs 0) (\<lambda>query_id.
      rbind (read_network_u16 bs 2) (\<lambda>flags.
      rbind (read_network_u16 bs 4) (\<lambda>question_count.
      rbind (read_network_u16 bs 6) (\<lambda>answer_count.
      rbind
        (if question_count > 0 then
           rbind (parse_dns_name bs 12) (\<lambda>(name, after_name).
           rbind (read_network_u16 bs after_name) (\<lambda>record_type.
           rbind (read_network_u16 bs (after_name + 2)) (\<lambda>_.
           Ok (Some name, Some (dns_record_type record_type)))))
         else Ok (None, None))
        (\<lambda>(name, record_type).
      Ok \<lparr>dd_query_id = query_id, dd_response = (flags AND 0x8000 \<noteq> 0),
        dd_response_code = ucast (flags AND 0x000f), dd_answer_count = answer_count,
        dd_name = name, dd_record_type = record_type\<rparr>))))))"

subsection \<open>Bounds\<close>

text \<open>A host name as it is reported: at most 253 bytes of lower-case letters, digits, hyphens, underscores and dots.\<close>

definition host_char :: "char \<Rightarrow> bool" where
  "host_char c \<longleftrightarrow> in_range c 97 122 \<or> is_ascii_digit c \<or> c \<in> {CHR ''-'', CHR ''_'', CHR ''.''}"

lemma length_join: "length (join ''.'' labels) \<le> sum_list (map (\<lambda>l. length l + 1) labels) - 1"
  by (induction "''.''" labels rule: join.induct) auto

lemma set_join: "set (join ''.'' labels) \<subseteq> insert (CHR ''.'') (\<Union> (set ` set labels))"
  by (induction "''.''" labels rule: join.induct) auto

lemma host_char_lower: "label_char c \<or> c = CHR ''.'' \<Longrightarrow> host_char (char_lower c)"
  by (auto simp: label_char_def host_char_def is_ascii_alphanumeric_def is_ascii_digit_def char_lower_def
      in_range_def of_char_of)

definition labels_ok :: "usize \<Rightarrow> string list \<Rightarrow> bool" where
  "labels_ok decoded_bytes labels \<longleftrightarrow>
     decoded_bytes = sum_list (map (\<lambda>l. length l + 1) labels) \<and> decoded_bytes \<le> 254 \<and>
     (\<forall>label \<in> set labels. \<forall>c \<in> set label. label_char c)"

lemma parse_dns_name_loop_bounded:
  "labels_ok decoded_bytes labels \<Longrightarrow>
   yields (parse_dns_name_loop bs cursor after_name jumps decoded_bytes labels)
     (\<lambda>(name, end'). length name \<le> 253 \<and> list_all host_char name)"
proof (induction bs cursor after_name jumps decoded_bytes labels rule: parse_dns_name_loop.induct)
  case (1 bs cursor after_name jumps decoded_bytes labels)
  have finish: "length (to_ascii_lowercase (join ''.'' labels)) \<le> 253 \<and>
      list_all host_char (to_ascii_lowercase (join ''.'' labels))"
    using "1.prems" length_join [of labels] set_join [of labels]
    by (auto simp: labels_ok_def list_all_iff to_ascii_lowercase_def intro!: host_char_lower)
  have grow: "labels_ok (saturating_add_usize decoded_bytes (length label + 1)) (labels @ [map byte_char label])"
    if "\<not> \<not> list_all (label_char \<circ> byte_char) label" "\<not> saturating_add_usize decoded_bytes (length label + 1) > 254" for label
    using that "1.prems" by (auto simp: labels_ok_def saturating_add_usize_def usize_max_def list_all_iff min_def split: if_splits)
  show ?case
    unfolding parse_dns_name_loop.simps [of bs cursor] Let_def
    by (intro yield_rules; (rule "1.IH"; (assumption | rule refl | rule grow | rule "1.prems") | use finish in simp)?)
qed

lemma parse_dns_name_loop_safe: "safe (parse_dns_name_loop bs cursor after_name jumps decoded_bytes labels)"
proof (induction bs cursor after_name jumps decoded_bytes labels rule: parse_dns_name_loop.induct)
  case (1 bs cursor after_name jumps decoded_bytes labels)
  show ?case
    unfolding parse_dns_name_loop.simps [of bs cursor] Let_def
    by (intro no_panic; (rule "1.IH"; (assumption | rule refl))?)
qed

lemma read_network_u16_safe: "safe (read_network_u16 bs offset)"
  by (auto simp: read_network_u16_def split: option.splits list.splits)

lemma parse_dns_name_safe: "safe (parse_dns_name bs offset)"
  by (simp add: parse_dns_name_def parse_dns_name_loop_safe)

lemma decode_dns_message_safe: "safe (decode_dns_message bs)"
  unfolding decode_dns_message_def by (intro no_panic read_network_u16_safe parse_dns_name_safe)

text \<open>
  C38: arbitrary DNS traffic is decoded safely. Decoding ends without a panic on every byte sequence,
  also one whose compression pointers form a loop, and a name it reports has at most 253 bytes, all
  lower-case letters, digits, hyphens, underscores or dots.
\<close>

theorem dns_names_are_bounded_host_names:
  "safe (decode_dns_message bs) \<and>
   yields (decode_dns_message bs)
     (\<lambda>m. case dd_name m of None \<Rightarrow> True | Some name \<Rightarrow> length name \<le> 253 \<and> list_all host_char name)"
proof
  show "safe (decode_dns_message bs)" by (rule decode_dns_message_safe)
  have "yields (parse_dns_name bs 12) (\<lambda>(name, end'). length name \<le> 253 \<and> list_all host_char name)"
    unfolding parse_dns_name_def by (rule parse_dns_name_loop_bounded) (simp add: labels_ok_def)
  then show "yields (decode_dns_message bs)
     (\<lambda>m. case dd_name m of None \<Rightarrow> True | Some name \<Rightarrow> length name \<le> 253 \<and> list_all host_char name)"
    unfolding decode_dns_message_def by (intro yield_rules) (auto split: if_splits dest: yieldsD)
qed

subsection \<open>Queries\<close>

text \<open>A DNS question with one uncompressed name, as the tests of the source build it.\<close>

definition to_be_bytes16 :: "u16 \<Rightarrow> bytes" where
  "to_be_bytes16 w = [word_of_nat (unat w div 256), word_of_nat (unat w mod 256)]"

definition enc_name :: "string list \<Rightarrow> bytes" where
  "enc_name labels = concat (map (\<lambda>l. word_of_nat (length l) # as_bytes l) labels) @ [0]"

definition dns_query :: "u16 \<Rightarrow> string list \<Rightarrow> u16 \<Rightarrow> bytes" where
  "dns_query query_id labels record_type =
     concat (map to_be_bytes16 [query_id, 0x0100, 1, 0, 0, 0]) @ enc_name labels @
     to_be_bytes16 record_type @ to_be_bytes16 1"

definition valid_label :: "string \<Rightarrow> bool" where
  "valid_label l \<longleftrightarrow> l \<noteq> [] \<and> length l \<le> 63 \<and> list_all label_char l"

lemma from_to_be_bytes16: "from_be_bytes16 (word_of_nat (unat w div 256)) (word_of_nat (unat w mod 256)) = w"
proof -
  have "unat w < 65536" using unsigned_less [of w, where ?'a = nat] by simp
  then show ?thesis by (simp add: from_be_bytes16_def unat_of_nat)
qed

lemma read_network_u16_reads:
  "drop offset bs = to_be_bytes16 w @ b \<Longrightarrow> offset \<le> length bs \<Longrightarrow> read_network_u16 bs offset = Ok w"
  using slice_range_reads [of offset bs "to_be_bytes16 w" b]
  by (simp add: read_network_u16_def to_be_bytes16_def from_to_be_bytes16 del: slice_range_eq_Some)

lemma small_length_byte:
  assumes "0 < n" "n \<le> 63"
  shows "(word_of_nat n :: u8) AND 0xc0 = 0" "(word_of_nat n :: u8) \<noteq> 0" "\<not> (word_of_nat n :: u8) > 63"
    "unat (word_of_nat n :: u8) = n"
proof -
  have "\<forall>n < 64. (word_of_nat n :: u8) AND 0xc0 = 0" by code_simp
  with assms show "(word_of_nat n :: u8) AND 0xc0 = 0" by simp
  show u: "unat (word_of_nat n :: u8) = n" using assms by (simp add: unat_of_nat)
  then show "(word_of_nat n :: u8) \<noteq> 0" using assms by auto
  show "\<not> (word_of_nat n :: u8) > 63" using u assms by (simp add: word_less_nat_alt)
qed

lemma parse_dns_name_loop_reads:
  "drop cursor bs = enc_name labels @ b \<Longrightarrow> cursor \<le> length bs \<Longrightarrow> length bs < 2 ^ 31 \<Longrightarrow>
   list_all valid_label labels \<Longrightarrow> decoded + sum_list (map (\<lambda>l. length l + 1) labels) \<le> 254 \<Longrightarrow>
   parse_dns_name_loop bs cursor None jumps decoded done' =
     Ok (to_ascii_lowercase (join ''.'' (done' @ labels)), cursor + length (enc_name labels))"
proof (induction labels arbitrary: cursor decoded done')
  case Nil
  then have "slice_get bs cursor = Some 0" by (intro slice_get_reads) (auto simp: enc_name_def)
  then show ?case by (simp add: parse_dns_name_loop.simps [of bs cursor] enc_name_def)
next
  case (Cons l labels)
  let ?n = "word_of_nat (length l) :: u8"
  have l: "0 < length l" "length l \<le> 63" "list_all label_char l" using Cons.prems(4) by (auto simp: valid_label_def)
  note byte = small_length_byte [OF l(1,2)]
  have bs: "drop cursor bs = ?n # as_bytes l @ enc_name labels @ b"
    using Cons.prems(1) by (simp add: enc_name_def)
  have head: "slice_get bs cursor = Some ?n" using bs Cons.prems(2) by (intro slice_get_reads)
  have tail: "drop (cursor + 1) bs = as_bytes l @ enc_name labels @ b"
    using drop_next [of cursor bs "[?n]"] bs by simp
  have len: "length bs = cursor + 1 + length l + length (enc_name labels) + length b"
    using drop_length [of cursor bs "?n # as_bytes l" "enc_name labels @ b"] bs Cons.prems(2) by simp
  have label: "slice_range bs (cursor + 1) (cursor + 1 + length l) = Some (as_bytes l)"
    using slice_range_reads [OF tail] len by simp
  have rest: "drop (cursor + 1 + length l) bs = enc_name labels @ b"
    using drop_next [OF tail] by simp
  have chars: "list_all (label_char \<circ> byte_char) (as_bytes l)"
    using l(3) by (simp add: as_bytes_def list.pred_map comp_def)
  have plain: "map byte_char (as_bytes l) = l" by (simp add: as_bytes_def comp_def)
  have size': "saturating_add_usize decoded (length l + 1) = decoded + length l + 1"
    using Cons.prems(5) by (simp add: saturating_add_usize_def usize_max_def)
  have "parse_dns_name_loop bs cursor None jumps decoded done' =
      parse_dns_name_loop bs (cursor + 1 + length l) None jumps (decoded + length l + 1) (done' @ [l])"
    using head byte label chars plain size' Cons.prems(3,5) len
    by (subst parse_dns_name_loop.simps) (simp add: checked_add_def usize_max_def del: slice_range_eq_Some)
  also have "\<dots> = Ok (to_ascii_lowercase (join ''.'' ((done' @ [l]) @ labels)), cursor + 1 + length l + length (enc_name labels))"
    using Cons.prems(3-5) len by (intro Cons.IH [OF rest]) auto
  finally show ?case by (simp add: enc_name_def)
qed

lemma dns_query_parts:
  fixes query_id record_type :: u16 and labels :: "string list"
  defines "bs \<equiv> dns_query query_id labels record_type"
  shows "drop 12 bs = enc_name labels @ to_be_bytes16 record_type @ to_be_bytes16 1"
    and "read_network_u16 bs 0 = Ok query_id" and "read_network_u16 bs 2 = Ok 0x0100"
    and "read_network_u16 bs 4 = Ok 1" and "read_network_u16 bs 6 = Ok 0"
proof -
  have len: "length (to_be_bytes16 w) = 2" for w by (simp add: to_be_bytes16_def)
  have long: "12 \<le> length bs" by (simp add: bs_def dns_query_def len)
  show "drop 12 bs = enc_name labels @ to_be_bytes16 record_type @ to_be_bytes16 1"
    by (simp add: bs_def dns_query_def len)
  show "read_network_u16 bs 0 = Ok query_id"
    by (intro read_network_u16_reads) (simp_all add: bs_def dns_query_def len)
  have at: "drop n bs = to_be_bytes16 w @ b \<Longrightarrow> n \<le> 12 \<Longrightarrow> read_network_u16 bs n = Ok w" for n w b
    using long by (intro read_network_u16_reads) auto
  show "read_network_u16 bs 2 = Ok 0x0100" by (rule at) (simp_all add: bs_def dns_query_def len)
  show "read_network_u16 bs 4 = Ok 1" by (rule at) (simp_all add: bs_def dns_query_def len)
  show "read_network_u16 bs 6 = Ok 0" by (rule at) (simp_all add: bs_def dns_query_def len)
qed

text \<open>
  A DNS question round trip. A query for a name of valid labels decodes to its identifier, the
  dotted lower-case name and the record type, as a query.
\<close>

theorem dns_query_round_trip:
  assumes "list_all valid_label labels" and "sum_list (map (\<lambda>l. length l + 1) labels) \<le> 254"
  shows "decode_dns_message (dns_query query_id labels record_type) =
    Ok \<lparr>dd_query_id = query_id, dd_response = False, dd_response_code = 0, dd_answer_count = 0,
       dd_name = Some (to_ascii_lowercase (join ''.'' labels)),
       dd_record_type = Some (dns_record_type record_type)\<rparr>"
proof -
  let ?bs = "dns_query query_id labels record_type"
  let ?stop = "12 + length (enc_name labels)"
  note parts = dns_query_parts [of query_id labels record_type]
  have "length (enc_name labels) = sum_list (map (\<lambda>l. length l + 1) labels) + 1"
    by (induction labels) (simp_all add: enc_name_def)
  then have len: "length ?bs = ?stop + 4" "length ?bs < 2 ^ 31"
    using assms(2) by (simp_all add: dns_query_def to_be_bytes16_def)
  have name: "parse_dns_name ?bs 12 = Ok (to_ascii_lowercase (join ''.'' labels), ?stop)"
    using parse_dns_name_loop_reads [OF parts(1), of 0 0 "[]"] assms len by (simp add: parse_dns_name_def)
  have rest: "drop ?stop ?bs = to_be_bytes16 record_type @ to_be_bytes16 1"
    using drop_next [OF parts(1)] .
  have "drop (?stop + length (to_be_bytes16 record_type)) ?bs = to_be_bytes16 1 @ []"
    using drop_next [OF rest] by simp
  then have class_field: "read_network_u16 ?bs (?stop + 2) = Ok 1"
    using read_network_u16_reads [of "?stop + 2" ?bs 1 "[]"] len by (simp add: to_be_bytes16_def)
  have "read_network_u16 ?bs ?stop = Ok record_type"
    using read_network_u16_reads [OF rest] len by simp
  with class_field name parts len(1) show ?thesis
    by (simp add: decode_dns_message_def)
qed

theorem dns_query_round_trip_witness:
  "dd_name (projr (decode_dns_message (dns_query 0x1234 [''_mongodb'', ''_tcp'', ''Example'', ''com''] 33))) =
     Some ''_mongodb._tcp.example.com''"
proof -
  have "list_all valid_label [''_mongodb'', ''_tcp'', ''Example'', ''com'']"
    "to_ascii_lowercase (join ''.'' [''_mongodb'', ''_tcp'', ''Example'', ''com'']) = ''_mongodb._tcp.example.com''"
    by code_simp+
  with dns_query_round_trip [of "[''_mongodb'', ''_tcp'', ''Example'', ''com'']" "0x1234" 33] show ?thesis
    by simp
qed

end
