(* ===== verification/Bson_Json.thy ===== *)
theory Bson_Json
  imports Bson
begin

text \<open>
  The BSON-to-JSON conversion and the delete-statement summaries of
  \<open>crates/mongo-protocol/src/lib.rs\<close>. The conversion recurses through nested documents and arrays;
  its termination proof is that every nested value is a strictly shorter slice.
\<close>

subsection \<open>Hexadecimal text\<close>

definition hex_digits :: string where
  "hex_digits = ''0123456789abcdef''"

definition encode_hex :: "bytes \<Rightarrow> string" where
  "encode_hex bs =
     concat (map (\<lambda>b. [hex_digits ! unat (drop_bit 4 b), hex_digits ! unat (b AND 0x0f)]) bs)"

subsection \<open>Documents and arrays\<close>

text \<open>The check that opens every document reader: the length field is the slice's length and the last byte is 0.\<close>

definition check_document :: "bytes \<Rightarrow> unit decode" where
  "check_document document =
     (if length document < 5 then Fail InvalidBson
      else rbind (read_i32 document 0) (\<lambda>declared.
        if i32_as_usize declared \<noteq> length document \<or> last document \<noteq> 0 then Fail InvalidBson
        else Ok ()))"

abbreviation json_object :: "(string \<times> json_value) list \<Rightarrow> json_value" where
  "json_object members \<equiv> JObject members"

function bson_container_to_json :: "bytes \<Rightarrow> bool \<Rightarrow> json_value decode"
  and bson_container_loop ::
    "bytes \<Rightarrow> bool \<Rightarrow> usize \<Rightarrow> (string, json_value) hashmap \<Rightarrow> json_value list \<Rightarrow> json_value decode"
  and bson_value_to_json :: "bytes \<Rightarrow> usize \<Rightarrow> u8 \<Rightarrow> (json_value \<times> usize) decode"
where
  "bson_container_to_json document array =
     rbind (check_document document) (\<lambda>_. bson_container_loop document array 4 [] [])"
| "bson_container_loop document array offset object items =
     (if offset < length document - 1 then
        rbind (slice_index document offset) (\<lambda>element_type.
        rbind (read_cstring document (offset + 1)) (\<lambda>(key, after_key).
        rbind (bson_value_to_json document after_key element_type) (\<lambda>(value, next).
        if next > length document - 1 then Fail InvalidBson
        else if array then bson_container_loop document array next object (items @ [value])
        else bson_container_loop document array next (hm_insert key value object) items)))
      else Ok (if array then JArray items else JObject object))"
| "bson_value_to_json bs offset element_type =
     rbind (skip_value bs offset element_type) (\<lambda>end'.
     rbind
       (if element_type = 0x01 then
          rbind (ok_or (slice_range bs offset end') InvalidBson) (\<lambda>b.
          let value = from_le_bytes b in
          Ok (if f64_is_finite value then JNumber (Float value)
              else json_object [(''$numberDouble'', JString (f64_nonfinite_string value))]))
        else if element_type = 0x02 then
          rbind (read_bson_string bs offset) (\<lambda>s. Ok (JString s))
        else if element_type = 0x03 then
          rbind (ok_or (slice_range bs offset end') InvalidBson) (\<lambda>b. bson_container_to_json b False)
        else if element_type = 0x04 then
          rbind (ok_or (slice_range bs offset end') InvalidBson) (\<lambda>b. bson_container_to_json b True)
        else if element_type = 0x05 then
          rbind (ok_or (slice_get bs (offset + 4)) InvalidBson) (\<lambda>subtype.
          rbind (read_bson_binary bs offset) (\<lambda>data.
          Ok (json_object [(''$binary'', json_object
                [(''hex'', JString (encode_hex data)),
                 (''subType'', JString (zero_pad 2 (digits_of 16 (unat subtype))))])])))
        else if element_type = 0x06 then Ok (json_object [(''$undefined'', JBool True)])
        else if element_type = 0x07 then
          rbind (ok_or (slice_range bs offset end') InvalidBson) (\<lambda>b.
          Ok (json_object [(''$oid'', JString (encode_hex b))]))
        else if element_type = 0x08 then
          rbind (ok_or (slice_get bs offset) InvalidBson) (\<lambda>b. Ok (JBool (b \<noteq> 0)))
        else if element_type = 0x09 then
          rbind (read_i64 bs offset) (\<lambda>v.
          Ok (json_object [(''$date'', json_object [(''$numberLong'', JString (int_string (sint v)))])]))
        else if element_type = 0x0a then Ok JNull
        else if element_type = 0x0b then
          rbind (read_cstring bs offset) (\<lambda>(pattern, after_pattern).
          rbind (read_cstring bs after_pattern) (\<lambda>(options, _).
          Ok (json_object [(''$regularExpression'', json_object
                [(''pattern'', JString pattern), (''options'', JString options)])])))
        else if element_type = 0x0c then
          rbind (read_bson_string bs offset) (\<lambda>namespace.
          rbind (read_i32 bs offset) (\<lambda>namespace_length.
          rbind (ok_or (slice_range bs (offset + 4 + i32_as_usize namespace_length) end') InvalidBson) (\<lambda>b.
          Ok (json_object [(''$dbPointer'', json_object
                [(''$ref'', JString namespace), (''$id'', JString (encode_hex b))])]))))
        else if element_type = 0x0d then
          rbind (read_bson_string bs offset) (\<lambda>s. Ok (json_object [(''$code'', JString s)]))
        else if element_type = 0x0e then
          rbind (read_bson_string bs offset) (\<lambda>s. Ok (json_object [(''$symbol'', JString s)]))
        else if element_type = 0x10 then
          rbind (read_i32 bs offset) (\<lambda>v. Ok (json_i32 v))
        else if element_type = 0x11 then
          rbind (read_u64 bs offset) (\<lambda>value.
          Ok (json_object [(''$timestamp'', json_object
                [(''t'', JNumber (PosInt (drop_bit 32 value))),
                 (''i'', JNumber (PosInt (value AND 0xffffffff)))])]))
        else if element_type = 0x12 then
          rbind (read_i64 bs offset) (\<lambda>v. Ok (json_i64 v))
        else if element_type = 0x13 then
          rbind (ok_or (slice_range bs offset end') InvalidBson) (\<lambda>b.
          Ok (json_object [(''$numberDecimalBytes'', JString (encode_hex b))]))
        else if element_type = 0x7f then Ok (json_object [(''$maxKey'', JNumber (PosInt 1))])
        else if element_type = 0xff then Ok (json_object [(''$minKey'', JNumber (PosInt 1))])
        else Fail InvalidBson)
       (\<lambda>value. Ok (value, end')))"
  by pat_completeness auto

termination
proof -
  have partial: "skip_value bs offset t = Inr n"
    if "bson_container_to_json_bson_container_loop_bson_value_to_json_dom (Inr (Inr (bs, offset, t)))"
      "bson_value_to_json bs offset t = Inr (v, n)" for bs offset t v n
    using that by (simp add: bson_value_to_json.psimps)
  show ?thesis
    by (relation "measure (\<lambda>x. case x of
        Inl (document, _) \<Rightarrow> 2 * length document
      | Inr (Inl (document, _, offset, _, _)) \<Rightarrow> 2 * (length document - offset) + 1
      | Inr (Inr (bs, offset, _)) \<Rightarrow> 2 * (length bs - offset) + 1)")
      (auto dest!: partial skip_value_bounds read_cstring_bounds simp: check_document_def split: if_splits)
qed

declare bson_container_to_json.simps [simp del]
  and bson_container_loop.simps [simp del]
  and bson_value_to_json.simps [simp del]

definition bson_document_to_json :: "bytes \<Rightarrow> json_value decode" where
  "bson_document_to_json document = bson_container_to_json document False"

definition bson_array_to_json :: "bytes \<Rightarrow> json_value decode" where
  "bson_array_to_json document = bson_container_to_json document True"

subsection \<open>Document sequences\<close>

text \<open>One document of a sequence: its length field and its end, \<open>InvalidBson\<close> if it does not fit.\<close>

definition sequence_document_end :: "bytes \<Rightarrow> usize \<Rightarrow> usize decode" where
  "sequence_document_end documents offset =
     rbind (read_i32 documents offset) (\<lambda>len.
     if sint len < 5 then Fail InvalidBson else end_within documents offset (i32_as_usize len))"

lemma sequence_document_end_bounds [advances]:
  "sequence_document_end documents offset = Inr e \<Longrightarrow> offset < e \<and> e \<le> length documents"
  by (auto simp: sequence_document_end_def not_less dest: i32_as_usize_le_sint [where n = 5, simplified]
      split: if_splits)

lemma sequence_document_end_safe [no_panic, simp]: "safe (sequence_document_end documents offset)"
  unfolding sequence_document_end_def by (intro no_panic)

function bson_document_sequence_loop ::
  "bytes \<Rightarrow> usize \<Rightarrow> json_value list \<Rightarrow> json_value list decode" where
  "bson_document_sequence_loop documents offset result =
     (if offset < length documents then
        rbind (sequence_document_end documents offset) (\<lambda>end'.
        rbind (slice_sub documents offset end') (\<lambda>document.
        rbind (bson_document_to_json document) (\<lambda>value.
        bson_document_sequence_loop documents end' (result @ [value]))))
      else Ok result)"
  by pat_completeness auto
termination
  by (relation "measure (\<lambda>(documents, offset, _). length documents - offset)")
    (auto dest: sequence_document_end_bounds)

declare bson_document_sequence_loop.simps [simp del]

definition bson_document_sequence_to_json :: "bytes \<Rightarrow> json_value list decode" where
  "bson_document_sequence_to_json documents = bson_document_sequence_loop documents 0 []"

subsection \<open>Delete statements\<close>

function delete_statement_limit_loop :: "bytes \<Rightarrow> usize \<Rightarrow> i32 option decode" where
  "delete_statement_limit_loop statement offset =
     (if offset < length statement - 1 then
        rbind (slice_index statement offset) (\<lambda>element_type.
        rbind (read_cstring statement (offset + 1)) (\<lambda>(key, value_start).
        rbind (skip_value statement value_start element_type) (\<lambda>next.
        if key = ''limit'' then Ok (read_i32ish statement value_start element_type)
        else delete_statement_limit_loop statement next)))
      else Ok None)"
  by pat_completeness auto
termination
  by (relation "measure (\<lambda>(statement, offset). length statement - offset)")
    (auto dest!: advances)

declare delete_statement_limit_loop.simps [simp del]

definition delete_statement_limit :: "bytes \<Rightarrow> i32 option decode" where
  "delete_statement_limit statement =
     rbind (check_document statement) (\<lambda>_. delete_statement_limit_loop statement 4)"

definition scope_of :: "bool \<Rightarrow> bool \<Rightarrow> delete_scope option" where
  "scope_of has_single has_multi =
     (if has_single \<and> has_multi then Some Mixed
      else if has_single then Some Single
      else if has_multi then Some Multi
      else None)"

function summarize_delete_statements_loop ::
  "bytes \<Rightarrow> usize \<Rightarrow> u32 \<Rightarrow> bool \<Rightarrow> bool \<Rightarrow> (delete_scope option \<times> u32) decode" where
  "summarize_delete_statements_loop array offset statements has_single has_multi =
     (if offset < length array - 1 then
        rbind (slice_index array offset) (\<lambda>element_type.
        rbind (read_cstring array (offset + 1)) (\<lambda>(_, value_start).
        rbind (skip_value array value_start element_type) (\<lambda>next.
        if element_type \<noteq> 0x03
        then summarize_delete_statements_loop array next statements has_single has_multi
        else
          rbind (ok_or (slice_range array value_start next) InvalidBson) (\<lambda>statement.
          rbind (delete_statement_limit statement) (\<lambda>limit.
          summarize_delete_statements_loop array next (saturating_add statements 1)
            (has_single \<or> limit = Some 1) (has_multi \<or> limit = Some 0))))))
      else Ok (scope_of has_single has_multi, statements))"
  by pat_completeness auto
termination
  by (relation "measure (\<lambda>(array, offset, _). length array - offset)")
    (auto dest!: advances)

declare summarize_delete_statements_loop.simps [simp del]

definition summarize_delete_statements :: "bytes \<Rightarrow> (delete_scope option \<times> u32) decode" where
  "summarize_delete_statements array =
     rbind (check_document array) (\<lambda>_. summarize_delete_statements_loop array 4 0 False False)"

function summarize_delete_sequence_loop ::
  "bytes \<Rightarrow> usize \<Rightarrow> u32 \<Rightarrow> bool \<Rightarrow> bool \<Rightarrow> (delete_scope option \<times> u32) decode" where
  "summarize_delete_sequence_loop documents offset statements has_single has_multi =
     (if offset < length documents then
        rbind (sequence_document_end documents offset) (\<lambda>end'.
        rbind (slice_sub documents offset end') (\<lambda>statement.
        rbind (delete_statement_limit statement) (\<lambda>limit.
        summarize_delete_sequence_loop documents end' (saturating_add statements 1)
          (has_single \<or> limit = Some 1) (has_multi \<or> limit = Some 0))))
      else Ok (scope_of has_single has_multi, statements))"
  by pat_completeness auto
termination
  by (relation "measure (\<lambda>(documents, offset, _). length documents - offset)")
    (auto dest: sequence_document_end_bounds)

declare summarize_delete_sequence_loop.simps [simp del]

definition summarize_delete_document_sequence :: "bytes \<Rightarrow> (delete_scope option \<times> u32) decode" where
  "summarize_delete_document_sequence documents =
     summarize_delete_sequence_loop documents 0 0 False False"

subsection \<open>No reader panics\<close>

lemma check_document_safe [no_panic, simp]: "safe (check_document document)"
  unfolding check_document_def by (intro no_panic)

lemma check_document_length: "check_document document = Inr u \<Longrightarrow> 5 \<le> length document"
  by (auto simp: check_document_def split: if_splits)

lemma bson_to_json_safe:
  "safe (bson_container_to_json document array)"
  "safe (bson_container_loop document array offset object items)"
  "safe (bson_value_to_json bs pos t)"
proof (induction document array and document array offset object items and bs pos t
    rule: bson_container_to_json_bson_container_loop_bson_value_to_json.induct)
  case (1 document array)
  then show ?case
    unfolding bson_container_to_json.simps by (intro no_panic)
next
  case (2 document array offset object items)
  then show ?case
    unfolding bson_container_loop.simps [of document array offset]
    by (auto intro!: no_panic split: prod.splits)
next
  case (3 bs offset t)
  then show ?case
    unfolding bson_value_to_json.simps [of bs offset t] Let_def
    by (intro no_panic) (auto intro!: no_panic split: prod.splits)
qed

lemma bson_document_to_json_safe [no_panic, simp]: "safe (bson_document_to_json document)"
  by (simp add: bson_document_to_json_def bson_to_json_safe)

lemma bson_document_sequence_loop_safe: "safe (bson_document_sequence_loop documents offset result)"
proof (induction documents offset result rule: bson_document_sequence_loop.induct)
  case (1 documents offset result)
  then show ?case
    unfolding bson_document_sequence_loop.simps [of documents offset]
    by (auto intro!: no_panic dest: sequence_document_end_bounds)
qed

lemma bson_document_sequence_to_json_safe [no_panic, simp]:
  "safe (bson_document_sequence_to_json documents)"
  by (simp add: bson_document_sequence_to_json_def bson_document_sequence_loop_safe)

lemma delete_statement_limit_loop_safe: "safe (delete_statement_limit_loop statement offset)"
proof (induction statement offset rule: delete_statement_limit_loop.induct)
  case (1 statement offset)
  then show ?case
    unfolding delete_statement_limit_loop.simps [of statement offset]
    by (auto intro!: no_panic split: prod.splits)
qed

lemma delete_statement_limit_safe [no_panic, simp]: "safe (delete_statement_limit statement)"
  by (auto simp: delete_statement_limit_def delete_statement_limit_loop_safe intro!: no_panic)

lemma summarize_delete_statements_loop_safe:
  "safe (summarize_delete_statements_loop array offset statements has_single has_multi)"
proof (induction array offset statements has_single has_multi
    rule: summarize_delete_statements_loop.induct)
  case (1 array offset statements has_single has_multi)
  then show ?case
    unfolding summarize_delete_statements_loop.simps [of array offset]
    by (auto intro!: no_panic split: prod.splits)
qed

lemma summarize_delete_statements_safe [no_panic, simp]: "safe (summarize_delete_statements array)"
  by (auto simp: summarize_delete_statements_def summarize_delete_statements_loop_safe intro!: no_panic)

lemma summarize_delete_sequence_loop_safe:
  "safe (summarize_delete_sequence_loop documents offset statements has_single has_multi)"
proof (induction documents offset statements has_single has_multi
    rule: summarize_delete_sequence_loop.induct)
  case (1 documents offset statements has_single has_multi)
  then show ?case
    unfolding summarize_delete_sequence_loop.simps [of documents offset]
    by (auto intro!: no_panic dest: sequence_document_end_bounds)
qed

lemma summarize_delete_document_sequence_safe [no_panic, simp]:
  "safe (summarize_delete_document_sequence documents)"
  by (simp add: summarize_delete_document_sequence_def summarize_delete_sequence_loop_safe)

text \<open>\<open>value["key"]\<close> and \<open>value[0]\<close> of \<open>serde_json\<close>, which the tests use.\<close>

fun json_get :: "string \<Rightarrow> json_value \<Rightarrow> json_value" where
  "json_get key (JObject members) = (case map_of members key of None \<Rightarrow> JNull | Some v \<Rightarrow> v)"
| "json_get key _ = JNull"

fun json_at :: "nat \<Rightarrow> json_value \<Rightarrow> json_value" where
  "json_at n (JArray vs) = (if n < length vs then vs ! n else JNull)"
| "json_at n _ = JNull"

end
