(* ===== verification/Summary.thy ===== *)
theory Summary
  imports Bson_Json
begin

text \<open>
  Command metadata of \<open>crates/mongo-protocol/src/lib.rs\<close>: what the sensor extracts from a command
  document (\<open>summarize_bson_inner\<close>) or from its bounded prefix (\<open>summarize_bson_prefix\<close>), the SCRAM
  user name parser, and the deny-by-default tables that decide which string is a collection, which a
  principal, and which command's document may be kept as query content.
\<close>

subsection \<open>Data\<close>

record mongo_command =
  cmd_name :: string
  cmd_database :: "string option"
  cmd_collection :: "string option"
  cmd_auth_mechanism :: "string option"
  cmd_principal :: "string option"
  cmd_speculative_auth :: bool
  cmd_delete_scope :: "delete_scope option"
  cmd_delete_statements :: "u32 option"
  cmd_query :: "json_value option"

record response_status =
  rs_ok :: "bool option"
  rs_code :: "i32 option"
  rs_code_name :: "string option"
  rs_affected_count :: "u64 option"
  rs_auth_done :: "bool option"

record bson_summary =
  bs_first_key :: "string option"
  bs_first_string :: "string option"
  bs_database :: "string option"
  bs_collection :: "string option"
  bs_ok :: "bool option"
  bs_code :: "i32 option"
  bs_code_name :: "string option"
  bs_auth_mechanism :: "string option"
  bs_principal :: "string option"
  bs_speculative_auth :: bool
  bs_delete_scope :: "delete_scope option"
  bs_delete_statements :: "u32 option"
  bs_affected_count :: "u64 option"
  bs_auth_done :: "bool option"
  bs_query :: "json_value option"

text \<open>\<open>BsonSummary::default()\<close>.\<close>

definition default_summary :: bson_summary where
  "default_summary = \<lparr>bs_first_key = None, bs_first_string = None, bs_database = None,
     bs_collection = None, bs_ok = None, bs_code = None, bs_code_name = None,
     bs_auth_mechanism = None, bs_principal = None, bs_speculative_auth = False,
     bs_delete_scope = None, bs_delete_statements = None, bs_affected_count = None,
     bs_auth_done = None, bs_query = None\<rparr>"

subsection \<open>Command tables\<close>

definition command_captures_query :: "string \<Rightarrow> bool" where
  "command_captures_query command \<longleftrightarrow>
     command \<in> {''find'', ''aggregate'', ''insert'', ''update'', ''delete''}"

definition command_has_collection_argument :: "string \<Rightarrow> bool" where
  "command_has_collection_argument command \<longleftrightarrow>
     command \<in> {''aggregate'', ''clonecollectionascapped'', ''collmod'', ''compact'',
       ''converttocapped'', ''count'', ''create'', ''createindexes'', ''delete'', ''distinct'',
       ''drop'', ''dropindexes'', ''emptycapped'', ''find'', ''findandmodify'', ''geosearch'',
       ''getmore'', ''insert'', ''killcursors'', ''listindexes'', ''mapreduce'',
       ''parallelcollectionscan'', ''renamecollection'', ''update'', ''validate''}"

definition command_has_principal_argument :: "string \<Rightarrow> bool" where
  "command_has_principal_argument command \<longleftrightarrow>
     command \<in> {''createuser'', ''dropuser'', ''grantrolestouser'', ''revokerolesfromuser'',
       ''updateuser'', ''usersinfo''}"

definition command_from_summary :: "bson_summary \<Rightarrow> mongo_command option" where
  "command_from_summary summary =
     (case bs_first_key summary of
        None \<Rightarrow> None
      | Some name \<Rightarrow>
          let normalized = to_ascii_lowercase name in
          Some \<lparr>cmd_name = name,
            cmd_database = bs_database summary,
            cmd_collection =
              (if command_has_collection_argument normalized
               then option_or (bs_first_string summary) (bs_collection summary) else None),
            cmd_auth_mechanism = bs_auth_mechanism summary,
            cmd_principal =
              option_or (bs_principal summary)
                (if command_has_principal_argument normalized then bs_first_string summary else None),
            cmd_speculative_auth = bs_speculative_auth summary,
            cmd_delete_scope = (if normalized = ''delete'' then bs_delete_scope summary else None),
            cmd_delete_statements =
              (if normalized = ''delete'' then bs_delete_statements summary else None),
            cmd_query = bs_query summary\<rparr>)"

subsection \<open>SCRAM user names\<close>

text \<open>\<open>fields.find_map(|f| f.strip_prefix("n=").filter(|v| !v.is_empty()))\<close>.\<close>

fun scram_name_field :: "string list \<Rightarrow> string option" where
  "scram_name_field [] = None"
| "scram_name_field (piece # rest) =
     (case strip_prefix ''n='' piece of
        Some value \<Rightarrow> if value \<noteq> [] then Some value else scram_name_field rest
      | None \<Rightarrow> scram_name_field rest)"

definition parse_scram_principal :: "bytes \<Rightarrow> string option" where
  "parse_scram_principal payload =
     Option.bind (from_utf8 payload) (\<lambda>text.
     Option.bind (scram_name_field (split_on (CHR '','') text)) (\<lambda>encoded.
     if length encoded > 768 then None
     else
       let decoded = str_replace ''=3D'' ''='' (str_replace ''=2C'' '','' encoded) in
       then_some (decoded \<noteq> [] \<and> length decoded \<le> 256 \<and> \<not> has_control decoded) decoded))"

subsection \<open>Summaries of complete documents\<close>

text \<open>The bookkeeping for the first element of a document.\<close>

definition summarize_first ::
  "bytes \<Rightarrow> string \<Rightarrow> u8 \<Rightarrow> usize \<Rightarrow> usize \<Rightarrow> bson_summary \<Rightarrow> bson_summary decode" where
  "summarize_first document key element_type value_start ordinal summary =
     (if ordinal = 0 then
        let summary = summary\<lparr>bs_first_key := Some key\<rparr> in
        if element_type = 0x02 then
          rbind (attempt (read_bson_string document value_start)) (\<lambda>s.
          Ok (summary\<lparr>bs_first_string := s\<rparr>))
        else Ok summary
      else Ok summary)"

text \<open>The arms of \<open>match key\<close> for plain fields, the same in both summarizers.\<close>

definition summarize_field ::
  "bytes \<Rightarrow> string \<Rightarrow> u8 \<Rightarrow> usize \<Rightarrow> bson_summary \<Rightarrow> bson_summary decode" where
  "summarize_field document key element_type value_start summary =
     (if key = ''$db'' \<and> element_type = 0x02 then
        rbind (attempt (read_bson_string document value_start)) (\<lambda>s. Ok (summary\<lparr>bs_database := s\<rparr>))
      else if key = ''collection'' \<and> element_type = 0x02 then
        rbind (attempt (read_bson_string document value_start)) (\<lambda>s. Ok (summary\<lparr>bs_collection := s\<rparr>))
      else if key = ''ok'' then
        Ok (summary\<lparr>bs_ok := read_boolish document value_start element_type\<rparr>)
      else if key = ''code'' then
        Ok (summary\<lparr>bs_code := read_i32ish document value_start element_type\<rparr>)
      else if key = ''n'' then
        Ok (summary\<lparr>bs_affected_count := read_u64ish document value_start element_type\<rparr>)
      else if key = ''done'' then
        Ok (summary\<lparr>bs_auth_done := read_boolish document value_start element_type\<rparr>)
      else if key = ''codeName'' \<and> element_type = 0x02 then
        rbind (attempt (read_bson_string document value_start)) (\<lambda>s. Ok (summary\<lparr>bs_code_name := s\<rparr>))
      else if key = ''mechanism'' \<and> element_type = 0x02 then
        rbind (attempt (read_bson_string document value_start)) (\<lambda>s. Ok (summary\<lparr>bs_auth_mechanism := s\<rparr>))
      else if key = ''user'' \<and> element_type = 0x02 then
        rbind (attempt (read_bson_string document value_start)) (\<lambda>s. Ok (summary\<lparr>bs_principal := s\<rparr>))
      else if key = ''payload'' \<and> element_type = 0x05 then
        rbind (attempt (read_bson_binary document value_start)) (\<lambda>payload.
        Ok (summary\<lparr>bs_principal :=
          option_or (Option.bind payload parse_scram_principal) (bs_principal summary)\<rparr>))
      else Ok summary)"

text \<open>What a nested \<open>speculativeAuthenticate\<close> document contributes.\<close>

definition merge_speculative :: "bson_summary \<Rightarrow> bson_summary \<Rightarrow> bson_summary" where
  "merge_speculative nested summary = summary\<lparr>
     bs_speculative_auth :=
       (case bs_first_key nested of None \<Rightarrow> False | Some name \<Rightarrow> eq_ignore_ascii_case name ''saslStart''),
     bs_auth_mechanism := option_or (bs_auth_mechanism nested) (bs_auth_mechanism summary),
     bs_principal := option_or (bs_principal nested) (bs_principal summary),
     bs_auth_done := option_or (bs_auth_done nested) (bs_auth_done summary)\<rparr>"

text \<open>
  One element of a complete document. \<open>nested\<close> is the summarizer for a \<open>speculativeAuthenticate\<close>
  document, absent when \<open>allow_speculative_auth\<close> is false.
\<close>

definition summarize_element ::
  "(bytes \<Rightarrow> bson_summary decode) option \<Rightarrow> bytes \<Rightarrow> string \<Rightarrow> u8 \<Rightarrow> usize \<Rightarrow> usize \<Rightarrow>
   bson_summary \<Rightarrow> bson_summary decode" where
  "summarize_element nested document key element_type value_start offset summary =
     (if key = ''speculativeAuthenticate'' \<and> nested \<noteq> None \<and> element_type = 0x03 then
        (case slice_range document value_start offset of
           None \<Rightarrow> Ok summary
         | Some value \<Rightarrow>
             rbind (attempt (the nested value)) (\<lambda>n.
             Ok (case n of None \<Rightarrow> summary | Some inner \<Rightarrow> merge_speculative inner summary)))
      else if key = ''deletes'' \<and> element_type = 0x04 then
        rbind (ok_or (slice_range document value_start offset) InvalidBson) (\<lambda>value.
        rbind (attempt (summarize_delete_statements value)) (\<lambda>r.
        Ok (case r of
              None \<Rightarrow> summary
            | Some (scope, statements) \<Rightarrow>
                summary\<lparr>bs_delete_scope := scope, bs_delete_statements := Some statements\<rparr>)))
      else summarize_field document key element_type value_start summary)"

function summarize_loop ::
  "(bytes \<Rightarrow> bson_summary decode) option \<Rightarrow> bytes \<Rightarrow> usize \<Rightarrow> usize \<Rightarrow> bson_summary \<Rightarrow>
   bson_summary decode" where
  "summarize_loop nested document offset ordinal summary =
     (if offset < length document - 1 then
        rbind (slice_index document offset) (\<lambda>element_type.
        rbind (read_cstring document (offset + 1)) (\<lambda>(key, value_start).
        rbind (skip_value document value_start element_type) (\<lambda>next.
        if next > length document - 1 then Fail InvalidBson
        else
          rbind (summarize_first document key element_type value_start ordinal summary) (\<lambda>summary.
          rbind (summarize_element nested document key element_type value_start next summary) (\<lambda>summary.
          summarize_loop nested document next (ordinal + 1) summary)))))
      else Ok summary)"
  by pat_completeness auto
termination
  by (relation "measure (\<lambda>(nested, document, offset, _). length document - offset)")
    (auto dest!: advances)

declare summarize_loop.simps [simp del]

definition first_key_captures_query :: "bson_summary \<Rightarrow> bool" where
  "first_key_captures_query summary \<longleftrightarrow>
     (case bs_first_key summary of
        None \<Rightarrow> False
      | Some command \<Rightarrow> command_captures_query (to_ascii_lowercase command))"

definition summarize_document ::
  "(bytes \<Rightarrow> bson_summary decode) option \<Rightarrow> bytes \<Rightarrow> bson_summary decode" where
  "summarize_document nested document =
     rbind (check_document document) (\<lambda>_.
     rbind (summarize_loop nested document 4 0 default_summary) (\<lambda>summary.
     if first_key_captures_query summary then
       rbind (attempt (bson_document_to_json document)) (\<lambda>query. Ok (summary\<lparr>bs_query := query\<rparr>))
     else Ok summary))"

text \<open>The recursion of \<open>summarize_bson_inner\<close> is one level deep: the nested call passes \<open>false\<close>.\<close>

definition summarize_bson_inner :: "bytes \<Rightarrow> bool \<Rightarrow> bson_summary decode" where
  "summarize_bson_inner document allow_speculative_auth =
     summarize_document
       (if allow_speculative_auth then Some (summarize_document None) else None) document"

definition summarize_bson :: "bytes \<Rightarrow> bson_summary decode" where
  "summarize_bson document = summarize_bson_inner document True"

subsection \<open>Summaries of truncated documents\<close>

definition summarize_prefix_element ::
  "bytes \<Rightarrow> string \<Rightarrow> u8 \<Rightarrow> usize \<Rightarrow> usize option \<Rightarrow> bson_summary \<Rightarrow> bson_summary decode" where
  "summarize_prefix_element document key element_type value_start next summary =
     (if key = ''speculativeAuthenticate'' \<and> element_type = 0x03 then
        (case Option.bind next (slice_range document value_start) of
           None \<Rightarrow> Ok summary
         | Some value \<Rightarrow>
             rbind (attempt (summarize_bson_inner value False)) (\<lambda>n.
             Ok (case n of None \<Rightarrow> summary | Some inner \<Rightarrow> merge_speculative inner summary)))
      else if key = ''deletes'' \<and> element_type = 0x04 then
        (case Option.bind next (slice_range document value_start) of
           None \<Rightarrow> Ok summary
         | Some value \<Rightarrow>
             rbind (attempt (summarize_delete_statements value)) (\<lambda>r.
             Ok (case r of
                   None \<Rightarrow> summary
                 | Some (scope, statements) \<Rightarrow>
                     summary\<lparr>bs_delete_scope := scope, bs_delete_statements := Some statements\<rparr>)))
      else summarize_field document key element_type value_start summary)"

function summarize_prefix_loop ::
  "bytes \<Rightarrow> usize \<Rightarrow> usize \<Rightarrow> usize \<Rightarrow> bson_summary \<Rightarrow> bson_summary decode" where
  "summarize_prefix_loop document available_end offset ordinal summary =
     (if offset < available_end then
        (case slice_get document offset of
           None \<Rightarrow> Ok summary
         | Some element_type \<Rightarrow>
             rbind (attempt (read_cstring document (offset + 1))) (\<lambda>r.
             case r of
               None \<Rightarrow> Ok summary
             | Some (key, value_start) \<Rightarrow>
                 rbind (attempt (skip_value document value_start element_type)) (\<lambda>next.
                 rbind (summarize_first document key element_type value_start ordinal summary) (\<lambda>summary.
                 rbind (summarize_prefix_element document key element_type value_start next summary) (\<lambda>summary.
                 case next of
                   None \<Rightarrow> Ok summary
                 | Some n \<Rightarrow>
                     if n > value_start \<and> n \<le> available_end
                     then summarize_prefix_loop document available_end n (ordinal + 1) summary
                     else Ok summary)))))
      else Ok summary)"
  by pat_completeness auto
termination
  by (relation "measure (\<lambda>(document, available_end, offset, _). length document - offset)")
    (auto dest!: advances simp: slice_get_def split: if_splits)

declare summarize_prefix_loop.simps [simp del]

definition summarize_bson_prefix :: "bytes \<Rightarrow> bson_summary decode" where
  "summarize_bson_prefix document =
     (if length document < 5 then Fail Truncated
      else rbind (read_i32 document 0) (\<lambda>declared.
        if sint declared < 5 then Fail InvalidBson
        else let declared = i32_as_usize declared in
          if length document \<ge> declared then
            rbind (slice_sub document 0 declared) (\<lambda>whole. summarize_bson_inner whole True)
          else
            let available_end = min (length document) (declared - 1) in
            rbind (summarize_prefix_loop document available_end 4 0 default_summary) (\<lambda>summary.
            if bs_first_key summary = None then Fail Truncated else Ok summary)))"

subsection \<open>No summarizer panics\<close>

lemma summarize_first_safe [no_panic, simp]:
  "safe (summarize_first document key t value_start ordinal summary)"
  by (auto simp: summarize_first_def Let_def intro!: no_panic)

lemma summarize_field_safe [no_panic, simp]:
  "safe (summarize_field document key t value_start summary)"
  unfolding summarize_field_def by (intro no_panic)

lemma summarize_element_safe [no_panic]:
  assumes "\<And>f value. nested = Some f \<Longrightarrow> safe (f value)"
  shows "safe (summarize_element nested document key t value_start offset summary)"
  using assms
  by (cases nested) (auto simp: summarize_element_def intro!: no_panic split: option.splits)

lemma summarize_loop_safe:
  "(\<And>f value. nested = Some f \<Longrightarrow> safe (f value)) \<Longrightarrow>
   safe (summarize_loop nested document offset ordinal summary)"
proof (induction nested document offset ordinal summary rule: summarize_loop.induct)
  case (1 nested document offset ordinal summary)
  then show ?case
    unfolding summarize_loop.simps [of nested document offset]
    by (auto intro!: no_panic split: prod.splits)
qed

lemma summarize_document_safe:
  "(\<And>f value. nested = Some f \<Longrightarrow> safe (f value)) \<Longrightarrow> safe (summarize_document nested document)"
  unfolding summarize_document_def by (auto intro!: no_panic summarize_loop_safe)

lemma summarize_bson_inner_safe [no_panic, simp]: "safe (summarize_bson_inner document allow)"
  by (auto simp: summarize_bson_inner_def intro!: summarize_document_safe)

lemma summarize_bson_safe [no_panic, simp]: "safe (summarize_bson document)"
  by (simp add: summarize_bson_def)

lemma summarize_prefix_element_safe [no_panic, simp]:
  "safe (summarize_prefix_element document key t value_start next summary)"
  by (auto simp: summarize_prefix_element_def intro!: no_panic split: option.splits)

lemma summarize_prefix_loop_safe:
  "safe (summarize_prefix_loop document available_end offset ordinal summary)"
proof (induction document available_end offset ordinal summary rule: summarize_prefix_loop.induct)
  case (1 document available_end offset ordinal summary)
  then show ?case
    unfolding summarize_prefix_loop.simps [of document available_end offset]
    by (auto intro!: no_panic split: prod.splits option.splits)
qed

lemma summarize_bson_prefix_safe [no_panic, simp]: "safe (summarize_bson_prefix document)"
  unfolding summarize_bson_prefix_def Let_def
  by (auto intro!: no_panic summarize_prefix_loop_safe)

end
