(* ===== verification/Wire.thy ===== *)
theory Wire
  imports Summary
begin

text \<open>
  MongoDB wire messages, \<open>crates/mongo-protocol/src/lib.rs\<close>: complete frames (\<open>decode_frame\<close>),
  bounded prefixes of large frames (\<open>decode_frame_prefix\<close>), \<open>OP_MSG\<close>, \<open>OP_QUERY\<close>, \<open>OP_REPLY\<close> and the
  \<open>OP_COMPRESSED\<close> wrapper. The decompression libraries are parameters (\<open>codec\<close>).
\<close>

subsection \<open>Opcodes, messages and decompressors\<close>

definition OP_REPLY :: i32 where "OP_REPLY = 1"
definition OP_QUERY :: i32 where "OP_QUERY = 2004"
definition OP_COMPRESSED :: i32 where "OP_COMPRESSED = 2012"
definition OP_MSG :: i32 where "OP_MSG = 2013"
definition DEFAULT_MAX_MESSAGE_BYTES :: usize where "DEFAULT_MAX_MESSAGE_BYTES = 48 * 1024 * 1024"

lemmas opcode_defs = OP_REPLY_def OP_QUERY_def OP_COMPRESSED_def OP_MSG_def

record decoded_message =
  dm_request_id :: i32
  dm_response_to :: i32
  dm_wire_bytes :: u32
  dm_flags :: u32
  dm_more_to_come :: bool
  dm_compressed :: bool
  dm_command :: "mongo_command option"
  dm_status :: "response_status option"

text \<open>
  The crates \<open>snap\<close>, \<open>flate2\<close> and \<open>zstd\<close>: an error is its text. A streaming decoder is the bytes it
  yields and the error that ends it, if one does.
\<close>

record codec =
  snap_decompress_len :: "bytes \<Rightarrow> string + usize"
  snap_decompress_vec :: "bytes \<Rightarrow> string + bytes"
  zlib_stream :: "bytes \<Rightarrow> bytes \<times> string option"
  zstd_open :: "bytes \<Rightarrow> string option"
  zstd_stream :: "bytes \<Rightarrow> bytes \<times> string option"

text \<open>\<open>decoder.take(limit).read_to_end(&mut output)\<close>: the decoder is not read past \<open>limit\<close> bytes.\<close>

definition take_read_to_end :: "usize \<Rightarrow> bytes \<times> string option \<Rightarrow> bytes decode" where
  "take_read_to_end limit stream =
     (case stream of (output, failure) \<Rightarrow>
        if limit \<le> length output then Ok (take limit output)
        else (case failure of None \<Rightarrow> Ok output | Some e \<Rightarrow> Fail (Decompression e)))"

definition status_of_summary :: "bson_summary \<Rightarrow> response_status" where
  "status_of_summary summary = \<lparr>rs_ok = bs_ok summary, rs_code = bs_code summary,
     rs_code_name = bs_code_name summary, rs_affected_count = bs_affected_count summary,
     rs_auth_done = bs_auth_done summary\<rparr>"

subsection \<open>OP_MSG\<close>

text \<open>The loop over the sections of a complete message, from \<open>offset\<close> to \<open>end'\<close>.\<close>

function op_msg_sections ::
  "bytes \<Rightarrow> usize \<Rightarrow> usize \<Rightarrow> bson_summary option \<Rightarrow> (delete_scope option \<times> u32) option \<Rightarrow>
   (string \<times> json_value list) list \<Rightarrow>
   (bson_summary option \<times> (delete_scope option \<times> u32) option \<times> (string \<times> json_value list) list) decode"
where
  "op_msg_sections payload end' offset summary delete_sequence document_sequences =
     (if offset < end' then
        rbind (slice_index payload offset) (\<lambda>kind.
        if kind = 0 then
          rbind (read_i32 payload (offset + 1)) (\<lambda>document_length.
          if sint document_length < 5 then Fail InvalidBson
          else rbind (ok_or (checked_add (offset + 1) (i32_as_usize document_length)) InvalidBson) (\<lambda>document_end.
          if document_end > end' then Fail InvalidBson
          else rbind
            (case summary of
               Some s \<Rightarrow> Ok (Some s)
             | None \<Rightarrow>
                 rbind (slice_sub payload (offset + 1) document_end) (\<lambda>document.
                 rbind (summarize_bson document) (\<lambda>s. Ok (Some s))))
            (\<lambda>summary. op_msg_sections payload end' document_end summary delete_sequence document_sequences)))
        else if kind = 1 then
          rbind (read_i32 payload (offset + 1)) (\<lambda>section_size.
          if sint section_size < 5 then Fail InvalidBson
          else rbind (ok_or (checked_add (offset + 1) (i32_as_usize section_size)) InvalidBson) (\<lambda>section_end.
          if section_end > end' then Fail InvalidBson
          else rbind (read_cstring payload (offset + 1 + 4)) (\<lambda>(identifier, documents_start).
          if documents_start > section_end then Fail InvalidBson
          else rbind
            (if identifier = ''deletes'' then
               rbind (ok_or (slice_range payload documents_start section_end) InvalidBson) (\<lambda>documents.
               rbind (summarize_delete_document_sequence documents) (\<lambda>d. Ok (Some d)))
             else Ok delete_sequence)
            (\<lambda>delete_sequence.
          rbind (ok_or (slice_range payload documents_start section_end) InvalidBson) (\<lambda>documents.
          rbind (attempt (bson_document_sequence_to_json documents)) (\<lambda>json.
          op_msg_sections payload end' section_end summary delete_sequence
            (case json of None \<Rightarrow> document_sequences
             | Some docs \<Rightarrow> document_sequences @ [(identifier, docs)])))))))
        else Fail (UnsupportedSection kind))
      else Ok (summary, delete_sequence, document_sequences))"
  by pat_completeness auto
termination
  by (relation "measure (\<lambda>(payload, end', offset, _). end' - offset)")
    (auto simp: not_less dest!: i32_as_usize_le_sint [where n = 5, simplified])

declare op_msg_sections.simps [simp del]

text \<open>The document sequences become members of the query object.\<close>

definition attach_sequences ::
  "(string \<times> json_value list) list \<Rightarrow> bson_summary \<Rightarrow> bson_summary" where
  "attach_sequences document_sequences summary =
     (if first_key_captures_query summary then
        (case bs_query summary of
           Some (JObject query) \<Rightarrow>
             summary\<lparr>bs_query := Some (JObject
               (fold (\<lambda>(identifier, documents). hm_insert identifier (JArray documents))
                  document_sequences query))\<rparr>
         | _ \<Rightarrow> summary)
      else summary)"

definition decode_op_msg :: "i32 \<Rightarrow> i32 \<Rightarrow> usize \<Rightarrow> bytes \<Rightarrow> bool \<Rightarrow> decoded_message decode" where
  "decode_op_msg request_id response_to wire_bytes payload compressed =
     (if length payload < 5 then Fail Truncated
      else rbind (read_u32 payload 0) (\<lambda>flags.
      let checksum_bytes = (if flags AND 1 \<noteq> 0 then 4 else 0) in
      if length payload < 4 + checksum_bytes then Fail Truncated
      else
        rbind (op_msg_sections payload (length payload - checksum_bytes) 4 None None [])
          (\<lambda>(summary, delete_sequence, document_sequences).
        rbind (ok_or summary InvalidBson) (\<lambda>summary.
        let summary = (case delete_sequence of
              None \<Rightarrow> summary
            | Some (scope, statements) \<Rightarrow>
                summary\<lparr>bs_delete_scope := scope, bs_delete_statements := Some statements\<rparr>);
            summary = attach_sequences document_sequences summary in
        Ok \<lparr>dm_request_id = request_id, dm_response_to = response_to,
          dm_wire_bytes = u32_of_usize wire_bytes, dm_flags = flags,
          dm_more_to_come = (flags AND 2 \<noteq> 0), dm_compressed = compressed,
          dm_command = (if response_to = 0 then command_from_summary summary else None),
          dm_status = (if response_to \<noteq> 0 then Some (status_of_summary summary) else None)\<rparr>))))"

definition decode_op_msg_prefix :: "i32 \<Rightarrow> i32 \<Rightarrow> usize \<Rightarrow> bytes \<Rightarrow> decoded_message decode" where
  "decode_op_msg_prefix request_id response_to declared payload =
     (if length payload < 6 then Fail Truncated
      else rbind (read_u32 payload 0) (\<lambda>flags.
      rbind (slice_index payload 4) (\<lambda>kind.
      if kind \<noteq> 0 then Fail (UnsupportedSection kind)
      else
        rbind (slice_sub payload 5 (length payload)) (\<lambda>document.
        rbind (summarize_bson_prefix document) (\<lambda>summary.
        Ok \<lparr>dm_request_id = request_id, dm_response_to = response_to,
          dm_wire_bytes = u32_of_usize declared, dm_flags = flags,
          dm_more_to_come = (flags AND 2 \<noteq> 0), dm_compressed = False,
          dm_command = (if response_to = 0 then command_from_summary summary else None),
          dm_status = (if response_to \<noteq> 0 then Some (status_of_summary summary) else None)\<rparr>)))))"

subsection \<open>OP_QUERY\<close>

definition split_legacy_namespace :: "string \<Rightarrow> string option \<times> string option \<times> bool" where
  "split_legacy_namespace namespace =
     (case split_once (CHR ''.'') namespace of
        None \<Rightarrow> (None, None, False)
      | Some (database, collection) \<Rightarrow>
          if collection = ''$cmd'' \<or> starts_with ''$cmd.'' collection
          then (Some database, None, True)
          else (Some database, Some collection, False))"

definition decoded_op_query ::
  "i32 \<Rightarrow> i32 \<Rightarrow> usize \<Rightarrow> u32 \<Rightarrow> string \<Rightarrow> bson_summary \<Rightarrow> bool \<Rightarrow> decoded_message" where
  "decoded_op_query request_id response_to wire_bytes flags namespace summary compressed =
     (case split_legacy_namespace namespace of (database, namespace_collection, is_command) \<Rightarrow>
        let command =
          (if response_to \<noteq> 0 then None
           else if is_command then
             map_option (\<lambda>command.
               if cmd_database command = None then command\<lparr>cmd_database := database\<rparr> else command)
               (command_from_summary summary)
           else Some \<lparr>cmd_name = ''find'', cmd_database = database,
             cmd_collection = namespace_collection, cmd_auth_mechanism = None,
             cmd_principal = None, cmd_speculative_auth = False, cmd_delete_scope = None,
             cmd_delete_statements = None, cmd_query = bs_query summary\<rparr>) in
        \<lparr>dm_request_id = request_id, dm_response_to = response_to,
          dm_wire_bytes = u32_of_usize wire_bytes, dm_flags = flags, dm_more_to_come = False,
          dm_compressed = compressed, dm_command = command, dm_status = None\<rparr>)"

definition decode_op_query :: "i32 \<Rightarrow> i32 \<Rightarrow> usize \<Rightarrow> bytes \<Rightarrow> bool \<Rightarrow> decoded_message decode" where
  "decode_op_query request_id response_to wire_bytes payload compressed =
     (if length payload < 13 then Fail Truncated
      else rbind (read_u32 payload 0) (\<lambda>flags.
      rbind (read_cstring payload 4) (\<lambda>(namespace, after_namespace).
      rbind (ok_or (checked_add after_namespace 8) InvalidBson) (\<lambda>document_offset.
      rbind (read_i32 payload document_offset) (\<lambda>document_length.
      if sint document_length < 5 then Fail InvalidBson
      else rbind (ok_or (checked_add document_offset (i32_as_usize document_length)) InvalidBson) (\<lambda>document_end.
      if document_end > length payload then Fail InvalidBson
      else rbind (slice_sub payload document_offset document_end) (\<lambda>document.
      rbind (summarize_bson document) (\<lambda>summary.
      Ok (decoded_op_query request_id response_to wire_bytes flags namespace summary compressed)))))))))"

definition decode_op_query_prefix :: "i32 \<Rightarrow> i32 \<Rightarrow> usize \<Rightarrow> bytes \<Rightarrow> decoded_message decode" where
  "decode_op_query_prefix request_id response_to wire_bytes payload =
     (if length payload < 13 then Fail Truncated
      else rbind (read_u32 payload 0) (\<lambda>flags.
      rbind (read_cstring payload 4) (\<lambda>(namespace, after_namespace).
      rbind (ok_or (checked_add after_namespace 8) InvalidBson) (\<lambda>document_offset.
      rbind (ok_or (slice_from payload document_offset) Truncated) (\<lambda>document.
      rbind (summarize_bson_prefix document) (\<lambda>summary.
      Ok (decoded_op_query request_id response_to wire_bytes flags namespace summary False)))))))"

subsection \<open>OP_REPLY\<close>

definition decoded_op_reply ::
  "i32 \<Rightarrow> i32 \<Rightarrow> usize \<Rightarrow> u32 \<Rightarrow> bson_summary option \<Rightarrow> bool \<Rightarrow> decoded_message" where
  "decoded_op_reply request_id response_to wire_bytes flags summary compressed =
     (let failed = (flags AND 0x03 \<noteq> 0) in
      \<lparr>dm_request_id = request_id, dm_response_to = response_to,
        dm_wire_bytes = u32_of_usize wire_bytes, dm_flags = flags, dm_more_to_come = False,
        dm_compressed = compressed, dm_command = None,
        dm_status = Some \<lparr>
          rs_ok = option_or (Option.bind summary bs_ok) (Some (\<not> failed)),
          rs_code = Option.bind summary bs_code,
          rs_code_name = Option.bind summary bs_code_name,
          rs_affected_count = Option.bind summary bs_affected_count,
          rs_auth_done = Option.bind summary bs_auth_done\<rparr>\<rparr>)"

definition decode_op_reply :: "i32 \<Rightarrow> i32 \<Rightarrow> usize \<Rightarrow> bytes \<Rightarrow> bool \<Rightarrow> decoded_message decode" where
  "decode_op_reply request_id response_to wire_bytes payload compressed =
     (if length payload < 20 then Fail Truncated
      else rbind (read_u32 payload 0) (\<lambda>flags.
      rbind (read_i32 payload 16) (\<lambda>returned.
      rbind
        (if sint returned > 0 \<and> length payload > 20 then
           rbind (read_i32 payload 20) (\<lambda>document_length.
           if sint document_length < 5 then Fail InvalidBson
           else rbind (ok_or (checked_add 20 (i32_as_usize document_length)) InvalidBson) (\<lambda>document_end.
           if document_end > length payload then Fail InvalidBson
           else rbind (slice_sub payload 20 document_end) (\<lambda>document.
           rbind (summarize_bson document) (\<lambda>s. Ok (Some s)))))
         else Ok None)
        (\<lambda>summary.
      Ok (decoded_op_reply request_id response_to wire_bytes flags summary compressed)))))"

definition decode_op_reply_prefix :: "i32 \<Rightarrow> i32 \<Rightarrow> usize \<Rightarrow> bytes \<Rightarrow> decoded_message decode" where
  "decode_op_reply_prefix request_id response_to wire_bytes payload =
     (if length payload < 20 then Fail Truncated
      else rbind (read_u32 payload 0) (\<lambda>flags.
      rbind (read_i32 payload 16) (\<lambda>returned.
      rbind
        (if sint returned > 0 \<and> length payload > 20 then
           rbind (slice_sub payload 20 (length payload)) (\<lambda>document.
           rbind (summarize_bson_prefix document) (\<lambda>s. Ok (Some s)))
         else Ok None)
        (\<lambda>summary.
      Ok (decoded_op_reply request_id response_to wire_bytes flags summary False)))))"

subsection \<open>OP_COMPRESSED\<close>

definition decompress :: "codec \<Rightarrow> u8 \<Rightarrow> usize \<Rightarrow> bytes \<Rightarrow> bytes decode" where
  "decompress codec compressor uncompressed_size compressed =
     (if compressor = 0 then Ok compressed
      else if compressor = 1 then
        (case snap_decompress_len codec compressed of
           Inl e \<Rightarrow> Fail (Decompression e)
         | Inr decoded_size \<Rightarrow>
             if decoded_size \<noteq> uncompressed_size then Fail InvalidCompressed
             else (case snap_decompress_vec codec compressed of
                     Inl e \<Rightarrow> Fail (Decompression e)
                   | Inr out \<Rightarrow> Ok out))
      else if compressor = 2 then
        take_read_to_end (uncompressed_size + 1) (zlib_stream codec compressed)
      else if compressor = 3 then
        (case zstd_open codec compressed of
           Some e \<Rightarrow> Fail (Decompression e)
         | None \<Rightarrow> take_read_to_end (uncompressed_size + 1) (zstd_stream codec compressed))
      else Fail (UnsupportedCompressor compressor))"

definition decode_compressed ::
  "codec \<Rightarrow> i32 \<Rightarrow> i32 \<Rightarrow> usize \<Rightarrow> bytes \<Rightarrow> usize \<Rightarrow> decoded_message decode" where
  "decode_compressed codec request_id response_to wire_bytes payload max_message_bytes =
     (if length payload < 9 then Fail InvalidCompressed
      else rbind (read_i32 payload 0) (\<lambda>original_opcode.
      rbind (read_i32 payload 4) (\<lambda>uncompressed_size.
      if sint uncompressed_size < 0 \<or> i32_as_usize uncompressed_size > max_message_bytes - 16
      then Fail FrameTooLarge
      else rbind (slice_index payload 8) (\<lambda>compressor.
      rbind (slice_sub payload 9 (length payload)) (\<lambda>compressed.
      rbind (decompress codec compressor (i32_as_usize uncompressed_size) compressed) (\<lambda>uncompressed.
      if length uncompressed \<noteq> i32_as_usize uncompressed_size then Fail InvalidCompressed
      else if original_opcode = OP_MSG then
        decode_op_msg request_id response_to wire_bytes uncompressed True
      else if original_opcode = OP_QUERY then
        decode_op_query request_id response_to wire_bytes uncompressed True
      else if original_opcode = OP_REPLY then
        decode_op_reply request_id response_to wire_bytes uncompressed True
      else Fail (UnsupportedOpcode original_opcode)))))))"

subsection \<open>Frames\<close>

definition decode_frame :: "codec \<Rightarrow> bytes \<Rightarrow> usize \<Rightarrow> decoded_message decode" where
  "decode_frame codec frame max_message_bytes =
     (if length frame < 16 then Fail Truncated
      else rbind (read_i32 frame 0) (\<lambda>declared.
      if sint declared < 16 \<or> i32_as_usize declared \<noteq> length frame
      then Fail (InvalidFrameLength declared)
      else if length frame > max_message_bytes then Fail FrameTooLarge
      else rbind (read_i32 frame 4) (\<lambda>request_id.
      rbind (read_i32 frame 8) (\<lambda>response_to.
      rbind (read_i32 frame 12) (\<lambda>opcode.
      rbind (slice_sub frame 16 (length frame)) (\<lambda>payload.
      if opcode = OP_MSG then decode_op_msg request_id response_to (length frame) payload False
      else if opcode = OP_QUERY then decode_op_query request_id response_to (length frame) payload False
      else if opcode = OP_REPLY then decode_op_reply request_id response_to (length frame) payload False
      else if opcode = OP_COMPRESSED then
        decode_compressed codec request_id response_to (length frame) payload max_message_bytes
      else Fail (UnsupportedOpcode opcode)))))))"

definition decode_frame_prefix :: "codec \<Rightarrow> bytes \<Rightarrow> usize \<Rightarrow> decoded_message decode" where
  "decode_frame_prefix codec prefix max_message_bytes =
     (if length prefix < 16 then Fail Truncated
      else rbind (read_i32 prefix 0) (\<lambda>declared.
      if sint declared < 16 then Fail (InvalidFrameLength declared)
      else let declared = i32_as_usize declared in
      if declared > max_message_bytes then Fail FrameTooLarge
      else if length prefix \<ge> declared then
        rbind (slice_sub prefix 0 declared) (\<lambda>frame. decode_frame codec frame max_message_bytes)
      else rbind (read_i32 prefix 4) (\<lambda>request_id.
      rbind (read_i32 prefix 8) (\<lambda>response_to.
      rbind (read_i32 prefix 12) (\<lambda>opcode.
      if opcode = OP_COMPRESSED then Fail Truncated
      else rbind (slice_sub prefix 16 (length prefix)) (\<lambda>payload.
      if opcode = OP_MSG then decode_op_msg_prefix request_id response_to declared payload
      else if opcode = OP_QUERY then decode_op_query_prefix request_id response_to declared payload
      else if opcode = OP_REPLY then decode_op_reply_prefix request_id response_to declared payload
      else Fail (UnsupportedOpcode opcode)))))))"

subsection \<open>No decoder panics\<close>

lemma op_msg_sections_safe:
  "end' \<le> length payload \<Longrightarrow> safe (op_msg_sections payload end' offset summary deletes sequences)"
proof (induction "end' - offset" arbitrary: offset summary deletes sequences rule: less_induct)
  case less
  have later: "safe (op_msg_sections payload end' offset' s d q)"
    if "offset < offset'" "offset < end'" for offset' s d q
    using less.hyps [of offset'] less.prems that by (simp add: diff_less_mono2)
  have step: "offset < offset'"
    if "\<not> sint size' < 5" "ok_or (checked_add (offset + 1) (i32_as_usize size')) InvalidBson = Inr offset'"
    for size' offset'
    using that by simp
  show ?case
    unfolding op_msg_sections.simps [of payload end' offset]
    by (intro no_panic; ((rule later; (assumption | erule (1) step)) | (use less.prems in simp; fail)))
qed

lemma decode_op_msg_safe [no_panic]:
  "safe (decode_op_msg request_id response_to wire_bytes payload compressed)"
  unfolding decode_op_msg_def Let_def
  by (auto intro!: no_panic op_msg_sections_safe split: prod.splits)

lemma decode_op_msg_prefix_safe [no_panic]:
  "safe (decode_op_msg_prefix request_id response_to declared payload)"
  unfolding decode_op_msg_prefix_def by (auto intro!: no_panic)

lemma decode_op_query_safe [no_panic]:
  "safe (decode_op_query request_id response_to wire_bytes payload compressed)"
  unfolding decode_op_query_def by (auto intro!: no_panic split: prod.splits)

lemma decode_op_query_prefix_safe [no_panic]:
  "safe (decode_op_query_prefix request_id response_to wire_bytes payload)"
  unfolding decode_op_query_prefix_def by (auto intro!: no_panic split: prod.splits)

lemma decode_op_reply_safe [no_panic]:
  "safe (decode_op_reply request_id response_to wire_bytes payload compressed)"
  unfolding decode_op_reply_def by (auto intro!: no_panic)

lemma decode_op_reply_prefix_safe [no_panic]:
  "safe (decode_op_reply_prefix request_id response_to wire_bytes payload)"
  unfolding decode_op_reply_prefix_def by (auto intro!: no_panic)

lemma decompress_safe [no_panic]: "safe (decompress codec compressor n compressed)"
  by (auto simp: decompress_def take_read_to_end_def split: sum.splits option.splits prod.splits)

lemma decode_compressed_safe [no_panic]:
  "safe (decode_compressed codec request_id response_to wire_bytes payload max_message_bytes)"
  unfolding decode_compressed_def by (auto intro!: no_panic)

lemma decode_frame_safe [no_panic]: "safe (decode_frame codec frame max_message_bytes)"
  unfolding decode_frame_def by (auto intro!: no_panic)

lemma decode_frame_prefix_safe [no_panic]:
  "safe (decode_frame_prefix codec prefix max_message_bytes)"
  unfolding decode_frame_prefix_def Let_def by (auto intro!: no_panic)

end
