(* ===== verification/Bson_Encode.thy ===== *)
theory Bson_Encode
  imports Wire
begin

text \<open>
  An encoder for BSON and wire messages, taken from the helpers of the test module of
  \<open>crates/mongo-protocol/src/lib.rs\<close>. It is the reference the decoders are compared with, and it
  builds the concrete messages of the witnesses.
\<close>

subsection \<open>The encoders of the test module\<close>

definition i32_of_usize :: "usize \<Rightarrow> i32" where
  "i32_of_usize n = word_of_nat n"

text \<open>The type byte and the key that open every element.\<close>

definition element_header :: "u8 \<Rightarrow> string \<Rightarrow> bytes" where
  "element_header element_type key = element_type # as_bytes key @ [0]"

definition string_value :: "string \<Rightarrow> bytes" where
  "string_value value = to_le_bytes (i32_of_usize (length value + 1)) @ as_bytes value @ [0]"

definition binary_value :: "u8 \<Rightarrow> bytes \<Rightarrow> bytes" where
  "binary_value subtype value = to_le_bytes (i32_of_usize (length value)) @ subtype # value"

definition string_element :: "string \<Rightarrow> string \<Rightarrow> bytes" where
  "string_element key value = element_header 0x02 key @ string_value value"

definition double_element :: "string \<Rightarrow> f64 \<Rightarrow> bytes" where
  "double_element key value = element_header 0x01 key @ to_le_bytes value"

definition int_element :: "string \<Rightarrow> i32 \<Rightarrow> bytes" where
  "int_element key value = element_header 0x10 key @ to_le_bytes value"

definition bool_element :: "string \<Rightarrow> bool \<Rightarrow> bytes" where
  "bool_element key value = element_header 0x08 key @ [if value then 1 else 0]"

definition binary_element :: "string \<Rightarrow> bytes \<Rightarrow> bytes" where
  "binary_element key value = element_header 0x05 key @ binary_value 0 value"

definition embedded_element :: "u8 \<Rightarrow> string \<Rightarrow> bytes \<Rightarrow> bytes" where
  "embedded_element element_type key value = element_header element_type key @ value"

definition bson_document :: "bytes list \<Rightarrow> bytes" where
  "bson_document elements =
     (let body = concat elements @ [0] in to_le_bytes (i32_of_usize (4 + length body)) @ body)"

definition wire_frame :: "i32 \<Rightarrow> i32 \<Rightarrow> i32 \<Rightarrow> bytes \<Rightarrow> bytes" where
  "wire_frame request_id response_to opcode payload =
     to_le_bytes (i32_of_usize (16 + length payload)) @ to_le_bytes request_id @
     to_le_bytes response_to @ to_le_bytes opcode @ payload"

definition op_msg :: "i32 \<Rightarrow> i32 \<Rightarrow> u32 \<Rightarrow> bytes \<Rightarrow> bytes" where
  "op_msg request_id response_to flags bson =
     wire_frame request_id response_to OP_MSG (to_le_bytes flags @ 0 # bson)"

definition op_msg_with_document_sequence :: "i32 \<Rightarrow> bytes \<Rightarrow> string \<Rightarrow> bytes list \<Rightarrow> bytes" where
  "op_msg_with_document_sequence request_id body identifier documents =
     wire_frame request_id 0 OP_MSG
       (to_le_bytes (0 :: u32) @ 0 # body @ 1 #
        to_le_bytes (i32_of_usize (4 + length identifier + 1 + length (concat documents))) @
        as_bytes identifier @ 0 # concat documents)"

definition op_query :: "i32 \<Rightarrow> string \<Rightarrow> bytes \<Rightarrow> bytes" where
  "op_query request_id namespace bson =
     wire_frame request_id 0 OP_QUERY
       (to_le_bytes (0 :: u32) @ as_bytes namespace @ 0 # to_le_bytes (0 :: i32) @
        to_le_bytes (- 1 :: i32) @ bson)"

definition op_reply :: "i32 \<Rightarrow> i32 \<Rightarrow> u32 \<Rightarrow> bytes \<Rightarrow> bytes" where
  "op_reply request_id response_to flags bson =
     wire_frame request_id response_to OP_REPLY
       (to_le_bytes flags @ to_le_bytes (0 :: i64) @ to_le_bytes (0 :: i32) @
        to_le_bytes (1 :: i32) @ bson)"

subsection \<open>Concrete messages\<close>

definition stored_codec :: codec where
  "stored_codec = \<lparr>snap_decompress_len = (\<lambda>b. Inr (length b)), snap_decompress_vec = Inr,
     zlib_stream = (\<lambda>b. (b, None)), zstd_open = (\<lambda>_. None), zstd_stream = (\<lambda>b. (b, None))\<rparr>"

definition find_orders :: bytes where
  "find_orders = bson_document [string_element ''find'' ''orders'', string_element ''$db'' ''sales'']"

definition find_frame :: bytes where
  "find_frame = op_msg 17 0 0 find_orders"

definition ping_frame :: bytes where
  "ping_frame = op_msg 7 0 0 (bson_document [int_element ''ping'' 1])"

end
