(* ===== verification/Stream_Decoder.thy ===== *)
theory Stream_Decoder
  imports Bson_Encode
begin

text \<open>
  \<open>StreamDecoder\<close> of \<open>crates/mongo-protocol/src/lib.rs\<close>: the buffer of one direction of a TCP
  connection and the operations that cut it into frames. The locale \<open>framing\<close> states the contract of
  a length-prefixed frame loop; \<open>push\<close> is an instance, so that how a stream was cut into reads has
  no influence on the messages decoded from it.
\<close>

subsection \<open>State\<close>

record decoder_config =
  max_message_bytes :: usize
  max_buffer_bytes :: usize

definition default_decoder_config :: decoder_config where
  "default_decoder_config = \<lparr>max_message_bytes = DEFAULT_MAX_MESSAGE_BYTES,
     max_buffer_bytes = DEFAULT_MAX_MESSAGE_BYTES * 2\<rparr>"

record stream_decoder =
  sd_config :: decoder_config
  sd_buffer :: bytes

definition new_stream_decoder :: "decoder_config \<Rightarrow> stream_decoder" where
  "new_stream_decoder config = \<lparr>sd_config = config, sd_buffer = []\<rparr>"

definition buffered_bytes :: "stream_decoder \<Rightarrow> usize" where
  "buffered_bytes decoder = length (sd_buffer decoder)"

definition clear_decoder :: "stream_decoder \<Rightarrow> stream_decoder" where
  "clear_decoder decoder = decoder\<lparr>sd_buffer := []\<rparr>"

subsection \<open>Operations\<close>

text \<open>
  The loop of \<open>push\<close>. It returns the buffer left behind with the result; an error loses the messages
  decoded earlier in the same call, as \<open>?\<close> does.
\<close>

function push_loop ::
  "codec \<Rightarrow> usize \<Rightarrow> bytes \<Rightarrow> decoded_message list \<Rightarrow> bytes \<times> decoded_message list decode" where
  "push_loop codec max_message buffer decoded =
     (if length buffer < 4 then (buffer, Ok decoded)
      else
        let declared = from_le_bytes (take 4 buffer) :: i32 in
        if sint declared < 16 then ([], Fail (InvalidFrameLength declared))
        else
          let len = i32_as_usize declared in
          if len > max_message then ([], Fail FrameTooLarge)
          else if length buffer < len then (buffer, Ok decoded)
          else
            (case decode_frame codec (take len buffer) max_message of
               Inl e \<Rightarrow> (drop len buffer, Inl e)
             | Inr message \<Rightarrow> push_loop codec max_message (drop len buffer) (decoded @ [message])))"
  by pat_completeness auto
termination
  by (relation "measure (\<lambda>(_, _, buffer, _). length buffer)")
    (auto simp: not_less dest!: i32_as_usize_le_sint [where n = 16, simplified])

declare push_loop.simps [simp del]

definition push :: "codec \<Rightarrow> stream_decoder \<Rightarrow> bytes \<Rightarrow> stream_decoder \<times> decoded_message list decode" where
  "push codec decoder bs =
     (if saturating_add_usize (length (sd_buffer decoder)) (length bs)
         > max_buffer_bytes (sd_config decoder)
      then (clear_decoder decoder, Fail BufferTooLarge)
      else
        (case push_loop codec (max_message_bytes (sd_config decoder)) (sd_buffer decoder @ bs) [] of
           (buffer, r) \<Rightarrow> (decoder\<lparr>sd_buffer := buffer\<rparr>, r)))"

definition push_truncated ::
  "codec \<Rightarrow> stream_decoder \<Rightarrow> bytes \<Rightarrow> stream_decoder \<times> decoded_message decode" where
  "push_truncated codec decoder bs =
     (if saturating_add_usize (length (sd_buffer decoder)) (length bs)
         > max_buffer_bytes (sd_config decoder)
      then (clear_decoder decoder, Fail BufferTooLarge)
      else
        (clear_decoder decoder,
         decode_frame_prefix codec (sd_buffer decoder @ bs) (max_message_bytes (sd_config decoder))))"

definition next_frame_length :: "stream_decoder \<Rightarrow> bytes \<Rightarrow> usize option decode" where
  "next_frame_length decoder bs =
     (let buffered = min (length (sd_buffer decoder)) 4;
          needed = 4 - buffered in
      if length bs < needed then Ok None
      else
        let header = take buffered (sd_buffer decoder) @ take needed bs;
            declared = from_le_bytes header :: i32 in
        if sint declared < 16 then Fail (InvalidFrameLength declared)
        else if i32_as_usize declared > max_message_bytes (sd_config decoder) then Fail FrameTooLarge
        else Ok (Some (i32_as_usize declared)))"

definition push_bounded_prefix ::
  "codec \<Rightarrow> stream_decoder \<Rightarrow> bytes \<Rightarrow> usize \<Rightarrow> stream_decoder \<times> decoded_message list decode" where
  "push_bounded_prefix codec decoder bs prefix_limit =
     (if prefix_limit < 16 \<or> prefix_limit > max_buffer_bytes (sd_config decoder)
      then (clear_decoder decoder, Fail BufferTooLarge)
      else
        (case next_frame_length decoder bs of
           Inl e \<Rightarrow> (decoder, Inl e)
         | Inr None \<Rightarrow> push codec decoder bs
         | Inr (Some frame_length) \<Rightarrow>
             if frame_length \<le> prefix_limit \<or>
                saturating_add_usize (length (sd_buffer decoder)) (length bs) < prefix_limit
             then push codec decoder bs
             else
               let needed = prefix_limit - length (sd_buffer decoder) in
               (case push_truncated codec decoder (take (min needed (length bs)) bs) of
                  (decoder', r) \<Rightarrow> (decoder', rbind r (\<lambda>message. Ok [message])))))"

subsection \<open>The contract of a frame loop\<close>

text \<open>
  \<open>header\<close> reads the size of the first frame of a buffer (\<open>None\<close>: too few bytes); more input does
  not change what it read. \<open>loop\<close> decodes frame by frame.
\<close>

locale framing =
  fixes header :: "'b list \<Rightarrow> ('e fault + nat) option"
    and decode :: "'b list \<Rightarrow> ('e, 'm) result"
    and loop :: "'b list \<Rightarrow> 'm list \<Rightarrow> 'b list \<times> ('e, 'm list) result"
  assumes header_append: "header xs = Some r \<Longrightarrow> header (xs @ ys) = Some r"
    and header_pos: "header xs = Some (Inr n) \<Longrightarrow> 0 < n"
    and header_nil: "header [] = None"
    and loop_wait: "header xs = None \<Longrightarrow> loop xs acc = (xs, Ok acc)"
    and loop_bad: "header xs = Some (Inl e) \<Longrightarrow> loop xs acc = ([], Inl e)"
    and loop_short: "header xs = Some (Inr n) \<Longrightarrow> length xs < n \<Longrightarrow> loop xs acc = (xs, Ok acc)"
    and loop_frame: "header xs = Some (Inr n) \<Longrightarrow> n \<le> length xs \<Longrightarrow>
      loop xs acc = (case decode (take n xs) of
          Inl e \<Rightarrow> (drop n xs, Inl e)
        | Inr m \<Rightarrow> loop (drop n xs) (acc @ [m]))"
begin

text \<open>A buffer that holds no complete frame.\<close>

definition incomplete :: "'b list \<Rightarrow> bool" where
  "incomplete xs \<longleftrightarrow> (case header xs of None \<Rightarrow> True | Some (Inl e) \<Rightarrow> False | Some (Inr n) \<Rightarrow> length xs < n)"

definition frame :: "'b list \<Rightarrow> bool" where
  "frame xs \<longleftrightarrow> header xs = Some (Inr (length xs))"

lemma loop_cases:
  obtains (Wait) "incomplete xs" "\<And>acc. loop xs acc = (xs, Ok acc)"
  | (Bad) e where "header xs = Some (Inl e)" "\<And>acc. loop xs acc = ([], Inl e)"
  | (Frame) n where "header xs = Some (Inr n)" "0 < n" "n \<le> length xs"
      "\<And>acc. loop xs acc = (case decode (take n xs) of Inl e \<Rightarrow> (drop n xs, Inl e)
         | Inr m \<Rightarrow> loop (drop n xs) (acc @ [m]))"
proof (cases "header xs")
  case None
  then show ?thesis using Wait by (simp add: incomplete_def loop_wait)
next
  case (Some r)
  show ?thesis
  proof (cases r)
    case (Inl e)
    with Some show ?thesis using Bad by (simp add: loop_bad)
  next
    case (Inr n)
    with Some show ?thesis
      using Wait Frame header_pos by (cases "length xs < n") (auto simp: incomplete_def loop_short loop_frame)
  qed
qed

lemma loop_append:
  "loop xs acc = (rest, Ok ms) \<Longrightarrow> loop (xs @ ys) acc = loop (rest @ ys) ms"
proof (induction "length xs" arbitrary: xs acc rule: less_induct)
  case less
  show ?case
  proof (cases xs rule: loop_cases)
    case (Frame n)
    then obtain m where m: "decode (take n xs) = Inr m" "loop (drop n xs) (acc @ [m]) = (rest, Ok ms)"
      using less.prems by (auto split: sum.splits)
    have "loop (xs @ ys) acc = loop (drop n xs @ ys) (acc @ [m])"
      using Frame(1,3) m(1) by (simp add: loop_frame [OF header_append])
    also have "\<dots> = loop (rest @ ys) ms"
      using Frame(2,3) m(2) by (intro less.hyps) auto
    finally show ?thesis .
  qed (use less.prems in auto)
qed

lemma loop_append_error: "loop xs acc = (rest, Inl e) \<Longrightarrow> snd (loop (xs @ ys) acc) = Inl e"
proof (induction "length xs" arbitrary: xs acc rule: less_induct)
  case less
  show ?case
  proof (cases xs rule: loop_cases)
    case (Bad e')
    then show ?thesis using less.prems by (simp add: loop_bad [OF header_append])
  next
    case (Frame n)
    show ?thesis
    proof (cases "decode (take n xs)")
      case (Inl e')
      then show ?thesis using Frame less.prems by (simp add: loop_frame [OF header_append])
    next
      case (Inr m)
      then show ?thesis
        using Frame less.prems less.hyps [of "drop n xs" "acc @ [m]"]
        by (simp add: loop_frame [OF header_append])
    qed
  qed (use less.prems in auto)
qed

lemma loop_rest: "loop xs acc = (rest, Ok ms) \<Longrightarrow> incomplete rest"
proof (induction "length xs" arbitrary: xs acc rule: less_induct)
  case less
  show ?case
  proof (cases xs rule: loop_cases)
    case (Frame n)
    then obtain m where m: "decode (take n xs) = Inr m" "loop (drop n xs) (acc @ [m]) = (rest, Ok ms)"
      using less.prems by (auto split: sum.splits)
    show ?thesis using Frame(2,3) by (intro less.hyps [OF _ m(2)]) simp
  qed (use less.prems in auto)
qed

lemma loop_acc:
  "loop xs acc = (rest, r) \<Longrightarrow>
   loop xs (pre @ acc) = (rest, case r of Inl e \<Rightarrow> Inl e | Inr ms \<Rightarrow> Inr (pre @ ms))"
proof (induction "length xs" arbitrary: xs acc rule: less_induct)
  case less
  show ?case
  proof (cases xs rule: loop_cases)
    case (Frame n)
    show ?thesis
    proof (cases "decode (take n xs)")
      case (Inr m)
      then show ?thesis using Frame less.prems less.hyps [of "drop n xs" "acc @ [m]"] by simp
    qed (use Frame less.prems in auto)
  qed (use less.prems in auto)
qed

lemma loop_length: "loop xs acc = (rest, r) \<Longrightarrow> length rest \<le> length xs"
proof (induction "length xs" arbitrary: xs acc rule: less_induct)
  case less
  show ?case
  proof (cases xs rule: loop_cases)
    case (Frame n)
    show ?thesis
    proof (cases "decode (take n xs)")
      case (Inr m)
      then have "length rest \<le> length (drop n xs)"
        using Frame less.prems by (intro less.hyps) auto
      then show ?thesis by simp
    qed (use Frame less.prems in auto)
  qed (use less.prems in auto)
qed

text \<open>A whole stream of frames decodes frame by frame, in order, and leaves nothing behind.\<close>

lemma loop_frames:
  assumes "list_all2 (\<lambda>f m. frame f \<and> decode f = Inr m) fs ms"
  shows "loop (concat fs) acc = ([], Ok (acc @ ms))"
  using assms
proof (induction fs ms arbitrary: acc rule: list_all2_induct)
  case Nil
  then show ?case by (simp add: loop_wait header_nil)
next
  case (Cons f fs m ms)
  then have "header (f @ concat fs) = Some (Inr (length f))"
    by (simp add: frame_def header_append)
  with Cons show ?case by (simp add: loop_frame)
qed

text \<open>
  The part of a stream of frames that has arrived so far: the loop decodes the frames that are
  complete and keeps the beginning of the next.
\<close>

lemma loop_arrived:
  assumes "list_all2 (\<lambda>f m. frame f \<and> decode f = Inr m) fs ms" and "xs @ ys = concat fs"
  shows "\<exists>fs' ms' ms'' rest. set fs' \<subseteq> set fs \<and> ms = ms' @ ms'' \<and> loop xs acc = (rest, Ok (acc @ ms')) \<and>
    rest @ ys = concat fs' \<and> list_all2 (\<lambda>f m. frame f \<and> decode f = Inr m) fs' ms'' \<and>
    (rest = [] \<or> fs' \<noteq> [] \<and> length rest < length (hd fs'))"
  using assms
proof (induction fs ms arbitrary: acc xs rule: list_all2_induct)
  case Nil
  then show ?case by (intro exI [of _ "[]"]) (simp add: loop_wait header_nil)
next
  case (Cons f fs m ms)
  have f: "header f = Some (Inr (length f))" "decode f = Inr m" using Cons.hyps(1) by (simp_all add: frame_def)
  show ?case
  proof (cases "length xs < length f")
    case True
    then obtain zs where zs: "f = xs @ zs" using Cons.prems by (auto simp: append_eq_append_conv2)
    have "loop xs acc = (xs, Ok acc)"
    proof (cases "header xs")
      case None
      then show ?thesis by (simp add: loop_wait)
    next
      case (Some r)
      then have "r = Inr (length f)" using header_append [OF Some, of zs] f(1) zs by simp
      with Some True show ?thesis by (simp add: loop_short)
    qed
    with True Cons.prems Cons.hyps show ?thesis
      by (intro exI [of _ "f # fs"] exI [of _ "[]"] exI [of _ "m # ms"] exI [of _ xs]) simp
  next
    case False
    then obtain xs' where xs': "xs = f @ xs'" "xs' @ ys = concat fs"
      using Cons.prems by (auto simp: append_eq_append_conv2)
    have "loop xs acc = loop xs' (acc @ [m])"
      using f header_append [OF f(1), of xs'] xs'(1) by (simp add: loop_frame)
    moreover obtain fs' ms' ms'' rest where "set fs' \<subseteq> set fs" "ms = ms' @ ms''"
        "loop xs' (acc @ [m]) = (rest, Ok ((acc @ [m]) @ ms'))" "rest @ ys = concat fs'"
        "list_all2 (\<lambda>f m. frame f \<and> decode f = Inr m) fs' ms''"
        "rest = [] \<or> fs' \<noteq> [] \<and> length rest < length (hd fs')"
      using Cons.IH [OF xs'(2), of "acc @ [m]"] by blast
    ultimately show ?thesis
      by (intro exI [of _ fs'] exI [of _ "m # ms'"] exI [of _ ms''] exI [of _ rest]) auto
  qed
qed

lemma header_arrived:
  assumes "frame f" and "xs @ ys = f @ zs" and "header xs = Some r"
  shows "r = Inr (length f)"
  using header_append [OF assms(3), of ys] header_append [of f _ zs] assms(1,2) by (simp add: frame_def)

text \<open>Input arriving in pieces: the buffer left by each piece is put in front of the next.\<close>

fun feed :: "'b list \<Rightarrow> 'b list list \<Rightarrow> 'b list \<times> ('e, 'm list) result" where
  "feed buffer [] = (buffer, Ok [])"
| "feed buffer (piece # pieces) =
     (case loop (buffer @ piece) [] of
        (rest, Inl e) \<Rightarrow> (rest, Inl e)
      | (rest, Inr ms) \<Rightarrow>
          (case feed rest pieces of (rest', r) \<Rightarrow> (rest', rbind r (\<lambda>ms'. Ok (ms @ ms')))))"

lemma feed_concat:
  "feed buffer pieces = (rest, Ok ms) \<Longrightarrow> incomplete buffer \<Longrightarrow>
   loop (buffer @ concat pieces) [] = (rest, Ok ms)"
proof (induction pieces arbitrary: buffer ms)
  case Nil
  then show ?case by (cases buffer rule: loop_cases) (auto simp: incomplete_def)
next
  case (Cons piece pieces)
  obtain mid ms1 ms2 where first: "loop (buffer @ piece) [] = (mid, Ok ms1)"
    and later: "feed mid pieces = (rest, Ok ms2)" and ms: "ms = ms1 @ ms2"
    using Cons.prems(1) by (auto split: prod.splits sum.splits)
  have "loop (mid @ concat pieces) [] = (rest, Ok ms2)"
    using Cons.IH [OF later] loop_rest [OF first] by simp
  with loop_append [OF first, of "concat pieces"] loop_acc [where acc = "[]" and pre = ms1]
  show ?case by (simp add: ms)
qed

lemma feed_complete:
  "loop (buffer @ concat pieces) [] = (rest, Ok ms) \<Longrightarrow> incomplete buffer \<Longrightarrow>
   feed buffer pieces = (rest, Ok ms)"
proof (induction pieces arbitrary: buffer ms)
  case Nil
  then show ?case by (cases buffer rule: loop_cases) (auto simp: incomplete_def)
next
  case (Cons piece pieces)
  obtain mid r where first: "loop (buffer @ piece) [] = (mid, r)" by fastforce
  then obtain ms1 where r: "r = Ok ms1"
    using loop_append_error [of "buffer @ piece" "[]" mid _ "concat pieces"] Cons.prems(1)
    by (cases r) auto
  obtain rest' r2 where second: "loop (mid @ concat pieces) [] = (rest', r2)" by fastforce
  have "loop (mid @ concat pieces) ms1 = (rest, Ok ms)"
    using loop_append [of "buffer @ piece" "[]" mid ms1 "concat pieces"] first r Cons.prems(1) by simp
  with loop_acc [OF second, of ms1] obtain ms2 where "r2 = Ok ms2" "ms = ms1 @ ms2" "rest' = rest"
    by (auto split: sum.splits)
  with second Cons.IH [of mid ms2] loop_rest [of "buffer @ piece" "[]" mid ms1] first r
  show ?case by simp
qed

end

subsection \<open>The frame loop of \<open>push\<close>\<close>

text \<open>The size field of the first frame in a buffer, as the loop of \<open>push\<close> checks it.\<close>

definition frame_header :: "usize \<Rightarrow> bytes \<Rightarrow> (decode_error fault + usize) option" where
  "frame_header max_message buffer =
     (if length buffer < 4 then None
      else
        let declared = from_le_bytes (take 4 buffer) :: i32 in
        Some (if sint declared < 16 then Inl (Err (InvalidFrameLength declared))
              else if i32_as_usize declared > max_message then Inl (Err FrameTooLarge)
              else Inr (i32_as_usize declared)))"

lemma frame_header_InrD:
  "frame_header max_message buffer = Some (Inr n) \<Longrightarrow> 16 \<le> n \<and> n \<le> max_message \<and> 4 \<le> length buffer"
  by (auto simp: frame_header_def Let_def not_less split: if_splits
      dest: i32_as_usize_le_sint [where n = 16, simplified])

interpretation pl: framing "frame_header max_message" "\<lambda>frame. decode_frame codec frame max_message"
  "push_loop codec max_message" for codec max_message
proof unfold_locales
  fix xs ys :: bytes and acc :: "decoded_message list" and n :: nat and e and r
  show "frame_header max_message xs = Some r \<Longrightarrow> frame_header max_message (xs @ ys) = Some r"
    by (auto simp: frame_header_def split: if_splits)
  show "frame_header max_message xs = Some (Inr n) \<Longrightarrow> 0 < n"
    by (auto dest: frame_header_InrD)
  show "frame_header max_message [] = None"
    by (simp add: frame_header_def)
  show "frame_header max_message xs = None \<Longrightarrow> push_loop codec max_message xs acc = (xs, Ok acc)"
    by (simp add: frame_header_def push_loop.simps [of codec max_message xs] Let_def split: if_splits)
  show "frame_header max_message xs = Some (Inl e) \<Longrightarrow> push_loop codec max_message xs acc = ([], Inl e)"
    by (auto simp: frame_header_def push_loop.simps [of codec max_message xs] Let_def split: if_splits)
  show "frame_header max_message xs = Some (Inr n) \<Longrightarrow> length xs < n \<Longrightarrow>
      push_loop codec max_message xs acc = (xs, Ok acc)"
    by (auto simp: frame_header_def push_loop.simps [of codec max_message xs] Let_def split: if_splits)
  show "frame_header max_message xs = Some (Inr n) \<Longrightarrow> n \<le> length xs \<Longrightarrow>
      push_loop codec max_message xs acc =
        (case decode_frame codec (take n xs) max_message of
           Inl e \<Rightarrow> (drop n xs, Inl e)
         | Inr m \<Rightarrow> push_loop codec max_message (drop n xs) (acc @ [m]))"
    by (auto simp: frame_header_def push_loop.simps [of codec max_message xs] Let_def split: if_splits)
qed

text \<open>The decoder holds no complete frame, which is how every successful operation leaves it.\<close>

definition frame_pending :: "stream_decoder \<Rightarrow> bool" where
  "frame_pending decoder \<longleftrightarrow>
     (case frame_header (max_message_bytes (sd_config decoder)) (sd_buffer decoder) of
        None \<Rightarrow> True
      | Some (Inl e) \<Rightarrow> False
      | Some (Inr n) \<Rightarrow> length (sd_buffer decoder) < n)"

lemma frame_pending_incomplete:
  "frame_pending decoder \<longleftrightarrow>
     framing.incomplete (frame_header (max_message_bytes (sd_config decoder))) (sd_buffer decoder)"
  by (simp add: frame_pending_def pl.incomplete_def)

lemma incomplete_length:
  "framing.incomplete (frame_header max_message) buffer \<Longrightarrow> length buffer < max 4 max_message"
  by (auto simp: pl.incomplete_def frame_header_def Let_def split: if_splits)

lemma frame_pending_new [simp]: "frame_pending (new_stream_decoder config)"
  by (simp add: frame_pending_def new_stream_decoder_def frame_header_def)

lemma frame_pending_clear [simp]: "frame_pending (clear_decoder decoder)"
  by (simp add: frame_pending_def clear_decoder_def frame_header_def)

lemma sd_config_clear [simp]: "sd_config (clear_decoder decoder) = sd_config decoder"
  by (simp add: clear_decoder_def)

lemma sd_buffer_clear [simp]: "sd_buffer (clear_decoder decoder) = []"
  by (simp add: clear_decoder_def)

lemma saturating_add_usize_le: "a + b \<le> c \<Longrightarrow> saturating_add_usize a b \<le> c"
  by (simp add: saturating_add_usize_def)

subsection \<open>No operation panics\<close>

lemma push_loop_safe: "safe (snd (push_loop codec max_message buffer decoded))"
proof (induction codec max_message buffer decoded rule: push_loop.induct)
  case (1 codec max_message buffer decoded)
  have "decode_frame codec frame max_message \<noteq> panicked" for frame
    using decode_frame_safe [of codec frame max_message] by (simp add: safe_def)
  with 1 show ?case
    unfolding push_loop.simps [of codec max_message buffer decoded] Let_def
    by (auto simp: safe_def split: sum.splits)
qed

lemma push_safe: "safe (snd (push codec decoder bs))"
  by (simp add: push_def case_prod_beta push_loop_safe)

lemma push_truncated_safe: "safe (snd (push_truncated codec decoder bs))"
  by (auto simp: push_truncated_def intro: no_panic)

lemma next_frame_length_safe: "safe (next_frame_length decoder bs)"
  by (simp add: next_frame_length_def Let_def)

lemma push_bounded_prefix_safe: "safe (snd (push_bounded_prefix codec decoder bs prefix_limit))"
proof (cases "next_frame_length decoder bs")
  case (Inl e)
  with next_frame_length_safe [of decoder bs] show ?thesis
    by (cases e) (simp_all add: push_bounded_prefix_def)
next
  case (Inr n)
  have "safe (rbind (snd (push_truncated codec decoder bs')) (\<lambda>m. Ok [m]))" for bs'
    by (intro no_panic push_truncated_safe)
  with Inr show ?thesis
    by (cases n) (simp_all add: push_bounded_prefix_def push_safe case_prod_beta Let_def)
qed

subsection \<open>What a successful operation leaves in the buffer\<close>

lemma push_pending:
  "push codec decoder bs = (decoder', Ok ms) \<Longrightarrow> frame_pending decoder' \<and> sd_config decoder' = sd_config decoder"
  by (auto simp: push_def frame_pending_incomplete split: if_splits prod.splits dest: pl.loop_rest)

lemma push_bounded_prefix_pending:
  assumes "push_bounded_prefix codec decoder bs prefix_limit = (decoder', Ok ms)"
  shows "frame_pending decoder' \<and> sd_config decoder' = sd_config decoder"
  using assms push_pending [of codec decoder bs decoder' ms]
  by (auto simp: push_bounded_prefix_def push_truncated_def Let_def
      split: if_splits sum.splits option.splits prod.splits)

text \<open>\<open>next_frame_length\<close> reads the header of the buffer and the new bytes together.\<close>

lemma next_frame_length_header:
  "next_frame_length decoder bs =
     (case frame_header (max_message_bytes (sd_config decoder)) (sd_buffer decoder @ bs) of
        None \<Rightarrow> Ok None
      | Some (Inl e) \<Rightarrow> Inl e
      | Some (Inr n) \<Rightarrow> Ok (Some n))"
  by (auto simp: next_frame_length_def frame_header_def Let_def min_def)

text \<open>Between two operations less than one capture, or one prefix, is retained.\<close>

lemma push_retained:
  assumes pending: "frame_pending decoder"
    and header: "frame_header (max_message_bytes (sd_config decoder)) (sd_buffer decoder @ bs) = Some (Inr n)"
    and push: "push codec decoder bs = (decoder', r)"
  shows "length (sd_buffer decoder') < max n (length bs)"
proof -
  let ?M = "max_message_bytes (sd_config decoder)"
  have n: "16 \<le> n" using header by (auto dest: frame_header_InrD)
  have short: "length (sd_buffer decoder) < n"
  proof (cases "frame_header ?M (sd_buffer decoder)")
    case None
    with n show ?thesis by (auto simp: frame_header_def Let_def split: if_splits)
  next
    case (Some h)
    with pl.header_append [OF Some, of bs] header pending show ?thesis
      by (auto simp: frame_pending_def)
  qed
  show ?thesis
  proof (cases "saturating_add_usize (length (sd_buffer decoder)) (length bs) > max_buffer_bytes (sd_config decoder)")
    case True
    with push n show ?thesis by (auto simp: push_def)
  next
    case False
    then obtain rest where loop: "push_loop codec ?M (sd_buffer decoder @ bs) [] = (rest, r)"
      and rest: "sd_buffer decoder' = rest"
      using push by (auto simp: push_def split: prod.splits)
    show ?thesis
    proof (cases "length (sd_buffer decoder @ bs) < n")
      case True
      then have "rest = sd_buffer decoder @ bs" using loop header by (simp add: pl.loop_short)
      with True rest show ?thesis by simp
    next
      case False
      then have "length rest \<le> length (drop n (sd_buffer decoder @ bs))"
        using loop header by (auto simp: pl.loop_frame split: sum.splits dest: pl.loop_length)
      with rest short False show ?thesis by simp
    qed
  qed
qed

lemma push_bounded_prefix_retained:
  assumes pending: "frame_pending decoder" and limit: "16 \<le> prefix_limit" "prefix_limit \<le> usize_max"
    and push: "push_bounded_prefix codec decoder bs prefix_limit = (decoder', r)"
  shows "length (sd_buffer decoder') < max prefix_limit (length bs)"
proof -
  let ?header = "frame_header (max_message_bytes (sd_config decoder)) (sd_buffer decoder @ bs)"
  have grow: "length (sd_buffer d) \<le> length (sd_buffer decoder) + length bs"
    if "push codec decoder bs = (d, r)" for d r
    using that by (auto simp: push_def split: if_splits prod.splits dest: pl.loop_length)
  consider (invalid) "prefix_limit > max_buffer_bytes (sd_config decoder)"
    | (bad) e where "?header = Some (Inl e)" | (wait) "?header = None" "prefix_limit \<le> max_buffer_bytes (sd_config decoder)"
    | (size) n where "?header = Some (Inr n)" "prefix_limit \<le> max_buffer_bytes (sd_config decoder)"
    by (metis not_le option.exhaust sum.exhaust)
  then show ?thesis
  proof cases
    case invalid
    with push limit show ?thesis by (auto simp: push_bounded_prefix_def)
  next
    case (bad e)
    have "length (sd_buffer decoder) < 4"
    proof (rule ccontr)
      assume "\<not> length (sd_buffer decoder) < 4"
      then obtain h where "frame_header (max_message_bytes (sd_config decoder)) (sd_buffer decoder) = Some h"
        by (auto simp: frame_header_def Let_def)
      with pl.header_append [OF this, of bs] bad pending show False by (auto simp: frame_pending_def)
    qed
    with bad push limit show ?thesis
      by (auto simp: push_bounded_prefix_def next_frame_length_header split: if_splits)
  next
    case wait
    then have "length (sd_buffer decoder) + length bs < 4"
      by (auto simp: frame_header_def Let_def split: if_splits)
    with wait push limit grow show ?thesis
      by (fastforce simp: push_bounded_prefix_def next_frame_length_header)
  next
    case (size n)
    then show ?thesis
      using push limit push_retained [OF pending size(1), of codec decoder' r] grow [of decoder' r]
      by (auto simp: push_bounded_prefix_def next_frame_length_header push_truncated_def Let_def
          saturating_add_usize_def min_def usize_max_def split: if_splits prod.splits)
  qed
qed

subsection \<open>Streams read in pieces\<close>

text \<open>Successive calls of \<open>push\<close>, up to the first error.\<close>

fun push_all :: "codec \<Rightarrow> stream_decoder \<Rightarrow> bytes list \<Rightarrow> stream_decoder \<times> decoded_message list decode" where
  "push_all codec decoder [] = (decoder, Ok [])"
| "push_all codec decoder (piece # pieces) =
     (case push codec decoder piece of
        (decoder', Inl e) \<Rightarrow> (decoder', Inl e)
      | (decoder', Inr ms) \<Rightarrow>
          (case push_all codec decoder' pieces of
             (decoder'', r) \<Rightarrow> (decoder'', rbind r (\<lambda>ms'. Ok (ms @ ms')))))"

text \<open>Every piece fits in the buffer beside an incomplete frame.\<close>

definition pieces_fit :: "decoder_config \<Rightarrow> bytes list \<Rightarrow> bool" where
  "pieces_fit config pieces \<longleftrightarrow>
     (\<forall>piece \<in> set pieces. max 4 (max_message_bytes config) + length piece \<le> max_buffer_bytes config)"

lemma push_all_feed:
  "pieces_fit (sd_config decoder) pieces \<Longrightarrow> frame_pending decoder \<Longrightarrow>
   push_all codec decoder pieces =
     (case framing.feed (push_loop codec (max_message_bytes (sd_config decoder))) (sd_buffer decoder) pieces of
        (buffer, r) \<Rightarrow> (decoder\<lparr>sd_buffer := buffer\<rparr>, r))"
proof (induction pieces arbitrary: decoder)
  case Nil
  then show ?case by simp
next
  case (Cons piece pieces)
  let ?M = "max_message_bytes (sd_config decoder)"
  obtain rest r where loop: "push_loop codec ?M (sd_buffer decoder @ piece) [] = (rest, r)" by fastforce
  have "length (sd_buffer decoder) < max 4 ?M"
    using Cons.prems(2) by (simp add: frame_pending_incomplete incomplete_length)
  then have "length (sd_buffer decoder) + length piece \<le> max_buffer_bytes (sd_config decoder)"
    using Cons.prems(1) by (auto simp: pieces_fit_def)
  then have push: "push codec decoder piece = (decoder\<lparr>sd_buffer := rest\<rparr>, r)"
    using loop by (simp add: push_def saturating_add_usize_le leD)
  show ?case
  proof (cases r)
    case (Inl e)
    with push loop show ?thesis by simp
  next
    case (Inr ms)
    have "frame_pending (decoder\<lparr>sd_buffer := rest\<rparr>)"
      using push_pending [of codec decoder piece] push Inr by simp
    with Cons.IH [of "decoder\<lparr>sd_buffer := rest\<rparr>"] Cons.prems(1) push loop Inr show ?thesis
      by (auto simp: pieces_fit_def split: prod.splits)
  qed
qed

text \<open>
  How a byte stream was cut into reads does not matter. If one sequence of pieces decodes
  without an error, then every other sequence of pieces with the same concatenation gives the same
  messages and leaves the decoder in the same state.
\<close>

theorem regrouping_pieces_changes_nothing:
  assumes pending: "frame_pending decoder" and same: "concat pieces = concat pieces'"
    and fit: "pieces_fit (sd_config decoder) pieces" and fit': "pieces_fit (sd_config decoder) pieces'"
    and ok: "push_all codec decoder pieces = (decoder', Ok ms)"
  shows "push_all codec decoder pieces' = (decoder', Ok ms)"
proof -
  let ?M = "max_message_bytes (sd_config decoder)"
  obtain rest where feed: "framing.feed (push_loop codec ?M) (sd_buffer decoder) pieces = (rest, Ok ms)"
    and rest: "decoder' = decoder\<lparr>sd_buffer := rest\<rparr>"
    using ok by (auto simp: push_all_feed [OF fit pending] split: prod.splits)
  have "push_loop codec ?M (sd_buffer decoder @ concat pieces') [] = (rest, Ok ms)"
    using pl.feed_concat [OF feed] pending same by (simp add: frame_pending_incomplete)
  then have "framing.feed (push_loop codec ?M) (sd_buffer decoder) pieces' = (rest, Ok ms)"
    using pending by (simp add: frame_pending_incomplete pl.feed_complete)
  then show ?thesis by (simp add: push_all_feed [OF fit' pending] rest)
qed

text \<open>Successive calls of \<open>push_bounded_prefix\<close>, as the sensor makes them, up to the first error.\<close>

fun push_bounded_all ::
  "codec \<Rightarrow> usize \<Rightarrow> stream_decoder \<Rightarrow> bytes list \<Rightarrow> stream_decoder \<times> decoded_message list decode" where
  "push_bounded_all codec prefix_limit decoder [] = (decoder, Ok [])"
| "push_bounded_all codec prefix_limit decoder (piece # pieces) =
     (case push_bounded_prefix codec decoder piece prefix_limit of
        (decoder', Inl e) \<Rightarrow> (decoder', Inl e)
      | (decoder', Inr ms) \<Rightarrow>
          (case push_bounded_all codec prefix_limit decoder' pieces of
             (decoder'', r) \<Rightarrow> (decoder'', rbind r (\<lambda>ms'. Ok (ms @ ms')))))"

text \<open>A byte string that is exactly one frame of acceptable size.\<close>

definition frame_bytes :: "usize \<Rightarrow> bytes \<Rightarrow> bool" where
  "frame_bytes max_message frame \<longleftrightarrow> frame_header max_message frame = Some (Inr (length frame))"

text \<open>Every read fits in the buffer beside any frame of the stream.\<close>

definition reads_fit :: "decoder_config \<Rightarrow> bytes list \<Rightarrow> bytes list \<Rightarrow> bool" where
  "reads_fit config frames pieces \<longleftrightarrow>
     (\<forall>frame \<in> set frames. \<forall>piece \<in> set pieces. length frame + length piece \<le> max_buffer_bytes config)"

text \<open>The decoder holds the beginning of the first of the frames still to come.\<close>

definition before_frames :: "stream_decoder \<Rightarrow> bytes list \<Rightarrow> bool" where
  "before_frames decoder frames \<longleftrightarrow>
     sd_buffer decoder = [] \<or> frames \<noteq> [] \<and> length (sd_buffer decoder) < length (hd frames)"

abbreviation decode_to :: "codec \<Rightarrow> decoder_config \<Rightarrow> bytes list \<Rightarrow> decoded_message list \<Rightarrow> bool" where
  "decode_to codec config frames messages \<equiv>
     list_all2 (\<lambda>f m. frame_bytes (max_message_bytes config) f \<and>
       decode_frame codec f (max_message_bytes config) = Inr m) frames messages"

lemma push_arrived:
  assumes "decode_to codec (sd_config decoder) frames messages" and "before_frames decoder frames"
    and "sd_buffer decoder @ piece @ later = concat frames" and "reads_fit (sd_config decoder) frames (piece # pieces)"
  obtains frames' messages' messages'' buffer where
    "push codec decoder piece = (decoder\<lparr>sd_buffer := buffer\<rparr>, Ok messages')" "messages = messages' @ messages''"
    "buffer @ later = concat frames'" "decode_to codec (sd_config decoder) frames' messages''"
    "before_frames (decoder\<lparr>sd_buffer := buffer\<rparr>) frames'" "set frames' \<subseteq> set frames"
proof -
  let ?M = "max_message_bytes (sd_config decoder)"
  have "length (sd_buffer decoder) + length piece \<le> max_buffer_bytes (sd_config decoder)"
  proof (cases frames)
    case Nil
    with assms(3) show ?thesis by simp
  next
    case (Cons f fs)
    with assms(2,4) show ?thesis by (auto simp: before_frames_def reads_fit_def)
  qed
  moreover obtain frames' messages' messages'' buffer where
    "push_loop codec ?M (sd_buffer decoder @ piece) [] = (buffer, Ok messages')" "messages = messages' @ messages''"
    "buffer @ later = concat frames'" "decode_to codec (sd_config decoder) frames' messages''"
    "buffer = [] \<or> frames' \<noteq> [] \<and> length buffer < length (hd frames')" "set frames' \<subseteq> set frames"
    using pl.loop_arrived [of ?M codec frames messages "sd_buffer decoder @ piece" later "[]"] assms(1,3)
    by (auto simp: pl.frame_def frame_bytes_def)
  ultimately show ?thesis
    by (intro that) (simp_all add: push_def saturating_add_usize_le leD before_frames_def)
qed

lemma push_bounded_is_push:
  assumes "decode_to codec (sd_config decoder) frames messages" and "sd_buffer decoder @ piece @ later = concat frames"
    and "\<forall>frame \<in> set frames. length frame \<le> prefix_limit" and "16 \<le> prefix_limit"
    and "prefix_limit \<le> max_buffer_bytes (sd_config decoder)"
  shows "push_bounded_prefix codec decoder piece prefix_limit = push codec decoder piece"
proof (cases "frame_header (max_message_bytes (sd_config decoder)) (sd_buffer decoder @ piece)")
  case None
  with assms(4,5) show ?thesis by (simp add: push_bounded_prefix_def next_frame_length_header)
next
  case (Some r)
  then have "sd_buffer decoder @ piece \<noteq> []" by (auto simp: pl.header_nil)
  then obtain f fs where frames: "frames = f # fs" using assms(2) by (cases frames) auto
  then have "r = Inr (length f)"
    using pl.header_arrived [of "max_message_bytes (sd_config decoder)" f "sd_buffer decoder @ piece" later "concat fs" r]
      Some assms(1,2) by (auto simp: pl.frame_def frame_bytes_def list_all2_Cons1)
  with Some assms(3-5) frames show ?thesis by (simp add: push_bounded_prefix_def next_frame_length_header)
qed

lemma push_all_frames:
  assumes "decode_to codec (sd_config decoder) frames messages" and "before_frames decoder frames"
    and "sd_buffer decoder @ concat pieces = concat frames" and "reads_fit (sd_config decoder) frames pieces"
  shows "push_all codec decoder pieces = (clear_decoder decoder, Ok messages) \<and>
    ((\<forall>frame \<in> set frames. length frame \<le> prefix_limit) \<and> 16 \<le> prefix_limit \<and>
       prefix_limit \<le> max_buffer_bytes (sd_config decoder) \<longrightarrow>
     push_bounded_all codec prefix_limit decoder pieces = (clear_decoder decoder, Ok messages))"
  using assms
proof (induction pieces arbitrary: decoder frames messages)
  case Nil
  have "frames = []"
  proof (cases frames)
    case (Cons f fs)
    then have "0 < length f"
      using Nil.prems(1) frame_header_InrD [of "max_message_bytes (sd_config decoder)" f "length f"]
      by (auto simp: frame_bytes_def list_all2_Cons1)
    with Cons Nil.prems(2,3) show ?thesis by (auto simp: before_frames_def)
  qed
  with Nil.prems show ?case by (cases decoder) (simp add: clear_decoder_def)
next
  case (Cons piece pieces)
  have stream: "sd_buffer decoder @ piece @ concat pieces = concat frames" using Cons.prems(3) by simp
  obtain frames' messages' messages'' buffer where
    step: "push codec decoder piece = (decoder\<lparr>sd_buffer := buffer\<rparr>, Ok messages')" "messages = messages' @ messages''"
    "buffer @ concat pieces = concat frames'" "decode_to codec (sd_config decoder) frames' messages''"
    "before_frames (decoder\<lparr>sd_buffer := buffer\<rparr>) frames'" "set frames' \<subseteq> set frames"
    using push_arrived [OF Cons.prems(1,2) stream Cons.prems(4)] .
  have "reads_fit (sd_config decoder) frames' pieces"
    using Cons.prems(4) step(6) by (auto simp: reads_fit_def)
  with Cons.IH [of "decoder\<lparr>sd_buffer := buffer\<rparr>" frames' messages''] step
    push_bounded_is_push [OF Cons.prems(1) stream, of prefix_limit]
  show ?case by (auto simp: clear_decoder_def)
qed

text \<open>
  C5: a stream of frames decodes to the messages of its frames, in order, with nothing left in the
  buffer, however the stream is cut into reads, even inside a length field, as long as each read fits
  in the buffer beside a frame of the stream (a larger read is refused with \<open>BufferTooLarge\<close>). The
  same holds for the bounded operation that the sensor calls, if no frame is longer than its prefix
  limit; with the sensor's buffer of twice the limit, every read within the limit fits.
\<close>

theorem fragmented_stream_decodes_frame_by_frame:
  assumes "list_all2 (\<lambda>f m. frame_bytes (max_message_bytes config) f \<and>
      decode_frame codec f (max_message_bytes config) = Inr m) frames messages"
    and "concat pieces = concat frames" and "reads_fit config frames pieces"
  shows "push_all codec (new_stream_decoder config) pieces = (new_stream_decoder config, Ok messages) \<and>
    ((\<forall>frame \<in> set frames. length frame \<le> prefix_limit) \<and> 16 \<le> prefix_limit \<and>
       prefix_limit \<le> max_buffer_bytes config \<longrightarrow>
     push_bounded_all codec prefix_limit (new_stream_decoder config) pieces = (new_stream_decoder config, Ok messages))"
  using push_all_frames [where decoder = "new_stream_decoder config" and codec = codec and frames = frames
      and messages = messages and pieces = pieces and prefix_limit = prefix_limit] assms
  by (simp add: new_stream_decoder_def clear_decoder_def before_frames_def)

subsection \<open>Properties\<close>


text \<open>
  One turn of the loop of \<open>push\<close>: it ends the loop with the buffer left and the result, or goes on
  with the next frame.
\<close>

datatype push_state = Looping bytes "decoded_message list" | Ended bytes "decoded_message list decode"

fun push_turn :: "codec \<Rightarrow> usize \<Rightarrow> push_state \<Rightarrow> push_state" where
  "push_turn codec max_message (Ended buffer r) = Ended buffer r"
| "push_turn codec max_message (Looping buffer decoded) =
     (if length buffer < 4 then Ended buffer (Ok decoded)
      else
        let declared = from_le_bytes (take 4 buffer) :: i32 in
        if sint declared < 16 then Ended [] (Fail (InvalidFrameLength declared))
        else
          let len = i32_as_usize declared in
          if len > max_message then Ended [] (Fail FrameTooLarge)
          else if length buffer < len then Ended buffer (Ok decoded)
          else
            (case decode_frame codec (take len buffer) max_message of
               Inl e \<Rightarrow> Ended (drop len buffer) (Inl e)
             | Inr message \<Rightarrow> Looping (drop len buffer) (decoded @ [message])))"

lemma push_turn_ended: "(push_turn codec max_message ^^ n) (Ended buffer r) = Ended buffer r"
  by (induction n) simp_all

text \<open>A turn ends as the loop ends, or uses up the sixteen bytes of a header and leaves the same result to come.\<close>

lemma push_turn_cases:
  obtains (Ends) rest r where "push_turn codec max_message (Looping buffer decoded) = Ended rest r"
      "push_loop codec max_message buffer decoded = (rest, r)"
  | (Goes_on) rest decoded' where "push_turn codec max_message (Looping buffer decoded) = Looping rest decoded'"
      "push_loop codec max_message buffer decoded = push_loop codec max_message rest decoded'"
      "length rest + 16 \<le> length buffer"
proof -
  let ?declared = "from_le_bytes (take 4 buffer) :: i32"
  have long: "16 \<le> i32_as_usize ?declared" if "\<not> sint ?declared < 16"
    using i32_as_usize_le_sint [where n = 16, of ?declared] that by (simp add: not_less)
  show ?thesis
  proof (cases "push_turn codec max_message (Looping buffer decoded)")
    case (Ended rest r)
    then have "push_loop codec max_message buffer decoded = (rest, r)"
      by (subst push_loop.simps) (auto simp: Let_def split: if_splits sum.splits)
    with Ended show ?thesis by (rule Ends)
  next
    case (Looping rest decoded')
    then have "push_loop codec max_message buffer decoded = push_loop codec max_message rest decoded'"
      by (subst push_loop.simps) (auto simp: Let_def split: if_splits sum.splits)
    moreover have "length rest + 16 \<le> length buffer"
      using Looping long by (auto simp: Let_def split: if_splits sum.splits)
    ultimately show ?thesis using Looping by (intro Goes_on)
  qed
qed

lemma push_turns_reach_the_end:
  "length buffer < 16 * n \<Longrightarrow>
   (push_turn codec max_message ^^ n) (Looping buffer decoded) =
     (case push_loop codec max_message buffer decoded of (rest, r) \<Rightarrow> Ended rest r)"
proof (induction n arbitrary: buffer decoded)
  case 0
  then show ?case by simp
next
  case (Suc n)
  show ?case
  proof (cases rule: push_turn_cases [of codec max_message buffer decoded])
    case (Ends rest r)
    then show ?thesis by (simp add: funpow_Suc_right push_turn_ended del: funpow.simps push_turn.simps)
  next
    case (Goes_on rest decoded')
    then show ?thesis using Suc by (simp add: funpow_Suc_right del: funpow.simps push_turn.simps)
  qed
qed

text \<open>
  C33: the decoder's loop ends within one turn per sixteen bytes. After one turn for every sixteen
  bytes of the buffered and new bytes together, and one more, the loop of \<open>push\<close> has ended, whether
  it ends for want of bytes, with a frame error or with a decode error; and it has ended with exactly
  the buffer and the result of \<open>push\<close>. (Reads that do not fit in the buffer are refused before the loop.)
\<close>

theorem push_ends_within_a_turn_per_header:
  assumes "saturating_add_usize (length (sd_buffer decoder)) (length bs) \<le> max_buffer_bytes (sd_config decoder)"
  shows "(push_turn codec (max_message_bytes (sd_config decoder)) ^^ ((length (sd_buffer decoder) + length bs) div 16 + 1))
      (Looping (sd_buffer decoder @ bs) []) =
    Ended (sd_buffer (fst (push codec decoder bs))) (snd (push codec decoder bs))"
proof -
  have "length (sd_buffer decoder @ bs) < 16 * ((length (sd_buffer decoder) + length bs) div 16 + 1)" by simp
  from push_turns_reach_the_end [OF this] assms show ?thesis
    by (simp add: push_def split: prod.split)
qed

text \<open>
  The prefix limit bounds what a stream retains. From a decoder that holds no complete frame,
  \<open>push_bounded_prefix\<close> keeps fewer bytes than the limit or than the bytes of this call, whichever
  is larger, also when it fails; after a success the decoder again holds no complete frame.
\<close>

theorem bounded_prefix_bounds_the_buffer:
  assumes "frame_pending decoder" and "16 \<le> prefix_limit" and "prefix_limit \<le> usize_max"
    and "push_bounded_prefix codec decoder bs prefix_limit = (decoder', r)"
  shows "buffered_bytes decoder' < max prefix_limit (length bs) \<and>
    (\<forall>ms. r = Ok ms \<longrightarrow> frame_pending decoder')"
  using assms push_bounded_prefix_retained push_bounded_prefix_pending
  by (auto simp: buffered_bytes_def)

subsection \<open>Witnesses\<close>

definition sample_config :: decoder_config where
  "sample_config = \<lparr>max_message_bytes = 256, max_buffer_bytes = 1024\<rparr>"

definition ping_message :: decoded_message where
  "ping_message = projr (decode_frame stored_codec ping_frame 256)"

lemma decode_ping_frame: "decode_frame stored_codec ping_frame 256 = Ok ping_message"
  by code_simp

lemma ping_frame_bytes: "frame_bytes 256 ping_frame" "length ping_frame = 36"
  by code_simp+

text \<open>The configuration that the sensor gives its decoders by default.\<close>

definition capture_config :: decoder_config where
  "capture_config = \<lparr>max_message_bytes = DEFAULT_MAX_MESSAGE_BYTES, max_buffer_bytes = 2048\<rparr>"

lemma capture_ping_frame:
  "decode_frame stored_codec ping_frame DEFAULT_MAX_MESSAGE_BYTES = Ok ping_message"
  "frame_bytes DEFAULT_MAX_MESSAGE_BYTES ping_frame"
  by code_simp+

theorem fragmented_stream_decodes_frame_by_frame_witness:
  "push_all stored_codec (new_stream_decoder capture_config)
     [take 3 ping_frame, drop 3 ping_frame @ take 9 ping_frame, drop 9 ping_frame] =
     (new_stream_decoder capture_config, Ok [ping_message, ping_message]) \<and>
   push_bounded_all stored_codec 1024 (new_stream_decoder capture_config)
     [take 3 ping_frame, drop 3 ping_frame @ take 9 ping_frame, drop 9 ping_frame] =
     (new_stream_decoder capture_config, Ok [ping_message, ping_message])"
proof -
  let ?pieces = "[take 3 ping_frame, drop 3 ping_frame @ take 9 ping_frame, drop 9 ping_frame]"
  have "reads_fit capture_config [ping_frame, ping_frame] ?pieces"
    by (simp add: reads_fit_def capture_config_def ping_frame_bytes(2))
  from fragmented_stream_decodes_frame_by_frame [of capture_config stored_codec "[ping_frame, ping_frame]"
      "[ping_message, ping_message]" ?pieces 1024, OF _ _ this]
  show ?thesis by (simp add: capture_ping_frame capture_config_def ping_frame_bytes(2))
qed

theorem regrouping_pieces_changes_nothing_witness:
  "push_all stored_codec (new_stream_decoder sample_config) [ping_frame] =
     (new_stream_decoder sample_config, Ok [ping_message]) \<and>
   push_all stored_codec (new_stream_decoder sample_config) [take 2 ping_frame, drop 2 ping_frame] =
     (new_stream_decoder sample_config, Ok [ping_message])"
proof -
  have whole: "push_all stored_codec (new_stream_decoder sample_config) [ping_frame] =
      (new_stream_decoder sample_config, Ok [ping_message])"
    by code_simp
  have "push_all stored_codec (new_stream_decoder sample_config) [take 2 ping_frame, drop 2 ping_frame] =
      (new_stream_decoder sample_config, Ok [ping_message])"
    by (rule regrouping_pieces_changes_nothing [OF _ _ _ _ whole])
      (simp_all add: pieces_fit_def new_stream_decoder_def sample_config_def ping_frame_bytes frame_pending_def frame_header_def)
  with whole show ?thesis by simp
qed

theorem bounded_prefix_bounds_the_buffer_witness:
  "frame_pending (new_stream_decoder sample_config) \<and>
   buffered_bytes (fst (push_bounded_prefix stored_codec (new_stream_decoder sample_config)
     (ping_frame @ take 20 ping_frame) 32)) < 56"
  using bounded_prefix_bounds_the_buffer [of "new_stream_decoder sample_config" 32 stored_codec
      "ping_frame @ take 20 ping_frame", OF frame_pending_new _ _ prod.collapse [symmetric]]
  by (simp add: usize_max_def ping_frame_bytes)

theorem push_ends_within_a_turn_per_header_witness:
  "(push_turn stored_codec 256 ^^ 3) (Looping ping_frame []) = Ended [] (Ok [ping_message])"
proof -
  let ?decoder = "new_stream_decoder sample_config"
  have "push stored_codec ?decoder ping_frame = (?decoder, Ok [ping_message])" by code_simp
  with push_ends_within_a_turn_per_header [of ?decoder ping_frame stored_codec] ping_frame_bytes(2) show ?thesis
    by (simp add: new_stream_decoder_def sample_config_def saturating_add_usize_def)
qed

end
