(* ===== verification/Processor.thy ===== *)
theory Processor
  imports Proc Dns Stream_Decoder
begin

text \<open>
  \<open>EventProcessor\<close> of \<open>crates/observer/src/lib.rs\<close>: the state machine that turns kernel events into
  activity events. It reassembles MongoDB traffic, pairs requests with responses and DNS queries with
  answers, follows authentication on each connection, and releases its state when a connection
  closes or a process exits.

  Digests (\<open>sha2\<close>, \<open>hex\<close>), decompressors, the \<open>/proc\<close> tree and the clocks are not the program's: a
  step takes them as the record \<open>env\<close>, read once per kernel event.
\<close>

subsection \<open>Constants\<close>

definition MAX_CAPTURE_BYTES :: usize where "MAX_CAPTURE_BYTES = 1024"
definition MAX_PENDING_REQUESTS :: usize where "MAX_PENDING_REQUESTS = 32768"
definition PENDING_REQUEST_TTL_NS :: u64 where "PENDING_REQUEST_TTL_NS = 300000000000"

definition EVENT_IO_CHUNK :: u8 where "EVENT_IO_CHUNK = 1"
definition EVENT_SYSCALL_LATENCY :: u8 where "EVENT_SYSCALL_LATENCY = 2"
definition EVENT_CONNECTION :: u8 where "EVENT_CONNECTION = 3"
definition EVENT_PROFILE :: u8 where "EVENT_PROFILE = 4"
definition EVENT_PROCESS :: u8 where "EVENT_PROCESS = 5"
definition EVENT_DNS_CHUNK :: u8 where "EVENT_DNS_CHUNK = 6"

lemmas event_type_defs = EVENT_IO_CHUNK_def EVENT_SYSCALL_LATENCY_def EVENT_CONNECTION_def
  EVENT_PROFILE_def EVENT_PROCESS_def EVENT_DNS_CHUNK_def

definition OP_PREAD :: u8 where "OP_PREAD = 1"
definition OP_PWRITE :: u8 where "OP_PWRITE = 2"
definition OP_FSYNC :: u8 where "OP_FSYNC = 3"
definition OP_OPENAT :: u8 where "OP_OPENAT = 4"
definition OP_OFFCPU :: u8 where "OP_OFFCPU = 5"
definition OP_TCP_CONNECT :: u8 where "OP_TCP_CONNECT = 6"
definition OP_TCP_ACCEPT :: u8 where "OP_TCP_ACCEPT = 7"
definition OP_TCP_CLOSE :: u8 where "OP_TCP_CLOSE = 8"
definition OP_TCP_RTT :: u8 where "OP_TCP_RTT = 9"
definition OP_TCP_RETRANSMIT :: u8 where "OP_TCP_RETRANSMIT = 10"
definition OP_CPU_SAMPLE :: u8 where "OP_CPU_SAMPLE = 11"
definition OP_FDATASYNC :: u8 where "OP_FDATASYNC = 12"
definition OP_LOCK_WAIT :: u8 where "OP_LOCK_WAIT = 13"
definition OP_PAGE_FAULT :: u8 where "OP_PAGE_FAULT = 14"
definition OP_PROCESS_EXEC :: u8 where "OP_PROCESS_EXEC = 15"
definition OP_PROCESS_EXIT :: u8 where "OP_PROCESS_EXIT = 16"
definition OP_TCP_HANDSHAKE :: u8 where "OP_TCP_HANDSHAKE = 17"
definition OP_TCP_RESET_RECEIVED :: u8 where "OP_TCP_RESET_RECEIVED = 18"
definition OP_TCP_RESET_SENT :: u8 where "OP_TCP_RESET_SENT = 19"
definition OP_TCP_ZERO_WINDOW :: u8 where "OP_TCP_ZERO_WINDOW = 20"
definition OP_TCP_TIMEOUT :: u8 where "OP_TCP_TIMEOUT = 21"

lemmas operation_defs = OP_PREAD_def OP_PWRITE_def OP_FSYNC_def OP_OPENAT_def OP_OFFCPU_def
  OP_TCP_CONNECT_def OP_TCP_ACCEPT_def OP_TCP_CLOSE_def OP_TCP_RTT_def OP_TCP_RETRANSMIT_def
  OP_CPU_SAMPLE_def OP_FDATASYNC_def OP_LOCK_WAIT_def OP_PAGE_FAULT_def OP_PROCESS_EXEC_def
  OP_PROCESS_EXIT_def OP_TCP_HANDSHAKE_def OP_TCP_RESET_RECEIVED_def OP_TCP_RESET_SENT_def
  OP_TCP_ZERO_WINDOW_def OP_TCP_TIMEOUT_def

subsection \<open>Kernel events\<close>

record kernel_event =
  ke_timestamp_ns :: u64
  ke_connection_key :: u64
  ke_cgroup_id :: u64
  ke_duration_ns :: u64
  ke_bytes :: u64
  ke_result :: i64
  ke_pid :: u32
  ke_tgid :: u32
  ke_uid :: u32
  ke_gid :: u32
  ke_fd :: i32
  ke_original_len :: u32
  ke_captured_len :: u32
  ke_event_type :: u8
  ke_direction :: u8
  ke_source :: u8
  ke_operation :: u8
  ke_comm :: bytes
  ke_data :: bytes

text \<open>The arrays of the \<open>repr(C)\<close> structure have 16 and 1024 elements.\<close>

definition kernel_event_wf :: "kernel_event \<Rightarrow> bool" where
  "kernel_event_wf raw \<longleftrightarrow> length (ke_comm raw) = 16 \<and> length (ke_data raw) = MAX_CAPTURE_BYTES"

definition KERNEL_EVENT_SIZE :: usize where "KERNEL_EVENT_SIZE = 1120"

text \<open>
  The unaligned read of \<open>from_ring_bytes\<close>, on the little-endian targets the sensor is built for: six
  64-bit fields, seven 32-bit fields, four bytes and the two arrays, without padding.
\<close>

definition field_at :: "bytes \<Rightarrow> usize \<Rightarrow> usize \<Rightarrow> 'w::len word" where
  "field_at bs offset n = from_le_bytes (take n (drop offset bs))"

definition from_ring_bytes :: "bytes \<Rightarrow> kernel_event option" where
  "from_ring_bytes bs =
     (if length bs \<noteq> KERNEL_EVENT_SIZE then None
      else Some
        \<lparr>ke_timestamp_ns = field_at bs 0 8, ke_connection_key = field_at bs 8 8,
         ke_cgroup_id = field_at bs 16 8, ke_duration_ns = field_at bs 24 8,
         ke_bytes = field_at bs 32 8, ke_result = field_at bs 40 8,
         ke_pid = field_at bs 48 4, ke_tgid = field_at bs 52 4,
         ke_uid = field_at bs 56 4, ke_gid = field_at bs 60 4, ke_fd = field_at bs 64 4,
         ke_original_len = field_at bs 68 4, ke_captured_len = field_at bs 72 4,
         ke_event_type = field_at bs 76 1, ke_direction = field_at bs 77 1,
         ke_source = field_at bs 78 1, ke_operation = field_at bs 79 1,
         ke_comm = take 16 (drop 80 bs), ke_data = take 1024 (drop 96 bs)\<rparr>)"

definition raw_command :: "kernel_event \<Rightarrow> string" where
  "raw_command raw =
     (let end_at = (case position (\<lambda>b. b = 0) (ke_comm raw) of None \<Rightarrow> length (ke_comm raw) | Some i \<Rightarrow> i)
      in from_utf8_lossy (take end_at (ke_comm raw)))"

record captured_kernel_event =
  ck_raw :: kernel_event
  ck_user_stack_addresses :: "u64 list"
  ck_kernel_stack_addresses :: "u64 list"

subsection \<open>State\<close>

record processor_config =
  pc_customer_id :: string
  pc_tenant_id :: string
  pc_source_id :: string
  pc_regional_cell_id :: string
  pc_sensor_id :: string
  pc_node_name :: string
  pc_cluster_name :: string
  pc_host_proc :: string
  pc_max_message_bytes :: usize
  pc_cpu_profile_hz :: u32
  pc_principal_hash_salt :: "string option"
  pc_capture_query_content :: bool

record event_seed =
  seed_observed_at :: instant
  seed_monotonic_timestamp_ns :: u64
  seed_capture :: capture_metadata
  seed_kubernetes :: "kubernetes_metadata option"
  seed_process :: "process_metadata option"

record pending_request =
  pq_command :: mongo_command
  pq_target_principal_hash :: "string option"
  pq_actor_principal_hash :: "string option"
  pq_connection_state_key :: "u32 \<times> u64"
  pq_request_id :: i32
  pq_request_bytes :: u32
  pq_compressed :: bool
  pq_expects_response :: bool
  pq_seed :: event_seed
  pq_connection :: Schema.connection_metadata

record pending_dns_query =
  pd_timestamp_ns :: u64
  pd_name :: "string option"
  pd_record_type :: "string option"

record connection_state =
  cs_tcp_srtt_us :: "u32 option"
  cs_retransmits :: u32
  cs_authenticated_principal_hash :: "string option"
  cs_pending_auth_principal_hash :: "string option"

definition default_connection_state :: connection_state where
  "default_connection_state =
     \<lparr>cs_tcp_srtt_us = None, cs_retransmits = 0, cs_authenticated_principal_hash = None,
      cs_pending_auth_principal_hash = None\<rparr>"

record endpoint_cache_entry =
  ec_inserted_at :: nat
  ec_local :: network_endpoint
  ec_remote :: network_endpoint

record event_processor =
  pr_config :: processor_config
  pr_streams :: "(u32 \<times> u64 \<times> u8, stream_decoder) hashmap"
  pr_pending :: "(u32 \<times> u64 \<times> i32, pending_request) hashmap"
  pr_pending_dns :: "(u32 \<times> u64 \<times> u16, pending_dns_query) hashmap"
  pr_connections :: "(u32 \<times> u64, connection_state) hashmap"
  pr_endpoint_cache :: "(u32 \<times> i32, endpoint_cache_entry) hashmap"
  pr_sequence :: u64

definition new_processor :: "processor_config \<Rightarrow> event_processor" where
  "new_processor config =
     \<lparr>pr_config = config, pr_streams = [], pr_pending = [], pr_pending_dns = [], pr_connections = [],
      pr_endpoint_cache = [], pr_sequence = 0\<rparr>"

text \<open>What one step reads from outside: digests, decompressors, \<open>/proc\<close>, wall clock, monotonic clock (ns).\<close>

record crypto =
  sha256 :: "bytes \<Rightarrow> bytes"
  hex_encode :: "bytes \<Rightarrow> string"

record env =
  env_crypto :: crypto
  env_codec :: codec
  env_fs :: proc_fs
  env_utc :: instant
  env_instant :: nat

subsection \<open>Command tables, principals\<close>

definition capture_source_of :: "u8 \<Rightarrow> capture_source" where
  "capture_source_of source =
     (if source = 1 then CleartextSyscall else if source = 2 then OpenSslUprobe
      else if source = 3 then KernelTracepoint else if source = 4 then PerfEvent
      else if source = 5 then UserUprobe else Sensor)"

definition is_session_auth_command :: "string \<Rightarrow> bool" where
  "is_session_auth_command command \<longleftrightarrow>
     to_ascii_lowercase command \<in> {''saslstart'', ''saslcontinue'', ''authenticate'', ''getnonce''}"

definition is_user_management_command :: "string \<Rightarrow> bool" where
  "is_user_management_command command \<longleftrightarrow>
     to_ascii_lowercase command \<in>
       {''createuser'', ''dropuser'', ''grantrolestouser'', ''revokerolesfromuser'', ''updateuser'', ''usersinfo''}"

definition is_auth_command :: "string \<Rightarrow> bool" where
  "is_auth_command command \<longleftrightarrow> is_session_auth_command command \<or> is_user_management_command command"

definition command_carries_authentication :: "mongo_command \<Rightarrow> bool" where
  "command_carries_authentication command \<longleftrightarrow>
     cmd_speculative_auth command \<or> is_session_auth_command (cmd_name command)"

definition authentication_exchange_completed :: "mongo_command \<Rightarrow> bool option \<Rightarrow> bool" where
  "authentication_exchange_completed command auth_done \<longleftrightarrow>
     (if cmd_speculative_auth command then auth_done = Some True
      else if to_ascii_lowercase (cmd_name command) \<in> {''saslstart'', ''saslcontinue''} then auth_done = Some True
      else to_ascii_lowercase (cmd_name command) = ''authenticate'')"

definition delete_scope_name :: "delete_scope \<Rightarrow> string" where
  "delete_scope_name scope = (case scope of Single \<Rightarrow> ''single'' | Multi \<Rightarrow> ''multi'' | Mixed \<Rightarrow> ''mixed'')"

definition hash_principal :: "crypto \<Rightarrow> string \<Rightarrow> string \<Rightarrow> string" where
  "hash_principal crypto salt name =
     ''sha256:'' @ hex_encode crypto (sha256 crypto (as_bytes salt @ [0] @ as_bytes name))"

text \<open>The command without its principal, and the principal's hash if there is a salt.\<close>

definition take_hashed_principal ::
  "crypto \<Rightarrow> mongo_command \<Rightarrow> string option \<Rightarrow> mongo_command \<times> string option" where
  "take_hashed_principal crypto command salt =
     (command\<lparr>cmd_principal := None\<rparr>,
      Option.bind (cmd_principal command) (\<lambda>principal.
        map_option (\<lambda>salt. hash_principal crypto salt principal) salt))"

text \<open>\<open>DecodeError\<close> as text.\<close>

definition decode_error_string :: "decode_error \<Rightarrow> string" where
  "decode_error_string e =
     (case e of
        InvalidFrameLength n \<Rightarrow> ''MongoDB frame length '' @ int_string (sint n) @ '' is invalid''
      | FrameTooLarge \<Rightarrow> ''MongoDB frame exceeds configured limit''
      | BufferTooLarge \<Rightarrow> ''MongoDB stream buffer exceeds configured limit''
      | Truncated \<Rightarrow> ''truncated MongoDB message''
      | UnsupportedOpcode n \<Rightarrow> ''unsupported MongoDB opcode '' @ int_string (sint n)
      | UnsupportedSection n \<Rightarrow> ''unsupported OP_MSG section kind '' @ nat_string (unat n)
      | InvalidBson \<Rightarrow> ''invalid BSON document''
      | InvalidCompressed \<Rightarrow> ''invalid OP_COMPRESSED payload''
      | UnsupportedCompressor n \<Rightarrow> ''unsupported MongoDB compressor '' @ nat_string (unat n)
      | Decompression reason \<Rightarrow> ''MongoDB decompression failed: '' @ reason)"

text \<open>\<open>map_err\<close>; a panic is not an error value.\<close>

definition map_err :: "('e \<Rightarrow> 'f) \<Rightarrow> ('e, 'a) result \<Rightarrow> ('f, 'a) result" where
  "map_err f r = (case r of Inr x \<Rightarrow> Ok x | Inl (Err e) \<Rightarrow> Fail (f e) | Inl Panic \<Rightarrow> panicked)"

subsection \<open>Seeds and events\<close>

definition seed_of :: "env \<Rightarrow> event_processor \<Rightarrow> kernel_event \<Rightarrow> bool \<Rightarrow> event_seed" where
  "seed_of env p raw truncated =
     (let config = pr_config p;
          scheduler_handoff = (ke_event_type raw = EVENT_SYSCALL_LATENCY \<and> ke_operation raw = OP_OFFCPU);
          foreign_kernel_context = (scheduler_handoff \<or> ke_event_type raw = EVENT_CONNECTION);
          credentials =
            (if foreign_kernel_context then process_credentials (env_fs env) (pc_host_proc config) (ke_tgid raw)
             else Some (ke_uid raw, ke_gid raw));
          command =
            (if foreign_kernel_context then
               (case process_command (env_fs env) (pc_host_proc config) (ke_tgid raw) of
                  None \<Rightarrow> raw_command raw | Some command \<Rightarrow> command)
             else raw_command raw)
      in \<lparr>seed_observed_at = env_utc env,
          seed_monotonic_timestamp_ns = ke_timestamp_ns raw,
          seed_capture =
            \<lparr>cap_sensor_id = pc_sensor_id config, cap_node_name = pc_node_name config,
             cap_source = capture_source_of (ke_source raw),
             cap_confidence =
               (if truncated then Partial else if ke_event_type raw = EVENT_IO_CHUNK then Complete else Inferred),
             cap_metadata_only = True, cap_truncated = truncated\<rparr>,
          seed_kubernetes =
            pod_metadata (env_fs env) (pc_host_proc config) (ke_tgid raw) (pc_cluster_name config),
          seed_process =
            Some \<lparr>proc_pid = ke_pid raw, proc_tgid = ke_tgid raw, proc_uid = map_option fst credentials,
              proc_gid = map_option snd credentials,
              proc_cgroup_id = then_some (\<not> foreign_kernel_context) (ke_cgroup_id raw),
              proc_command = command,
              proc_executable = process_executable (env_fs env) (pc_host_proc config) (ke_tgid raw)\<rparr>\<rparr>)"

definition event_from_seed ::
  "env \<Rightarrow> event_processor \<Rightarrow> event_seed \<Rightarrow> event_payload \<Rightarrow> event_processor \<times> dam_event" where
  "event_from_seed env p seed payload =
     (let p = p\<lparr>pr_sequence := pr_sequence p + 1\<rparr>;
          config = pr_config p;
          digest = sha256 (env_crypto env)
            (as_bytes (pc_sensor_id config) @ to_le_bytes (seed_monotonic_timestamp_ns seed) @
             to_le_bytes (pr_sequence p))
      in (p, \<lparr>ev_schema_version = EVENT_SCHEMA_VERSION,
              ev_event_id = ''evt-'' @ hex_encode (env_crypto env) (take 16 digest),
              ev_observed_at = seed_observed_at seed,
              ev_monotonic_timestamp_ns = seed_monotonic_timestamp_ns seed,
              ev_customer_id = pc_customer_id config, ev_tenant_id = pc_tenant_id config,
              ev_source_id = pc_source_id config, ev_regional_cell_id = pc_regional_cell_id config,
              ev_capture = seed_capture seed, ev_kubernetes = seed_kubernetes seed,
              ev_process = seed_process seed, ev_identity = None, ev_payload = payload\<rparr>))"

definition event_of ::
  "env \<Rightarrow> event_processor \<Rightarrow> kernel_event \<Rightarrow> bool \<Rightarrow> event_payload \<Rightarrow> event_processor \<times> dam_event" where
  "event_of env p raw truncated payload = event_from_seed env p (seed_of env p raw truncated) payload"

subsection \<open>Connections\<close>

definition socket_endpoints ::
  "env \<Rightarrow> event_processor \<Rightarrow> u32 \<Rightarrow> i32 \<Rightarrow> event_processor \<times> (network_endpoint \<times> network_endpoint) option"
  where
  "socket_endpoints env p tgid fd =
     (let resolve =
        (case resolve_socket_endpoints (env_fs env) (pc_host_proc (pr_config p)) tgid fd of
           None \<Rightarrow> (p, None)
         | Some (near, far) \<Rightarrow>
             (p\<lparr>pr_endpoint_cache := hm_insert (tgid, fd)
                 \<lparr>ec_inserted_at = env_instant env, ec_local = near, ec_remote = far\<rparr> (pr_endpoint_cache p)\<rparr>,
              Some (near, far)))
      in (case hm_get (pr_endpoint_cache p) (tgid, fd) of
            None \<Rightarrow> resolve
          | Some cached \<Rightarrow>
              if env_instant env - ec_inserted_at cached < 5000000000
              then (p, Some (ec_local cached, ec_remote cached)) else resolve))"

definition connection_metadata_of ::
  "env \<Rightarrow> event_processor \<Rightarrow> kernel_event \<Rightarrow> event_processor \<times> Schema.connection_metadata" where
  "connection_metadata_of env p raw =
     (let key = (ke_tgid raw, ke_connection_key raw);
          state = hm_get_or default_connection_state (pr_connections p) key;
          p = p\<lparr>pr_connections := hm_insert key state (pr_connections p)\<rparr>;
          (p, endpoints) =
            (if 0 \<le> sint (ke_fd raw) then socket_endpoints env p (ke_tgid raw) (ke_fd raw) else (p, None))
      in (p, \<lparr>conn_connection_id =
                pc_node_name (pr_config p) @ '':'' @ u32_string (ke_tgid raw) @ '':'' @
                zero_pad 16 (digits_of 16 (unat (ke_connection_key raw))),
              conn_fd = ke_fd raw, conn_local = map_option fst endpoints,
              conn_remote = map_option snd endpoints, conn_tcp_srtt_us = cs_tcp_srtt_us state,
              conn_retransmits = then_some (cs_retransmits state > 0) (cs_retransmits state),
              conn_tls = (if ke_source raw = 2 then Some True else if ke_source raw = 1 then Some False else None)\<rparr>))"

text \<open>\<open>iter().min_by_key(f)\<close>: the first of the least elements.\<close>

fun min_by_key :: "('a \<Rightarrow> 'b::linorder) \<Rightarrow> 'a list \<Rightarrow> 'a option" where
  "min_by_key f [] = None"
| "min_by_key f (x # xs) =
     (case min_by_key f xs of None \<Rightarrow> Some x | Some y \<Rightarrow> if f x \<le> f y then Some x else Some y)"

definition prune_pending_requests :: "event_processor \<Rightarrow> u64 \<Rightarrow> event_processor" where
  "prune_pending_requests p now_ns =
     (if length (pr_pending p) < MAX_PENDING_REQUESTS then p
      else
        let cutoff = saturating_sub now_ns PENDING_REQUEST_TTL_NS;
            kept = hm_retain (\<lambda>_ request. seed_monotonic_timestamp_ns (pq_seed request) \<ge> cutoff) (pr_pending p)
        in if length kept \<ge> MAX_PENDING_REQUESTS then
             (case min_by_key (\<lambda>(_, request). seed_monotonic_timestamp_ns (pq_seed request)) kept of
                None \<Rightarrow> p\<lparr>pr_pending := kept\<rparr>
              | Some (oldest, _) \<Rightarrow> p\<lparr>pr_pending := hm_remove oldest kept\<rparr>)
           else p\<lparr>pr_pending := kept\<rparr>)"

subsection \<open>MongoDB messages\<close>

text \<open>What a response says of its request: duration, outcome, error code and name, count, end of authentication.\<close>

definition response_parts ::
  "(decoded_message \<times> u64) option \<Rightarrow>
   u64 option \<times> bool option \<times> i32 option \<times> string option \<times> u64 option \<times> bool option" where
  "response_parts response =
     (case response of
        Some (message, duration) \<Rightarrow>
          (Some duration, Option.bind (dm_status message) rs_ok, Option.bind (dm_status message) rs_code,
           Option.bind (dm_status message) rs_code_name, Option.bind (dm_status message) rs_affected_count,
           Option.bind (dm_status message) rs_auth_done)
      | None \<Rightarrow> (None, None, None, None, None, None))"

text \<open>The update of the connection's authentication state, and the principal of the exchange.\<close>

definition session_authentication ::
  "event_processor \<Rightarrow> pending_request \<Rightarrow> bool option \<Rightarrow> bool option \<Rightarrow> event_processor \<times> string option" where
  "session_authentication p request succeeded auth_done =
     (if command_carries_authentication (pq_command request) then
        let key = pq_connection_state_key request;
            state = hm_get_or default_connection_state (pr_connections p) key;
            principal = option_or (pq_target_principal_hash request) (cs_pending_auth_principal_hash state);
            state =
              (if succeeded = Some False then state\<lparr>cs_pending_auth_principal_hash := None\<rparr>
               else if succeeded = Some True \<and> authentication_exchange_completed (pq_command request) auth_done
               then state\<lparr>cs_authenticated_principal_hash := principal, cs_pending_auth_principal_hash := None\<rparr>
               else state)
        in (p\<lparr>pr_connections := hm_insert key state (pr_connections p)\<rparr>, principal)
      else (p, None))"

definition mongodb_activity_of ::
  "pending_request \<Rightarrow> json_value option \<Rightarrow> i32 option \<Rightarrow> u32 option \<Rightarrow>
   u64 option \<times> bool option \<times> i32 option \<times> string option \<times> u64 option \<times> bool option \<Rightarrow> mongodb_activity" where
  "mongodb_activity_of request query response_id response_bytes parts =
     (case parts of (duration_us, succeeded, error_code, error_name, affected_documents, auth_done) \<Rightarrow>
        \<lparr>act_command = cmd_name (pq_command request), act_database = cmd_database (pq_command request),
         act_collection = cmd_collection (pq_command request),
         act_principal = pq_actor_principal_hash request,
         act_principal_hashed = (pq_actor_principal_hash request \<noteq> None),
         act_delete_scope = map_option delete_scope_name (cmd_delete_scope (pq_command request)),
         act_delete_statements = cmd_delete_statements (pq_command request),
         act_affected_documents = affected_documents, act_query = query,
         act_request_id = pq_request_id request, act_response_id = response_id,
         act_request_bytes = pq_request_bytes request, act_response_bytes = response_bytes,
         act_duration_us = duration_us, act_succeeded = succeeded, act_error_code = error_code,
         act_error_name = error_name, act_expects_response = pq_expects_response request,
         act_compressed = pq_compressed request, act_connection = pq_connection request\<rparr>)"

definition mongodb_auth_of ::
  "pending_request \<Rightarrow> string option \<Rightarrow> bool option \<Rightarrow> mongodb_auth" where
  "mongodb_auth_of request session_auth_principal succeeded =
     (let default_mechanism =
        (if is_user_management_command (cmd_name (pq_command request)) then ''user_management'' else ''unknown'')
      in \<lparr>au_mechanism =
            (case cmd_auth_mechanism (pq_command request) of None \<Rightarrow> default_mechanism | Some m \<Rightarrow> m),
          au_principal =
            (if command_carries_authentication (pq_command request) then session_auth_principal
             else pq_target_principal_hash request),
          au_principal_hashed = True, au_succeeded = succeeded,
          au_connection_id = conn_connection_id (pq_connection request)\<rparr>)"

definition events_for_completed_request ::
  "env \<Rightarrow> event_processor \<Rightarrow> pending_request \<Rightarrow> (decoded_message \<times> u64) option \<Rightarrow> i32 option \<Rightarrow> u32 option \<Rightarrow>
   event_processor \<times> dam_event list" where
  "events_for_completed_request env p request response response_id response_bytes =
     (let parts = response_parts response;
          (duration_us, succeeded, error_code, error_name, affected_documents, auth_done) = parts;
          (p, session_auth_principal) = session_authentication p request succeeded auth_done;
          query = (if pc_capture_query_content (pr_config p) then cmd_query (pq_command request) else None);
          activity_seed =
            (if query \<noteq> None
             then (pq_seed request)\<lparr>seed_capture := (seed_capture (pq_seed request))\<lparr>cap_metadata_only := False\<rparr>\<rparr>
             else pq_seed request);
          (p, activity) = event_from_seed env p activity_seed
            (MongodbActivity (mongodb_activity_of request query response_id response_bytes parts))
      in if is_auth_command (cmd_name (pq_command request)) \<or> cmd_speculative_auth (pq_command request) then
           (case event_from_seed env p (pq_seed request)
               (MongodbAuth (mongodb_auth_of request session_auth_principal succeeded)) of
              (p, auth) \<Rightarrow> (p, [activity, auth]))
         else (p, [activity]))"

text \<open>
  The first branch of \<open>process_message\<close>: a request. Its principal is hashed before anything is kept,
  and the state of the connection says who is acting.
\<close>

definition register_request ::
  "env \<Rightarrow> event_processor \<Rightarrow> kernel_event \<Rightarrow> bool \<Rightarrow> decoded_message \<Rightarrow> mongo_command \<Rightarrow>
   event_processor \<times> pending_request" where
  "register_request env p raw truncated message command =
     (let connection_key = (ke_tgid raw, ke_connection_key raw);
          (command, target_principal_hash) =
            take_hashed_principal (env_crypto env) command (pc_principal_hash_salt (pr_config p));
          state = hm_get_or default_connection_state (pr_connections p) connection_key;
          state =
            (if command_carries_authentication command \<and> target_principal_hash \<noteq> None
             then state\<lparr>cs_pending_auth_principal_hash := target_principal_hash\<rparr> else state);
          p = p\<lparr>pr_connections := hm_insert connection_key state (pr_connections p)\<rparr>;
          seed = seed_of env p raw truncated;
          (p, connection) = connection_metadata_of env p raw
      in (p, \<lparr>pq_command = command, pq_target_principal_hash = target_principal_hash,
              pq_actor_principal_hash = cs_authenticated_principal_hash state,
              pq_connection_state_key = connection_key, pq_request_id = dm_request_id message,
              pq_request_bytes = dm_wire_bytes message, pq_compressed = dm_compressed message,
              pq_expects_response = (\<not> dm_more_to_come message), pq_seed = seed,
              pq_connection = connection\<rparr>))"

definition process_request ::
  "env \<Rightarrow> event_processor \<Rightarrow> kernel_event \<Rightarrow> bool \<Rightarrow> decoded_message \<Rightarrow> mongo_command \<Rightarrow>
   event_processor \<times> dam_event list" where
  "process_request env p raw truncated message command =
     (case register_request env p raw truncated message command of (p, request) \<Rightarrow>
        if pq_expects_response request then
          let p = prune_pending_requests p (ke_timestamp_ns raw) in
          (p\<lparr>pr_pending := hm_insert (ke_tgid raw, ke_connection_key raw, pq_request_id request) request
              (pr_pending p)\<rparr>, [])
        else events_for_completed_request env p request None None None)"

definition process_message ::
  "env \<Rightarrow> event_processor \<Rightarrow> kernel_event \<Rightarrow> bool \<Rightarrow> decoded_message \<Rightarrow> event_processor \<times> dam_event list" where
  "process_message env p raw truncated message =
     (if dm_response_to message = 0 then
        (case dm_command message of
           None \<Rightarrow> (p, [])
         | Some command \<Rightarrow> process_request env p raw truncated message command)
      else
        let key = (ke_tgid raw, ke_connection_key raw, dm_response_to message) in
        (case hm_get (pr_pending p) key of
           None \<Rightarrow> (p, [])
         | Some request \<Rightarrow>
             let duration_us =
               saturating_sub (ke_timestamp_ns raw) (seed_monotonic_timestamp_ns (pq_seed request)) div 1000
             in events_for_completed_request env (p\<lparr>pr_pending := hm_remove key (pr_pending p)\<rparr>) request
                  (Some (message, duration_us)) (Some (dm_request_id message)) (Some (dm_wire_bytes message))))"

fun process_messages ::
  "env \<Rightarrow> event_processor \<Rightarrow> kernel_event \<Rightarrow> bool \<Rightarrow> decoded_message list \<Rightarrow> event_processor \<times> dam_event list" where
  "process_messages env p raw truncated [] = (p, [])"
| "process_messages env p raw truncated (message # messages) =
     (case process_message env p raw truncated message of (p, events) \<Rightarrow>
        (case process_messages env p raw truncated messages of (p, rest) \<Rightarrow> (p, events @ rest)))"

definition captured_len :: "kernel_event \<Rightarrow> usize" where
  "captured_len raw = min (unat (ke_captured_len raw)) MAX_CAPTURE_BYTES"

definition decoder_config_of :: "processor_config \<Rightarrow> decoder_config" where
  "decoder_config_of config =
     \<lparr>max_message_bytes = pc_max_message_bytes config, max_buffer_bytes = 2 * MAX_CAPTURE_BYTES\<rparr>"

definition process_io_chunk ::
  "env \<Rightarrow> event_processor \<Rightarrow> captured_kernel_event \<Rightarrow> event_processor \<times> dam_event list text_result" where
  "process_io_chunk env p captured =
     (let raw = ck_raw captured;
          len = captured_len raw;
          key = (ke_tgid raw, ke_connection_key raw, ke_direction raw);
          truncated = (unat (ke_bytes raw) > unat (ke_captured_len raw));
          decoder = hm_get_or (new_stream_decoder (decoder_config_of (pr_config p))) (pr_streams p) key;
          finish = (\<lambda>p messages.
            (case process_messages env p raw truncated messages of (p, events) \<Rightarrow> (p, Ok events)))
      in if len = 0 then (p, Ok [])
         else if truncated then
           let remaining = MAX_CAPTURE_BYTES - buffered_bytes decoder in
           (case slice_sub (ke_data raw) 0 (min len remaining) of
              Inl e \<Rightarrow> (p, Inl e)
            | Inr bs \<Rightarrow>
                let p = p\<lparr>pr_streams := hm_remove key (pr_streams p)\<rparr> in
                (case map_err decode_error_string (snd (push_truncated (env_codec env) decoder bs)) of
                   Inl e \<Rightarrow> (p, Inl e)
                 | Inr message \<Rightarrow> finish p [message]))
         else
           (case slice_sub (ke_data raw) 0 len of
              Inl e \<Rightarrow> (p, Inl e)
            | Inr bs \<Rightarrow>
                (case push_bounded_prefix (env_codec env) decoder bs MAX_CAPTURE_BYTES of
                   (decoder', Inl e) \<Rightarrow>
                     (p\<lparr>pr_streams := hm_remove key (pr_streams p)\<rparr>, map_err decode_error_string (Inl e))
                 | (decoder', Inr messages) \<Rightarrow>
                     finish (p\<lparr>pr_streams := hm_insert key decoder' (pr_streams p)\<rparr>) messages)))"

subsection \<open>DNS, host and connection events\<close>

definition MAX_PENDING_DNS :: usize where "MAX_PENDING_DNS = 4096"

definition prune_pending_dns :: "event_processor \<Rightarrow> u64 \<Rightarrow> event_processor" where
  "prune_pending_dns p now_ns =
     (if length (pr_pending_dns p) < MAX_PENDING_DNS then p
      else
        let cutoff = saturating_sub now_ns 30000000000;
            kept = hm_retain (\<lambda>_ pending. pd_timestamp_ns pending \<ge> cutoff) (pr_pending_dns p)
        in p\<lparr>pr_pending_dns := if length kept \<ge> MAX_PENDING_DNS then [] else kept\<rparr>)"

definition process_dns ::
  "env \<Rightarrow> event_processor \<Rightarrow> captured_kernel_event \<Rightarrow> event_processor \<times> dam_event list text_result" where
  "process_dns env p captured =
     (let raw = ck_raw captured;
          truncated = (unat (ke_bytes raw) > unat (ke_captured_len raw))
      in case rbind (slice_sub (ke_data raw) 0 (captured_len raw)) decode_dns_message of
           Inl e \<Rightarrow> (p, Inl e)
         | Inr message \<Rightarrow>
             let key = (ke_tgid raw, ke_connection_key raw, dd_query_id message);
                 (p, operation, name, record_type, duration_us) =
                   (if dd_response message then
                      let pending = hm_get (pr_pending_dns p) key in
                      (p\<lparr>pr_pending_dns := hm_remove key (pr_pending_dns p)\<rparr>, ''response'',
                       option_or (dd_name message) (Option.bind pending pd_name),
                       option_or (dd_record_type message) (Option.bind pending pd_record_type),
                       map_option (\<lambda>query. saturating_sub (ke_timestamp_ns raw) (pd_timestamp_ns query) div 1000)
                         pending)
                    else
                      let p = prune_pending_dns p (ke_timestamp_ns raw) in
                      (p\<lparr>pr_pending_dns := hm_insert key
                          \<lparr>pd_timestamp_ns = ke_timestamp_ns raw, pd_name = dd_name message,
                           pd_record_type = dd_record_type message\<rparr> (pr_pending_dns p)\<rparr>,
                       ''query'', dd_name message, dd_record_type message, None));
                 (p, connection) = connection_metadata_of env p raw;
                 (p, event) = event_of env p raw truncated (DnsActivity
                   \<lparr>dns_operation = operation, dns_transport = ''udp'', dns_query_id = dd_query_id message,
                    dns_name = name, dns_record_type = record_type,
                    dns_response_code = then_some (dd_response message) (dd_response_code message),
                    dns_answer_count = then_some (dd_response message) (dd_answer_count message),
                    dns_duration_us = duration_us, dns_connection = connection\<rparr>)
             in (p, Ok [event]))"

definition host_io_operation :: "u8 \<Rightarrow> string option" where
  "host_io_operation operation =
     (if operation = OP_PREAD then Some ''pread'' else if operation = OP_PWRITE then Some ''pwrite''
      else if operation = OP_FSYNC then Some ''fsync'' else if operation = OP_FDATASYNC then Some ''fdatasync''
      else if operation = OP_OPENAT then Some ''openat'' else if operation = OP_PAGE_FAULT then Some ''page_fault''
      else None)"

text \<open>A handler that emits one event.\<close>

definition emit :: "event_processor \<times> dam_event \<Rightarrow> event_processor \<times> dam_event list" where
  "emit r = (case r of (p, event) \<Rightarrow> (p, [event]))"

definition process_latency ::
  "env \<Rightarrow> event_processor \<Rightarrow> captured_kernel_event \<Rightarrow> event_processor \<times> dam_event list" where
  "process_latency env p captured =
     (let raw = ck_raw captured in
      if ke_operation raw = OP_OFFCPU then
        emit (event_of env p raw False (Profile
          \<lparr>prof_profile_type = ''off_cpu'', prof_period_hz = 0, prof_count = 1, prof_user_stack_id = - 1,
           prof_kernel_stack_id = - 1, prof_duration_us = Some (ke_duration_ns raw div 1000),
           prof_user_stack_addresses = [], prof_kernel_stack_addresses = []\<rparr>))
      else
        (case host_io_operation (ke_operation raw) of
           None \<Rightarrow> (p, [])
         | Some operation \<Rightarrow>
             emit (event_of env p raw False (HostIo
               \<lparr>io_operation = operation, io_duration_us = ke_duration_ns raw div 1000,
                io_bytes = then_some (ke_bytes raw > 0) (ke_bytes raw),
                io_fd = then_some (0 \<le> sint (ke_fd raw)) (ke_fd raw), io_result = ke_result raw\<rparr>))))"

text \<open>The match of \<open>process_connection\<close>: the new state of the connection, and the event's name, duration and reason.\<close>

definition connection_transition ::
  "kernel_event \<Rightarrow> connection_state \<Rightarrow> (connection_state \<times> string \<times> u64 option \<times> string option) option" where
  "connection_transition raw state =
     (let operation = ke_operation raw;
          duration = ke_duration_ns raw div 1000;
          measured = then_some (ke_duration_ns raw > 0) duration
      in if operation = OP_TCP_CONNECT then Some (state, ''connect_started'', None, None)
         else if operation = OP_TCP_ACCEPT then Some (state, ''accepted'', None, None)
         else if operation = OP_TCP_CLOSE then Some (state, ''closed'', None, None)
         else if operation = OP_TCP_RTT then
           Some (state\<lparr>cs_tcp_srtt_us := Some (ucast (min duration 0xFFFFFFFF))\<rparr>, ''rtt_sample'', Some duration, None)
         else if operation = OP_TCP_RETRANSMIT then
           Some (state\<lparr>cs_retransmits := saturating_add (cs_retransmits state) 1\<rparr>, ''retransmit'', None, None)
         else if operation = OP_TCP_HANDSHAKE then Some (state, ''handshake_established'', measured, None)
         else if operation = OP_TCP_RESET_RECEIVED then Some (state, ''reset'', None, Some ''peer_reset'')
         else if operation = OP_TCP_RESET_SENT then Some (state, ''reset'', None, Some ''active_reset'')
         else if operation = OP_TCP_ZERO_WINDOW then
           Some (state, ''zero_window'', None, Some ''peer_advertised_zero_window'')
         else if operation = OP_TCP_TIMEOUT then
           Some (state, ''timeout'', measured, Some ''connect_or_retransmission_timeout'')
         else None)"

text \<open>What \<open>OP_TCP_CLOSE\<close> and \<open>OP_PROCESS_EXIT\<close> release.\<close>

definition release_connection :: "u32 \<times> u64 \<Rightarrow> event_processor \<Rightarrow> event_processor" where
  "release_connection key p =
     p\<lparr>pr_connections := hm_remove key (pr_connections p),
       pr_streams := hm_retain (\<lambda>(tgid, connection_key, _) _. (tgid, connection_key) \<noteq> key) (pr_streams p),
       pr_pending := hm_retain (\<lambda>(tgid, connection_key, _) _. (tgid, connection_key) \<noteq> key) (pr_pending p),
       pr_pending_dns := hm_retain (\<lambda>(tgid, connection_key, _) _. (tgid, connection_key) \<noteq> key) (pr_pending_dns p)\<rparr>"

definition release_process :: "u32 \<Rightarrow> event_processor \<Rightarrow> event_processor" where
  "release_process pid p =
     p\<lparr>pr_streams := hm_retain (\<lambda>(tgid, _, _) _. tgid \<noteq> pid) (pr_streams p),
       pr_pending := hm_retain (\<lambda>(tgid, _, _) _. tgid \<noteq> pid) (pr_pending p),
       pr_pending_dns := hm_retain (\<lambda>(tgid, _, _) _. tgid \<noteq> pid) (pr_pending_dns p),
       pr_connections := hm_retain (\<lambda>(tgid, _) _. tgid \<noteq> pid) (pr_connections p),
       pr_endpoint_cache := hm_retain (\<lambda>(tgid, _) _. tgid \<noteq> pid) (pr_endpoint_cache p)\<rparr>"

definition process_connection ::
  "env \<Rightarrow> event_processor \<Rightarrow> captured_kernel_event \<Rightarrow> event_processor \<times> dam_event list" where
  "process_connection env p captured =
     (let raw = ck_raw captured;
          key = (ke_tgid raw, ke_connection_key raw);
          state = hm_get_or default_connection_state (pr_connections p) key
      in case connection_transition raw state of
           None \<Rightarrow> (p\<lparr>pr_connections := hm_insert key state (pr_connections p)\<rparr>, [])
         | Some (state, name, duration_us, reason) \<Rightarrow>
             (case connection_metadata_of env (p\<lparr>pr_connections := hm_insert key state (pr_connections p)\<rparr>) raw of
                (p, connection) \<Rightarrow>
                  let p = (if ke_operation raw = OP_TCP_CLOSE then release_connection key p else p) in
                  emit (event_of env p raw False (MongodbConnection
                    \<lparr>mc_state = name, mc_connection = connection, mc_duration_us = duration_us,
                     mc_reason = reason\<rparr>))))"

definition i32_try_from :: "i64 \<Rightarrow> i32 option" where
  "i32_try_from n = (if - (2 ^ 31) \<le> sint n \<and> sint n < 2 ^ 31 then Some (scast n) else None)"

definition process_profile ::
  "env \<Rightarrow> event_processor \<Rightarrow> captured_kernel_event \<Rightarrow> event_processor \<times> dam_event list" where
  "process_profile env p captured =
     (let raw = ck_raw captured;
          sample =
            (if ke_operation raw = OP_CPU_SAMPLE then
               Some (''on_cpu'', None, (case i32_try_from (ke_result raw) of None \<Rightarrow> - 1 | Some n \<Rightarrow> n), ke_fd raw)
             else if ke_operation raw = OP_LOCK_WAIT then
               Some (''pthread_mutex_wait'', Some (ke_duration_ns raw div 1000), - 1, - 1)
             else None)
      in case sample of
           None \<Rightarrow> (p, [])
         | Some (profile_type, duration_us, user_stack_id, kernel_stack_id) \<Rightarrow>
             emit (event_of env p raw False (Profile
               \<lparr>prof_profile_type = profile_type,
                prof_period_hz = (if ke_operation raw = OP_CPU_SAMPLE then pc_cpu_profile_hz (pr_config p) else 0),
                prof_count = 1, prof_user_stack_id = user_stack_id, prof_kernel_stack_id = kernel_stack_id,
                prof_duration_us = duration_us,
                prof_user_stack_addresses = ck_user_stack_addresses captured,
                prof_kernel_stack_addresses = ck_kernel_stack_addresses captured\<rparr>)))"

definition process_lifecycle_event ::
  "env \<Rightarrow> event_processor \<Rightarrow> captured_kernel_event \<Rightarrow> event_processor \<times> dam_event list" where
  "process_lifecycle_event env p captured =
     (let raw = ck_raw captured;
          state =
            (if ke_operation raw = OP_PROCESS_EXEC then Some ''exec''
             else if ke_operation raw = OP_PROCESS_EXIT then Some ''exit'' else None)
      in case state of
           None \<Rightarrow> (p, [])
         | Some state \<Rightarrow>
             let p = (if ke_operation raw = OP_PROCESS_EXIT then release_process (ke_tgid raw) p else p) in
             emit (event_of env p raw False (ProcessLifecycle
               \<lparr>pl_state = state,
                pl_executable = process_executable (env_fs env) (pc_host_proc (pr_config p)) (ke_tgid raw)\<rparr>)))"

definition process ::
  "env \<Rightarrow> event_processor \<Rightarrow> captured_kernel_event \<Rightarrow> event_processor \<times> dam_event list text_result" where
  "process env p captured =
     (let event_type = ke_event_type (ck_raw captured);
          infallible = (\<lambda>(p, events). (p, Ok events))
      in if event_type = EVENT_IO_CHUNK then process_io_chunk env p captured
         else if event_type = EVENT_SYSCALL_LATENCY then infallible (process_latency env p captured)
         else if event_type = EVENT_CONNECTION then infallible (process_connection env p captured)
         else if event_type = EVENT_PROFILE then infallible (process_profile env p captured)
         else if event_type = EVENT_PROCESS then infallible (process_lifecycle_event env p captured)
         else if event_type = EVENT_DNS_CHUNK then process_dns env p captured
         else (p, Fail (''unsupported kernel event type '' @ nat_string (unat event_type))))"

end
