(* ===== verification/Spool.thy ===== *)
theory Spool
  imports Rust_Str "HOL-Library.List_Lexorder" "HOL-Library.Char_ord"
begin

text \<open>
  The durable spool, \<open>crates/spool/src/lib.rs\<close>. A spool is two directories of files; a batch is
  stored under the hexadecimal SHA-256 digest of its body. The digest (\<open>sha2\<close>, \<open>hex\<close>) is the
  parameter \<open>hash\<close>. Every operation takes the point at which the operating system fails, if it
  does, so that partial writes and half-done renames are part of the model. The lock of
  \<open>DurableSpool\<close> makes operations atomic with respect to each other: they are functions on the
  state. For power losses the file-system calls of \<open>enqueue\<close> are run one by one on a disk that keeps only what was synced.
\<close>

subsection \<open>State\<close>

text \<open>The regular files of the spool directory and of its \<open>quarantine\<close> subdirectory, by name.\<close>

record spool =
  sp_root :: "(string, bytes) hashmap"
  sp_quarantine :: "(string, bytes) hashmap"
  sp_max_bytes :: usize

record pending_item =
  pi_id :: string
  pi_path :: string
  pi_bytes :: usize

record spool_stats =
  st_items :: usize
  st_bytes :: usize

datatype spool_error =
    CapacityExceeded usize usize usize
  | Io

text \<open>The system call that fails; \<open>WriteBody k\<close> is a write that stops after \<open>k\<close> bytes.\<close>

datatype io_fault =
    ReadRoot | ReadQuarantine | OpenTemporary | WriteBody usize | SyncFile | RenameFile
  | SyncRoot | SyncQuarantine | OpenFile | RemoveFile

subsection \<open>File names\<close>

text \<open>\<open>Path::extension\<close> and \<open>Path::file_stem\<close>: a leading dot does not start an extension.\<close>

definition rsplit_dot :: "string \<Rightarrow> (string \<times> string) option" where
  "rsplit_dot name =
     (case split_once (CHR ''.'') (rev name) of
        None \<Rightarrow> None
      | Some (ext, stem) \<Rightarrow> if stem = [] then None else Some (rev stem, rev ext))"

definition extension :: "string \<Rightarrow> string option" where
  "extension name = map_option snd (rsplit_dot name)"

definition file_stem :: "string \<Rightarrow> string" where
  "file_stem name = (case rsplit_dot name of None \<Rightarrow> name | Some (stem, _) \<Rightarrow> stem)"

definition json_name :: "string \<Rightarrow> string" where
  "json_name item_id = item_id @ ''.json''"

definition temporary_name :: "string \<Rightarrow> string" where
  "temporary_name item_id = ''.'' @ item_id @ ''.tmp''"

definition exists_in :: "(string, bytes) hashmap \<Rightarrow> string \<Rightarrow> bool" where
  "exists_in dir name \<longleftrightarrow> hm_get dir name \<noteq> None"

subsection \<open>Operations\<close>

fun directory_stats_loop :: "(string, bytes) hashmap \<Rightarrow> spool_stats \<Rightarrow> spool_stats" where
  "directory_stats_loop [] stats = stats"
| "directory_stats_loop ((name, body) # entries) stats =
     directory_stats_loop entries
       (if extension name \<noteq> Some ''json'' then stats
        else \<lparr>st_items = saturating_add_usize (st_items stats) 1,
               st_bytes = saturating_add_usize (st_bytes stats) (length body)\<rparr>)"

definition directory_stats :: "(string, bytes) hashmap \<Rightarrow> spool_stats" where
  "directory_stats dir = directory_stats_loop dir \<lparr>st_items = 0, st_bytes = 0\<rparr>"

definition spool_enqueue ::
  "(bytes \<Rightarrow> string) \<Rightarrow> io_fault option \<Rightarrow> spool \<Rightarrow> bytes \<Rightarrow> spool \<times> (spool_error, string) result" where
  "spool_enqueue hash fault spool body =
     (let item_id = hash body in
      if exists_in (sp_root spool) (json_name item_id) \<or> exists_in (sp_quarantine spool) (json_name item_id)
      then (spool, Ok item_id)
      else if fault = Some ReadRoot \<or> fault = Some ReadQuarantine then (spool, Fail Io)
      else
        let current_bytes = saturating_add_usize (st_bytes (directory_stats (sp_root spool)))
              (st_bytes (directory_stats (sp_quarantine spool)));
            incoming_bytes = length body in
        if saturating_add_usize current_bytes incoming_bytes > sp_max_bytes spool
        then (spool, Fail (CapacityExceeded current_bytes incoming_bytes (sp_max_bytes spool)))
        else if fault = Some OpenTemporary \<or> exists_in (sp_root spool) (temporary_name item_id)
        then (spool, Fail Io)
        else
          (case fault of
             Some (WriteBody k) \<Rightarrow>
               (spool\<lparr>sp_root := hm_insert (temporary_name item_id) (take k body) (sp_root spool)\<rparr>, Fail Io)
           | _ \<Rightarrow>
               let written = spool\<lparr>sp_root := hm_insert (temporary_name item_id) body (sp_root spool)\<rparr> in
               if fault = Some SyncFile \<or> fault = Some RenameFile then (written, Fail Io)
               else
                 let renamed = spool\<lparr>sp_root :=
                       hm_insert (json_name item_id) body (hm_remove (temporary_name item_id) (sp_root written))\<rparr> in
                 if fault = Some SyncRoot then (renamed, Fail Io) else (renamed, Ok item_id)))"

definition spool_pending :: "io_fault option \<Rightarrow> spool \<Rightarrow> (spool_error, pending_item list) result" where
  "spool_pending fault spool =
     (if fault = Some ReadRoot then Fail Io
      else Ok (sort_key pi_id
        (map (\<lambda>(name, body). \<lparr>pi_id = file_stem name, pi_path = name, pi_bytes = length body\<rparr>)
          (filter (\<lambda>(name, body). extension name = Some ''json'') (sp_root spool)))))"

definition spool_read :: "io_fault option \<Rightarrow> spool \<Rightarrow> pending_item \<Rightarrow> (spool_error, bytes) result" where
  "spool_read fault spool item =
     (if fault = Some OpenFile then Fail Io
      else (case hm_get (sp_root spool) (pi_path item) of None \<Rightarrow> Fail Io | Some body \<Rightarrow> Ok body))"

definition spool_acknowledge :: "io_fault option \<Rightarrow> spool \<Rightarrow> pending_item \<Rightarrow> spool \<times> (spool_error, unit) result" where
  "spool_acknowledge fault spool item =
     (if fault = Some RemoveFile then (spool, Fail Io)
      else if \<not> exists_in (sp_root spool) (pi_path item) then (spool, Ok ())
      else
        let removed = spool\<lparr>sp_root := hm_remove (pi_path item) (sp_root spool)\<rparr> in
        if fault = Some SyncRoot then (removed, Fail Io) else (removed, Ok ()))"

definition spool_quarantine :: "io_fault option \<Rightarrow> spool \<Rightarrow> pending_item \<Rightarrow> spool \<times> (spool_error, unit) result" where
  "spool_quarantine fault spool item =
     (let destination = json_name (pi_id item) in
      if exists_in (sp_quarantine spool) destination then spool_acknowledge fault spool item
      else
        (case hm_get (sp_root spool) (pi_path item) of
           None \<Rightarrow> (spool, Fail Io)
         | Some body \<Rightarrow>
             if fault = Some RenameFile then (spool, Fail Io)
             else
               let moved = spool\<lparr>sp_root := hm_remove (pi_path item) (sp_root spool),
                     sp_quarantine := hm_insert destination body (sp_quarantine spool)\<rparr> in
               if fault = Some SyncRoot \<or> fault = Some SyncQuarantine then (moved, Fail Io)
               else (moved, Ok ())))"

definition spool_root_stats :: "io_fault option \<Rightarrow> spool \<Rightarrow> (spool_error, spool_stats) result" where
  "spool_root_stats fault spool =
     (if fault = Some ReadRoot then Fail Io else Ok (directory_stats (sp_root spool)))"

definition spool_quarantine_stats :: "io_fault option \<Rightarrow> spool \<Rightarrow> (spool_error, spool_stats) result" where
  "spool_quarantine_stats fault spool =
     (if fault = Some ReadQuarantine then Fail Io else Ok (directory_stats (sp_quarantine spool)))"

text \<open>The identifier of a temporary file left behind by \<open>enqueue\<close>, if the name is one.\<close>

definition temporary_id :: "string \<Rightarrow> string option" where
  "temporary_id name =
     Option.bind (strip_prefix ''.'' name) (\<lambda>rest.
     Option.bind (strip_suffix ''.tmp'' rest) (\<lambda>item_id.
     if length item_id \<noteq> 64 \<or> \<not> list_all is_ascii_hexdigit item_id then None else Some item_id))"

text \<open>One directory entry of \<open>recover_temporary_files\<close>; entries are listed before any is changed.\<close>

definition recover_entry :: "(bytes \<Rightarrow> string) \<Rightarrow> string \<times> bytes \<Rightarrow> spool \<Rightarrow> spool" where
  "recover_entry hash entry spool =
     (case entry of (name, body) \<Rightarrow>
        case temporary_id name of
          None \<Rightarrow> spool
        | Some item_id \<Rightarrow>
            let removed = hm_remove name (sp_root spool) in
            if exists_in (sp_root spool) (json_name item_id) \<or> exists_in (sp_quarantine spool) (json_name item_id)
            then spool\<lparr>sp_root := removed\<rparr>
            else if hash body = item_id then spool\<lparr>sp_root := hm_insert (json_name item_id) body removed\<rparr>
            else spool\<lparr>sp_root := removed\<rparr>)"

text \<open>The recovery pass; \<open>Some k\<close> stops it with an I/O error at entry \<open>k\<close>.\<close>

definition recover_temporary_files ::
  "(bytes \<Rightarrow> string) \<Rightarrow> usize option \<Rightarrow> spool \<Rightarrow> spool \<times> (spool_error, unit) result" where
  "recover_temporary_files hash failed_at spool =
     (case failed_at of
        None \<Rightarrow> (fold (recover_entry hash) (sp_root spool) spool, Ok ())
      | Some k \<Rightarrow> (fold (recover_entry hash) (take k (sp_root spool)) spool, Fail Io))"

text \<open>\<open>DurableSpool::open\<close> on the directories that an earlier run left.\<close>

definition open_spool ::
  "(bytes \<Rightarrow> string) \<Rightarrow> usize option \<Rightarrow> (string, bytes) hashmap \<Rightarrow> (string, bytes) hashmap \<Rightarrow> usize \<Rightarrow>
   spool \<times> (spool_error, unit) result" where
  "open_spool hash failed_at root quarantine max_bytes =
     recover_temporary_files hash failed_at
       \<lparr>sp_root = root, sp_quarantine = quarantine, sp_max_bytes = max_bytes\<rparr>"

subsection \<open>Invariant\<close>

text \<open>The documented shape of \<open>hex::encode(Sha256::digest(_))\<close>: 64 hexadecimal digits.\<close>

definition digest_shape :: "(bytes \<Rightarrow> string) \<Rightarrow> bool" where
  "digest_shape hash \<longleftrightarrow> (\<forall>body. length (hash body) = 64 \<and> list_all is_ascii_hexdigit (hash body))"

text \<open>The batches of a directory: its \<open>.json\<close> files. Temporary files are not batches.\<close>

definition batches :: "(string, bytes) hashmap \<Rightarrow> (string, bytes) hashmap" where
  "batches dir = filter (\<lambda>(name, body). extension name = Some ''json'') dir"

definition dir_bytes :: "(string, bytes) hashmap \<Rightarrow> usize" where
  "dir_bytes dir = sum_list (map (length \<circ> snd) (batches dir))"

definition used_bytes :: "spool \<Rightarrow> usize" where
  "used_bytes spool = dir_bytes (sp_root spool) + dir_bytes (sp_quarantine spool)"

text \<open>Names are distinct, and every batch is named by the digest of its body.\<close>

definition content_addressed :: "(bytes \<Rightarrow> string) \<Rightarrow> (string, bytes) hashmap \<Rightarrow> bool" where
  "content_addressed hash dir \<longleftrightarrow> hm_wf dir \<and> (\<forall>(name, body) \<in> set (batches dir). name = json_name (hash body))"

definition spool_wf :: "(bytes \<Rightarrow> string) \<Rightarrow> spool \<Rightarrow> bool" where
  "spool_wf hash spool \<longleftrightarrow> content_addressed hash (sp_root spool) \<and> content_addressed hash (sp_quarantine spool)"

lemma extension_json [simp]: "item_id \<noteq> [] \<Longrightarrow> extension (json_name item_id) = Some ''json''"
  by (simp add: extension_def rsplit_dot_def json_name_def)

lemma file_stem_json [simp]: "item_id \<noteq> [] \<Longrightarrow> file_stem (json_name item_id) = item_id"
  by (simp add: file_stem_def rsplit_dot_def json_name_def)

lemma extension_temporary [simp]: "extension (temporary_name item_id) = Some ''tmp''"
  by (simp add: extension_def rsplit_dot_def temporary_name_def)

lemma json_name_inject [simp]: "json_name a = json_name b \<longleftrightarrow> a = b"
  by (simp add: json_name_def)

lemma digest_not_Nil: "digest_shape hash \<Longrightarrow> hash body \<noteq> []"
  by (metis digest_shape_def list.size(3) zero_neq_numeral)

lemma temporary_not_json: "item_id \<noteq> [] \<Longrightarrow> temporary_name a \<noteq> json_name item_id"
proof
  assume "item_id \<noteq> []" "temporary_name a = json_name item_id"
  then have "Some ''tmp'' = Some ''json''" by (metis extension_json extension_temporary)
  then show False by simp
qed

lemma temporary_id_digest: "digest_shape hash \<Longrightarrow> temporary_id (temporary_name (hash body)) = Some (hash body)"
  using strip_suffix_append [of "''.tmp''" "hash body"]
  by (simp add: temporary_id_def temporary_name_def digest_shape_def del: strip_suffix_append strip_suffix_eq_Some)

lemma temporary_idD: "temporary_id name = Some item_id \<Longrightarrow> name = temporary_name item_id \<and> item_id \<noteq> []"
  by (auto simp: temporary_id_def temporary_name_def split: option.splits if_splits bind_splits)

text \<open>Directory updates seen through \<^const>\<open>batches\<close>.\<close>

lemma hm_insert_absent: "hm_get dir name = None \<Longrightarrow> hm_insert name body dir = dir @ [(name, body)]"
  by (induction dir) (auto simp: hm_get_def hm_insert_def split: if_splits)

lemma batches_insert_hidden:
  "extension name \<noteq> Some ''json'' \<Longrightarrow> batches (hm_insert name body dir) = batches dir"
  by (induction dir) (auto simp: batches_def hm_insert_def)

lemma batches_insert_absent:
  "hm_get dir name = None \<Longrightarrow> extension name = Some ''json'' \<Longrightarrow>
   batches (hm_insert name body dir) = batches dir @ [(name, body)]"
  by (simp add: hm_insert_absent batches_def)

lemma batches_remove: "batches (hm_remove name dir) = hm_remove name (batches dir)"
  by (induction dir) (auto simp: batches_def hm_remove_def)

lemma hm_remove_absent: "hm_get dir name = None \<Longrightarrow> hm_remove name dir = dir"
  by (simp add: hm_get_def hm_remove_def delete_id map_of_eq_None_iff)

lemma batches_get_hidden: "extension name \<noteq> Some ''json'' \<Longrightarrow> hm_get (batches dir) name = None"
  by (auto simp: hm_get_def batches_def map_of_eq_None_iff)

lemma batches_remove_hidden: "extension name \<noteq> Some ''json'' \<Longrightarrow> batches (hm_remove name dir) = batches dir"
  by (simp add: batches_remove hm_remove_absent batches_get_hidden)

lemma directory_stats_bytes: "st_bytes (directory_stats dir) = min (dir_bytes dir) usize_max"
proof -
  have "st_bytes (directory_stats_loop dir st) = min (st_bytes st + dir_bytes dir) usize_max"
    if "st_bytes st \<le> usize_max" for st
    using that
    by (induction dir st rule: directory_stats_loop.induct)
      (auto simp: dir_bytes_def batches_def saturating_add_usize_def)
  from this [of "\<lparr>st_items = 0, st_bytes = 0\<rparr>"] show ?thesis by (simp add: directory_stats_def)
qed

lemma directory_stats_items: "st_items (directory_stats dir) = min (length (batches dir)) usize_max"
proof -
  have "st_items (directory_stats_loop dir st) = min (st_items st + length (batches dir)) usize_max"
    if "st_items st \<le> usize_max" for st
    using that
    by (induction dir st rule: directory_stats_loop.induct) (auto simp: batches_def saturating_add_usize_def)
  from this [of "\<lparr>st_items = 0, st_bytes = 0\<rparr>"] show ?thesis by (simp add: directory_stats_def)
qed

lemma hm_remove_insert_absent: "hm_get dir name = None \<Longrightarrow> hm_remove name (hm_insert name body dir) = dir"
  by (simp add: hm_insert_absent) (simp add: hm_remove_def hm_get_def AList.delete_eq filter_id_conv map_of_eq_None_iff, force)

subsection \<open>The outcomes of \<open>enqueue\<close>\<close>

abbreviation stored_as :: "spool \<Rightarrow> string \<Rightarrow> bytes \<Rightarrow> spool" where
  "stored_as spool name body \<equiv> spool\<lparr>sp_root := hm_insert name body (sp_root spool)\<rparr>"

definition known :: "spool \<Rightarrow> string \<Rightarrow> bool" where
  "known spool item_id \<longleftrightarrow>
     exists_in (sp_root spool) (json_name item_id) \<or> exists_in (sp_quarantine spool) (json_name item_id)"

definition room_for :: "spool \<Rightarrow> bytes \<Rightarrow> bool" where
  "room_for spool body \<longleftrightarrow>
     saturating_add_usize
       (saturating_add_usize (st_bytes (directory_stats (sp_root spool))) (st_bytes (directory_stats (sp_quarantine spool))))
       (length body) \<le> sp_max_bytes spool"

text \<open>
  Every run of \<open>enqueue\<close> does nothing, leaves a temporary file behind, or stores the batch; only the
  last can report success for a batch that was not known.
\<close>

lemma enqueue_cases:
  assumes "spool_enqueue hash fault spool body = (spool', r)"
  obtains (Known) "known spool (hash body)" "spool' = spool" "r = Ok (hash body)"
  | (Rejected) e where "\<not> known spool (hash body)" "spool' = spool" "r = Fail e"
  | (Partial) k where "\<not> known spool (hash body)" "room_for spool body"
      "hm_get (sp_root spool) (temporary_name (hash body)) = None"
      "spool' = stored_as spool (temporary_name (hash body)) (take k body)" "r = Fail Io"
  | (Stored) "\<not> known spool (hash body)" "room_for spool body"
      "hm_get (sp_root spool) (temporary_name (hash body)) = None"
      "spool' = stored_as spool (json_name (hash body)) body" "r = Ok (hash body) \<or> r = Fail Io"
proof -
  let ?tmp = "temporary_name (hash body)"
  consider (known) "known spool (hash body)"
    | (early) "\<not> known spool (hash body)"
        "fault = Some ReadRoot \<or> fault = Some ReadQuarantine \<or> \<not> room_for spool body \<or>
         fault = Some OpenTemporary \<or> exists_in (sp_root spool) ?tmp"
    | (go) "\<not> known spool (hash body)" "room_for spool body" "\<not> exists_in (sp_root spool) ?tmp"
        "fault \<noteq> Some ReadRoot" "fault \<noteq> Some ReadQuarantine" "fault \<noteq> Some OpenTemporary"
    by blast
  then show ?thesis
  proof cases
    case known
    with assms show ?thesis by (intro Known) (auto simp: spool_enqueue_def known_def Let_def)
  next
    case early
    then have "spool' = spool \<and> (\<exists>e. r = Fail e)"
      using assms by (auto simp: spool_enqueue_def known_def room_for_def Let_def not_le split: if_splits)
    with early(1) show ?thesis by (auto intro: Rejected)
  next
    case go
    then have absent: "hm_get (sp_root spool) ?tmp = None" by (simp add: exists_in_def)
    have run: "spool_enqueue hash fault spool body =
      (case fault of
         Some (WriteBody k) \<Rightarrow> (stored_as spool ?tmp (take k body), Fail Io)
       | _ \<Rightarrow>
         if fault = Some SyncFile \<or> fault = Some RenameFile then (stored_as spool ?tmp (take (length body) body), Fail Io)
         else if fault = Some SyncRoot then (stored_as spool (json_name (hash body)) body, Fail Io)
         else (stored_as spool (json_name (hash body)) body, Ok (hash body)))"
      using go absent
      by (simp add: spool_enqueue_def known_def room_for_def Let_def not_le [symmetric] hm_remove_insert_absent
          split: option.split io_fault.split)
    show ?thesis
      using assms run Partial [OF go(1,2) absent] Partial [of "length body", OF go(1,2) absent] Stored [OF go(1,2) absent]
      by (auto split: option.splits io_fault.splits if_splits)
  qed
qed

subsection \<open>Every operation preserves the invariant and the capacity\<close>

lemma content_addressed_insert:
  assumes "content_addressed hash dir"
    and "extension name \<noteq> Some ''json'' \<or> hm_get dir name = None \<and> name = json_name (hash body)"
  shows "content_addressed hash (hm_insert name body dir)"
  using assms
  by (cases "extension name = Some ''json''")
    (auto simp: content_addressed_def batches_insert_hidden batches_insert_absent)

lemma content_addressed_remove:
  "content_addressed hash dir \<Longrightarrow> content_addressed hash (hm_remove name dir)"
  using set_hm_remove [of name "batches dir"] by (auto simp: content_addressed_def batches_remove)

lemma content_addressed_get:
  "content_addressed hash dir \<Longrightarrow> hm_get dir name = Some body \<Longrightarrow> extension name = Some ''json'' \<Longrightarrow>
   name = json_name (hash body)"
  by (auto simp: content_addressed_def batches_def dest!: hm_get_SomeD)

lemma dir_bytes_remove:
  assumes "hm_wf dir" and "hm_get dir name = Some body" and "extension name = Some ''json''"
  shows "dir_bytes dir = dir_bytes (hm_remove name dir) + length body"
  using assms
proof (induction dir)
  case Nil
  then show ?case by simp
next
  case (Cons entry dir)
  show ?case
  proof (cases "fst entry = name")
    case True
    with Cons.prems have "hm_get dir name = None"
      by (auto simp: hm_wf_def hm_get_def map_of_eq_None_iff)
    with True Cons.prems show ?thesis
      by (cases entry) (auto simp: hm_get_def hm_remove_def dir_bytes_def batches_def delete_id map_of_eq_None_iff)
  next
    case False
    with Cons show ?thesis
      by (cases entry) (auto simp: hm_wf_def hm_get_def hm_remove_def dir_bytes_def batches_def)
  qed
qed

lemma dir_bytes_remove_le: "dir_bytes (hm_remove name dir) \<le> dir_bytes dir"
  by (induction dir) (auto simp: hm_remove_def dir_bytes_def batches_def)

lemma dir_bytes_insert:
  "hm_get dir name = None \<Longrightarrow> extension name = Some ''json'' \<Longrightarrow>
   dir_bytes (hm_insert name body dir) = dir_bytes dir + length body"
  by (simp add: dir_bytes_def batches_insert_absent)

lemma dir_bytes_insert_hidden:
  "extension name \<noteq> Some ''json'' \<Longrightarrow> dir_bytes (hm_insert name body dir) = dir_bytes dir"
  by (simp add: dir_bytes_def batches_insert_hidden)

text \<open>Room below the 64-bit limit is real room: the saturated sums are then exact.\<close>

lemma room_for_used:
  "room_for spool body \<Longrightarrow> sp_max_bytes spool < usize_max \<Longrightarrow> used_bytes spool + length body \<le> sp_max_bytes spool"
  by (auto simp: room_for_def used_bytes_def directory_stats_bytes saturating_add_usize_def min_def split: if_splits)

definition spool_inv :: "(bytes \<Rightarrow> string) \<Rightarrow> spool \<Rightarrow> bool" where
  "spool_inv hash spool \<longleftrightarrow> spool_wf hash spool \<and> used_bytes spool \<le> sp_max_bytes spool"

lemma enqueue_preserves:
  assumes hash: "digest_shape hash" and max: "sp_max_bytes spool < usize_max"
    and inv: "spool_inv hash spool" and run: "spool_enqueue hash fault spool body = (spool', r)"
  shows "spool_inv hash spool' \<and> sp_max_bytes spool' = sp_max_bytes spool"
  using run
proof (cases rule: enqueue_cases)
  case (Partial k)
  with inv show ?thesis
    by (auto simp: spool_inv_def spool_wf_def used_bytes_def dir_bytes_insert_hidden intro!: content_addressed_insert)
next
  case Stored
  have json: "extension (json_name (hash body)) = Some ''json''"
    using digest_not_Nil [OF hash] by simp
  have absent: "hm_get (sp_root spool) (json_name (hash body)) = None"
    using Stored(1) by (auto simp: known_def exists_in_def)
  from Stored inv json absent room_for_used [OF Stored(2) max] show ?thesis
    by (auto simp: spool_inv_def spool_wf_def used_bytes_def dir_bytes_insert intro!: content_addressed_insert)
qed (use inv in auto)

lemma acknowledge_preserves:
  assumes "spool_inv hash spool" and "spool_acknowledge fault spool item = (spool', r)"
  shows "spool_inv hash spool' \<and> sp_max_bytes spool' = sp_max_bytes spool"
  using assms dir_bytes_remove_le [of "pi_path item" "sp_root spool"]
  by (auto simp: spool_acknowledge_def spool_inv_def spool_wf_def used_bytes_def Let_def
      intro!: content_addressed_remove split: if_splits)

text \<open>Items come from \<open>pending\<close>: their path is a batch file, their id its stem.\<close>

definition item_of :: "spool \<Rightarrow> pending_item \<Rightarrow> bool" where
  "item_of spool item \<longleftrightarrow> extension (pi_path item) = Some ''json'' \<and> pi_id item = file_stem (pi_path item)"

lemma pending_item_of: "spool_pending fault spool = Ok items \<Longrightarrow> item \<in> set items \<Longrightarrow> item_of spool item"
  by (auto simp: spool_pending_def item_of_def split: if_splits)

lemma quarantine_preserves:
  assumes hash: "digest_shape hash" and inv: "spool_inv hash spool" and item: "item_of spool item"
    and run: "spool_quarantine fault spool item = (spool', r)"
  shows "spool_inv hash spool' \<and> sp_max_bytes spool' = sp_max_bytes spool"
proof (cases "exists_in (sp_quarantine spool) (json_name (pi_id item))")
  case True
  with run inv show ?thesis by (simp add: spool_quarantine_def acknowledge_preserves)
next
  case absent: False
  show ?thesis
  proof (cases "hm_get (sp_root spool) (pi_path item)")
    case None
    with absent run inv show ?thesis by (auto simp: spool_quarantine_def Let_def)
  next
    case (Some body)
    have path: "pi_path item = json_name (hash body)"
      using content_addressed_get [OF _ Some] inv item by (auto simp: spool_inv_def spool_wf_def item_of_def)
    then have item_id: "json_name (pi_id item) = json_name (hash body)"
      using item digest_not_Nil [OF hash] by (simp add: item_of_def)
    have "hm_wf (sp_root spool)" using inv by (simp add: spool_inv_def spool_wf_def content_addressed_def)
    then have "dir_bytes (sp_root spool) = dir_bytes (hm_remove (pi_path item) (sp_root spool)) + length body"
      using Some item by (intro dir_bytes_remove) (auto simp: item_of_def)
    then show ?thesis
      using absent Some item_id run inv digest_not_Nil [OF hash, of body]
      by (auto simp: spool_quarantine_def Let_def spool_inv_def spool_wf_def used_bytes_def exists_in_def
          dir_bytes_insert split: if_splits intro!: content_addressed_insert content_addressed_remove)
  qed
qed

subsection \<open>Runs\<close>

text \<open>What the clients of a spool do to it, in any order and with any I/O failure.\<close>

inductive spool_step :: "(bytes \<Rightarrow> string) \<Rightarrow> spool \<Rightarrow> spool \<Rightarrow> bool" for hash where
  step_enqueue: "spool_enqueue hash fault spool body = (spool', r) \<Longrightarrow> spool_step hash spool spool'"
| step_acknowledge: "spool_acknowledge fault spool item = (spool', r) \<Longrightarrow> spool_step hash spool spool'"
| step_quarantine: "item_of spool item \<Longrightarrow> spool_quarantine fault spool item = (spool', r) \<Longrightarrow>
    spool_step hash spool spool'"

inductive_cases spool_stepE: "spool_step hash spool spool'"

lemma spool_step_preserves:
  assumes "spool_step hash spool spool'" "digest_shape hash" "sp_max_bytes spool < usize_max" "spool_inv hash spool"
  shows "spool_inv hash spool' \<and> sp_max_bytes spool' = sp_max_bytes spool"
  using assms(1)
  by (rule spool_stepE) (use assms enqueue_preserves acknowledge_preserves quarantine_preserves in blast)+

text \<open>
  C10: the spool never exceeds its capacity and stays content-addressed. Whatever sequence of
  enqueues, acknowledgements and quarantines runs, whichever system call fails in each, pending and
  quarantined batches together stay within \<open>max_bytes\<close>, names stay distinct, and every batch file
  is named by the digest of what it holds.
\<close>

theorem spool_runs_keep_capacity_and_contents:
  assumes "digest_shape hash" and "sp_max_bytes spool < usize_max" and "spool_inv hash spool"
    and "(spool_step hash)\<^sup>*\<^sup>* spool spool'"
  shows "spool_wf hash spool' \<and> used_bytes spool' \<le> sp_max_bytes spool"
proof -
  from assms(4) have "spool_inv hash spool' \<and> sp_max_bytes spool' = sp_max_bytes spool"
    using assms(1-3) by (induction rule: rtranclp_induct) (use spool_step_preserves in fastforce)+
  then show ?thesis by (auto simp: spool_inv_def)
qed

subsection \<open>Recovery\<close>

definition no_temporaries :: "spool \<Rightarrow> bool" where
  "no_temporaries spool \<longleftrightarrow> (\<forall>(name, body) \<in> set (sp_root spool). temporary_id name = None)"

lemma temporary_id_json: "item_id \<noteq> [] \<Longrightarrow> temporary_id (json_name item_id) = None"
  by (metis not_Some_eq temporary_idD temporary_not_json)

lemma temporary_hidden: "temporary_id name = Some item_id \<Longrightarrow> extension name \<noteq> Some ''json''"
  using temporary_idD by fastforce

text \<open>
  The temporary files of a listing whose content is complete and whose batch is neither pending nor
  quarantined yet, as the batches they stand for.
\<close>

definition complete_writes :: "(bytes \<Rightarrow> string) \<Rightarrow> spool \<Rightarrow> (string, bytes) hashmap \<Rightarrow> (string \<times> bytes) set" where
  "complete_writes hash spool entries =
     {(json_name (hash body), body) | name body.
        (name, body) \<in> set entries \<and> temporary_id name = Some (hash body) \<and> \<not> known spool (hash body)}"

text \<open>
  \<open>spool'\<close> is \<open>spool\<close> after recovery looked at \<open>entries\<close>: the batches are the old ones and the
  complete writes, and the temporary files of the listing are gone.
\<close>

definition recovered :: "(bytes \<Rightarrow> string) \<Rightarrow> (string, bytes) hashmap \<Rightarrow> spool \<Rightarrow> spool \<Rightarrow> bool" where
  "recovered hash entries spool spool' \<longleftrightarrow>
     spool_wf hash spool' \<and> sp_quarantine spool' = sp_quarantine spool \<and> sp_max_bytes spool' = sp_max_bytes spool \<and>
     set (batches (sp_root spool')) = set (batches (sp_root spool)) \<union> complete_writes hash spool entries \<and>
     (\<forall>name. temporary_id name \<noteq> None \<longrightarrow>
        hm_get (sp_root spool') name = (if name \<in> fst ` set entries then None else hm_get (sp_root spool) name))"

lemma recovered_Nil: "spool_wf hash spool \<Longrightarrow> recovered hash [] spool spool"
  by (simp add: recovered_def complete_writes_def)

lemma exists_batch: "item_id \<noteq> [] \<Longrightarrow> exists_in dir (json_name item_id) \<longleftrightarrow> json_name item_id \<in> fst ` set (batches dir)"
  by (auto simp: exists_in_def hm_get_def map_of_eq_None_iff batches_def image_iff) force

text \<open>What one entry adds does not make the batch of another entry of the listing known.\<close>

lemma recovered_known:
  assumes "recovered hash [(tmp, body)] spool spool'"
    and "temporary_id other = Some item_id" and "other \<noteq> tmp"
  shows "known spool' item_id \<longleftrightarrow> known spool item_id"
proof -
  have other: "other = temporary_name item_id" and "item_id \<noteq> []" using temporary_idD [OF assms(2)] by auto
  have "json_name item_id \<notin> fst ` complete_writes hash spool [(tmp, body)]"
    using assms(3) other by (auto simp: complete_writes_def dest: temporary_idD)
  then show ?thesis
    using assms(1) \<open>item_id \<noteq> []\<close> by (simp add: recovered_def known_def exists_batch image_Un)
qed

lemma recovered_Cons:
  assumes first: "recovered hash [(tmp, body)] spool spool'" and rest: "recovered hash entries spool' spool''"
    and distinct: "tmp \<notin> fst ` set entries"
  shows "recovered hash ((tmp, body) # entries) spool spool''"
proof -
  have same: "known spool' (hash b) \<longleftrightarrow> known spool (hash b)"
    if "(n, b) \<in> set entries" "temporary_id n = Some (hash b)" for n b
    using recovered_known [OF first that(2)] that(1) distinct by force
  have "complete_writes hash spool ((tmp, body) # entries) =
      complete_writes hash spool [(tmp, body)] \<union> complete_writes hash spool entries"
    by (auto simp: complete_writes_def)
  also have "complete_writes hash spool entries = complete_writes hash spool' entries"
    using same unfolding complete_writes_def by blast
  finally show ?thesis using first rest by (simp add: recovered_def Un_assoc)
qed

lemma recover_entry_recovered:
  assumes hash: "digest_shape hash" and wf: "spool_wf hash spool"
  shows "recovered hash [(name, body)] spool (recover_entry hash (name, body) spool)"
proof (cases "temporary_id name")
  case None
  with wf show ?thesis by (auto simp: recovered_def recover_entry_def complete_writes_def)
next
  case (Some item_id)
  let ?removed = "hm_remove name (sp_root spool)"
  have hidden: "extension name \<noteq> Some ''json''" using temporary_hidden [OF Some] .
  have same: "batches ?removed = batches (sp_root spool)" using batches_remove_hidden [OF hidden] .
  have wf_removed: "content_addressed hash ?removed"
    using wf by (simp add: spool_wf_def content_addressed_remove)
  show ?thesis
  proof (cases "\<not> known spool item_id \<and> hash body = item_id")
    case True
    then have item_id: "hash body = item_id" "item_id \<noteq> []" using digest_not_Nil [OF hash, of body] by auto
    have absent: "hm_get ?removed (json_name item_id) = None"
      using True by (auto simp: known_def exists_in_def hm_get_remove)
    have run: "recover_entry hash (name, body) spool = spool\<lparr>sp_root := hm_insert (json_name item_id) body ?removed\<rparr>"
      using True Some by (auto simp: recover_entry_def known_def)
    have "temporary_id (json_name item_id) = None" using item_id(2) by (rule temporary_id_json)
    then show ?thesis
      using wf wf_removed absent item_id Some same True
      by (auto simp: recovered_def run spool_wf_def batches_insert_absent complete_writes_def hm_get_insert hm_get_remove
          intro!: content_addressed_insert)
  next
    case False
    then have "recover_entry hash (name, body) spool = spool\<lparr>sp_root := ?removed\<rparr>"
      using Some by (auto simp: recover_entry_def known_def Let_def)
    moreover have "complete_writes hash spool [(name, body)] = {}"
      using False Some by (auto simp: complete_writes_def)
    ultimately show ?thesis using wf wf_removed same by (auto simp: recovered_def spool_wf_def hm_get_remove)
  qed
qed

lemma recover_fold_recovered:
  "digest_shape hash \<Longrightarrow> spool_wf hash spool \<Longrightarrow> distinct (map fst entries) \<Longrightarrow>
   recovered hash entries spool (fold (recover_entry hash) entries spool)"
proof (induction entries arbitrary: spool)
  case Nil
  then show ?case by (simp add: recovered_Nil)
next
  case (Cons entry entries)
  obtain name body where entry: "entry = (name, body)" by (cases entry)
  have first: "recovered hash [(name, body)] spool (recover_entry hash entry spool)"
    using recover_entry_recovered [OF Cons.prems(1,2)] entry by simp
  then have "spool_wf hash (recover_entry hash entry spool)" by (simp add: recovered_def)
  then have "recovered hash entries (recover_entry hash entry spool)
      (fold (recover_entry hash) entries (recover_entry hash entry spool))"
    using Cons.IH Cons.prems by simp
  from recovered_Cons [OF first this] Cons.prems(3) entry show ?case by simp
qed

text \<open>The entries a recovery pass looks at before it ends or fails.\<close>

definition inspected :: "usize option \<Rightarrow> spool \<Rightarrow> (string, bytes) hashmap" where
  "inspected failed_at spool = (case failed_at of None \<Rightarrow> sp_root spool | Some k \<Rightarrow> take k (sp_root spool))"

lemma recovery_recovered:
  assumes "digest_shape hash" and "spool_wf hash spool"
    and "recover_temporary_files hash failed_at spool = (spool', r)"
  shows "recovered hash (inspected failed_at spool) spool spool'"
proof -
  have "distinct (map fst (inspected failed_at spool))"
    using assms(2) by (auto simp: inspected_def spool_wf_def content_addressed_def hm_wf_def take_map [symmetric]
        split: option.split)
  from recover_fold_recovered [OF assms(1,2) this] assms(3) show ?thesis
    by (auto simp: recover_temporary_files_def inspected_def split: option.splits)
qed

lemma recovered_all_no_temporaries:
  assumes "recovered hash (sp_root spool) spool spool'"
  shows "no_temporaries spool'"
proof -
  have "hm_get (sp_root spool') name = None" if "temporary_id name \<noteq> None" for name
    using assms that by (auto simp: recovered_def hm_get_def map_of_eq_None_iff)
  moreover have "hm_wf (sp_root spool')"
    using assms by (simp add: recovered_def spool_wf_def content_addressed_def)
  ultimately show ?thesis unfolding no_temporaries_def using hm_get_in_set by fastforce
qed

text \<open>
  C12: restart loses nothing and resurrects nothing. A recovery pass that completes leaves exactly
  the batches there were and those of the temporary files that were completely written (their content
  has the digest in their name) and whose batch is neither pending nor quarantined, and no temporary
  file remains. A pass that stops with an I/O error at some entry has recovered exactly the complete
  writes among the entries before it, and every other complete write is still there for the next
  start. The quarantine is left alone and the spool stays content-addressed.
\<close>

theorem restart_recovers_exactly_complete_writes:
  assumes "digest_shape hash" and "spool_wf hash spool"
    and "recover_temporary_files hash failed_at spool = (spool', r)"
  shows "spool_wf hash spool' \<and> sp_quarantine spool' = sp_quarantine spool \<and>
    set (batches (sp_root spool')) =
      set (batches (sp_root spool)) \<union> complete_writes hash spool (inspected failed_at spool) \<and>
    (\<forall>name body. (name, body) \<in> set (sp_root spool) \<and> (name, body) \<notin> set (inspected failed_at spool) \<and>
       temporary_id name \<noteq> None \<longrightarrow> (name, body) \<in> set (sp_root spool')) \<and>
    (r = Ok () \<longrightarrow> inspected failed_at spool = sp_root spool \<and> no_temporaries spool')"
proof -
  have rec: "recovered hash (inspected failed_at spool) spool spool'"
    using recovery_recovered [OF assms] .
  have wf: "hm_wf (sp_root spool)" using assms(2) by (simp add: spool_wf_def content_addressed_def)
  have all: "inspected failed_at spool = sp_root spool" if "r = Ok ()"
    using that assms(3) by (auto simp: recover_temporary_files_def inspected_def split: option.splits)
  have sub: "set (inspected failed_at spool) \<subseteq> set (sp_root spool)"
    by (auto simp: inspected_def dest: in_set_takeD split: option.splits)
  have "(name, body) \<in> set (sp_root spool')"
    if "(name, body) \<in> set (sp_root spool)" "(name, body) \<notin> set (inspected failed_at spool)" "temporary_id name \<noteq> None"
    for name body
  proof -
    have get: "hm_get (sp_root spool) name = Some body" using hm_get_in_set [OF wf that(1)] .
    have "name \<notin> fst ` set (inspected failed_at spool)"
      using that(2) sub get hm_get_in_set [OF wf] by fastforce
    with rec that(3) have "hm_get (sp_root spool') name = hm_get (sp_root spool) name" by (simp add: recovered_def)
    with get show ?thesis by (simp add: hm_get_SomeD)
  qed
  moreover have "no_temporaries spool'" if "r = Ok ()"
    using recovered_all_no_temporaries rec all [OF that] by simp
  ultimately show ?thesis using rec all unfolding recovered_def by blast
qed

subsection \<open>The file-system calls of \<open>enqueue\<close>\<close>

text \<open>
  The calls that change the disk, and what they do to it. A file is an inode: its content, and
  whether that content has been synced. The directory maps names to inodes; \<open>dk_earlier\<close> keeps its
  versions since it was last synced, each of which may be what is found after a power loss.
\<close>

datatype fs_call =
    CreateNew string
  | WriteAll string bytes
  | SyncAll string
  | Rename string string
  | SyncDirectory

record disk =
  dk_inodes :: "(bytes \<times> bool) list"
  dk_current :: "(string, nat) hashmap"
  dk_earlier :: "(string, nat) hashmap list"

text \<open>One call; \<^term>\<open>None\<close> is an error of the call, which then changes nothing.\<close>

fun fs_step :: "fs_call \<Rightarrow> disk \<Rightarrow> disk option" where
  "fs_step (CreateNew name) d =
     (if hm_get (dk_current d) name \<noteq> None then None
      else Some (d\<lparr>dk_inodes := dk_inodes d @ [([], False)],
                   dk_current := hm_insert name (length (dk_inodes d)) (dk_current d),
                   dk_earlier := dk_current d # dk_earlier d\<rparr>))"
| "fs_step (WriteAll name body) d =
     map_option (\<lambda>i. d\<lparr>dk_inodes := (dk_inodes d)[i := (fst (dk_inodes d ! i) @ body, False)]\<rparr>)
       (hm_get (dk_current d) name)"
| "fs_step (SyncAll name) d =
     map_option (\<lambda>i. d\<lparr>dk_inodes := (dk_inodes d)[i := (fst (dk_inodes d ! i), True)]\<rparr>) (hm_get (dk_current d) name)"
| "fs_step (Rename source target) d =
     map_option (\<lambda>i. d\<lparr>dk_current := hm_insert target i (hm_remove source (dk_current d)),
                       dk_earlier := dk_current d # dk_earlier d\<rparr>) (hm_get (dk_current d) source)"
| "fs_step SyncDirectory d = Some (d\<lparr>dk_earlier := []\<rparr>)"

text \<open>A sequence of calls up to the first that fails, and whether all succeeded.\<close>

fun perform :: "fs_call list \<Rightarrow> disk \<Rightarrow> disk \<times> bool" where
  "perform [] d = (d, True)"
| "perform (call # calls) d = (case fs_step call d of None \<Rightarrow> (d, False) | Some d' \<Rightarrow> perform calls d')"

text \<open>The calls of \<open>enqueue\<close> after its checks.\<close>

definition enqueue_calls :: "(bytes \<Rightarrow> string) \<Rightarrow> spool \<Rightarrow> bytes \<Rightarrow> fs_call list" where
  "enqueue_calls hash spool body =
     (let temporary_path = temporary_name (hash body); final_path = json_name (hash body) in
      if known spool (hash body) \<or> \<not> room_for spool body then []
      else [CreateNew temporary_path, WriteAll temporary_path body, SyncAll temporary_path,
            Rename temporary_path final_path, SyncDirectory])"

text \<open>A directory all of whose files and entries are on stable storage, and what a process reads from a disk.\<close>

definition stable_disk :: "(string, bytes) hashmap \<Rightarrow> disk" where
  "stable_disk dir =
     \<lparr>dk_inodes = map (\<lambda>(name, body). (body, True)) dir, dk_current = zip (map fst dir) [0..<length dir], dk_earlier = []\<rparr>"

definition live_files :: "disk \<Rightarrow> (string, bytes) hashmap" where
  "live_files d = map (\<lambda>(name, i). (name, fst (dk_inodes d ! i))) (dk_current d)"

text \<open>
  What a power loss may leave: any version of the directory since its last sync, each synced file
  with its content and each other file with any content whatever.
\<close>

definition crash_files :: "disk \<Rightarrow> (string, bytes) hashmap set" where
  "crash_files d =
     {map (\<lambda>(name, i). (name, content i)) dir | dir content.
        dir \<in> set (dk_current d # dk_earlier d) \<and>
        (\<forall>i < length (dk_inodes d). snd (dk_inodes d ! i) \<longrightarrow> content i = fst (dk_inodes d ! i))}"

text \<open>The calls that a run of \<open>enqueue\<close> with a given fault completes; a failed write leaves the bytes it wrote.\<close>

definition completed_calls :: "io_fault option \<Rightarrow> fs_call list \<Rightarrow> fs_call list" where
  "completed_calls fault calls =
     (case fault of
        Some (WriteBody k) \<Rightarrow>
          map (\<lambda>call. case call of WriteAll name body \<Rightarrow> WriteAll name (take k body) | _ \<Rightarrow> call) (take 2 calls)
      | Some ReadRoot \<Rightarrow> [] | Some ReadQuarantine \<Rightarrow> [] | Some OpenTemporary \<Rightarrow> []
      | Some SyncFile \<Rightarrow> take 2 calls | Some RenameFile \<Rightarrow> take 3 calls | Some SyncRoot \<Rightarrow> take 4 calls
      | _ \<Rightarrow> calls)"

definition collision_free :: "(bytes \<Rightarrow> string) \<Rightarrow> bytes \<Rightarrow> bool" where
  "collision_free hash body \<longleftrightarrow> (\<forall>other. hash other = hash body \<longrightarrow> other = body)"

lemma recover_fold_unchanged:
  "\<forall>(name, body) \<in> set entries. temporary_id name = None \<Longrightarrow> fold (recover_entry hash) entries spool = spool"
  by (induction entries) (auto simp: recover_entry_def)

lemma recover_torn:
  assumes hash: "digest_shape hash" and clean: "no_temporaries spool"
  shows "fst (recover_temporary_files hash None (stored_as spool (temporary_name (hash body)) torn)) =
    (if \<not> known spool (hash body) \<and> hash torn = hash body
     then stored_as spool (json_name (hash body)) torn else spool)"
proof -
  let ?tmp = "temporary_name (hash body)"
  have absent: "hm_get (sp_root spool) ?tmp = None"
    using clean temporary_id_digest [OF hash, of body]
    by (fastforce simp: no_temporaries_def hm_get_def map_of_eq_None_iff)
  have base: "fold (recover_entry hash) (sp_root spool) s = s" for s
    using clean by (intro recover_fold_unchanged) (auto simp: no_temporaries_def)
  have visible: "exists_in (sp_root spool @ [(?tmp, torn)]) (json_name (hash body)) \<longleftrightarrow>
      exists_in (sp_root spool) (json_name (hash body))"
    using temporary_not_json [OF digest_not_Nil [OF hash], symmetric]
    by (auto simp: exists_in_def hm_get_def map_add_def split: option.splits)
  have removed: "hm_remove ?tmp (sp_root spool @ [(?tmp, torn)]) = sp_root spool"
    using hm_remove_insert_absent [OF absent, of torn] absent by (simp add: hm_insert_absent)
  show ?thesis
    using absent base temporary_id_digest [OF hash] visible removed
    by (auto simp: recover_temporary_files_def hm_insert_absent recover_entry_def known_def Let_def)
qed

lemma recover_clean: "no_temporaries spool \<Longrightarrow> fst (recover_temporary_files hash None spool) = spool"
  by (simp add: recover_temporary_files_def no_temporaries_def recover_fold_unchanged)


text \<open>The disk after the first \<open>k\<close> calls that store a body in a stable directory.\<close>

abbreviation inode_names :: "(string, bytes) hashmap \<Rightarrow> (string, nat) hashmap" where
  "inode_names dir \<equiv> zip (map fst dir) [0..<length dir]"

definition disk_after :: "(string, bytes) hashmap \<Rightarrow> string \<Rightarrow> string \<Rightarrow> bytes \<Rightarrow> nat \<Rightarrow> disk" where
  "disk_after dir tmp final body k =
     (let entry = (\<lambda>name. inode_names dir @ [(name, length dir)]) in
      if k = 0 then stable_disk dir
      else \<lparr>dk_inodes = map (\<lambda>(name, body). (body, True)) dir @ [(if k = 1 then [] else body, 3 \<le> k)],
            dk_current = entry (if k \<le> 3 then tmp else final),
            dk_earlier = (if k \<le> 3 then [inode_names dir] else if k = 4 then [entry tmp, inode_names dir] else [])\<rparr>)"

lemma inode_names_absent: "hm_get dir name = None \<Longrightarrow> hm_get (inode_names dir) name = None"
proof -
  have "map fst (inode_names dir) = map fst dir" by simp
  then have "fst ` set (inode_names dir) = fst ` set dir" by (metis set_map)
  then show "hm_get dir name = None \<Longrightarrow> ?thesis" by (simp add: hm_get_def map_of_eq_None_iff)
qed

lemma inode_names_appended:
  assumes "hm_get dir name = None"
  shows "hm_insert name i (inode_names dir) = inode_names dir @ [(name, i)]"
    and "hm_remove name (inode_names dir @ [(name, i)]) = inode_names dir"
    and "hm_get (inode_names dir @ [(name, i)]) name = Some i"
  using inode_names_absent [OF assms] hm_insert_absent [of "inode_names dir" name i]
    hm_remove_insert_absent [of "inode_names dir" name i] hm_get_insert [of name i "inode_names dir" name]
  by simp_all

lemma perform_enqueue_calls:
  assumes "\<not> known spool (hash body)" and "room_for spool body"
    and "hm_get (sp_root spool) (temporary_name (hash body)) = None"
  shows "perform (take k (enqueue_calls hash spool body)) (stable_disk (sp_root spool)) =
    (disk_after (sp_root spool) (temporary_name (hash body)) (json_name (hash body)) body k, True)"
proof -
  let ?dir = "sp_root spool"
  have final: "hm_get ?dir (json_name (hash body)) = None" using assms(1) by (auto simp: known_def exists_in_def)
  note new = inode_names_absent [OF assms(3)] inode_names_appended [OF assms(3)] inode_names_appended [OF final]
  have "k = 0 \<or> k = 1 \<or> k = 2 \<or> k = 3 \<or> k = 4 \<or> 5 \<le> k" by linarith
  then show ?thesis
    using assms(1,2) new
    by (auto simp: enqueue_calls_def Let_def disk_after_def stable_disk_def nth_append list_update_append take_Cons'
        numeral_eq_Suc)
qed

text \<open>The two ways to read a version of the directory after a crash.\<close>

lemma crash_files_disk_after:
  assumes "files \<in> crash_files (disk_after dir tmp final body k)"
  obtains (Before) "files = dir" "k < 5"
  | (Torn) torn where "files = dir @ [(tmp, torn)]" "k < 5"
  | (After) "files = dir @ [(final, body)]" "4 \<le> k"
proof -
  obtain version content where version: "version \<in> set (dk_current (disk_after dir tmp final body k) #
        dk_earlier (disk_after dir tmp final body k))"
    and files: "files = map (\<lambda>(name, i). (name, content i)) version"
    and synced: "\<forall>i < length (dk_inodes (disk_after dir tmp final body k)).
      snd (dk_inodes (disk_after dir tmp final body k) ! i) \<longrightarrow> content i = fst (dk_inodes (disk_after dir tmp final body k) ! i)"
    using assms by (auto simp: crash_files_def)
  have "content i = snd (dir ! i)" if "i < length dir" for i
    using synced [rule_format, of i] that
    by (auto simp: disk_after_def stable_disk_def Let_def nth_append case_prod_beta split: if_splits)
  then have old: "map (\<lambda>(name, i). (name, content i)) (inode_names dir) = dir"
    by (intro nth_equalityI) (auto simp: prod_eq_iff)
  have written: "content (length dir) = body" if "4 \<le> k"
    using synced [rule_format, of "length dir"] that by (simp add: disk_after_def Let_def nth_append)
  show ?thesis
    using version files old written Before Torn After
    by (auto simp: disk_after_def stable_disk_def Let_def split: if_splits)
qed

lemma live_files_disk_after:
  "live_files (disk_after dir tmp final body k) =
    (if k = 0 then dir else if k = 1 then dir @ [(tmp, [])] else if k \<le> 3 then dir @ [(tmp, body)] else dir @ [(final, body)])"
proof -
  have "map (\<lambda>(name, i). (name, fst ((map (\<lambda>(name, body). (body, True)) dir @ rest) ! i))) (inode_names dir) = dir" for rest
    by (intro nth_equalityI) (auto simp: nth_append prod_eq_iff case_prod_beta)
  from this [of "[]"] this show ?thesis
    by (auto simp: live_files_def disk_after_def stable_disk_def Let_def nth_append)
qed

lemma crash_files_stable: "files \<in> crash_files (stable_disk dir) \<Longrightarrow> files = dir"
  using live_files_disk_after [of dir _ _ _ 0]
  by (auto simp: live_files_def crash_files_def disk_after_def stable_disk_def split: prod.splits)
    (auto intro!: nth_equalityI simp: case_prod_beta prod_eq_iff)

lemma enqueue_keeps_settings:
  "fst (spool_enqueue hash fault spool body) = spool\<lparr>sp_root := sp_root (fst (spool_enqueue hash fault spool body))\<rparr>"
proof -
  obtain spool' r where run: "spool_enqueue hash fault spool body = (spool', r)" by (cases "spool_enqueue hash fault spool body")
  then show ?thesis by (cases rule: enqueue_cases) (simp_all add: run)
qed

text \<open>
  The calls are those of \<open>enqueue\<close>: performing what a run with a given fault completes leaves the
  directory as the run leaves it, and without a fault all of them succeed exactly if \<open>enqueue\<close> does
  (or refuses the batch before the first).
\<close>

lemma enqueue_performs_its_calls:
  assumes "hm_get (sp_root spool) (temporary_name (hash body)) = None"
  shows "live_files (fst (perform (completed_calls fault (enqueue_calls hash spool body)) (stable_disk (sp_root spool)))) =
    sp_root (fst (spool_enqueue hash fault spool body))"
proof (cases "known spool (hash body) \<or> \<not> room_for spool body")
  case True
  then have "fst (spool_enqueue hash fault spool body) = spool"
    by (auto simp: spool_enqueue_def known_def room_for_def Let_def not_le)
  moreover have "completed_calls fault (enqueue_calls hash spool body) = []"
    using True by (simp add: enqueue_calls_def completed_calls_def split: option.split io_fault.split)
  ultimately show ?thesis using live_files_disk_after [of "sp_root spool" _ _ _ 0] by (simp add: disk_after_def)
next
  case False
  let ?dir = "sp_root spool" and ?tmp = "temporary_name (hash body)" and ?final = "json_name (hash body)"
  have new: "\<not> known spool (hash body)" "room_for spool body" using False by auto
  have final: "hm_get ?dir ?final = None" using new(1) by (auto simp: known_def exists_in_def)
  have moved: "hm_remove ?tmp (?dir @ [(?tmp, body)]) = ?dir"
    using hm_remove_insert_absent [OF assms, of body] by (simp add: hm_insert_absent [OF assms])
  have run: "sp_root (fst (spool_enqueue hash fault spool body)) =
    (case fault of
       Some (WriteBody k) \<Rightarrow> ?dir @ [(?tmp, take k body)]
     | Some ReadRoot \<Rightarrow> ?dir | Some ReadQuarantine \<Rightarrow> ?dir | Some OpenTemporary \<Rightarrow> ?dir
     | Some SyncFile \<Rightarrow> ?dir @ [(?tmp, body)] | Some RenameFile \<Rightarrow> ?dir @ [(?tmp, body)]
     | _ \<Rightarrow> ?dir @ [(?final, body)])"
    using new assms final
    by (simp add: spool_enqueue_def known_def room_for_def exists_in_def Let_def not_le [symmetric]
        moved hm_insert_absent split: option.split io_fault.split)
  have prefixes: "live_files (fst (perform (take k (enqueue_calls hash spool body)) (stable_disk ?dir))) =
      live_files (disk_after ?dir ?tmp ?final body k)" for k
    by (simp add: perform_enqueue_calls [of spool hash body, OF new assms])
  have whole: "take 5 (enqueue_calls hash spool body) = enqueue_calls hash spool body"
    by (simp add: enqueue_calls_def Let_def)
  have part: "room_for spool (take k body)" for k
    using new(2) by (auto simp: room_for_def saturating_add_usize_def min_def split: if_splits)
  have torn: "live_files (fst (perform (completed_calls (Some (WriteBody k)) (enqueue_calls hash spool body)) (stable_disk ?dir))) =
      ?dir @ [(?tmp, take k body)]" for k
    using perform_enqueue_calls [of spool "\<lambda>_. hash body" "take k body" 2] new part assms
      live_files_disk_after [of ?dir ?tmp ?final "take k body" 2]
    by (simp add: completed_calls_def enqueue_calls_def Let_def)
  show ?thesis
    using run torn prefixes [of 0] prefixes [of 2] prefixes [of 3] prefixes [of 4] prefixes [of 5] whole
    by (auto simp: completed_calls_def live_files_disk_after split: option.split io_fault.split)
qed

text \<open>
  C13: a crash during \<open>enqueue\<close> is atomic. The spool's directory is on stable storage and holds no
  temporary file; \<open>enqueue\<close> makes its file-system calls one after the other, and the machine stops
  after any number of them (or in the middle of the next, which is covered by the arbitrary content of
  unsynced files). Whatever is left on the disk, after the next start the spool is exactly what it
  was before the call or exactly what \<open>enqueue\<close> makes of it, a torn write being never taken for the
  batch; and if all calls were made, so that \<open>enqueue\<close> may have reported success, it is the latter.
  The calls are those of the modelled \<open>enqueue\<close>: for every fault, the calls completed before it leave
  the directory that \<^const>\<open>spool_enqueue\<close> returns. The digest of this body is assumed to collide with
  no other.
\<close>

theorem crashed_enqueue_is_atomic:
  assumes "digest_shape hash" and "collision_free hash body" and "no_temporaries spool"
    and "files \<in> crash_files (fst (perform (take k (enqueue_calls hash spool body)) (stable_disk (sp_root spool))))"
  shows "fst (recover_temporary_files hash None (spool\<lparr>sp_root := files\<rparr>)) \<in>
      {spool, fst (spool_enqueue hash None spool body)} \<and>
    (length (enqueue_calls hash spool body) \<le> k \<longrightarrow>
      fst (recover_temporary_files hash None (spool\<lparr>sp_root := files\<rparr>)) = fst (spool_enqueue hash None spool body)) \<and>
    (\<forall>fault. fst (spool_enqueue hash fault spool body) =
      spool\<lparr>sp_root := live_files (fst (perform (completed_calls fault (enqueue_calls hash spool body))
        (stable_disk (sp_root spool))))\<rparr>)"
proof -
  let ?tmp = "temporary_name (hash body)" and ?final = "json_name (hash body)"
  have absent: "hm_get (sp_root spool) ?tmp = None"
    using assms(3) temporary_id_digest [OF assms(1), of body]
    by (fastforce simp: no_temporaries_def hm_get_def map_of_eq_None_iff)
  have runs: "fst (spool_enqueue hash fault spool body) =
      spool\<lparr>sp_root := live_files (fst (perform (completed_calls fault (enqueue_calls hash spool body))
        (stable_disk (sp_root spool))))\<rparr>" for fault
    using enqueue_keeps_settings [of hash fault spool body]
      enqueue_performs_its_calls [where spool = spool and hash = hash and body = body and fault = fault] absent by simp
  have "fst (recover_temporary_files hash None (spool\<lparr>sp_root := files\<rparr>)) \<in> {spool, fst (spool_enqueue hash None spool body)} \<and>
    (length (enqueue_calls hash spool body) \<le> k \<longrightarrow>
      fst (recover_temporary_files hash None (spool\<lparr>sp_root := files\<rparr>)) = fst (spool_enqueue hash None spool body))"
  proof (cases "known spool (hash body) \<or> \<not> room_for spool body")
    case True
    then have "fst (spool_enqueue hash None spool body) = spool"
      by (auto simp: spool_enqueue_def known_def room_for_def Let_def not_le)
    moreover have "files = sp_root spool"
      using True assms(4) crash_files_stable by (simp add: enqueue_calls_def)
    ultimately show ?thesis using recover_clean [OF assms(3)] by simp
  next
    case False
    then have new: "\<not> known spool (hash body)" "room_for spool body" by auto
    have final: "hm_get (sp_root spool) ?final = None" using new(1) by (auto simp: known_def exists_in_def)
    have stored: "fst (spool_enqueue hash None spool body) = stored_as spool ?final body"
      using new absent by (simp add: spool_enqueue_def known_def exists_in_def room_for_def Let_def
          not_le [symmetric] hm_remove_insert_absent)
    have files: "files \<in> crash_files (disk_after (sp_root spool) ?tmp ?final body k)"
      using assms(4) by (simp add: perform_enqueue_calls [of spool hash body, OF new absent])
    have calls: "length (enqueue_calls hash spool body) = 5" using new by (simp add: enqueue_calls_def Let_def)
    from files show ?thesis
    proof (cases rule: crash_files_disk_after)
      case Before
      with calls recover_clean [OF assms(3)] show ?thesis by simp
    next
      case (Torn torn)
      then have "spool\<lparr>sp_root := files\<rparr> = stored_as spool ?tmp torn" by (simp add: hm_insert_absent [OF absent])
      with recover_torn [OF assms(1,3), of body torn] assms(2) new(1) Torn calls stored show ?thesis
        by (auto simp: collision_free_def)
    next
      case After
      have "no_temporaries (stored_as spool ?final body)"
        using assms(3) temporary_id_json [OF digest_not_Nil [OF assms(1)], of body]
        by (auto simp: no_temporaries_def hm_insert_absent [OF final])
      with After stored recover_clean show ?thesis by (simp add: hm_insert_absent [OF final])
    qed
  qed
  with runs show ?thesis by blast
qed

subsection \<open>Storing, reading and acknowledging\<close>

lemma pending_set:
  assumes "spool_pending None spool = Ok items"
  shows "set items = (\<lambda>(name, body). \<lparr>pi_id = file_stem name, pi_path = name, pi_bytes = length body\<rparr>) `
    set (batches (sp_root spool))"
  using assms by (auto simp: spool_pending_def batches_def)

text \<open>
  What was stored is what is read, once. After \<open>enqueue\<close> of an unknown body reports success,
  \<open>pending\<close> lists exactly one more item, under the digest of the body; reading that item returns the
  body; and enqueuing the same body again returns the same id and changes nothing, even if every
  system call failed.
\<close>

theorem enqueue_then_read_round_trip:
  assumes "digest_shape hash" and "spool_wf hash spool" and "\<not> known spool (hash body)"
    and "spool_enqueue hash fault spool body = (spool', Ok item_id)"
  shows "item_id = hash body \<and>
    set (projr (spool_pending None spool')) =
      insert \<lparr>pi_id = item_id, pi_path = json_name item_id, pi_bytes = length body\<rparr> (set (projr (spool_pending None spool))) \<and>
    spool_read None spool' \<lparr>pi_id = item_id, pi_path = json_name item_id, pi_bytes = length body\<rparr> = Ok body \<and>
    (\<forall>fault'. spool_enqueue hash fault' spool' body = (spool', Ok item_id))"
proof -
  from assms(3,4) have spool': "spool' = stored_as spool (json_name (hash body)) body" and item_id: "item_id = hash body"
    by (auto elim: enqueue_cases)
  have absent: "hm_get (sp_root spool) (json_name (hash body)) = None"
    using assms(3) by (auto simp: known_def exists_in_def)
  have "batches (sp_root spool') = batches (sp_root spool) @ [(json_name (hash body), body)]"
    using absent digest_not_Nil [OF assms(1)] by (simp add: spool' batches_insert_absent)
  then have "set (projr (spool_pending None spool')) =
      insert \<lparr>pi_id = item_id, pi_path = json_name item_id, pi_bytes = length body\<rparr> (set (projr (spool_pending None spool)))"
    using pending_set [of spool] pending_set [of spool'] digest_not_Nil [OF assms(1)]
    by (auto simp: spool_pending_def item_id)
  moreover have "spool_enqueue hash fault' spool' body = (spool', Ok item_id)" for fault'
    by (simp add: spool_enqueue_def spool' item_id exists_in_def hm_get_insert Let_def)
  ultimately show ?thesis
    by (simp add: item_id spool_read_def spool' hm_get_insert)
qed

text \<open>
  Acknowledging removes exactly the acknowledged batch. After a successful acknowledgement the
  item's file is gone, every other file and the quarantine are untouched, and acknowledging again
  succeeds without a change; a failed acknowledgement never touches another batch.
\<close>

theorem acknowledge_removes_exactly_the_item:
  assumes "spool_acknowledge fault spool item = (spool', r)"
  shows "(r = Ok () \<longrightarrow> hm_get (sp_root spool') (pi_path item) = None \<and>
      spool_acknowledge None spool' item = (spool', Ok ())) \<and>
    (\<forall>name. name \<noteq> pi_path item \<longrightarrow> hm_get (sp_root spool') name = hm_get (sp_root spool) name) \<and>
    sp_quarantine spool' = sp_quarantine spool"
  using assms
  by (auto simp: spool_acknowledge_def exists_in_def hm_get_remove Let_def split: if_splits)

text \<open>The items of a spool are listed in the order of their ids.\<close>

lemma pending_sorted: "spool_pending fault spool = Ok items \<Longrightarrow> sorted (map pi_id items)"
  by (auto simp: spool_pending_def split: if_splits)

subsection \<open>Two consequences of leaving temporary files behind\<close>

text \<open>
  A write that fails leaves the temporary file, and \<open>create_new\<close> refuses to overwrite it: until the
  next start, every retry of the same body fails, with any other system call succeeding.
\<close>

lemma failed_write_blocks_retry:
  assumes "digest_shape hash" and "\<not> known spool (hash body)" and "room_for spool body"
    and "hm_get (sp_root spool) (temporary_name (hash body)) = None"
    and "spool_enqueue hash (Some (WriteBody k)) spool body = (spool', r)"
  shows "spool_enqueue hash None spool' body = (spool', Fail Io)"
proof -
  have "room_for (stored_as spool (temporary_name (hash body)) (take k body)) body"
    using assms(3) by (simp add: room_for_def directory_stats_bytes dir_bytes_insert_hidden)
  moreover have "\<not> known (stored_as spool (temporary_name (hash body)) (take k body)) (hash body)"
    using assms(2) temporary_not_json [OF digest_not_Nil [OF assms(1)], symmetric]
    by (simp add: known_def exists_in_def hm_get_insert)
  moreover have "spool' = stored_as spool (temporary_name (hash body)) (take k body)"
    using assms(2-5) by (simp add: spool_enqueue_def known_def exists_in_def room_for_def Let_def not_le [symmetric])
  ultimately show ?thesis
    by (simp add: spool_enqueue_def known_def exists_in_def room_for_def Let_def not_le [symmetric] hm_get_insert)
qed

subsection \<open>Witnesses\<close>

definition sample_hash :: "bytes \<Rightarrow> string" where
  "sample_hash body = replicate 64 (if body = [1, 2, 3] then CHR ''a'' else CHR ''b'')"

definition empty_spool :: spool where
  "empty_spool = \<lparr>sp_root = [], sp_quarantine = [], sp_max_bytes = 4\<rparr>"

lemma sample_hash_shape: "digest_shape sample_hash"
  by (simp add: digest_shape_def sample_hash_def is_ascii_hexdigit_def in_range_def list_all_iff)

lemma sample_hash_collision_free: "collision_free sample_hash [1, 2, 3]"
  by (auto simp: collision_free_def sample_hash_def split: if_splits)

lemma empty_spool_facts:
  "spool_inv sample_hash empty_spool" "no_temporaries empty_spool" "sp_max_bytes empty_spool < usize_max"
  "\<not> known empty_spool (sample_hash [1, 2, 3])"
  by (simp_all add: spool_inv_def spool_wf_def content_addressed_def used_bytes_def dir_bytes_def batches_def
      empty_spool_def no_temporaries_def usize_max_def known_def exists_in_def)

definition stored_spool :: spool where
  "stored_spool = \<lparr>sp_root = [(json_name (sample_hash [1, 2, 3]), [1, 2, 3])], sp_quarantine = [], sp_max_bytes = 4\<rparr>"

lemma enqueue_sample: "spool_enqueue sample_hash None empty_spool [1, 2, 3] = (stored_spool, Ok (sample_hash [1, 2, 3]))"
  by (simp add: spool_enqueue_def empty_spool_def stored_spool_def exists_in_def Let_def directory_stats_def
      saturating_add_usize_def usize_max_def hm_insert_def hm_remove_def)

theorem spool_runs_keep_capacity_and_contents_witness:
  "(spool_step sample_hash)\<^sup>*\<^sup>* empty_spool stored_spool \<and>
   spool_wf sample_hash stored_spool \<and> used_bytes stored_spool \<le> 4"
proof -
  have run: "(spool_step sample_hash)\<^sup>*\<^sup>* empty_spool stored_spool"
    using step_enqueue [OF enqueue_sample] by blast
  then show ?thesis
    using spool_runs_keep_capacity_and_contents [OF sample_hash_shape empty_spool_facts(3,1) run]
    by (simp add: empty_spool_def)
qed

theorem restart_recovers_exactly_complete_writes_witness:
  "set (batches (sp_root (fst (recover_temporary_files sample_hash None
     (stored_as empty_spool (temporary_name (sample_hash [1, 2, 3])) [1, 2, 3]))))) =
   {(json_name (sample_hash [1, 2, 3]), [1, 2, 3])}"
proof -
  let ?spool = "stored_as empty_spool (temporary_name (sample_hash [1, 2, 3])) [1, 2, 3]"
  have wf: "spool_wf sample_hash ?spool"
    using empty_spool_facts(1) by (auto simp: spool_inv_def spool_wf_def intro!: content_addressed_insert)
  have "\<not> known ?spool (sample_hash [1, 2, 3])"
    using temporary_not_json [OF digest_not_Nil [OF sample_hash_shape], symmetric]
    by (simp add: known_def exists_in_def empty_spool_def hm_get_insert)
  then have "complete_writes sample_hash ?spool (inspected None ?spool) = {(json_name (sample_hash [1, 2, 3]), [1, 2, 3])}"
    using temporary_id_digest [OF sample_hash_shape, of "[1, 2, 3]"]
    by (auto simp: complete_writes_def inspected_def empty_spool_def hm_insert_def)
  moreover have "batches (sp_root ?spool) = []"
    by (simp add: batches_insert_hidden) (simp add: empty_spool_def batches_def)
  ultimately show ?thesis
    using restart_recovers_exactly_complete_writes [OF sample_hash_shape wf prod.collapse [symmetric], of None] by simp
qed

lemma sample_calls:
  "room_for empty_spool [1, 2, 3]" "hm_get (sp_root empty_spool) (temporary_name (sample_hash [1, 2, 3])) = None"
  by (simp_all add: room_for_def empty_spool_def directory_stats_def saturating_add_usize_def usize_max_def)

lemma sample_crashes:
  "[(temporary_name (sample_hash [1, 2, 3]), [1, 2])] \<in>
     crash_files (fst (perform (take 2 (enqueue_calls sample_hash empty_spool [1, 2, 3])) (stable_disk (sp_root empty_spool))))"
  "[(json_name (sample_hash [1, 2, 3]), [1, 2, 3])] \<in>
     crash_files (fst (perform (take 5 (enqueue_calls sample_hash empty_spool [1, 2, 3])) (stable_disk (sp_root empty_spool))))"
proof -
  note run = perform_enqueue_calls [of empty_spool sample_hash "[1, 2, 3]", OF empty_spool_facts(4) sample_calls]
  have torn: "[(tmp, [1, 2])] \<in> crash_files (disk_after [] tmp final body 2)" for tmp final body
    by (auto simp: crash_files_def disk_after_def intro!: exI [of _ "[(tmp, 0)]"] exI [of _ "\<lambda>_. [1, 2]"])
  have whole: "[(final, body)] \<in> crash_files (disk_after [] tmp final body 5)" for tmp final body
    by (auto simp: crash_files_def disk_after_def intro!: exI [of _ "[(final, 0)]"] exI [of _ "\<lambda>_. body"])
  show "[(temporary_name (sample_hash [1, 2, 3]), [1, 2])] \<in>
     crash_files (fst (perform (take 2 (enqueue_calls sample_hash empty_spool [1, 2, 3])) (stable_disk (sp_root empty_spool))))"
    unfolding run using torn by (simp add: empty_spool_def)
  show "[(json_name (sample_hash [1, 2, 3]), [1, 2, 3])] \<in>
     crash_files (fst (perform (take 5 (enqueue_calls sample_hash empty_spool [1, 2, 3])) (stable_disk (sp_root empty_spool))))"
    unfolding run using whole by (simp add: empty_spool_def)
qed

theorem crashed_enqueue_is_atomic_witness:
  "fst (recover_temporary_files sample_hash None
     (empty_spool\<lparr>sp_root := [(temporary_name (sample_hash [1, 2, 3]), [1, 2])]\<rparr>)) \<in> {empty_spool, stored_spool} \<and>
   fst (recover_temporary_files sample_hash None
     (empty_spool\<lparr>sp_root := [(json_name (sample_hash [1, 2, 3]), [1, 2, 3])]\<rparr>)) = stored_spool"
proof -
  note atomic = crashed_enqueue_is_atomic [OF sample_hash_shape sample_hash_collision_free empty_spool_facts(2)]
  have "length (enqueue_calls sample_hash empty_spool [1, 2, 3]) \<le> 5" by (simp add: enqueue_calls_def Let_def)
  with atomic [OF sample_crashes(1)] atomic [OF sample_crashes(2)] show ?thesis by (simp add: enqueue_sample)
qed

theorem enqueue_then_read_round_trip_witness:
  "spool_read None stored_spool \<lparr>pi_id = sample_hash [1, 2, 3], pi_path = json_name (sample_hash [1, 2, 3]), pi_bytes = 3\<rparr> =
   Ok [1, 2, 3]"
proof -
  have "spool_wf sample_hash empty_spool" using empty_spool_facts(1) by (simp add: spool_inv_def)
  from enqueue_then_read_round_trip [OF sample_hash_shape this empty_spool_facts(4) enqueue_sample]
  show ?thesis by (simp add: numeral_3_eq_3)
qed

theorem acknowledge_removes_exactly_the_item_witness:
  "hm_get (sp_root (fst (spool_acknowledge None stored_spool
     \<lparr>pi_id = sample_hash [1, 2, 3], pi_path = json_name (sample_hash [1, 2, 3]), pi_bytes = 3\<rparr>)))
     (json_name (sample_hash [1, 2, 3])) = None"
proof -
  let ?item = "\<lparr>pi_id = sample_hash [1, 2, 3], pi_path = json_name (sample_hash [1, 2, 3]), pi_bytes = 3\<rparr>"
  have "snd (spool_acknowledge None stored_spool ?item) = Ok ()"
    by (simp add: spool_acknowledge_def Let_def)
  with acknowledge_removes_exactly_the_item [OF prod.collapse [symmetric], of None stored_spool ?item] show ?thesis
    by simp
qed

text \<open>
  Recovery does not look at the capacity: a batch that was completely written but not renamed does
  not count, so later batches may take its place, and the next start adds it on top of them.
\<close>

definition overfull_spool :: spool where
  "overfull_spool =
     (let after_failure = fst (spool_enqueue sample_hash (Some RenameFile) empty_spool [1, 2, 3]);
          after_next = fst (spool_enqueue sample_hash None after_failure [4, 5, 6])
      in fst (recover_temporary_files sample_hash None after_next))"

lemma recovery_can_exceed_capacity: "used_bytes overfull_spool = 6 \<and> sp_max_bytes overfull_spool = 4"
  by code_simp

end
