(* ===== verification/Steps.thy ===== *)
theory Steps
  imports Prelude
begin

text \<open>
  Components driven by a sequence of inputs. The locale \<open>stepper\<close> is their contract: an invariant
  that every admissible input keeps, and a promise every output meets. What a whole run guarantees
  is proved once.
\<close>

fun run_steps :: "('s \<Rightarrow> 'i \<Rightarrow> 's \<times> 'o list) \<Rightarrow> 's \<Rightarrow> 'i list \<Rightarrow> 's \<times> 'o list" where
  "run_steps step s [] = (s, [])"
| "run_steps step s (i # is) =
     (case step s i of (s, out) \<Rightarrow> (case run_steps step s is of (s, rest) \<Rightarrow> (s, out @ rest)))"

lemma run_steps_append:
  "run_steps step s (is @ js) =
     (case run_steps step s is of (s, out) \<Rightarrow> (case run_steps step s js of (s, rest) \<Rightarrow> (s, out @ rest)))"
  by (induction "is" arbitrary: s) (auto split: prod.splits)

locale stepper =
  fixes step :: "'s \<Rightarrow> 'i \<Rightarrow> 's \<times> 'o list"
    and admissible :: "'i \<Rightarrow> bool"
    and invariant :: "'s \<Rightarrow> bool"
    and promise :: "'o \<Rightarrow> bool"
  assumes step_invariant: "invariant s \<Longrightarrow> admissible i \<Longrightarrow> invariant (fst (step s i))"
    and step_promise: "invariant s \<Longrightarrow> admissible i \<Longrightarrow> list_all promise (snd (step s i))"
begin

lemma run_keeps:
  "invariant s \<Longrightarrow> list_all admissible is \<Longrightarrow>
     invariant (fst (run_steps step s is)) \<and> list_all promise (snd (run_steps step s is))"
proof (induction "is" arbitrary: s)
  case (Cons i "is")
  have "invariant (fst (step s i))" "list_all promise (snd (step s i))"
    using Cons.prems by (simp_all add: step_invariant step_promise)
  moreover have "invariant (fst (run_steps step (fst (step s i)) is)) \<and>
      list_all promise (snd (run_steps step (fst (step s i)) is))"
    using Cons.IH [OF calculation(1)] Cons.prems(2) by simp
  ultimately show ?case by (auto split: prod.splits)
qed simp

lemma run_invariant:
  "invariant s \<Longrightarrow> list_all admissible is \<Longrightarrow> run_steps step s is = (s', out) \<Longrightarrow> invariant s'"
  using run_keeps [of s "is"] by simp

lemma run_promise:
  "invariant s \<Longrightarrow> list_all admissible is \<Longrightarrow> run_steps step s is = (s', out) \<Longrightarrow> list_all promise out"
  using run_keeps [of s "is"] by simp

end

text \<open>Components whose counter grows by the number of outputs of one kind.\<close>

locale counted_steps =
  fixes step :: "'s \<Rightarrow> 'i \<Rightarrow> 's \<times> 'o list"
    and reading :: "'s \<Rightarrow> 'n::semiring_1"
    and counted :: "'o \<Rightarrow> bool"
  assumes step_counts: "reading (fst (step s i)) = reading s + of_nat (length (filter counted (snd (step s i))))"
begin

lemma run_counts:
  "run_steps step s is = (s', out) \<Longrightarrow> reading s' = reading s + of_nat (length (filter counted out))"
proof (induction "is" arbitrary: s out)
  case (Cons i "is")
  obtain t first where first: "step s i = (t, first)" by fastforce
  obtain rest where rest: "run_steps step t is = (s', rest)" and out: "out = first @ rest"
    using Cons.prems first by (auto split: prod.splits)
  from Cons.IH [OF rest] step_counts [of s i] first out show ?case by (simp add: add.assoc)
qed simp

end

end
