(* ===== verification/Observer_Main.thy ===== *)
theory Observer_Main
  imports Processor Spool Steps
begin

text \<open>
  The pipeline around the event processor, \<open>crates/observer/src/main.rs\<close>: configuration checks, event
  filters, the batcher that writes batches to the spool, the exporter that posts them to Outpost, and
  the discovery of MongoDB processes and libraries. JSON (\<open>serde_json\<close>) and the HTTP client are
  parameters: \<open>encode\<close>, \<open>decode\<close>, and \<open>send\<close>, which answers a request with a status or nothing.
\<close>

subsection \<open>Configuration\<close>

datatype tls_uprobe_mode = Auto | Required | Off

record observer_cli =
  cli_customer_id :: string
  cli_tenant_id :: string
  cli_source_id :: string
  cli_regional_cell_id :: string
  cli_cluster_name :: string
  cli_node_name :: string
  cli_sensor_id :: "string option"
  cli_outpost_url :: string
  cli_internal_token_file :: "string option"
  cli_principal_hash_salt_file :: "string option"
  cli_host_proc :: string
  cli_batch_max_events :: usize
  cli_enabled_event_types :: string
  cli_enabled_mongodb_commands :: string
  cli_capture_query_content :: bool
  cli_batch_flush_milliseconds :: u64
  cli_export_interval_seconds :: u64
  cli_rescan_seconds :: u64
  cli_max_message_bytes :: usize
  cli_cpu_profile_hz :: u32
  cli_mongodb_port :: u16
  cli_tls_uprobes :: tls_uprobe_mode
  cli_lock_profiling :: bool

text \<open>\<open>anyhow::ensure!\<close>.\<close>

definition ensure :: "bool \<Rightarrow> 'e \<Rightarrow> ('e, unit) result" where
  "ensure condition message = (if condition then Ok () else Fail message)"

fun ensure_all :: "(bool \<times> 'e) list \<Rightarrow> ('e, unit) result" where
  "ensure_all [] = Ok ()"
| "ensure_all ((condition, message) # rest) = rbind (ensure condition message) (\<lambda>_. ensure_all rest)"

definition not_empty_checks :: "(string \<times> string) list \<Rightarrow> (bool \<times> string) list" where
  "not_empty_checks pairs = map (\<lambda>(name, v). (\<not> blank v, name @ '' must not be empty'')) pairs"

definition validate_cli :: "observer_cli \<Rightarrow> (string, unit) result" where
  "validate_cli cli = ensure_all
     (not_empty_checks
        [(''customer_id'', cli_customer_id cli), (''tenant_id'', cli_tenant_id cli),
         (''source_id'', cli_source_id cli), (''regional_cell_id'', cli_regional_cell_id cli),
         (''cluster_name'', cli_cluster_name cli), (''node_name'', cli_node_name cli),
         (''outpost_url'', cli_outpost_url cli)] @
      [(cli_batch_max_events cli > 0, ''batch_max_events must be positive''),
       (cli_cpu_profile_hz cli \<le> 999, ''cpu_profile_hz must be at most 999''),
       (cli_mongodb_port cli > 0, ''mongodb_port must be positive'')])"

record assignment =
  as_customer_id :: string
  as_tenant_id :: string
  as_source_id :: string
  as_regional_cell_id :: string
  as_sensor_id :: string
  as_node_name :: string

definition sensor_id_of :: "observer_cli \<Rightarrow> string" where
  "sensor_id_of cli =
     (case cli_sensor_id cli of None \<Rightarrow> ''mongodb-dam-observer-'' @ cli_node_name cli | Some s \<Rightarrow> s)"

definition assignment_of :: "observer_cli \<Rightarrow> assignment" where
  "assignment_of cli =
     \<lparr>as_customer_id = cli_customer_id cli, as_tenant_id = cli_tenant_id cli, as_source_id = cli_source_id cli,
      as_regional_cell_id = cli_regional_cell_id cli, as_sensor_id = sensor_id_of cli,
      as_node_name = cli_node_name cli\<rparr>"

subsection \<open>Event filters\<close>

definition SUPPORTED_EVENT_TYPES :: "string list" where
  "SUPPORTED_EVENT_TYPES =
     [''mongodb_activity'', ''mongodb_connection'', ''mongodb_auth'', ''dns_activity'', ''host_io'',
      ''profile'', ''process_lifecycle'', ''sensor_health'']"

text \<open>The trimmed, non-empty pieces of a comma-separated list, as a set.\<close>

definition selected_names :: "string \<Rightarrow> string set" where
  "selected_names raw = set (filter (\<lambda>v. v \<noteq> []) (map trim (split_on (CHR '','') raw)))"

text \<open>The error for an unknown type also names one of the unknown types, in the unspecified order of a \<open>HashSet\<close>.\<close>

definition parse_enabled_event_types :: "string \<Rightarrow> (string, string set option) result" where
  "parse_enabled_event_types raw =
     (let selected = selected_names raw in
      if selected = {} then Fail ''enabled_event_types must contain all or at least one event type''
      else if ''all'' \<in> selected then
        if card selected = 1 then Ok None
        else Fail ''enabled_event_types cannot combine all with named event types''
      else if selected \<subseteq> set SUPPORTED_EVENT_TYPES then Ok (Some selected)
      else Fail ''unsupported enabled event type'')"

definition event_type_is_enabled :: "string set option \<Rightarrow> string \<Rightarrow> bool" where
  "event_type_is_enabled enabled event_type \<longleftrightarrow>
     (case enabled of None \<Rightarrow> True | Some event_types \<Rightarrow> event_type \<in> event_types)"

definition parse_enabled_mongodb_commands :: "string \<Rightarrow> (string, string set option) result" where
  "parse_enabled_mongodb_commands raw =
     (let selected = to_ascii_lowercase ` selected_names raw in
      if selected = {} then Fail ''enabled_mongodb_commands must contain all or at least one command''
      else if ''all'' \<in> selected then
        if card selected = 1 then Ok None
        else Fail ''enabled_mongodb_commands cannot combine all with named commands''
      else if \<forall>command \<in> selected. list_all (\<lambda>c. is_ascii_alphanumeric c \<or> c = CHR ''_'') command
      then Ok (Some selected)
      else Fail ''enabled_mongodb_commands contains an invalid command name'')"

definition event_type_name :: "event_payload \<Rightarrow> string" where
  "event_type_name payload =
     (case payload of
        MongodbActivity _ \<Rightarrow> ''mongodb_activity''
      | MongodbConnection _ \<Rightarrow> ''mongodb_connection''
      | MongodbAuth _ \<Rightarrow> ''mongodb_auth''
      | DnsActivity _ \<Rightarrow> ''dns_activity''
      | HostIo _ \<Rightarrow> ''host_io''
      | Profile _ \<Rightarrow> ''profile''
      | ProcessLifecycle _ \<Rightarrow> ''process_lifecycle''
      | SensorHealth _ \<Rightarrow> ''sensor_health'')"

definition event_is_enabled :: "string set option \<Rightarrow> string set option \<Rightarrow> event_payload \<Rightarrow> bool" where
  "event_is_enabled enabled_event_types enabled_mongodb_commands payload \<longleftrightarrow>
     event_type_is_enabled enabled_event_types (event_type_name payload) \<and>
     (case payload of
        MongodbActivity activity \<Rightarrow>
          (case enabled_mongodb_commands of
             None \<Rightarrow> True
           | Some commands \<Rightarrow> to_ascii_lowercase (act_command activity) \<in> commands)
      | _ \<Rightarrow> True)"

subsection \<open>Start\<close>

text \<open>\<open>read_secret\<close>: the trimmed text of a file, which must not be empty.\<close>

definition read_secret :: "(string \<Rightarrow> string option) \<Rightarrow> string \<Rightarrow> (string, string) result" where
  "read_secret files path =
     (case files path of
        None \<Rightarrow> Fail (''reading secret '' @ path)
      | Some v \<Rightarrow>
          let v = trim v in
          if v = [] then Fail (''secret '' @ path @ '' is empty'') else Ok v)"

definition read_secret_option :: "(string \<Rightarrow> string option) \<Rightarrow> string option \<Rightarrow> (string, string option) result" where
  "read_secret_option files path =
     (case path of None \<Rightarrow> Ok None | Some path \<Rightarrow> rbind (read_secret files path) (\<lambda>secret. Ok (Some secret)))"

record bpf_config =
  bc_host_proc :: string
  bc_rescan_seconds :: u64
  bc_cpu_profile_hz :: u32
  bc_mongodb_port :: u16
  bc_tls_mode :: tls_uprobe_mode
  bc_lock_profiling :: bool

text \<open>What \<open>main\<close> has derived from the command line when it starts the tasks.\<close>

record observer_start =
  su_enabled_event_types :: "string set option"
  su_enabled_mongodb_commands :: "string set option"
  su_emit_sensor_health :: bool
  su_assignment :: assignment
  su_internal_token :: "string option"
  su_processor_config :: processor_config
  su_max_events :: usize
  su_flush_milliseconds :: u64
  su_export_seconds :: u64
  su_bpf :: bpf_config

definition processor_config_of :: "observer_cli \<Rightarrow> string option \<Rightarrow> processor_config" where
  "processor_config_of cli principal_hash_salt =
     \<lparr>pc_customer_id = cli_customer_id cli, pc_tenant_id = cli_tenant_id cli, pc_source_id = cli_source_id cli,
      pc_regional_cell_id = cli_regional_cell_id cli, pc_sensor_id = sensor_id_of cli,
      pc_node_name = cli_node_name cli, pc_cluster_name = cli_cluster_name cli, pc_host_proc = cli_host_proc cli,
      pc_max_message_bytes = cli_max_message_bytes cli, pc_cpu_profile_hz = cli_cpu_profile_hz cli,
      pc_principal_hash_salt = principal_hash_salt, pc_capture_query_content = cli_capture_query_content cli\<rparr>"

definition bpf_config_of :: "observer_cli \<Rightarrow> bpf_config" where
  "bpf_config_of cli =
     \<lparr>bc_host_proc = cli_host_proc cli, bc_rescan_seconds = max (cli_rescan_seconds cli) 1,
      bc_cpu_profile_hz = cli_cpu_profile_hz cli, bc_mongodb_port = cli_mongodb_port cli,
      bc_tls_mode = cli_tls_uprobes cli, bc_lock_profiling = cli_lock_profiling cli\<rparr>"

definition start_observer ::
  "(string \<Rightarrow> string option) \<Rightarrow> observer_cli \<Rightarrow> (string, observer_start) result" where
  "start_observer files cli =
     rbind (validate_cli cli) (\<lambda>_.
     rbind (parse_enabled_event_types (cli_enabled_event_types cli)) (\<lambda>enabled_event_types.
     rbind (parse_enabled_mongodb_commands (cli_enabled_mongodb_commands cli)) (\<lambda>enabled_mongodb_commands.
     rbind (read_secret_option files (cli_internal_token_file cli)) (\<lambda>internal_token.
     rbind (read_secret_option files (cli_principal_hash_salt_file cli)) (\<lambda>principal_hash_salt.
     Ok \<lparr>su_enabled_event_types = enabled_event_types, su_enabled_mongodb_commands = enabled_mongodb_commands,
         su_emit_sensor_health = event_type_is_enabled enabled_event_types ''sensor_health'',
         su_assignment = assignment_of cli, su_internal_token = internal_token,
         su_processor_config = processor_config_of cli principal_hash_salt,
         su_max_events = cli_batch_max_events cli,
         su_flush_milliseconds = max (cli_batch_flush_milliseconds cli) 100,
         su_export_seconds = max (cli_export_interval_seconds cli) 1, su_bpf = bpf_config_of cli\<rparr>)))))"

subsection \<open>Metrics\<close>

record runtime_metrics =
  rm_bpf_ready :: bool
  rm_ring_events :: u64
  rm_malformed_ring_events :: u64
  rm_userspace_dropped_events :: u64
  rm_parse_errors :: u64
  rm_metadata_events :: u64
  rm_batches_spooled :: u64
  rm_spool_dropped_events :: u64
  rm_batches_delivered :: u64
  rm_delivery_failures :: u64
  rm_quarantined_batches :: u64
  rm_bpf_dropped_events :: u64
  rm_target_processes :: usize
  rm_tls_uprobe_processes :: usize

text \<open>The processor task: filtered events are counted and sent on, errors are counted.\<close>

definition processor_task_step ::
  "string set option \<Rightarrow> string set option \<Rightarrow> env \<Rightarrow> captured_kernel_event \<Rightarrow>
   event_processor \<times> runtime_metrics \<Rightarrow> (event_processor \<times> runtime_metrics) \<times> dam_event list" where
  "processor_task_step enabled_event_types enabled_mongodb_commands env captured state =
     (case state of (p, metrics) \<Rightarrow>
        (case process env p captured of
           (p, Inr events) \<Rightarrow>
             let sent = filter (\<lambda>event.
               event_is_enabled enabled_event_types enabled_mongodb_commands (ev_payload event)) events
             in ((p, metrics\<lparr>rm_metadata_events := rm_metadata_events metrics + of_nat (length sent)\<rparr>), sent)
         | (p, Inl _) \<Rightarrow> ((p, metrics\<lparr>rm_parse_errors := rm_parse_errors metrics + 1\<rparr>), [])))"

subsection \<open>Batches\<close>

text \<open>\<open>unix_timestamp_nanos().to_le_bytes()\<close>, a signed 128-bit integer.\<close>

definition nanos_le_bytes :: "instant \<Rightarrow> bytes" where
  "nanos_le_bytes t = le_bytes 16 (nat (t mod 2 ^ 128))"

definition sensor_health_event ::
  "crypto \<Rightarrow> assignment \<Rightarrow> io_fault option \<Rightarrow> spool \<Rightarrow> runtime_metrics \<Rightarrow> instant \<Rightarrow> dam_event" where
  "sensor_health_event crypto assignment fault spool metrics now =
     (let spool_bytes = (case spool_root_stats fault spool of Inr stats \<Rightarrow> of_nat (st_bytes stats) | Inl _ \<Rightarrow> 0);
          digest = sha256 crypto (as_bytes (as_sensor_id assignment) @ nanos_le_bytes now)
      in \<lparr>ev_schema_version = EVENT_SCHEMA_VERSION,
          ev_event_id = ''health-'' @ hex_encode crypto (take 16 digest),
          ev_observed_at = now, ev_monotonic_timestamp_ns = 0,
          ev_customer_id = as_customer_id assignment, ev_tenant_id = as_tenant_id assignment,
          ev_source_id = as_source_id assignment, ev_regional_cell_id = as_regional_cell_id assignment,
          ev_capture =
            \<lparr>cap_sensor_id = as_sensor_id assignment, cap_node_name = as_node_name assignment,
             cap_source = Sensor, cap_confidence = Complete, cap_metadata_only = True, cap_truncated = False\<rparr>,
          ev_kubernetes = None, ev_process = None, ev_identity = None,
          ev_payload = SensorHealth
            \<lparr>sh_status = (if rm_bpf_ready metrics then ''ok'' else ''degraded''), sh_component = ''observer'',
             sh_reason = ''periodic sensor status'',
             sh_dropped_events =
               saturating_add (saturating_add (rm_bpf_dropped_events metrics) (rm_userspace_dropped_events metrics))
                 (rm_spool_dropped_events metrics),
             sh_parse_errors = rm_parse_errors metrics, sh_spool_bytes = spool_bytes\<rparr>\<rparr>)"

definition batch_of :: "crypto \<Rightarrow> assignment \<Rightarrow> instant \<Rightarrow> dam_event list \<Rightarrow> dam_batch" where
  "batch_of crypto assignment created_at events =
     (let digest = sha256 crypto (as_bytes (as_sensor_id assignment) @ nanos_le_bytes created_at @
            concat (map (\<lambda>event. as_bytes (ev_event_id event)) events))
      in \<lparr>ba_schema_version = BATCH_SCHEMA_VERSION,
          ba_batch_id = ''batch-'' @ hex_encode crypto (take 16 digest),
          ba_customer_id = as_customer_id assignment, ba_tenant_id = as_tenant_id assignment,
          ba_source_id = as_source_id assignment, ba_regional_cell_id = as_regional_cell_id assignment,
          ba_created_at = created_at, ba_events = events\<rparr>)"

text \<open>The name under which the spool stores a body.\<close>

definition digest_hex :: "crypto \<Rightarrow> bytes \<Rightarrow> string" where
  "digest_hex crypto body = hex_encode crypto (sha256 crypto body)"

text \<open>The spool and the metrics after \<open>flush_batch\<close>; the events have been taken. \<open>encode\<close> is \<open>serde_json::to_vec\<close>.\<close>

definition flush_batch ::
  "crypto \<Rightarrow> (dam_batch \<Rightarrow> bytes option) \<Rightarrow> assignment \<Rightarrow> io_fault option \<Rightarrow> instant \<Rightarrow>
   spool \<times> runtime_metrics \<Rightarrow> dam_event list \<Rightarrow> spool \<times> runtime_metrics" where
  "flush_batch crypto encode assignment fault created_at state events =
     (case state of (spool, metrics) \<Rightarrow>
        if events = [] then (spool, metrics)
        else
          let dropped = metrics\<lparr>rm_spool_dropped_events := rm_spool_dropped_events metrics + of_nat (length events)\<rparr> in
          (case encode (batch_of crypto assignment created_at events) of
             None \<Rightarrow> (spool, dropped)
           | Some body \<Rightarrow>
               (case spool_enqueue (digest_hex crypto) fault spool body of
                  (spool, Inr _) \<Rightarrow> (spool, metrics\<lparr>rm_batches_spooled := rm_batches_spooled metrics + 1\<rparr>)
                | (spool, Inl _) \<Rightarrow> (spool, dropped))))"

subsection \<open>The batcher\<close>

record batcher =
  bt_events :: "dam_event list"
  bt_last_health :: nat
  bt_spool :: spool
  bt_metrics :: runtime_metrics

record batcher_settings =
  bs_crypto :: crypto
  bs_encode :: "dam_batch \<Rightarrow> bytes option"
  bs_assignment :: assignment
  bs_max_events :: usize
  bs_emit_sensor_health :: bool

text \<open>What wakes the loop, with the clocks and the disk at that moment. Channel and timer belong to the runtime.\<close>

datatype batcher_input = Received dam_event | Tick

record batcher_moment =
  bm_input :: batcher_input
  bm_instant :: nat
  bm_utc :: instant
  bm_fault :: "io_fault option"

text \<open>One turn of the loop of \<open>run_batcher\<close>; the output is the batch handed to the spool, if one is.\<close>

definition batcher_collect :: "batcher_settings \<Rightarrow> batcher \<Rightarrow> batcher_moment \<Rightarrow> batcher" where
  "batcher_collect settings b moment =
     (case bm_input moment of
        Received event \<Rightarrow> b\<lparr>bt_events := bt_events b @ [event]\<rparr>
      | Tick \<Rightarrow>
          if bs_emit_sensor_health settings \<and> bm_instant moment - bt_last_health b \<ge> 60000000000
          then b\<lparr>bt_events := bt_events b @ [sensor_health_event (bs_crypto settings) (bs_assignment settings)
                   (bm_fault moment) (bt_spool b) (bt_metrics b) (bm_utc moment)],
                 bt_last_health := bm_instant moment\<rparr>
          else b)"

definition batcher_flush :: "batcher_settings \<Rightarrow> batcher \<Rightarrow> io_fault option \<Rightarrow> instant \<Rightarrow> batcher \<times> dam_batch list" where
  "batcher_flush settings b fault now =
     (case flush_batch (bs_crypto settings) (bs_encode settings) (bs_assignment settings) fault now
         (bt_spool b, bt_metrics b) (bt_events b) of
        (spool, metrics) \<Rightarrow>
          (b\<lparr>bt_events := [], bt_spool := spool, bt_metrics := metrics\<rparr>,
           if bt_events b = [] then [] else [batch_of (bs_crypto settings) (bs_assignment settings) now (bt_events b)]))"

definition batcher_step :: "batcher_settings \<Rightarrow> batcher \<Rightarrow> batcher_moment \<Rightarrow> batcher \<times> dam_batch list" where
  "batcher_step settings b moment =
     (let b = batcher_collect settings b moment in
      if length (bt_events b) \<ge> bs_max_events settings \<or> (bm_input moment = Tick \<and> bt_events b \<noteq> [])
      then batcher_flush settings b (bm_fault moment) (bm_utc moment)
      else (b, []))"

text \<open>The loop until the channel is closed, and the last flush.\<close>

definition run_batcher ::
  "batcher_settings \<Rightarrow> batcher \<Rightarrow> batcher_moment list \<Rightarrow> io_fault option \<Rightarrow> instant \<Rightarrow> batcher \<times> dam_batch list" where
  "run_batcher settings b moments fault now =
     (case run_steps (batcher_step settings) b moments of (b, flushed) \<Rightarrow>
        (case batcher_flush settings b fault now of (b, rest) \<Rightarrow> (b, flushed @ rest)))"

subsection \<open>Delivery to Outpost\<close>

definition is_success :: "u16 \<Rightarrow> bool" where
  "is_success status \<longleftrightarrow> 200 \<le> status \<and> status < 300"

definition is_client_error :: "u16 \<Rightarrow> bool" where
  "is_client_error status \<longleftrightarrow> 400 \<le> status \<and> status < 500"

definition is_server_error :: "u16 \<Rightarrow> bool" where
  "is_server_error status \<longleftrightarrow> 500 \<le> status \<and> status < 600"

definition CONFLICT :: u16 where "CONFLICT = 409"
definition TOO_MANY_REQUESTS :: u16 where "TOO_MANY_REQUESTS = 429"

datatype delivery_error =
    SpoolFailed
  | InvalidBatch string
  | SendFailed string
  | RetryableStatus u16
  | DestinationMismatch

text \<open>
  What a delivery pass reads from outside: the JSON decoder, the receiver's answer to each body, and
  the failing system call of each spool operation, if there is one.
\<close>

record delivery_env =
  de_decode :: "bytes \<Rightarrow> dam_batch option"
  de_send :: "dam_batch \<Rightarrow> bytes \<Rightarrow> u16 option"
  de_read_fault :: "pending_item \<Rightarrow> io_fault option"
  de_finish_fault :: "pending_item \<Rightarrow> io_fault option"
  de_list_fault :: "io_fault option"

fun deliver_observer_items ::
  "delivery_env \<Rightarrow> spool \<times> runtime_metrics \<Rightarrow> pending_item list \<Rightarrow>
   (spool \<times> runtime_metrics) \<times> (delivery_error, unit) result" where
  "deliver_observer_items env state [] = (state, Ok ())"
| "deliver_observer_items env (spool, metrics) (item # items) =
     (case spool_read (de_read_fault env item) spool item of
        Inl _ \<Rightarrow> ((spool, metrics), Fail SpoolFailed)
      | Inr body \<Rightarrow>
          (case de_decode env body of
             None \<Rightarrow> ((spool, metrics), Fail (InvalidBatch (pi_id item)))
           | Some batch \<Rightarrow>
               (case de_send env batch body of
                  None \<Rightarrow> ((spool, metrics), Fail (SendFailed (ba_batch_id batch)))
                | Some status \<Rightarrow>
                    if is_success status \<or> status = CONFLICT then
                      (case spool_acknowledge (de_finish_fault env item) spool item of
                         (spool, Inl _) \<Rightarrow> ((spool, metrics), Fail SpoolFailed)
                       | (spool, Inr _) \<Rightarrow>
                           deliver_observer_items env
                             (spool, metrics\<lparr>rm_batches_delivered := rm_batches_delivered metrics + 1\<rparr>) items)
                    else if is_server_error status \<or> status = TOO_MANY_REQUESTS then
                      ((spool, metrics), Fail (RetryableStatus status))
                    else
                      (case spool_quarantine (de_finish_fault env item) spool item of
                         (spool, Inl _) \<Rightarrow> ((spool, metrics), Fail SpoolFailed)
                       | (spool, Inr _) \<Rightarrow>
                           deliver_observer_items env
                             (spool, metrics\<lparr>rm_quarantined_batches := rm_quarantined_batches metrics + 1\<rparr>) items))))"

definition deliver_observer_spool ::
  "delivery_env \<Rightarrow> spool \<times> runtime_metrics \<Rightarrow> (spool \<times> runtime_metrics) \<times> (delivery_error, unit) result" where
  "deliver_observer_spool env state =
     (case spool_pending (de_list_fault env) (fst state) of
        Inl _ \<Rightarrow> (state, Fail SpoolFailed)
      | Inr items \<Rightarrow> deliver_observer_items env state items)"

text \<open>One pass of the exporter's loop.\<close>

definition exporter_pass :: "delivery_env \<Rightarrow> spool \<times> runtime_metrics \<Rightarrow> spool \<times> runtime_metrics" where
  "exporter_pass env state =
     (case deliver_observer_spool env state of
        (state, Inr _) \<Rightarrow> state
      | ((spool, metrics), Inl _) \<Rightarrow>
          (spool, metrics\<lparr>rm_delivery_failures := rm_delivery_failures metrics + 1\<rparr>))"

subsection \<open>Process and library discovery\<close>

text \<open>\<open>name.parse::<i32>()\<close>: an optional sign and decimal digits, within the range of the type.\<close>

definition parse_i32 :: "string \<Rightarrow> int option" where
  "parse_i32 s =
     (case s of
        CHR ''-'' # rest \<Rightarrow>
          if rest = [] then None else map_option (\<lambda>n. - int n) (parse_digits 10 (2 ^ 31) 0 rest)
      | _ \<Rightarrow> map_option int (from_str_radix 10 (2 ^ 31 - 1) s))"

text \<open>The names in \<open>/proc\<close> that are numbers of processes called \<open>mongod\<close> or \<open>mongos\<close>.\<close>

definition mongodb_pids :: "proc_fs \<Rightarrow> string \<Rightarrow> string list \<Rightarrow> int list" where
  "mongodb_pids fs host_proc entries =
     sort (List.map_filter (\<lambda>name.
       Option.bind (parse_i32 name) (\<lambda>pid.
         let comm = (case read_to_string fs [host_proc, name, ''comm''] of None \<Rightarrow> [] | Some s \<Rightarrow> s)
         in if trim comm \<in> {''mongod'', ''mongos''} then Some pid else None)) entries)"

fun contains :: "string \<Rightarrow> string \<Rightarrow> bool" where
  "contains needle [] \<longleftrightarrow> needle = []"
| "contains needle (c # s) \<longleftrightarrow> starts_with needle (c # s) \<or> contains needle s"

text \<open>The mapped file of one line of \<open>/proc/<pid>/maps\<close> that \<open>mapped_libraries\<close> selects.\<close>

definition mapped_library :: "string list \<Rightarrow> string \<Rightarrow> string option" where
  "mapped_library needles line =
     (case rev (split_whitespace line) of
        [] \<Rightarrow> None
      | mapped # _ \<Rightarrow>
          if \<not> starts_with ''/'' mapped \<or> \<not> list_ex (\<lambda>needle. contains needle mapped) needles then None
          else Some (dropWhile (\<lambda>c. c = CHR ''/'') (trim_end_matches '' (deleted)'' mapped)))"

definition mapped_libraries :: "proc_fs \<Rightarrow> string \<Rightarrow> int \<Rightarrow> string list \<Rightarrow> string list list option" where
  "mapped_libraries fs host_proc pid needles =
     map_option (\<lambda>maps.
       map (\<lambda>mapped. [host_proc, int_string pid, ''root'', mapped])
         (sorted_list_of_set (set (List.map_filter (mapped_library needles) (lines maps)))))
       (read_to_string fs [host_proc, int_string pid, ''maps''])"

text \<open>The addresses of a stack map entry: 64-bit words up to the first zero.\<close>

fun stack_words :: "bytes \<Rightarrow> u64 list" where
  "stack_words (a # b # c # d # e # f # g # h # rest) = from_le_bytes [a, b, c, d, e, f, g, h] # stack_words rest"
| "stack_words _ = []"

definition read_stack :: "(i32 \<Rightarrow> bytes option) \<Rightarrow> i32 \<Rightarrow> u64 list" where
  "read_stack stack_map stack_id =
     (if sint stack_id < 0 then []
      else (case stack_map stack_id of None \<Rightarrow> [] | Some bs \<Rightarrow> takeWhile (\<lambda>w. w \<noteq> 0) (stack_words bs)))"

text \<open>The ring buffer callback: the record handed to the processor's channel, and the counters.\<close>

datatype channel_state = Accepting | Full | Closed

definition ring_callback ::
  "(i32 \<Rightarrow> bytes option) \<Rightarrow> channel_state \<Rightarrow> runtime_metrics \<Rightarrow> bytes \<Rightarrow>
   runtime_metrics \<times> captured_kernel_event option \<times> int" where
  "ring_callback stack_map channel metrics bs =
     (let metrics = metrics\<lparr>rm_ring_events := rm_ring_events metrics + 1\<rparr> in
      case from_ring_bytes bs of
        None \<Rightarrow> (metrics\<lparr>rm_malformed_ring_events := rm_malformed_ring_events metrics + 1\<rparr>, None, 0)
      | Some raw \<Rightarrow>
          let sampled = (ke_operation raw = OP_CPU_SAMPLE);
              captured =
                \<lparr>ck_raw = raw,
                 ck_user_stack_addresses =
                   (if sampled then read_stack stack_map
                      (case i32_try_from (ke_result raw) of None \<Rightarrow> - 1 | Some n \<Rightarrow> n) else []),
                 ck_kernel_stack_addresses = (if sampled then read_stack stack_map (ke_fd raw) else [])\<rparr>
          in (case channel of
                Accepting \<Rightarrow> (metrics, Some captured, 0)
              | Full \<Rightarrow>
                  (metrics\<lparr>rm_userspace_dropped_events := rm_userspace_dropped_events metrics + 1\<rparr>, None, 0)
              | Closed \<Rightarrow> (metrics, None, - 1)))"

subsection \<open>Health and metrics pages\<close>

record health_response =
  hr_service :: string
  hr_status :: string
  hr_node_name :: string
  hr_target_processes :: usize
  hr_tls_uprobe_processes :: usize
  hr_spool_items :: usize
  hr_spool_bytes :: usize
  hr_quarantine_items :: usize
  hr_quarantine_bytes :: usize

text \<open>The status code and the body; \<open>None\<close> is the text of the I/O error.\<close>

definition observer_health ::
  "io_fault option \<Rightarrow> io_fault option \<Rightarrow> string \<Rightarrow> spool \<Rightarrow> runtime_metrics \<Rightarrow> u16 \<times> health_response option" where
  "observer_health stats_fault quarantine_fault node_name spool metrics =
     (case (spool_root_stats stats_fault spool, spool_quarantine_stats quarantine_fault spool) of
        (Inr stats, Inr quarantine) \<Rightarrow>
          (if rm_bpf_ready metrics then 200 else 503,
           Some \<lparr>hr_service = ''mongodb-dam-observer'',
             hr_status = (if rm_bpf_ready metrics then ''ok'' else ''starting''), hr_node_name = node_name,
             hr_target_processes = rm_target_processes metrics,
             hr_tls_uprobe_processes = rm_tls_uprobe_processes metrics,
             hr_spool_items = st_items stats, hr_spool_bytes = st_bytes stats,
             hr_quarantine_items = st_items quarantine, hr_quarantine_bytes = st_bytes quarantine\<rparr>)
      | _ \<Rightarrow> (503, None))"

definition stats_or_default :: "(spool_error, spool_stats) result \<Rightarrow> spool_stats" where
  "stats_or_default r = (case r of Inl _ \<Rightarrow> \<lparr>st_items = 0, st_bytes = 0\<rparr> | Inr stats \<Rightarrow> stats)"

text \<open>The lines of \<open>prometheus_metrics\<close>: comments, and samples with their value.\<close>

definition prometheus_metrics ::
  "io_fault option \<Rightarrow> io_fault option \<Rightarrow> spool \<Rightarrow> runtime_metrics \<Rightarrow> string" where
  "prometheus_metrics stats_fault quarantine_fault spool metrics =
     (let sp = stats_or_default (spool_root_stats stats_fault spool);
          q = stats_or_default (spool_quarantine_stats quarantine_fault spool);
          sample = (\<lambda>(name, n). ''mongodb_dam_observer_'' @ name @ '' '' @ nat_string n @ [CHR 0x0A])
      in ''# TYPE mongodb_dam_observer_ready gauge'' @ [CHR 0x0A] @
         sample (''ready'', of_bool (rm_bpf_ready metrics)) @
         ''# TYPE mongodb_dam_observer_ring_events_total counter'' @ [CHR 0x0A] @
         concat (map sample
           [(''ring_events_total'', unat (rm_ring_events metrics)),
            (''malformed_ring_events_total'', unat (rm_malformed_ring_events metrics)),
            (''userspace_dropped_events_total'', unat (rm_userspace_dropped_events metrics)),
            (''parse_errors_total'', unat (rm_parse_errors metrics)),
            (''metadata_events_total'', unat (rm_metadata_events metrics)),
            (''batches_spooled_total'', unat (rm_batches_spooled metrics)),
            (''spool_dropped_events_total'', unat (rm_spool_dropped_events metrics)),
            (''batches_delivered_total'', unat (rm_batches_delivered metrics)),
            (''delivery_failures_total'', unat (rm_delivery_failures metrics)),
            (''quarantined_batches_total'', unat (rm_quarantined_batches metrics)),
            (''bpf_dropped_events_total'', unat (rm_bpf_dropped_events metrics)),
            (''target_processes'', rm_target_processes metrics),
            (''tls_uprobe_processes'', rm_tls_uprobe_processes metrics),
            (''spool_items'', st_items sp), (''spool_bytes'', st_bytes sp),
            (''quarantine_items'', st_items q), (''quarantine_bytes'', st_bytes q)]))"

end
