(* ===== verification/Outpost.thy ===== *)
theory Outpost
  imports Observer_Main
begin

text \<open>
  Outpost, \<open>crates/outpost/src/lib.rs\<close>: it accepts batches of its own tenant over HTTP, adds Kubernetes
  metadata and external identities, stores them in its spool and delivers them to an HTTP receiver or
  to S3. Parameters are the JSON codec, the URL parser (\<open>url\<close>), gzip, the calendar of the \<open>time\<close> crate,
  the HTTP and S3 clients and the Kubernetes API.
\<close>

subsection \<open>Configuration\<close>

record http_destination_config =
  hd_endpoint :: string
  hd_bearer_token :: string
  hd_ca_file :: "string option"

record s3_destination_config =
  s3_bucket :: string
  s3_prefix :: string
  s3_endpoint_url :: "string option"
  s3_force_path_style :: bool

datatype destination_config = Http http_destination_config | S3 s3_destination_config

record outpost_config =
  oc_customer_id :: string
  oc_tenant_id :: string
  oc_source_id :: string
  oc_regional_cell_id :: string
  oc_cluster_name :: string
  oc_internal_token :: "string option"
  oc_destination :: destination_config
  oc_spool_dir :: string
  oc_spool_max_bytes :: u64
  oc_max_request_bytes :: usize
  oc_export_seconds :: u64
  oc_kubernetes_api_url :: "string option"
  oc_kubernetes_token_path :: string
  oc_kubernetes_ca_path :: string
  oc_kubernetes_refresh_seconds :: u64
  oc_identity_mapping_file :: "string option"

text \<open>What \<open>Url::parse\<close> returns, as far as it is used.\<close>

record parsed_url =
  url_scheme :: string
  url_host :: "string option"
  url_username :: string
  url_password :: "string option"

type_synonym url_parser = "string \<Rightarrow> parsed_url option"

text \<open>The shared tail of both checks: HTTPS, or HTTP to a listed local host, and no credentials in the URL.\<close>

definition endpoint_checks :: "parsed_url \<Rightarrow> string list \<Rightarrow> string \<Rightarrow> string \<Rightarrow> (bool \<times> string) list" where
  "endpoint_checks endpoint local_hosts tls_message credentials_message =
     (let is_local = (url_scheme endpoint = ''http'' \<and>
            (case url_host endpoint of None \<Rightarrow> False | Some host \<Rightarrow> host \<in> set local_hosts))
      in [(url_scheme endpoint = ''https'' \<or> is_local, tls_message),
          (url_username endpoint = [] \<and> url_password endpoint = None, credentials_message)])"

definition validate_http_destination :: "url_parser \<Rightarrow> http_destination_config \<Rightarrow> (string, unit) result" where
  "validate_http_destination parse_url destination =
     rbind (ensure (\<not> blank (hd_endpoint destination)) ''HTTP endpoint must not be empty'') (\<lambda>_.
     rbind (ensure (\<not> blank (hd_bearer_token destination)) ''HTTP bearer token must not be empty'') (\<lambda>_.
     rbind (ok_or (parse_url (hd_endpoint destination)) ''HTTP endpoint is invalid'') (\<lambda>endpoint.
     ensure_all (endpoint_checks endpoint [''127.0.0.1'', ''localhost'', ''mock-endpoint'']
       ''HTTP endpoint must use HTTPS except for the bundled local mock''
       ''HTTP endpoint must not contain credentials''))))"

definition trim_matches :: "char \<Rightarrow> string \<Rightarrow> string" where
  "trim_matches c s = rev (dropWhile (\<lambda>x. x = c) (rev (dropWhile (\<lambda>x. x = c) s)))"

definition normalized_s3_prefix :: "string \<Rightarrow> string" where
  "normalized_s3_prefix prefix = trim_matches (CHR ''/'') (trim prefix)"

definition validate_s3_destination :: "url_parser \<Rightarrow> s3_destination_config \<Rightarrow> (string, unit) result" where
  "validate_s3_destination parse_url destination =
     (let bucket = trim (s3_bucket destination);
          prefix = normalized_s3_prefix (s3_prefix destination)
      in rbind (ensure_all
           [(bucket \<noteq> [], ''S3 bucket must not be empty''),
            (bucket = s3_bucket destination, ''S3 bucket must not have leading or trailing whitespace''),
            (\<not> has_control bucket, ''S3 bucket must not contain control characters''),
            (prefix \<noteq> [], ''S3 prefix must not be empty''),
            (\<not> has_control prefix, ''S3 prefix must not contain control characters'')]) (\<lambda>_.
         (case s3_endpoint_url destination of
            None \<Rightarrow> Ok ()
          | Some url \<Rightarrow>
              rbind (ok_or (parse_url url) ''S3 endpoint URL is invalid'') (\<lambda>endpoint.
              ensure_all (endpoint_checks endpoint [''127.0.0.1'', ''localhost'']
                ''S3 endpoint URL must use HTTPS except for localhost''
                ''S3 endpoint URL must not contain credentials'')))))"

definition validate_config :: "url_parser \<Rightarrow> outpost_config \<Rightarrow> (string, unit) result" where
  "validate_config parse_url config =
     rbind (ensure_all (not_empty_checks
       [(''customer_id'', oc_customer_id config), (''tenant_id'', oc_tenant_id config),
        (''source_id'', oc_source_id config), (''regional_cell_id'', oc_regional_cell_id config),
        (''cluster_name'', oc_cluster_name config)])) (\<lambda>_.
     rbind (case oc_destination config of
              Http destination \<Rightarrow> validate_http_destination parse_url destination
            | S3 destination \<Rightarrow> validate_s3_destination parse_url destination) (\<lambda>_.
     ensure (oc_max_request_bytes config > 0) ''max_request_bytes must be positive''))"

subsection \<open>External identities\<close>

record identity_mapping_entry =
  im_mongodb_principal_hash :: string
  im_provider :: string
  im_principal_type :: string
  im_principal_arn :: string
  im_account_id :: string
  im_credential_source :: string
  im_credential_resource :: string

record identity_mapping_document =
  imd_schema_version :: u16
  imd_mappings :: "identity_mapping_entry list"

definition valid_iam_principal_arn :: "string \<Rightarrow> string \<Rightarrow> string \<Rightarrow> bool" where
  "valid_iam_principal_arn arn account_id principal_type \<longleftrightarrow>
     (let expected_resource = (if principal_type = ''iam_user'' then ''user/'' else ''role/'') in
      case splitn 6 (CHR '':'') arn of
        [p0, p1, p2, p3, p4, p5] \<Rightarrow>
          p0 = ''arn'' \<and> p1 \<noteq> [] \<and> p2 = ''iam'' \<and> p3 = [] \<and> p4 = account_id \<and>
          starts_with expected_resource p5 \<and> length p5 > length expected_resource
      | _ \<Rightarrow> False)"

definition valid_secrets_manager_arn :: "string \<Rightarrow> string \<Rightarrow> bool" where
  "valid_secrets_manager_arn arn account_id \<longleftrightarrow>
     (case splitn 6 (CHR '':'') arn of
        [p0, p1, p2, p3, p4, p5] \<Rightarrow>
          p0 = ''arn'' \<and> p1 \<noteq> [] \<and> p2 = ''secretsmanager'' \<and> p3 \<noteq> [] \<and> p4 = account_id \<and>
          starts_with ''secret:'' p5 \<and> length p5 > length ''secret:''
      | _ \<Rightarrow> False)"

definition validate_identity_mapping :: "identity_mapping_entry \<Rightarrow> (string, unit) result" where
  "validate_identity_mapping mapping = ensure_all
     [(starts_with ''sha256:'' (im_mongodb_principal_hash mapping) \<and>
       length (im_mongodb_principal_hash mapping) = 71 \<and>
       list_all is_ascii_hexdigit (drop 7 (im_mongodb_principal_hash mapping)),
       ''MongoDB principal hash must be sha256 followed by 64 hexadecimal characters''),
      (im_provider mapping = ''aws'', ''identity provider must be aws''),
      (im_principal_type mapping \<in> {''iam_user'', ''iam_role''}, ''principal_type must be iam_user or iam_role''),
      (length (im_account_id mapping) = 12 \<and> list_all is_ascii_digit (im_account_id mapping),
       ''AWS account_id must contain 12 digits''),
      (valid_iam_principal_arn (im_principal_arn mapping) (im_account_id mapping) (im_principal_type mapping),
       ''principal_arn does not match account_id and principal_type''),
      (im_credential_source mapping = ''aws_secrets_manager'', ''credential_source must be aws_secrets_manager''),
      (valid_secrets_manager_arn (im_credential_resource mapping) (im_account_id mapping),
       ''credential_resource must be a Secrets Manager ARN in account_id'')]"

definition identity_of_mapping :: "identity_mapping_entry \<Rightarrow> external_identity" where
  "identity_of_mapping mapping =
     \<lparr>xid_provider = im_provider mapping, xid_principal_type = im_principal_type mapping,
      xid_principal_arn = im_principal_arn mapping, xid_account_id = im_account_id mapping,
      xid_credential_source = im_credential_source mapping,
      xid_credential_resource = im_credential_resource mapping\<rparr>"

fun identity_mapping_loop ::
  "identity_mapping_entry list \<Rightarrow> (string, external_identity) hashmap \<Rightarrow>
   (string, (string, external_identity) hashmap) result" where
  "identity_mapping_loop [] identities = Ok identities"
| "identity_mapping_loop (mapping # mappings) identities =
     rbind (validate_identity_mapping mapping) (\<lambda>_.
     rbind (ensure (hm_get identities (im_mongodb_principal_hash mapping) = None)
       ''identity mapping contains a duplicate MongoDB principal hash'') (\<lambda>_.
     identity_mapping_loop mappings
       (hm_insert (im_mongodb_principal_hash mapping) (identity_of_mapping mapping) identities)))"

text \<open>\<open>parse_document\<close> is the JSON decoder of the mapping document.\<close>

definition parse_identity_mappings ::
  "(bytes \<Rightarrow> identity_mapping_document option) \<Rightarrow> bytes \<Rightarrow> (string, (string, external_identity) hashmap) result"
  where
  "parse_identity_mappings parse_document encoded =
     rbind (ok_or (parse_document encoded) ''invalid JSON'') (\<lambda>document.
     rbind (ensure (imd_schema_version document = 1) ''unsupported identity mapping schema_version'') (\<lambda>_.
     rbind (ensure (length (imd_mappings document) \<le> 1000) ''identity mapping exceeds 1000 entries'') (\<lambda>_.
     identity_mapping_loop (imd_mappings document) [])))"

text \<open>The mapping file: it may be absent, unreadable or readable.\<close>

datatype mapping_file = Missing | Unreadable | Contents bytes

definition load_identity_mappings ::
  "(bytes \<Rightarrow> identity_mapping_document option) \<Rightarrow> mapping_file \<Rightarrow>
   (string, (string, external_identity) hashmap) result" where
  "load_identity_mappings parse_document file =
     (case file of
        Missing \<Rightarrow> Ok []
      | Unreadable \<Rightarrow> Fail ''reading identity mapping''
      | Contents encoded \<Rightarrow> parse_identity_mappings parse_document encoded)"

definition event_principal :: "event_payload \<Rightarrow> string option" where
  "event_principal payload =
     (case payload of
        MongodbActivity activity \<Rightarrow> if act_principal_hashed activity then act_principal activity else None
      | MongodbAuth auth \<Rightarrow> if au_principal_hashed auth then au_principal auth else None
      | _ \<Rightarrow> None)"

definition enrich_external_identities ::
  "(string, external_identity) hashmap \<Rightarrow> dam_batch \<Rightarrow> dam_batch" where
  "enrich_external_identities identities batch =
     batch\<lparr>ba_events := map (\<lambda>event.
       event\<lparr>ev_identity := Option.bind (event_principal (ev_payload event)) (hm_get identities)\<rparr>)
       (ba_events batch)\<rparr>"

subsection \<open>Kubernetes metadata\<close>

record owner_reference =
  or_kind :: string
  or_name :: string
  or_controller :: bool

record pod =
  pod_uid :: "string option"
  pod_name :: "string option"
  pod_namespace :: "string option"
  pod_labels :: "(string, string) hashmap option"
  pod_owner_references :: "owner_reference list option"

type_synonym pod_cache = "(string, kubernetes_metadata) hashmap"

definition pod_kubernetes :: "string \<Rightarrow> pod \<Rightarrow> kubernetes_metadata" where
  "pod_kubernetes cluster_name p =
     (let owner = List.find or_controller (case pod_owner_references p of None \<Rightarrow> [] | Some owners \<Rightarrow> owners)
      in \<lparr>k8s_cluster_name = Some cluster_name, k8s_namespace = pod_namespace p, k8s_pod_name = pod_name p,
          k8s_pod_uid = None, k8s_container_name = None, k8s_workload_kind = map_option or_kind owner,
          k8s_workload_name = map_option or_name owner, k8s_labels = pod_labels p\<rparr>)"

text \<open>The cache that \<open>refresh_kubernetes_cache\<close> builds from the answer of the API.\<close>

definition kubernetes_cache_of :: "string \<Rightarrow> pod list \<Rightarrow> pod_cache" where
  "kubernetes_cache_of cluster_name pods =
     fold (\<lambda>p next. case pod_uid p of None \<Rightarrow> next | Some uid \<Rightarrow> hm_insert uid (pod_kubernetes cluster_name p) next)
       pods []"

definition enrich_kubernetes :: "string \<Rightarrow> pod_cache \<Rightarrow> dam_event \<Rightarrow> dam_event" where
  "enrich_kubernetes cluster_name cache event =
     (let existing = (case ev_kubernetes event of None \<Rightarrow> default_kubernetes | Some k \<Rightarrow> k);
          existing =
            (if k8s_cluster_name existing = None then existing\<lparr>k8s_cluster_name := Some cluster_name\<rparr> else existing);
          existing =
            (case Option.bind (k8s_pod_uid existing) (hm_get cache) of
               None \<Rightarrow> existing
             | Some enriched \<Rightarrow>
                 let updated = enriched\<lparr>k8s_pod_uid := k8s_pod_uid existing\<rparr> in
                 if k8s_container_name existing \<noteq> None
                 then updated\<lparr>k8s_container_name := k8s_container_name existing\<rparr> else updated)
      in event\<lparr>ev_kubernetes := Some existing\<rparr>)"

subsection \<open>Accepting batches\<close>

record outpost_metrics =
  om_accepted_batches :: u64
  om_rejected_batches :: u64
  om_delivered_batches :: u64
  om_delivery_failures :: u64
  om_quarantined_batches :: u64
  om_spool_items :: i64
  om_spool_bytes :: i64
  om_quarantine_items :: i64
  om_quarantine_bytes :: i64
  om_kubernetes_cache_entries :: i64

record outpost_state =
  os_config :: outpost_config
  os_spool :: spool
  os_metrics :: outpost_metrics
  os_kubernetes :: pod_cache

text \<open>What one request reads from outside.\<close>

text \<open>What fails in the two reads of \<open>refresh_spool_metrics\<close>: of the spool and of the quarantine.\<close>

type_synonym stats_fault = "io_fault option \<times> io_fault option"

record accept_env =
  ae_crypto :: crypto
  ae_decode :: "bytes \<Rightarrow> dam_batch option"
  ae_encode :: "dam_batch \<Rightarrow> bytes option"
  ae_parse_document :: "bytes \<Rightarrow> identity_mapping_document option"
  ae_mapping_file :: mapping_file
  ae_enqueue_fault :: "io_fault option"
  ae_stats_fault :: stats_fault

datatype rejection =
    MissingCredential
  | InvalidJson
  | InvalidContent string
  | WrongAssignment
  | EncodingFailed
  | SpoolRejected spool_error

datatype outpost_response = Accepted string string | Rejected rejection

fun rejection_status :: "rejection \<Rightarrow> u16" where
  "rejection_status MissingCredential = 401"
| "rejection_status InvalidJson = 400"
| "rejection_status (InvalidContent _) = 400"
| "rejection_status WrongAssignment = 403"
| "rejection_status EncodingFailed = 500"
| "rejection_status (SpoolRejected _) = 507"

fun response_status_code :: "outpost_response \<Rightarrow> u16" where
  "response_status_code (Accepted _ _) = 202"
| "response_status_code (Rejected r) = rejection_status r"

definition refresh_spool_metrics :: "stats_fault \<Rightarrow> outpost_state \<Rightarrow> outpost_state" where
  "refresh_spool_metrics faults state =
     (let metrics = os_metrics state;
          metrics =
            (case spool_root_stats (fst faults) (os_spool state) of
               Inl _ \<Rightarrow> metrics
             | Inr stats \<Rightarrow>
                 metrics\<lparr>om_spool_items := of_nat (st_items stats), om_spool_bytes := of_nat (st_bytes stats)\<rparr>);
          metrics =
            (case spool_quarantine_stats (snd faults) (os_spool state) of
               Inl _ \<Rightarrow> metrics
             | Inr stats \<Rightarrow>
                 metrics\<lparr>om_quarantine_items := of_nat (st_items stats), om_quarantine_bytes := of_nat (st_bytes stats)\<rparr>)
      in state\<lparr>os_metrics := metrics\<rparr>)"

definition enrich_batch :: "accept_env \<Rightarrow> outpost_state \<Rightarrow> dam_batch \<Rightarrow> dam_batch" where
  "enrich_batch env state batch =
     (let identities =
        (case oc_identity_mapping_file (os_config state) of
           None \<Rightarrow> []
         | Some _ \<Rightarrow>
             (case load_identity_mappings (ae_parse_document env) (ae_mapping_file env) of
                Inr identities \<Rightarrow> identities
              | Inl _ \<Rightarrow> []));
          batch = enrich_external_identities identities batch
      in batch\<lparr>ba_events :=
           map (enrich_kubernetes (oc_cluster_name (os_config state)) (os_kubernetes state)) (ba_events batch)\<rparr>)"

definition reject :: "outpost_state \<Rightarrow> rejection \<Rightarrow> outpost_state \<times> outpost_response" where
  "reject state r =
     (state\<lparr>os_metrics := (os_metrics state)\<lparr>om_rejected_batches := om_rejected_batches (os_metrics state) + 1\<rparr>\<rparr>,
      Rejected r)"

text \<open>The credential check: the \<open>authorization\<close> header, if it is present and text, after \<open>Bearer \<close>.\<close>

definition credential_ok :: "outpost_config \<Rightarrow> string option \<Rightarrow> bool" where
  "credential_ok config authorization \<longleftrightarrow>
     (case oc_internal_token config of
        None \<Rightarrow> True
      | Some expected \<Rightarrow> Option.bind authorization (strip_prefix ''Bearer '') = Some expected)"

definition outpost_identity :: "outpost_config \<Rightarrow> string \<times> string \<times> string \<times> string" where
  "outpost_identity config =
     (oc_customer_id config, oc_tenant_id config, oc_source_id config, oc_regional_cell_id config)"

definition accept_batch ::
  "accept_env \<Rightarrow> outpost_state \<Rightarrow> string option \<Rightarrow> bytes \<Rightarrow> outpost_state \<times> outpost_response" where
  "accept_batch env state authorization body =
     (let config = os_config state in
      if \<not> credential_ok config authorization then reject state MissingCredential
      else
        (case ae_decode env body of
           None \<Rightarrow> reject state InvalidJson
         | Some batch \<Rightarrow>
             (case validate batch of
                Inl (Err reason) \<Rightarrow> reject state (InvalidContent reason)
              | Inl Panic \<Rightarrow> reject state (InvalidContent [])
              | Inr _ \<Rightarrow>
                  if ba_customer_id batch \<noteq> oc_customer_id config \<or> ba_tenant_id batch \<noteq> oc_tenant_id config \<or>
                     ba_source_id batch \<noteq> oc_source_id config \<or>
                     ba_regional_cell_id batch \<noteq> oc_regional_cell_id config
                  then reject state WrongAssignment
                  else
                    let batch = enrich_batch env state batch in
                    (case ae_encode env batch of
                       None \<Rightarrow> reject state EncodingFailed
                     | Some encoded \<Rightarrow>
                         (case spool_enqueue (digest_hex (ae_crypto env)) (ae_enqueue_fault env) (os_spool state) encoded of
                            (spool, Inl e) \<Rightarrow>
                              (case reject (state\<lparr>os_spool := spool\<rparr>)
                                  (SpoolRejected (case e of Err reason \<Rightarrow> reason | Panic \<Rightarrow> Io)) of
                                 (state, response) \<Rightarrow> (refresh_spool_metrics (ae_stats_fault env) state, response))
                          | (spool, Inr receipt_id) \<Rightarrow>
                              (refresh_spool_metrics (ae_stats_fault env)
                                 (state\<lparr>os_spool := spool,
                                    os_metrics := (os_metrics state)\<lparr>om_accepted_batches :=
                                      om_accepted_batches (os_metrics state) + 1\<rparr>\<rparr>),
                               Accepted (ba_batch_id batch) receipt_id))))))"

subsection \<open>S3 objects\<close>

definition hex_digit_upper :: "nat \<Rightarrow> char" where
  "hex_digit_upper d = char_of (if d < 10 then 48 + d else 55 + d)"

definition key_char :: "char \<Rightarrow> bool" where
  "key_char c \<longleftrightarrow> is_ascii_alphanumeric c \<or> c = CHR ''-'' \<or> c = CHR ''_'' \<or> c = CHR ''.''"

fun encode_s3_key_segment :: "string \<Rightarrow> string" where
  "encode_s3_key_segment [] = []"
| "encode_s3_key_segment (c # s) =
     (if key_char c then [c]
      else [CHR ''%'', hex_digit_upper (of_char c div 16), hex_digit_upper (of_char c mod 16)]) @
     encode_s3_key_segment s"

text \<open>The calendar fields of an instant: year, month, day, hour.\<close>

type_synonym calendar = "instant \<Rightarrow> int \<times> nat \<times> nat \<times> nat"

definition pad_int :: "nat \<Rightarrow> int \<Rightarrow> string" where
  "pad_int width i = (if i < 0 then ''-'' @ zero_pad (width - 1) (nat_string (nat (- i))) else zero_pad width (nat_string (nat i)))"

definition s3_object_key :: "calendar \<Rightarrow> s3_destination_config \<Rightarrow> dam_batch \<Rightarrow> string" where
  "s3_object_key calendar destination batch =
     (case calendar (ba_created_at batch) of (year, month, day, hour) \<Rightarrow>
        normalized_s3_prefix (s3_prefix destination) @
        ''/customer_id='' @ encode_s3_key_segment (ba_customer_id batch) @
        ''/tenant_id='' @ encode_s3_key_segment (ba_tenant_id batch) @
        ''/regional_cell_id='' @ encode_s3_key_segment (ba_regional_cell_id batch) @
        ''/source_id='' @ encode_s3_key_segment (ba_source_id batch) @
        ''/date='' @ pad_int 4 year @ ''-'' @ zero_pad 2 (nat_string month) @ ''-'' @ zero_pad 2 (nat_string day) @
        ''/hour='' @ zero_pad 2 (nat_string hour) @
        ''/'' @ encode_s3_key_segment (ba_batch_id batch) @ ''.ndjson.gz'')"

record s3_ndjson_record =
  nd_batch_schema_version :: u16
  nd_batch_id :: string
  nd_batch_created_at :: instant
  nd_event :: dam_event

text \<open>One JSON line per event, then gzip; \<open>encode_record\<close> is the JSON encoder of a record.\<close>

fun ndjson_lines :: "(s3_ndjson_record \<Rightarrow> bytes option) \<Rightarrow> dam_batch \<Rightarrow> dam_event list \<Rightarrow> bytes option" where
  "ndjson_lines encode_record batch [] = Some []"
| "ndjson_lines encode_record batch (event # events) =
     Option.bind (encode_record
       \<lparr>nd_batch_schema_version = ba_schema_version batch, nd_batch_id = ba_batch_id batch,
        nd_batch_created_at = ba_created_at batch, nd_event = event\<rparr>) (\<lambda>line.
     map_option (\<lambda>rest. line @ [0x0A] @ rest) (ndjson_lines encode_record batch events))"

definition encode_s3_ndjson ::
  "(s3_ndjson_record \<Rightarrow> bytes option) \<Rightarrow> (bytes \<Rightarrow> bytes) \<Rightarrow> dam_batch \<Rightarrow> bytes option" where
  "encode_s3_ndjson encode_record gzip batch = map_option gzip (ndjson_lines encode_record batch (ba_events batch))"

subsection \<open>Delivery\<close>

text \<open>What a delivery pass to the destination reads from outside.\<close>

record outpost_delivery_env =
  od_decode :: "bytes \<Rightarrow> dam_batch option"
  od_send :: "dam_batch \<Rightarrow> bytes \<Rightarrow> u16 option"
  od_put_object :: "string \<Rightarrow> string \<Rightarrow> bytes \<Rightarrow> bool"
  od_encode_record :: "s3_ndjson_record \<Rightarrow> bytes option"
  od_gzip :: "bytes \<Rightarrow> bytes"
  od_calendar :: calendar
  od_read_fault :: "pending_item \<Rightarrow> io_fault option"
  od_finish_fault :: "pending_item \<Rightarrow> io_fault option"
  od_list_fault :: "io_fault option"
  od_stats_fault :: stats_fault

definition deliver_http_batch :: "outpost_delivery_env \<Rightarrow> dam_batch \<Rightarrow> bytes \<Rightarrow> (delivery_error, bool) result" where
  "deliver_http_batch env batch body =
     (case od_send env batch body of
        None \<Rightarrow> Fail (SendFailed (ba_batch_id batch))
      | Some status \<Rightarrow>
          if is_success status \<or> status = CONFLICT then Ok True
          else if is_client_error status \<and> status \<noteq> TOO_MANY_REQUESTS then Ok False
          else Fail (RetryableStatus status))"

definition deliver_s3_batch ::
  "outpost_delivery_env \<Rightarrow> s3_destination_config \<Rightarrow> dam_batch \<Rightarrow> (delivery_error, unit) result" where
  "deliver_s3_batch env destination batch =
     (case encode_s3_ndjson (od_encode_record env) (od_gzip env) batch of
        None \<Rightarrow> Fail (SendFailed (ba_batch_id batch))
      | Some body \<Rightarrow>
          if od_put_object env (s3_bucket destination) (s3_object_key (od_calendar env) destination batch) body
          then Ok () else Fail (SendFailed (ba_batch_id batch)))"

text \<open>
  The destination's verdict on one batch: \<open>True\<close> acknowledges, \<open>False\<close> quarantines. The client is built
  from the same configuration, so the two always match.
\<close>

definition deliver_one ::
  "outpost_delivery_env \<Rightarrow> destination_config \<Rightarrow> dam_batch \<Rightarrow> bytes \<Rightarrow> (delivery_error, bool) result" where
  "deliver_one env destination batch body =
     (case destination of
        Http _ \<Rightarrow> deliver_http_batch env batch body
      | S3 s3 \<Rightarrow> rbind (deliver_s3_batch env s3 batch) (\<lambda>_. Ok True))"

fun deliver_pending_items ::
  "outpost_delivery_env \<Rightarrow> outpost_state \<Rightarrow> pending_item list \<Rightarrow> outpost_state \<times> (delivery_error, unit) result" where
  "deliver_pending_items env state [] = (state, Ok ())"
| "deliver_pending_items env state (item # items) =
     (case spool_read (od_read_fault env item) (os_spool state) item of
        Inl _ \<Rightarrow> (state, Fail SpoolFailed)
      | Inr body \<Rightarrow>
          (case od_decode env body of
             None \<Rightarrow> (state, Fail (InvalidBatch (pi_id item)))
           | Some batch \<Rightarrow>
               (case deliver_one env (oc_destination (os_config state)) batch body of
                  Inl e \<Rightarrow> (state, Inl e)
                | Inr True \<Rightarrow>
                    (case spool_acknowledge (od_finish_fault env item) (os_spool state) item of
                       (spool, Inl _) \<Rightarrow> (state\<lparr>os_spool := spool\<rparr>, Fail SpoolFailed)
                     | (spool, Inr _) \<Rightarrow>
                         deliver_pending_items env
                           (state\<lparr>os_spool := spool,
                              os_metrics := (os_metrics state)\<lparr>om_delivered_batches :=
                                om_delivered_batches (os_metrics state) + 1\<rparr>\<rparr>) items)
                | Inr False \<Rightarrow>
                    (case spool_quarantine (od_finish_fault env item) (os_spool state) item of
                       (spool, Inl _) \<Rightarrow> (state\<lparr>os_spool := spool\<rparr>, Fail SpoolFailed)
                     | (spool, Inr _) \<Rightarrow>
                         deliver_pending_items env
                           (state\<lparr>os_spool := spool,
                              os_metrics := (os_metrics state)\<lparr>om_quarantined_batches :=
                                om_quarantined_batches (os_metrics state) + 1\<rparr>\<rparr>) items))))"

definition deliver_pending ::
  "outpost_delivery_env \<Rightarrow> outpost_state \<Rightarrow> outpost_state \<times> (delivery_error, unit) result" where
  "deliver_pending env state =
     (case spool_pending (od_list_fault env) (os_spool state) of
        Inl _ \<Rightarrow> (state, Fail SpoolFailed)
      | Inr items \<Rightarrow> deliver_pending_items env state items)"

text \<open>One pass of the exporter's loop.\<close>

definition outpost_exporter_pass :: "outpost_delivery_env \<Rightarrow> outpost_state \<Rightarrow> outpost_state" where
  "outpost_exporter_pass env state =
     (case deliver_pending env state of
        (state, Inr _) \<Rightarrow> refresh_spool_metrics (od_stats_fault env) state
      | (state, Inl _) \<Rightarrow>
          refresh_spool_metrics (od_stats_fault env)
            (state\<lparr>os_metrics := (os_metrics state)\<lparr>om_delivery_failures :=
               om_delivery_failures (os_metrics state) + 1\<rparr>\<rparr>))"

text \<open>
  \<open>refresh_kubernetes_cache\<close> after the answer of the API has arrived: the gauge is set, then the task
  waits for the lock of the cache and replaces it. Until then the new cache is the task's own.
\<close>

definition fetch_kubernetes_cache :: "pod list option \<Rightarrow> outpost_state \<Rightarrow> outpost_state \<times> pod_cache option" where
  "fetch_kubernetes_cache answer state =
     (case answer of
        None \<Rightarrow> (state, None)
      | Some pods \<Rightarrow>
          let next = kubernetes_cache_of (oc_cluster_name (os_config state)) pods in
          (state\<lparr>os_metrics := (os_metrics state)\<lparr>om_kubernetes_cache_entries := of_nat (length next)\<rparr>\<rparr>, Some next))"

definition write_kubernetes_cache :: "pod_cache \<Rightarrow> outpost_state \<Rightarrow> outpost_state" where
  "write_kubernetes_cache next state = state\<lparr>os_kubernetes := next\<rparr>"

end
