(* ===== verification/Delivery.thy ===== *)
theory Delivery
  imports Outpost
begin

text \<open>
  Delivery passes. The Observer's loop (\<open>deliver_observer_spool\<close>) and Outpost's (\<open>deliver_pending\<close>)
  walk the pending items of a spool in the same way: read, ask the receiver, then acknowledge,
  quarantine or stop. \<open>settle_items\<close> is that walk over any store of batches, the locale \<open>batch_store\<close>
  states what it needs of the store, and what a pass guarantees is proved there once. The spool
  provides the store; both loops are shown to be the walk, with the receiver's verdict of each.
\<close>

subsection \<open>The walk over a store\<close>

datatype verdict = Delivered | Refused | Undecided

fun settle_items ::
  "('i \<Rightarrow> 's \<Rightarrow> 'b option) \<Rightarrow> ('i \<Rightarrow> 's \<Rightarrow> 's \<times> bool) \<Rightarrow> ('i \<Rightarrow> 's \<Rightarrow> 's \<times> bool) \<Rightarrow>
   ('b \<Rightarrow> verdict) \<Rightarrow> 's \<Rightarrow> 'i list \<Rightarrow> 's \<times> bool" where
  "settle_items fetch acknowledge quarantine judge s [] = (s, True)"
| "settle_items fetch acknowledge quarantine judge s (i # is) =
     (case fetch i s of
        None \<Rightarrow> (s, False)
      | Some body \<Rightarrow>
          (case judge body of
             Undecided \<Rightarrow> (s, False)
           | Delivered \<Rightarrow>
               (case acknowledge i s of (s, ok) \<Rightarrow>
                  if ok then settle_items fetch acknowledge quarantine judge s is else (s, False))
           | Refused \<Rightarrow>
               (case quarantine i s of (s, ok) \<Rightarrow>
                  if ok then settle_items fetch acknowledge quarantine judge s is else (s, False))))"

text \<open>
  A store of named batches: \<open>pending\<close> are the batches that wait, \<open>quarantined\<close> those put aside. An
  operation that reports failure has either done nothing or all of its work.
\<close>

locale batch_store =
  fixes fetch :: "'i \<Rightarrow> 's \<Rightarrow> 'b option"
    and acknowledge :: "'i \<Rightarrow> 's \<Rightarrow> 's \<times> bool"
    and quarantine :: "'i \<Rightarrow> 's \<Rightarrow> 's \<times> bool"
    and listed :: "'i \<Rightarrow> bool"
    and label :: "'i \<Rightarrow> 'n"
    and invar :: "'s \<Rightarrow> bool"
    and pending :: "'s \<Rightarrow> ('n \<times> 'b) set"
    and quarantined :: "'s \<Rightarrow> ('n \<times> 'b) set"
  assumes pending_unique: "invar s \<Longrightarrow> (n, b) \<in> pending s \<Longrightarrow> (n, b') \<in> pending s \<Longrightarrow> b = b'"
    and fetch_pending: "invar s \<Longrightarrow> listed i \<Longrightarrow> fetch i s = Some b \<Longrightarrow> (label i, b) \<in> pending s"
    and acknowledge_invar: "invar s \<Longrightarrow> listed i \<Longrightarrow> invar (fst (acknowledge i s))"
    and acknowledge_pending: "invar s \<Longrightarrow> listed i \<Longrightarrow> acknowledge i s = (s', ok) \<Longrightarrow>
          pending s' = pending s - {label i} \<times> UNIV \<or> \<not> ok \<and> pending s' = pending s"
    and acknowledge_quarantined: "quarantined (fst (acknowledge i s)) = quarantined s"
    and quarantine_invar: "invar s \<Longrightarrow> listed i \<Longrightarrow> invar (fst (quarantine i s))"
    and quarantine_moves: "invar s \<Longrightarrow> listed i \<Longrightarrow> (label i, b) \<in> pending s \<Longrightarrow> quarantine i s = (s', ok) \<Longrightarrow>
          pending s' = pending s - {label i} \<times> UNIV \<and> label i \<in> fst ` quarantined s' \<and>
            quarantined s \<subseteq> quarantined s' \<and> quarantined s' \<subseteq> insert (label i, b) (quarantined s) \<or>
          \<not> ok \<and> pending s' = pending s \<and> quarantined s' = quarantined s"
begin

text \<open>What one pass, or a part of one, may do to the store.\<close>

definition settled :: "('b \<Rightarrow> verdict) \<Rightarrow> 's \<Rightarrow> 's \<Rightarrow> bool" where
  "settled judge s s' \<longleftrightarrow> invar s' \<and> pending s' \<subseteq> pending s \<and> quarantined s \<subseteq> quarantined s' \<and>
     (\<forall>n b. (n, b) \<in> pending s \<longrightarrow> (n, b) \<notin> pending s' \<longrightarrow>
        judge b = Delivered \<or> judge b = Refused \<and> n \<in> fst ` quarantined s') \<and>
     (\<forall>n b. (n, b) \<in> quarantined s' \<longrightarrow> (n, b) \<notin> quarantined s \<longrightarrow> judge b = Refused \<and> (n, b) \<in> pending s)"

lemma settled_refl: "invar s \<Longrightarrow> settled judge s s"
  by (simp add: settled_def)

lemma settled_invar: "settled judge s s' \<Longrightarrow> invar s'"
  by (simp add: settled_def)

lemma settled_accounted:
  assumes "settled judge s s'" and "(n, b) \<in> pending s"
  obtains (waits) "(n, b) \<in> pending s'" | (delivered) "judge b = Delivered"
  | (refused) "judge b = Refused" "n \<in> fst ` quarantined s'"
  using assms unfolding settled_def by blast

lemma settled_quarantined: "settled judge s s' \<Longrightarrow> quarantined s \<subseteq> quarantined s'"
  by (simp add: settled_def)

lemma settled_trans:
  assumes first: "settled judge s s'" and second: "settled judge s' s''"
  shows "settled judge s s''"
proof -
  have sub: "pending s' \<subseteq> pending s" "quarantined s' \<subseteq> quarantined s''"
    using first second by (simp_all add: settled_def)
  have "judge b = Delivered \<or> judge b = Refused \<and> n \<in> fst ` quarantined s''"
    if "(n, b) \<in> pending s" "(n, b) \<notin> pending s''" for n b
  proof (cases "(n, b) \<in> pending s'")
    case False
    with that first have "judge b = Delivered \<or> judge b = Refused \<and> n \<in> fst ` quarantined s'"
      by (simp add: settled_def)
    with image_mono [OF sub(2), of fst] show ?thesis by blast
  qed (use that second in \<open>simp add: settled_def\<close>)
  moreover have "judge b = Refused \<and> (n, b) \<in> pending s"
    if "(n, b) \<in> quarantined s''" "(n, b) \<notin> quarantined s" for n b
  proof (cases "(n, b) \<in> quarantined s'")
    case True
    with that first show ?thesis unfolding settled_def by blast
  next
    case False
    with that second have "judge b = Refused \<and> (n, b) \<in> pending s'" unfolding settled_def by blast
    with sub(1) show ?thesis by blast
  qed
  moreover have "invar s''" "pending s'' \<subseteq> pending s" "quarantined s \<subseteq> quarantined s''"
    using first second by (auto simp only: settled_def)
  ultimately show ?thesis unfolding settled_def by (intro conjI allI impI) blast+
qed

lemma pending_at: "invar s \<Longrightarrow> (n, b) \<in> pending s \<Longrightarrow> (n, b') \<in> pending s \<longleftrightarrow> b' = b"
  using pending_unique by blast

lemma acknowledge_settled:
  assumes "invar s" "listed i" "fetch i s = Some b" "judge b = Delivered" "acknowledge i s = (s', ok)"
  shows "settled judge s s'"
proof -
  have at: "(label i, b) \<in> pending s" using assms by (intro fetch_pending)
  have "invar s'" "quarantined s' = quarantined s"
    using acknowledge_invar [of s i] acknowledge_quarantined [of i s] assms by simp_all
  then show ?thesis
    using acknowledge_pending [OF assms(1,2,5)] at assms(4) unfolding settled_def by (auto simp: pending_at [OF assms(1) at])
qed

lemma quarantine_settled:
  assumes "invar s" "listed i" "fetch i s = Some b" "judge b = Refused" "quarantine i s = (s', ok)"
  shows "settled judge s s'"
proof -
  have at: "(label i, b) \<in> pending s" using assms by (intro fetch_pending)
  have invar: "invar s'" using quarantine_invar [of s i] assms by simp
  consider
      (moved) "pending s' = pending s - {label i} \<times> UNIV" "label i \<in> fst ` quarantined s'"
        "quarantined s \<subseteq> quarantined s'" "quarantined s' \<subseteq> insert (label i, b) (quarantined s)"
    | (same) "pending s' = pending s" "quarantined s' = quarantined s"
    using quarantine_moves [OF assms(1,2) at assms(5)] by blast
  then show ?thesis
  proof cases
    case moved
    have "judge c = Refused \<and> (n, c) \<in> pending s" if "(n, c) \<in> quarantined s'" "(n, c) \<notin> quarantined s" for n c
      using that moved(4) at assms(4) by blast
    with moved invar assms(4) show ?thesis by (auto simp: settled_def pending_at [OF assms(1) at])
  qed (simp add: settled_def invar)
qed

lemma settle_items_settled:
  "invar s \<Longrightarrow> list_all listed is \<Longrightarrow> settle_items fetch acknowledge quarantine judge s is = (s', ok) \<Longrightarrow>
     settled judge s s'"
proof (induction "is" arbitrary: s)
  case (Cons i "is")
  have rest: "settled judge s s'" if "settled judge s t" "settle_items fetch acknowledge quarantine judge t is = (s', ok)" for t
    using that Cons.IH [of t] Cons.prems(2) settled_trans settled_invar by auto
  show ?case
    using Cons.prems acknowledge_settled [of s i _ judge] quarantine_settled [of s i _ judge] rest
    by (fastforce intro: settled_refl split: option.splits verdict.splits prod.splits if_splits)
qed (simp add: settled_refl)

text \<open>A pass that reports success has removed every item it was given.\<close>

lemma settle_items_drains:
  "invar s \<Longrightarrow> list_all listed is \<Longrightarrow> settle_items fetch acknowledge quarantine judge s is = (s', True) \<Longrightarrow>
     pending s' \<subseteq> pending s - (label ` set is) \<times> UNIV"
proof (induction "is" arbitrary: s)
  case (Cons i "is")
  then obtain b where b: "fetch i s = Some b" and "judge b \<noteq> Undecided"
    by (auto split: option.splits verdict.splits)
  then obtain t where t: "settle_items fetch acknowledge quarantine judge t is = (s', True)"
      and step: "judge b = Delivered \<and> acknowledge i s = (t, True) \<or> judge b = Refused \<and> quarantine i s = (t, True)"
    using Cons.prems(3) by (auto split: verdict.splits prod.splits if_splits)
  have "(label i, b) \<in> pending s" using Cons.prems b by (simp add: fetch_pending)
  then have "pending t = pending s - {label i} \<times> UNIV"
    using step Cons.prems(1,2) acknowledge_pending [of s i t True] quarantine_moves [of s i b t True] by auto
  moreover have "invar t"
    using step acknowledge_settled quarantine_settled settled_invar b Cons.prems(1,2) by (metis list.pred_inject(2))
  ultimately show ?case using Cons.IH [OF _ _ t] Cons.prems(2) by auto
qed simp

text \<open>A pass leaves every batch alone that is not among its items.\<close>

lemma settle_items_others:
  "invar s \<Longrightarrow> list_all listed is \<Longrightarrow> settle_items fetch acknowledge quarantine judge s is = (s', ok) \<Longrightarrow>
     (n, b) \<in> pending s \<Longrightarrow> n \<notin> label ` set is \<Longrightarrow> (n, b) \<in> pending s'"
proof (induction "is" arbitrary: s)
  case (Cons i "is")
  have rest: "(n, b) \<in> pending s'"
    if "invar t" "(n, b) \<in> pending t" "settle_items fetch acknowledge quarantine judge t is = (s', ok)" for t
    using that Cons.IH [of t] Cons.prems(2,5) by simp
  have ack: "(n, b) \<in> pending t \<and> invar t" if "acknowledge i s = (t, ok')" for t ok'
    using that acknowledge_pending [of s i t ok'] acknowledge_invar [of s i] Cons.prems by auto
  have quar: "(n, b) \<in> pending t \<and> invar t" if "quarantine i s = (t, ok')" "fetch i s = Some c" for t ok' c
    using that quarantine_moves [of s i c t ok'] fetch_pending [of s i c] quarantine_invar [of s i] Cons.prems by auto
  show ?case
  proof (cases "fetch i s")
    case None
    with Cons.prems show ?thesis by simp
  next
    case (Some c)
    with Cons.prems(3,4) ack quar rest show ?thesis
      by (cases "judge c") (simp_all split: prod.splits if_splits, blast+)
  qed
qed simp

end

text \<open>A store whose disk works: every operation on a waiting batch succeeds.\<close>

locale reliable_store = batch_store +
  assumes fetch_works: "invar s \<Longrightarrow> listed i \<Longrightarrow> (label i, b) \<in> pending s \<Longrightarrow> fetch i s = Some b"
    and acknowledge_works: "snd (acknowledge i s)"
    and quarantine_works: "invar s \<Longrightarrow> listed i \<Longrightarrow> (label i, b) \<in> pending s \<Longrightarrow> snd (quarantine i s)"
begin

lemma settle_items_succeeds:
  "invar s \<Longrightarrow> list_all listed is \<Longrightarrow> distinct (map label is) \<Longrightarrow> label ` set is \<subseteq> fst ` pending s \<Longrightarrow>
   (\<And>n b. (n, b) \<in> pending s \<Longrightarrow> judge b \<noteq> Undecided) \<Longrightarrow>
     snd (settle_items fetch acknowledge quarantine judge s is)"
proof (induction "is" arbitrary: s)
  case (Cons i "is")
  then obtain b where at: "(label i, b) \<in> pending s" by auto
  have listed: "listed i" using Cons.prems(2) by simp
  have b: "fetch i s = Some b" using Cons.prems(1) listed at by (rule fetch_works)
  have after: "snd (settle_items fetch acknowledge quarantine judge t is)"
    if "settled judge s t" "pending t = pending s - {label i} \<times> UNIV" for t
    using that Cons.prems settled_invar by (intro Cons.IH) (auto simp: image_iff, force)
  have ack: "snd (settle_items fetch acknowledge quarantine judge t is)"
    if "judge b = Delivered" "acknowledge i s = (t, True)" for t
    using that acknowledge_settled [OF Cons.prems(1) listed b] acknowledge_pending [OF Cons.prems(1) listed]
    by (intro after) auto
  have quar: "snd (settle_items fetch acknowledge quarantine judge t is)"
    if "judge b = Refused" "quarantine i s = (t, True)" for t
    using that quarantine_settled [OF Cons.prems(1) listed b] quarantine_moves [OF Cons.prems(1) listed at]
    by (intro after) auto
  show ?case
    using b ack quar Cons.prems(5) [OF at] acknowledge_works [of i s] quarantine_works [OF Cons.prems(1) listed at]
    by (auto split: verdict.split prod.split)
qed simp

end

subsection \<open>The spool as a store\<close>

definition spool_names :: "spool \<Rightarrow> bool" where
  "spool_names spool \<longleftrightarrow> hm_wf (sp_root spool) \<and> hm_wf (sp_quarantine spool)"

definition pending_batches :: "spool \<Rightarrow> (string \<times> bytes) set" where
  "pending_batches spool = set (batches (sp_root spool))"

definition quarantined_batches :: "spool \<Rightarrow> (string \<times> bytes) set" where
  "quarantined_batches spool = set (batches (sp_quarantine spool))"

definition listed_item :: "pending_item \<Rightarrow> bool" where
  "listed_item item \<longleftrightarrow> extension (pi_path item) = Some ''json'' \<and> json_name (pi_id item) = pi_path item"

definition fetch_from :: "(pending_item \<Rightarrow> io_fault option) \<Rightarrow> pending_item \<Rightarrow> spool \<Rightarrow> bytes option" where
  "fetch_from fault item spool = (case spool_read (fault item) spool item of Inl _ \<Rightarrow> None | Inr body \<Rightarrow> Some body)"

definition acknowledge_in :: "(pending_item \<Rightarrow> io_fault option) \<Rightarrow> pending_item \<Rightarrow> spool \<Rightarrow> spool \<times> bool" where
  "acknowledge_in fault item spool =
     (case spool_acknowledge (fault item) spool item of (spool, r) \<Rightarrow> (spool, \<not> isl r))"

definition quarantine_in :: "(pending_item \<Rightarrow> io_fault option) \<Rightarrow> pending_item \<Rightarrow> spool \<Rightarrow> spool \<times> bool" where
  "quarantine_in fault item spool =
     (case spool_quarantine (fault item) spool item of (spool, r) \<Rightarrow> (spool, \<not> isl r))"

lemmas store_operation_defs =
  fetch_from_def acknowledge_in_def quarantine_in_def
  spool_read_def spool_acknowledge_def spool_quarantine_def Let_def exists_in_def

lemmas store_view_defs = spool_names_def pending_batches_def quarantined_batches_def listed_item_def

lemma json_name_stem: "extension name = Some ''json'' \<Longrightarrow> json_name (file_stem name) = name"
  by (auto simp: extension_def file_stem_def rsplit_dot_def json_name_def
      dest!: split_once_SomeD split: option.splits if_splits prod.splits)

lemma pending_listed: "spool_pending fault spool = Ok items \<Longrightarrow> list_all listed_item items"
  by (auto simp: spool_pending_def listed_item_def list_all_iff json_name_stem split: if_splits)

lemma set_batches: "(name, body) \<in> set (batches dir) \<longleftrightarrow> extension name = Some ''json'' \<and> (name, body) \<in> set dir"
  by (auto simp: batches_def)

lemma set_remove: "set (hm_remove name dir) = set dir - {name} \<times> UNIV"
  by (auto simp: hm_remove_def AList.delete_eq)

lemma set_batches_remove: "set (batches (hm_remove name dir)) = set (batches dir) - {name} \<times> UNIV"
  by (simp add: batches_remove set_remove)

lemma get_batch: "hm_wf dir \<Longrightarrow> (name, body) \<in> set (batches dir) \<Longrightarrow> hm_get dir name = Some body"
  by (simp add: set_batches hm_get_in_set)

lemma batch_get: "extension name = Some ''json'' \<Longrightarrow> hm_get dir name = Some body \<Longrightarrow> (name, body) \<in> set (batches dir)"
  by (simp add: set_batches hm_get_SomeD)

interpretation spool_store: batch_store "fetch_from read_fault" "acknowledge_in finish_fault" "quarantine_in finish_fault"
    listed_item pi_path spool_names pending_batches quarantined_batches
  for read_fault finish_fault
proof (unfold_locales, goal_cases)
  case (1 s n b b')
  then have "hm_get (sp_root s) n = Some b" and "hm_get (sp_root s) n = Some b'"
    by (auto simp: store_view_defs intro: get_batch)
  then show ?case by simp
next
  case (2 s i b)
  then show ?case by (auto simp: store_view_defs store_operation_defs batch_get split: if_splits option.splits)
next
  case (3 s i)
  then show ?case by (auto simp: store_view_defs store_operation_defs split: if_splits)
next
  case (4 s i s' ok)
  then show ?case
    by (auto simp: store_view_defs store_operation_defs set_batches_remove split: if_splits)
       (metis get_batch option.distinct(1))+
next
  case (5 i s)
  then show ?case by (auto simp: store_view_defs store_operation_defs)
next
  case (6 s i)
  then show ?case by (auto simp: store_view_defs store_operation_defs split: if_splits option.splits)
next
  case (7 s i b s' ok)
  have "hm_get (sp_root s) (pi_path i) = Some b" using 7 by (auto simp: store_view_defs get_batch)
  then show ?case
    using 7 by (auto simp: store_view_defs store_operation_defs set_batches_remove batches_insert_absent
        split: if_splits) (force dest: batch_get)+
qed

interpretation working_spool: reliable_store "fetch_from (\<lambda>_. None)" "acknowledge_in (\<lambda>_. None)" "quarantine_in (\<lambda>_. None)"
    listed_item pi_path spool_names pending_batches quarantined_batches
proof (unfold_locales, goal_cases)
  case (1 s i b)
  then show ?case by (auto simp: store_view_defs store_operation_defs dest!: get_batch)
next
  case (2 i s)
  then show ?case by (auto simp: store_operation_defs)
next
  case (3 s i b)
  then show ?case by (auto simp: store_view_defs store_operation_defs dest!: get_batch split: option.split)
qed

lemma pending_paths: "spool_pending fault spool = Ok items \<Longrightarrow> pi_path ` set items = fst ` pending_batches spool"
  by (force simp: spool_pending_def pending_batches_def batches_def split: if_splits)

lemma distinct_map_sort_key: "distinct (map f (sort_key k xs)) \<longleftrightarrow> distinct (map f xs)"
  by (simp add: distinct_map)

lemma pending_paths_distinct:
  assumes "spool_names spool" and "spool_pending fault spool = Ok items"
  shows "distinct (map pi_path items)"
proof -
  let ?entries = "map (\<lambda>(name, body). \<lparr>pi_id = file_stem name, pi_path = name, pi_bytes = length body\<rparr>)
    (batches (sp_root spool))"
  have "items = sort_key pi_id ?entries"
    using assms(2) by (auto simp: spool_pending_def batches_def split: if_splits)
  then have "distinct (map pi_path items) \<longleftrightarrow> distinct (map pi_path ?entries)"
    by (simp only: distinct_map_sort_key)
  also have "map pi_path ?entries = map fst (batches (sp_root spool))"
    by (simp add: case_prod_unfold)
  finally show ?thesis
    using assms(1) by (simp add: spool_names_def hm_wf_def batches_def distinct_map_filter)
qed

subsection \<open>The two loops\<close>

definition observer_verdict :: "delivery_env \<Rightarrow> bytes \<Rightarrow> verdict" where
  "observer_verdict env body =
     (case de_decode env body of
        None \<Rightarrow> Undecided
      | Some batch \<Rightarrow>
          (case de_send env batch body of
             None \<Rightarrow> Undecided
           | Some status \<Rightarrow>
               if is_success status \<or> status = CONFLICT then Delivered
               else if is_server_error status \<or> status = TOO_MANY_REQUESTS then Undecided else Refused))"

definition destination_verdict :: "outpost_delivery_env \<Rightarrow> destination_config \<Rightarrow> bytes \<Rightarrow> verdict" where
  "destination_verdict env destination body =
     (case od_decode env body of
        None \<Rightarrow> Undecided
      | Some batch \<Rightarrow>
          (case deliver_one env destination batch body of
             Inl _ \<Rightarrow> Undecided | Inr True \<Rightarrow> Delivered | Inr False \<Rightarrow> Refused))"

abbreviation settle_spool ::
  "(pending_item \<Rightarrow> io_fault option) \<Rightarrow> (pending_item \<Rightarrow> io_fault option) \<Rightarrow> (bytes \<Rightarrow> verdict) \<Rightarrow> spool \<Rightarrow>
   pending_item list \<Rightarrow> spool \<times> bool" where
  "settle_spool read_fault finish_fault judge \<equiv>
     settle_items (fetch_from read_fault) (acknowledge_in finish_fault) (quarantine_in finish_fault) judge"

lemma observer_items_settle:
  "deliver_observer_items env state items = ((spool', metrics'), r) \<Longrightarrow>
     settle_spool (de_read_fault env) (de_finish_fault env) (observer_verdict env) (fst state) items = (spool', \<not> isl r)"
  by (induction env state items rule: deliver_observer_items.induct)
    (auto simp: fetch_from_def acknowledge_in_def quarantine_in_def observer_verdict_def
      split: sum.splits option.splits prod.splits if_splits)

lemma outpost_items_settle:
  "deliver_pending_items env state items = (state', r) \<Longrightarrow>
     settle_spool (od_read_fault env) (od_finish_fault env)
       (destination_verdict env (oc_destination (os_config state))) (os_spool state) items = (os_spool state', \<not> isl r)"
  by (induction env state items rule: deliver_pending_items.induct)
    (auto simp: fetch_from_def acknowledge_in_def quarantine_in_def destination_verdict_def
      split: sum.splits option.splits prod.splits bool.splits if_splits)

lemma observer_spool_settled:
  assumes "spool_names spool" and "deliver_observer_spool env (spool, metrics) = ((spool', metrics'), r)"
  shows "spool_store.settled (observer_verdict env) spool spool'"
proof (cases "spool_pending (de_list_fault env) spool")
  case (Inr items)
  with assms(2) have "settle_spool (de_read_fault env) (de_finish_fault env) (observer_verdict env) spool items =
      (spool', \<not> isl r)"
    using observer_items_settle [of env "(spool, metrics)"] by (simp add: deliver_observer_spool_def)
  with assms(1) pending_listed [OF Inr] show ?thesis by (intro spool_store.settle_items_settled)
qed (use assms in \<open>simp add: deliver_observer_spool_def spool_store.settled_refl\<close>)

lemma outpost_spool_settled:
  assumes "spool_names (os_spool state)" and "deliver_pending env state = (state', r)"
  shows "spool_store.settled (destination_verdict env (oc_destination (os_config state))) (os_spool state) (os_spool state')"
proof (cases "spool_pending (od_list_fault env) (os_spool state)")
  case (Inr items)
  with assms(2) have "settle_spool (od_read_fault env) (od_finish_fault env)
      (destination_verdict env (oc_destination (os_config state))) (os_spool state) items = (os_spool state', \<not> isl r)"
    using outpost_items_settle [of env state] by (simp add: deliver_pending_def)
  with assms(1) pending_listed [OF Inr] show ?thesis by (intro spool_store.settle_items_settled)
qed (use assms in \<open>auto simp: deliver_pending_def spool_store.settled_refl\<close>)

text \<open>
  C7: no batch of the sensor is lost. After a delivery pass to Outpost, whatever Outpost answered and
  whichever system call failed, every batch that was pending is still pending, or Outpost has answered
  it with a success or a conflict, or Outpost refused it for good and the quarantine holds it. The
  quarantine loses nothing.
\<close>

theorem observer_delivery_loses_no_batch:
  assumes "spool_names spool" and "deliver_observer_spool env (spool, metrics) = ((spool', metrics'), r)"
    and "(name, body) \<in> pending_batches spool"
  shows "((name, body) \<in> pending_batches spool' \<or>
          (\<exists>batch status. de_decode env body = Some batch \<and> de_send env batch body = Some status \<and>
             (is_success status \<or> status = CONFLICT \<or>
              \<not> is_server_error status \<and> status \<noteq> TOO_MANY_REQUESTS \<and> name \<in> fst ` quarantined_batches spool'))) \<and>
         quarantined_batches spool \<subseteq> quarantined_batches spool'"
  using observer_spool_settled [OF assms(1,2)] assms(3)
  by (rule spool_store.settled_accounted)
    (use spool_store.settled_quarantined [OF observer_spool_settled [OF assms(1,2)]]
      in \<open>auto simp: observer_verdict_def split: option.splits if_splits\<close>)

text \<open>
  C8: no batch of Outpost is lost. After a delivery pass to the configured destination, every batch that
  was pending is still pending, or the destination confirmed it (an HTTP success or conflict, a
  completed S3 upload), or it refused it for good and the quarantine holds it.
\<close>

theorem outpost_delivery_loses_no_batch:
  assumes "spool_names (os_spool state)" and "deliver_pending env state = (state', r)"
    and "(name, body) \<in> pending_batches (os_spool state)"
  shows "((name, body) \<in> pending_batches (os_spool state') \<or>
          (\<exists>batch. od_decode env body = Some batch \<and>
             (deliver_one env (oc_destination (os_config state)) batch body = Ok True \<or>
              deliver_one env (oc_destination (os_config state)) batch body = Ok False \<and>
                name \<in> fst ` quarantined_batches (os_spool state')))) \<and>
         quarantined_batches (os_spool state) \<subseteq> quarantined_batches (os_spool state')"
  using outpost_spool_settled [OF assms(1,2)] assms(3)
  by (rule spool_store.settled_accounted)
    (use spool_store.settled_quarantined [OF outpost_spool_settled [OF assms(1,2)]]
      in \<open>auto simp: destination_verdict_def split: option.splits sum.splits bool.splits\<close>)

text \<open>A pass over a spool on a working disk whose every batch gets a final answer empties it.\<close>

lemma settle_spool_empties:
  assumes names: "spool_names spool" and items: "spool_pending fault spool = Ok items"
    and decided: "\<And>name body. (name, body) \<in> pending_batches spool \<Longrightarrow> judge body \<noteq> Undecided"
    and run: "settle_spool (\<lambda>_. None) (\<lambda>_. None) judge spool items = (spool', ok)"
  shows "ok \<and> pending_batches spool' = {}"
proof -
  have "snd (settle_spool (\<lambda>_. None) (\<lambda>_. None) judge spool items)"
    using names pending_listed [OF items] pending_paths_distinct [OF names items] pending_paths [OF items] decided
    by (intro working_spool.settle_items_succeeds) auto
  then have "ok" using run by simp
  with run have "pending_batches spool' \<subseteq> pending_batches spool - pi_path ` set items \<times> UNIV"
    by (intro spool_store.settle_items_drains [OF names pending_listed [OF items]]) simp
  with \<open>ok\<close> pending_paths [OF items] show ?thesis by force
qed

lemma observer_pass_empties:
  assumes "spool_names spool" and "de_list_fault env = None" and "de_read_fault env = (\<lambda>_. None)"
    and "de_finish_fault env = (\<lambda>_. None)"
    and "\<And>name body. (name, body) \<in> pending_batches spool \<Longrightarrow>
      \<exists>batch status. de_decode env body = Some batch \<and> de_send env batch body = Some status \<and>
        \<not> is_server_error status \<and> status \<noteq> TOO_MANY_REQUESTS"
  shows "\<exists>spool' metrics'. deliver_observer_spool env (spool, metrics) = ((spool', metrics'), Ok ()) \<and>
    pending_batches spool' = {}"
proof -
  obtain items where items: "spool_pending None spool = Ok items" by (simp add: spool_pending_def)
  obtain spool' metrics' r where run: "deliver_observer_items env (spool, metrics) items = ((spool', metrics'), r)"
    by (metis prod.collapse)
  have "observer_verdict env body \<noteq> Undecided" if "(name, body) \<in> pending_batches spool" for name body
    using assms(5) [OF that] by (auto simp: observer_verdict_def split: if_splits)
  then have "\<not> isl r \<and> pending_batches spool' = {}"
    by (intro settle_spool_empties [OF assms(1) items, of "observer_verdict env"])
      (use observer_items_settle [OF run] assms(3,4) in simp_all)
  with run items assms(2) show ?thesis
    by (cases r) (auto simp: deliver_observer_spool_def)
qed

text \<open>
  C9: a pass of the sensor drains its spool. When the disk works, every spooled batch decodes and Outpost
  answers each with a final status, the pass succeeds and no batch is left pending.
\<close>

theorem observer_pass_drains_the_spool:
  assumes "spool_names spool" and "de_list_fault env = None" and "de_read_fault env = (\<lambda>_. None)"
    and "de_finish_fault env = (\<lambda>_. None)"
    and "\<And>name body. (name, body) \<in> pending_batches spool \<Longrightarrow>
      \<exists>batch status. de_decode env body = Some batch \<and> de_send env batch body = Some status \<and>
        \<not> is_server_error status \<and> status \<noteq> TOO_MANY_REQUESTS"
  shows "\<exists>spool' metrics'. deliver_observer_spool env (spool, metrics) = ((spool', metrics'), Ok ()) \<and>
    pending_batches spool' = {}"
  by (rule observer_pass_empties [OF assms])

text \<open>
  A pass of Outpost drains its spool. When the disk works, every spooled batch decodes and the
  destination decides on each, the pass succeeds and no batch is left pending.
\<close>

theorem outpost_pass_drains_the_spool:
  assumes "spool_names (os_spool state)" and "od_list_fault env = None" and "od_read_fault env = (\<lambda>_. None)"
    and "od_finish_fault env = (\<lambda>_. None)"
    and "\<And>name body. (name, body) \<in> pending_batches (os_spool state) \<Longrightarrow>
      \<exists>batch verdict. od_decode env body = Some batch \<and>
        deliver_one env (oc_destination (os_config state)) batch body = Ok verdict"
  shows "\<exists>state'. deliver_pending env state = (state', Ok ()) \<and> pending_batches (os_spool state') = {}"
proof -
  obtain items where items: "spool_pending None (os_spool state) = Ok items" by (simp add: spool_pending_def)
  obtain state' r where run: "deliver_pending_items env state items = (state', r)" by (metis prod.collapse)
  have "destination_verdict env (oc_destination (os_config state)) body \<noteq> Undecided"
    if "(name, body) \<in> pending_batches (os_spool state)" for name body
    using assms(5) [OF that] by (auto simp: destination_verdict_def split: bool.splits)
  then have "\<not> isl r \<and> pending_batches (os_spool state') = {}"
    by (intro settle_spool_empties [OF assms(1) items, of "destination_verdict env (oc_destination (os_config state))"])
      (use outpost_items_settle [OF run] assms(3,4) in simp_all)
  with run items assms(2) show ?thesis
    by (cases r) (auto simp: deliver_pending_def)
qed

text \<open>
  A file that does not decode stops every pass at its place: neither loop acknowledges or quarantines
  it, so the batches that sort after it are not attempted.
\<close>

lemma undecodable_item_stops_the_pass:
  assumes "fetch_from (de_read_fault env) item spool = Some body" and "de_decode env body = None"
  shows "deliver_observer_items env (spool, metrics) (item # items) = ((spool, metrics), Fail (InvalidBatch (pi_id item)))"
  using assms by (auto simp: fetch_from_def split: sum.splits)

subsection \<open>Sample passes\<close>

definition sample_batch :: "bytes \<Rightarrow> dam_batch" where
  "sample_batch body =
     \<lparr>ba_schema_version = 1, ba_batch_id = map (\<lambda>b. char_of (unat b)) body, ba_customer_id = ''customer'', ba_tenant_id = ''tenant'',
      ba_source_id = ''source'', ba_regional_cell_id = ''cell'', ba_created_at = 0, ba_events = []\<rparr>"

definition sample_spool :: spool where
  "sample_spool = \<lparr>sp_root = [(''a.json'', [65]), (''b.json'', [66])], sp_quarantine = [], sp_max_bytes = 1000\<rparr>"

definition sample_runtime_metrics :: runtime_metrics where
  "sample_runtime_metrics =
     \<lparr>rm_bpf_ready = True, rm_ring_events = 0, rm_malformed_ring_events = 0, rm_userspace_dropped_events = 0,
      rm_parse_errors = 0, rm_metadata_events = 0, rm_batches_spooled = 0, rm_spool_dropped_events = 0,
      rm_batches_delivered = 0, rm_delivery_failures = 0, rm_quarantined_batches = 0, rm_bpf_dropped_events = 0,
      rm_target_processes = 0, rm_tls_uprobe_processes = 0\<rparr>"

text \<open>The receiver accepts the body \<open>[65]\<close> and refuses every other.\<close>

definition sample_delivery_env :: delivery_env where
  "sample_delivery_env =
     \<lparr>de_decode = (\<lambda>body. Some (sample_batch body)), de_send = (\<lambda>_ body. Some (if body = [65] then 202 else 400)),
      de_read_fault = (\<lambda>_. None), de_finish_fault = (\<lambda>_. None), de_list_fault = None\<rparr>"

definition sample_outpost_delivery_env :: outpost_delivery_env where
  "sample_outpost_delivery_env =
     \<lparr>od_decode = (\<lambda>body. Some (sample_batch body)), od_send = (\<lambda>_ body. Some (if body = [65] then 202 else 400)),
      od_put_object = (\<lambda>_ _ _. True), od_encode_record = (\<lambda>_. Some []), od_gzip = (\<lambda>bs. bs),
      od_calendar = (\<lambda>_. (2026, 1, 1, 0)), od_read_fault = (\<lambda>_. None), od_finish_fault = (\<lambda>_. None),
      od_list_fault = None, od_stats_fault = (None, None)\<rparr>"

definition sample_outpost_config :: outpost_config where
  "sample_outpost_config =
     \<lparr>oc_customer_id = ''customer'', oc_tenant_id = ''tenant'', oc_source_id = ''source'',
      oc_regional_cell_id = ''cell'', oc_cluster_name = ''cluster'', oc_internal_token = Some ''secret'',
      oc_destination = Http \<lparr>hd_endpoint = ''https://receiver'', hd_bearer_token = ''token'', hd_ca_file = None\<rparr>,
      oc_spool_dir = ''/var/lib/mongodb-dam/outpost'', oc_spool_max_bytes = 1000, oc_max_request_bytes = 1000,
      oc_export_seconds = 5, oc_kubernetes_api_url = None, oc_kubernetes_token_path = ''token'',
      oc_kubernetes_ca_path = ''ca.crt'', oc_kubernetes_refresh_seconds = 30, oc_identity_mapping_file = None\<rparr>"

definition sample_outpost_state :: outpost_state where
  "sample_outpost_state =
     \<lparr>os_config = sample_outpost_config, os_spool = sample_spool,
      os_metrics = \<lparr>om_accepted_batches = 0, om_rejected_batches = 0, om_delivered_batches = 0,
        om_delivery_failures = 0, om_quarantined_batches = 0, om_spool_items = 0, om_spool_bytes = 0,
        om_quarantine_items = 0, om_quarantine_bytes = 0, om_kubernetes_cache_entries = 0\<rparr>,
      os_kubernetes = []\<rparr>"

lemma sample_spool_names: "spool_names sample_spool"
  by (simp add: spool_names_def sample_spool_def hm_wf_def)

lemma sample_spool_pending: "pending_batches sample_spool = {(''a.json'', [65]), (''b.json'', [66])}"
  by (simp add: pending_batches_def sample_spool_def batches_def extension_def rsplit_dot_def)

lemma sample_delivery_env_answers:
  "de_decode sample_delivery_env body = Some (sample_batch body)"
  "de_send sample_delivery_env batch body = Some (if body = [65] then 202 else 400)"
  "de_list_fault sample_delivery_env = None"
  "de_read_fault sample_delivery_env = (\<lambda>_. None)"
  "de_finish_fault sample_delivery_env = (\<lambda>_. None)"
  by (simp_all add: sample_delivery_env_def)

lemma sample_destination_answers:
  "od_decode sample_outpost_delivery_env body = Some (sample_batch body)"
  "deliver_one sample_outpost_delivery_env (oc_destination (os_config sample_outpost_state)) batch body = Ok (body = [65])"
  "od_list_fault sample_outpost_delivery_env = None"
  "od_read_fault sample_outpost_delivery_env = (\<lambda>_. None)"
  "od_finish_fault sample_outpost_delivery_env = (\<lambda>_. None)"
  "os_spool sample_outpost_state = sample_spool"
  by (simp_all add: sample_outpost_delivery_env_def sample_outpost_state_def sample_outpost_config_def deliver_one_def
      deliver_http_batch_def is_success_def is_client_error_def CONFLICT_def TOO_MANY_REQUESTS_def)

lemmas status_defs = is_success_def is_client_error_def is_server_error_def CONFLICT_def TOO_MANY_REQUESTS_def

theorem observer_delivery_loses_no_batch_witness:
  "((''b.json'', [66]) \<in> pending_batches (fst (fst (deliver_observer_spool sample_delivery_env (sample_spool, sample_runtime_metrics)))) \<or>
    ''b.json'' \<in> fst ` quarantined_batches
      (fst (fst (deliver_observer_spool sample_delivery_env (sample_spool, sample_runtime_metrics)))))"
proof -
  obtain spool' metrics' r
    where run: "deliver_observer_spool sample_delivery_env (sample_spool, sample_runtime_metrics) = ((spool', metrics'), r)"
    by (metis prod.collapse)
  show ?thesis
    using observer_delivery_loses_no_batch [OF sample_spool_names run, of "''b.json''" "[66]"]
    by (auto simp: run sample_spool_pending sample_delivery_env_answers status_defs)
qed

theorem outpost_delivery_loses_no_batch_witness:
  "((''b.json'', [66]) \<in> pending_batches (os_spool (fst (deliver_pending sample_outpost_delivery_env sample_outpost_state))) \<or>
    ''b.json'' \<in> fst ` quarantined_batches (os_spool (fst (deliver_pending sample_outpost_delivery_env sample_outpost_state))))"
proof -
  obtain state' r where run: "deliver_pending sample_outpost_delivery_env sample_outpost_state = (state', r)"
    by (metis prod.collapse)
  show ?thesis
    using outpost_delivery_loses_no_batch [OF _ run, of "''b.json''" "[66]"]
    by (auto simp: run sample_spool_names sample_spool_pending sample_destination_answers)
qed

theorem observer_pass_drains_the_spool_witness:
  "pending_batches (fst (fst (deliver_observer_spool sample_delivery_env (sample_spool, sample_runtime_metrics)))) = {}"
proof -
  have "\<exists>spool' metrics'. deliver_observer_spool sample_delivery_env (sample_spool, sample_runtime_metrics) =
      ((spool', metrics'), Ok ()) \<and> pending_batches spool' = {}"
    by (rule observer_pass_drains_the_spool [OF sample_spool_names])
      (auto simp: sample_delivery_env_answers status_defs)
  then show ?thesis by auto
qed

theorem outpost_pass_drains_the_spool_witness:
  "pending_batches (os_spool (fst (deliver_pending sample_outpost_delivery_env sample_outpost_state))) = {}"
proof -
  have "\<exists>state'. deliver_pending sample_outpost_delivery_env sample_outpost_state = (state', Ok ()) \<and>
      pending_batches (os_spool state') = {}"
    by (rule outpost_pass_drains_the_spool) (auto simp: sample_spool_names sample_destination_answers)
  then show ?thesis by auto
qed

end
