(* ===== verification/Processor_Spec.thy ===== *)
theory Processor_Spec
  imports Processor Steps
begin

text \<open>
  What \<open>EventProcessor\<close> guarantees for every sequence of kernel events: bounded memory, events that
  pass validation, no clear principal kept or sent, requests paired with their responses, state
  released with its connection or process.
\<close>

named_theorems keeps \<open>updates that keep the processor's invariant\<close>

subsection \<open>Hash map values\<close>

definition hm_all :: "('v \<Rightarrow> bool) \<Rightarrow> ('k, 'v) hashmap \<Rightarrow> bool" where
  "hm_all f m \<longleftrightarrow> list_all (f \<circ> snd) m"

lemma hm_all_Nil [simp]: "hm_all f []"
  by (simp add: hm_all_def)

lemma hm_all_insert [simp]: "hm_all f m \<Longrightarrow> f v \<Longrightarrow> hm_all f (hm_insert k v m)"
  by (auto simp: hm_all_def list_all_iff dest: set_hm_insert)

lemma hm_all_remove [simp]: "hm_all f m \<Longrightarrow> hm_all f (hm_remove k m)"
  using set_hm_remove [of k m] by (auto simp: hm_all_def list_all_iff)

lemma hm_all_retain [simp]: "hm_all f m \<Longrightarrow> hm_all f (hm_retain keep m)"
  by (auto simp: hm_all_def list_all_iff set_hm_retain)

lemma hm_all_get: "hm_all f m \<Longrightarrow> hm_get m k = Some v \<Longrightarrow> f v"
  using hm_get_SomeD [of m k v] by (auto simp: hm_all_def list_all_iff)

lemma hm_all_get_or: "hm_all f m \<Longrightarrow> f d \<Longrightarrow> f (hm_get_or d m k)"
  by (auto simp: hm_get_or_def split: option.split dest: hm_all_get)

subsection \<open>The invariant\<close>

text \<open>A principal field holds nothing, or the salted hash of some principal; without a salt, nothing.\<close>

definition hashed_by :: "crypto \<Rightarrow> processor_config \<Rightarrow> string option \<Rightarrow> bool" where
  "hashed_by crypto config h \<longleftrightarrow>
     (case h of
        None \<Rightarrow> True
      | Some s \<Rightarrow>
          (\<exists>salt name. pc_principal_hash_salt config = Some salt \<and> s = hash_principal crypto salt name))"

definition state_ok :: "crypto \<Rightarrow> processor_config \<Rightarrow> connection_state \<Rightarrow> bool" where
  "state_ok crypto config state \<longleftrightarrow>
     hashed_by crypto config (cs_authenticated_principal_hash state) \<and>
     hashed_by crypto config (cs_pending_auth_principal_hash state)"

definition stream_ok :: "processor_config \<Rightarrow> stream_decoder \<Rightarrow> bool" where
  "stream_ok config decoder \<longleftrightarrow>
     sd_config decoder = decoder_config_of config \<and> frame_pending decoder \<and>
     length (sd_buffer decoder) < MAX_CAPTURE_BYTES"

definition seed_ok :: "processor_config \<Rightarrow> event_seed \<Rightarrow> bool" where
  "seed_ok config seed \<longleftrightarrow>
     cap_sensor_id (seed_capture seed) = pc_sensor_id config \<and>
     cap_node_name (seed_capture seed) = pc_node_name config \<and> cap_metadata_only (seed_capture seed)"

definition request_ok :: "crypto \<Rightarrow> processor_config \<Rightarrow> pending_request \<Rightarrow> bool" where
  "request_ok crypto config request \<longleftrightarrow>
     cmd_principal (pq_command request) = None \<and>
     hashed_by crypto config (pq_target_principal_hash request) \<and>
     hashed_by crypto config (pq_actor_principal_hash request) \<and> seed_ok config (pq_seed request)"

definition processor_inv :: "crypto \<Rightarrow> processor_config \<Rightarrow> event_processor \<Rightarrow> bool" where
  "processor_inv crypto config p \<longleftrightarrow>
     pr_config p = config \<and>
     hm_wf (pr_streams p) \<and> hm_wf (pr_pending p) \<and> hm_wf (pr_pending_dns p) \<and> hm_wf (pr_connections p) \<and>
     length (pr_pending p) \<le> MAX_PENDING_REQUESTS \<and> length (pr_pending_dns p) \<le> MAX_PENDING_DNS \<and>
     hm_all (stream_ok config) (pr_streams p) \<and>
     hm_all (request_ok crypto config) (pr_pending p) \<and>
     hm_all (state_ok crypto config) (pr_connections p)"

text \<open>What every event meets: the configured identity, consistent capture flags, only hashed principals, queries only on request.\<close>

definition payload_private :: "crypto \<Rightarrow> processor_config \<Rightarrow> event_payload \<Rightarrow> bool" where
  "payload_private crypto config payload \<longleftrightarrow>
     (case payload of
        MongodbActivity activity \<Rightarrow>
          hashed_by crypto config (act_principal activity) \<and>
          act_principal_hashed activity = (act_principal activity \<noteq> None) \<and>
          (act_query activity \<noteq> None \<longrightarrow> pc_capture_query_content config)
      | MongodbAuth auth \<Rightarrow> hashed_by crypto config (au_principal auth) \<and> au_principal_hashed auth
      | _ \<Rightarrow> True)"

definition config_identity :: "processor_config \<Rightarrow> string \<times> string \<times> string \<times> string" where
  "config_identity config =
     (pc_customer_id config, pc_tenant_id config, pc_source_id config, pc_regional_cell_id config)"

definition event_promise :: "crypto \<Rightarrow> processor_config \<Rightarrow> dam_event \<Rightarrow> bool" where
  "event_promise crypto config event \<longleftrightarrow>
     ev_schema_version event = EVENT_SCHEMA_VERSION \<and> \<not> blank (ev_event_id event) \<and>
     cap_sensor_id (ev_capture event) = pc_sensor_id config \<and>
     cap_node_name (ev_capture event) = pc_node_name config \<and>
     (ev_customer_id event, ev_tenant_id event, ev_source_id event, ev_regional_cell_id event) =
       config_identity config \<and>
     \<not> capture_mismatch event \<and> ev_identity event = None \<and> payload_private crypto config (ev_payload event)"

subsection \<open>Updates\<close>

lemma inv_config: "processor_inv crypto config p \<Longrightarrow> pr_config p = config"
  by (simp add: processor_inv_def)

lemma inv_new: "processor_inv crypto config (new_processor config)"
  by (simp add: processor_inv_def new_processor_def)

lemma hashed_by_None [simp]: "hashed_by crypto config None"
  by (simp add: hashed_by_def)

lemma state_ok_default [simp]: "state_ok crypto config default_connection_state"
  by (simp add: state_ok_def default_connection_state_def)

lemma inv_state:
  "processor_inv crypto config p \<Longrightarrow>
     state_ok crypto config (hm_get_or default_connection_state (pr_connections p) key)"
  by (simp add: processor_inv_def hm_all_get_or)

lemma inv_request:
  "processor_inv crypto config p \<Longrightarrow> hm_get (pr_pending p) key = Some request \<Longrightarrow> request_ok crypto config request"
  by (auto simp: processor_inv_def dest: hm_all_get)

lemma inv_stream:
  "processor_inv crypto config p \<Longrightarrow>
     stream_ok config (hm_get_or (new_stream_decoder (decoder_config_of config)) (pr_streams p) key)"
proof -
  have "stream_ok config (new_stream_decoder (decoder_config_of config))"
    by (simp add: stream_ok_def) (simp add: new_stream_decoder_def MAX_CAPTURE_BYTES_def)
  then show "processor_inv crypto config p \<Longrightarrow> ?thesis"
    by (simp add: processor_inv_def hm_all_get_or)
qed

lemma inv_sequence [keeps]: "processor_inv crypto config p \<Longrightarrow> processor_inv crypto config (p\<lparr>pr_sequence := n\<rparr>)"
  by (simp add: processor_inv_def)

lemma inv_cache [keeps]: "processor_inv crypto config p \<Longrightarrow> processor_inv crypto config (p\<lparr>pr_endpoint_cache := m\<rparr>)"
  by (simp add: processor_inv_def)

lemma inv_connections [keeps]:
  "processor_inv crypto config p \<Longrightarrow> state_ok crypto config state \<Longrightarrow>
     processor_inv crypto config (p\<lparr>pr_connections := hm_insert key state (pr_connections p)\<rparr>)"
  by (simp add: processor_inv_def)

lemma inv_pending_remove [keeps]:
  "processor_inv crypto config p \<Longrightarrow> processor_inv crypto config (p\<lparr>pr_pending := hm_remove key (pr_pending p)\<rparr>)"
  using length_hm_remove [of key "pr_pending p"]
  by (simp add: processor_inv_def)

lemma inv_pending_insert [keeps]:
  "processor_inv crypto config p \<Longrightarrow> length (pr_pending p) < MAX_PENDING_REQUESTS \<Longrightarrow>
     request_ok crypto config request \<Longrightarrow>
     processor_inv crypto config (p\<lparr>pr_pending := hm_insert key request (pr_pending p)\<rparr>)"
  using length_hm_insert [of key request "pr_pending p"]
  by (simp add: processor_inv_def)

lemma inv_pending_retain:
  "processor_inv crypto config p \<Longrightarrow> processor_inv crypto config (p\<lparr>pr_pending := hm_retain f (pr_pending p)\<rparr>)"
  using length_hm_retain [of f "pr_pending p"]
  by (simp add: processor_inv_def)

lemma inv_dns_remove [keeps]:
  "processor_inv crypto config p \<Longrightarrow>
     processor_inv crypto config (p\<lparr>pr_pending_dns := hm_remove key (pr_pending_dns p)\<rparr>)"
  using length_hm_remove [of key "pr_pending_dns p"] by (auto simp: processor_inv_def)

lemma inv_dns_insert [keeps]:
  "processor_inv crypto config p \<Longrightarrow> length (pr_pending_dns p) < MAX_PENDING_DNS \<Longrightarrow>
     processor_inv crypto config (p\<lparr>pr_pending_dns := hm_insert key query (pr_pending_dns p)\<rparr>)"
  using length_hm_insert [of key query "pr_pending_dns p"] by (auto simp: processor_inv_def)

lemma inv_streams_remove [keeps]:
  "processor_inv crypto config p \<Longrightarrow> processor_inv crypto config (p\<lparr>pr_streams := hm_remove key (pr_streams p)\<rparr>)"
  by (simp add: processor_inv_def)

lemma inv_streams_insert [keeps]:
  "processor_inv crypto config p \<Longrightarrow> stream_ok config decoder \<Longrightarrow>
     processor_inv crypto config (p\<lparr>pr_streams := hm_insert key decoder (pr_streams p)\<rparr>)"
  by (simp add: processor_inv_def)

lemma inv_release_connection [keeps]:
  "processor_inv crypto config p \<Longrightarrow> processor_inv crypto config (release_connection key p)"
  using length_hm_retain [of _ "pr_pending p"] length_hm_retain [of _ "pr_pending_dns p"]
  by (auto simp: processor_inv_def release_connection_def intro: order_trans)

lemma inv_release_process [keeps]:
  "processor_inv crypto config p \<Longrightarrow> processor_inv crypto config (release_process pid p)"
  using length_hm_retain [of _ "pr_pending p"] length_hm_retain [of _ "pr_pending_dns p"]
  by (auto simp: processor_inv_def release_process_def intro: order_trans)

subsection \<open>Events\<close>

lemma event_id_not_blank: "\<not> blank (''evt-'' @ s)"
  by (rule not_blank_alnum [of "CHR ''e''"]) (simp_all add: is_ascii_alphanumeric_def is_ascii_digit_def in_range_def)

text \<open>The capture flags of a seed fit a payload.\<close>

definition seed_fits :: "processor_config \<Rightarrow> event_seed \<Rightarrow> event_payload \<Rightarrow> bool" where
  "seed_fits config seed payload \<longleftrightarrow>
     cap_sensor_id (seed_capture seed) = pc_sensor_id config \<and>
     cap_node_name (seed_capture seed) = pc_node_name config \<and>
     cap_metadata_only (seed_capture seed) =
       (case payload of MongodbActivity activity \<Rightarrow> act_query activity = None | _ \<Rightarrow> True)"

lemma event_from_seed_inv [keeps]:
  "processor_inv crypto config p \<Longrightarrow> processor_inv crypto config (fst (event_from_seed env p seed payload))"
  by (simp add: event_from_seed_def Let_def keeps)

lemma event_from_seed_promise:
  assumes "processor_inv crypto config p" "seed_fits config seed payload" "payload_private crypto config payload"
  shows "event_promise crypto config (snd (event_from_seed env p seed payload))"
  using assms event_id_not_blank
  by (auto simp: event_promise_def event_from_seed_def Let_def config_identity_def seed_fits_def inv_config
      capture_mismatch_def split: event_payload.split)

lemma seed_of_ok: "pr_config p = config \<Longrightarrow> seed_ok config (seed_of env p raw truncated)"
  by (simp add: seed_ok_def seed_of_def Let_def)

lemma seed_ok_fits:
  "seed_ok config seed \<Longrightarrow> (case payload of MongodbActivity activity \<Rightarrow> act_query activity = None | _ \<Rightarrow> True) \<Longrightarrow>
     seed_fits config seed payload"
  by (simp add: seed_ok_def seed_fits_def)

text \<open>A handler step: it keeps the invariant, and its events meet the promise.\<close>

definition good :: "crypto \<Rightarrow> processor_config \<Rightarrow> event_processor \<times> dam_event list \<Rightarrow> bool" where
  "good crypto config r \<longleftrightarrow>
     processor_inv crypto config (fst r) \<and> list_all (event_promise crypto config) (snd r)"

lemma good_silent: "processor_inv crypto config p \<Longrightarrow> good crypto config (p, [])"
  by (simp add: good_def)

lemma emit_event_good:
  assumes "processor_inv crypto config p" "payload_private crypto config payload"
    and "case payload of MongodbActivity activity \<Rightarrow> act_query activity = None | _ \<Rightarrow> True"
  shows "good crypto config (emit (event_of env p raw truncated payload))"
proof -
  have "seed_fits config (seed_of env p raw truncated) payload"
    using assms(3) by (intro seed_ok_fits seed_of_ok inv_config [OF assms(1)])
  with assms(1,2) show ?thesis
    by (simp add: good_def emit_def event_of_def keeps event_from_seed_promise case_prod_unfold)
qed

subsection \<open>Connections and pruning\<close>

lemma socket_endpoints_inv [keeps]:
  "processor_inv crypto config p \<Longrightarrow> processor_inv crypto config (fst (socket_endpoints env p tgid fd))"
  by (auto simp: socket_endpoints_def Let_def keeps split: option.split)

lemma connection_metadata_inv [keeps]:
  "processor_inv crypto config p \<Longrightarrow> processor_inv crypto config (fst (connection_metadata_of env p raw))"
  by (simp add: connection_metadata_of_def Let_def keeps inv_state case_prod_unfold)

lemma socket_endpoints_frame [simp]:
  "pr_pending (fst (socket_endpoints env p tgid fd)) = pr_pending p"
  "pr_pending_dns (fst (socket_endpoints env p tgid fd)) = pr_pending_dns p"
  "pr_connections (fst (socket_endpoints env p tgid fd)) = pr_connections p"
  "pr_streams (fst (socket_endpoints env p tgid fd)) = pr_streams p"
  "pr_config (fst (socket_endpoints env p tgid fd)) = pr_config p"
  by (auto simp: socket_endpoints_def Let_def split: option.split)

lemma connection_metadata_frame [simp]:
  "pr_pending (fst (connection_metadata_of env p raw)) = pr_pending p"
  "pr_pending_dns (fst (connection_metadata_of env p raw)) = pr_pending_dns p"
  "pr_streams (fst (connection_metadata_of env p raw)) = pr_streams p"
  "pr_config (fst (connection_metadata_of env p raw)) = pr_config p"
  by (simp_all add: connection_metadata_of_def Let_def case_prod_unfold)

lemma min_by_key_mem: "min_by_key f xs = Some x \<Longrightarrow> x \<in> set xs"
  by (induction xs arbitrary: x) (auto split: option.splits if_splits)

lemma min_by_key_None [simp]: "min_by_key f xs = None \<longleftrightarrow> xs = []"
  by (cases xs) (auto split: option.splits)

lemma prune_inv [keeps]:
  "processor_inv crypto config p \<Longrightarrow> processor_inv crypto config (prune_pending_requests p now_ns)"
  using inv_pending_retain [of crypto config p "\<lambda>_ request. seed_monotonic_timestamp_ns (pq_seed request) \<ge>
      saturating_sub now_ns PENDING_REQUEST_TTL_NS"]
  by (auto simp: prune_pending_requests_def Let_def split: option.split
      dest: inv_pending_remove [of _ _ "pr_pending_update _ p", simplified])

lemma prune_makes_room:
  assumes "processor_inv crypto config p"
  shows "length (pr_pending (prune_pending_requests p now_ns)) < MAX_PENDING_REQUESTS"
proof -
  define kept where "kept = hm_retain (\<lambda>_ request. seed_monotonic_timestamp_ns (pq_seed request) \<ge>
    saturating_sub now_ns PENDING_REQUEST_TTL_NS) (pr_pending p)"
  let ?oldest = "min_by_key (\<lambda>(_, request). seed_monotonic_timestamp_ns (pq_seed request)) kept"
  have kept: "length kept \<le> MAX_PENDING_REQUESTS" "hm_wf kept"
    using assms length_hm_retain [of _ "pr_pending p"]
    by (auto simp: processor_inv_def kept_def intro: order_trans)
  have "length (hm_remove k kept) < length kept" if "?oldest = Some (k, v)" for k v
  proof -
    have "(k, v) \<in> set kept" using that by (rule min_by_key_mem)
    with kept(2) have "hm_get kept k = Some v" by (rule hm_get_in_set)
    then show ?thesis by (intro length_hm_remove_present) simp
  qed
  then show ?thesis
    using kept(1) by (fastforce simp: prune_pending_requests_def Let_def kept_def [symmetric]
        MAX_PENDING_REQUESTS_def split: option.split)
qed

lemma prune_dns_inv [keeps]:
  "processor_inv crypto config p \<Longrightarrow> processor_inv crypto config (prune_pending_dns p now_ns)"
  by (auto simp: prune_pending_dns_def Let_def processor_inv_def)

lemma prune_dns_makes_room: "length (pr_pending_dns (prune_pending_dns p now_ns)) < MAX_PENDING_DNS"
  by (auto simp: prune_pending_dns_def Let_def MAX_PENDING_DNS_def)

subsection \<open>Messages\<close>

lemma take_hashed_principal_ok:
  "cmd_principal (fst (take_hashed_principal crypto command salt)) = None"
  "hashed_by crypto config (snd (take_hashed_principal crypto command (pc_principal_hash_salt config)))"
  by (simp add: take_hashed_principal_def)
    (cases "cmd_principal command"; cases "pc_principal_hash_salt config";
      auto simp: take_hashed_principal_def hashed_by_def)

lemma session_authentication_inv [keeps]:
  "processor_inv crypto config p \<Longrightarrow> request_ok crypto config request \<Longrightarrow>
     processor_inv crypto config (fst (session_authentication p request succeeded auth_done))"
  using inv_state [of crypto config p "pq_connection_state_key request"]
  by (auto simp: session_authentication_def Let_def request_ok_def state_ok_def option_or_def
      intro!: inv_connections split: option.split)

lemma session_authentication_hashed:
  "processor_inv crypto config p \<Longrightarrow> request_ok crypto config request \<Longrightarrow>
     hashed_by crypto config (snd (session_authentication p request succeeded auth_done))"
  using inv_state [of crypto config p "pq_connection_state_key request"]
  by (auto simp: session_authentication_def Let_def request_ok_def state_ok_def option_or_def split: option.split)

lemma events_for_completed_request_good:
  assumes inv: "processor_inv crypto config p" and request: "request_ok crypto config request"
  shows "good crypto config (events_for_completed_request env p request response response_id response_bytes)"
proof -
  let ?parts = "response_parts response"
  let ?session = "session_authentication p request (fst (snd ?parts)) (snd (snd (snd (snd (snd ?parts)))))"
  let ?query = "if pc_capture_query_content config then cmd_query (pq_command request) else None"
  let ?seed = "if ?query \<noteq> None
    then (pq_seed request)\<lparr>seed_capture := (seed_capture (pq_seed request))\<lparr>cap_metadata_only := False\<rparr>\<rparr>
    else pq_seed request"
  let ?activity = "MongodbActivity (mongodb_activity_of request ?query response_id response_bytes ?parts)"
  let ?auth = "MongodbAuth (mongodb_auth_of request (snd ?session) (fst (snd ?parts)))"
  have session: "processor_inv crypto config (fst ?session)" "hashed_by crypto config (snd ?session)"
    using inv request by (simp_all add: keeps session_authentication_hashed)
  have seeds: "seed_fits config ?seed ?activity" "seed_fits config (pq_seed request) ?auth"
    using request by (auto simp: seed_fits_def request_ok_def seed_ok_def mongodb_activity_of_def
        case_prod_unfold)
  have priv: "payload_private crypto config ?activity" "payload_private crypto config ?auth"
    using request session(2) by (auto simp: payload_private_def request_ok_def mongodb_activity_of_def
        mongodb_auth_of_def case_prod_unfold Let_def)
  show ?thesis
    using session seeds priv
    by (simp add: good_def events_for_completed_request_def Let_def case_prod_unfold inv_config keeps
        event_from_seed_promise)
qed

lemma register_request_inv [keeps]:
  assumes inv: "processor_inv (env_crypto env) config p"
  shows "processor_inv (env_crypto env) config (fst (register_request env p raw truncated message command))"
  using inv inv_state [OF inv]
  by (auto simp: register_request_def Let_def case_prod_unfold inv_config state_ok_def take_hashed_principal_ok
      intro!: keeps) (metis take_hashed_principal_ok(2))

lemma register_request_ok:
  assumes inv: "processor_inv (env_crypto env) config p"
  shows "request_ok (env_crypto env) config (snd (register_request env p raw truncated message command))"
  using inv inv_state [OF inv]
  by (auto simp: register_request_def Let_def case_prod_unfold inv_config state_ok_def request_ok_def
      take_hashed_principal_ok intro!: seed_of_ok)

lemma process_request_good:
  assumes inv: "processor_inv (env_crypto env) config p"
  shows "good (env_crypto env) config (process_request env p raw truncated message command)"
proof -
  obtain q request where register: "register_request env p raw truncated message command = (q, request)"
    by (cases "register_request env p raw truncated message command")
  have q: "processor_inv (env_crypto env) config q" and request: "request_ok (env_crypto env) config request"
    using register_request_inv [OF inv] register_request_ok [OF inv] register by (metis fst_conv snd_conv)+
  let ?pruned = "prune_pending_requests q (ke_timestamp_ns raw)"
  have "processor_inv (env_crypto env) config ?pruned" using q by (rule prune_inv)
  moreover have "length (pr_pending ?pruned) < MAX_PENDING_REQUESTS" using q by (rule prune_makes_room)
  ultimately show ?thesis
    using q request
    by (simp add: process_request_def register Let_def inv_pending_insert good_silent events_for_completed_request_good)
qed

lemma process_message_good:
  "processor_inv (env_crypto env) config p \<Longrightarrow>
     good (env_crypto env) config (process_message env p raw truncated message)"
  by (auto simp: process_message_def Let_def good_silent process_request_good keeps inv_request
      intro!: events_for_completed_request_good split: option.split)

interpretation messages: stepper "\<lambda>p message. process_message env p raw truncated message" "\<lambda>_. True"
  "processor_inv (env_crypto env) config" "event_promise (env_crypto env) config" for env raw truncated config
  using process_message_good by unfold_locales (auto simp: good_def)

lemma process_messages_run:
  "process_messages env p raw truncated messages =
     run_steps (\<lambda>p message. process_message env p raw truncated message) p messages"
  by (induction messages arbitrary: p) (auto split: prod.split)

lemma process_messages_good:
  "processor_inv (env_crypto env) config p \<Longrightarrow>
     good (env_crypto env) config (process_messages env p raw truncated messages)"
  using messages.run_keeps [of env config p messages raw truncated]
  by (simp add: good_def process_messages_run list_all_iff)

subsection \<open>The handlers\<close>

text \<open>The events of a handler; an error is counted by the caller and yields none.\<close>

definition events_of :: "event_processor \<times> dam_event list text_result \<Rightarrow> event_processor \<times> dam_event list" where
  "events_of r = (case r of (p, Inr events) \<Rightarrow> (p, events) | (p, Inl e) \<Rightarrow> (p, []))"

lemma events_of_simps [simp]:
  "events_of (p, Inr events) = (p, events)"
  "events_of (p, Inl e) = (p, [])"
  "events_of (p, map_err f (Inl e')) = (p, [])"
  by (simp_all add: events_of_def map_err_def split: fault.split)

lemma stream_ok_pushed:
  assumes decoder: "stream_ok config decoder" and bs: "length bs \<le> MAX_CAPTURE_BYTES"
    and push: "push_bounded_prefix codec decoder bs MAX_CAPTURE_BYTES = (decoder', Inr messages)"
  shows "stream_ok config decoder'"
proof -
  have pending: "frame_pending decoder" using decoder by (simp add: stream_ok_def)
  have "length (sd_buffer decoder') < max MAX_CAPTURE_BYTES (length bs)"
    by (rule push_bounded_prefix_retained [OF pending _ _ push]) (simp_all add: MAX_CAPTURE_BYTES_def usize_max_def)
  moreover have "frame_pending decoder' \<and> sd_config decoder' = sd_config decoder"
    using push by (rule push_bounded_prefix_pending)
  ultimately show ?thesis using decoder bs by (simp add: stream_ok_def)
qed

lemma process_io_chunk_good:
  assumes inv: "processor_inv (env_crypto env) config p"
  shows "good (env_crypto env) config (events_of (process_io_chunk env p captured))"
proof -
  let ?raw = "ck_raw captured"
  let ?key = "(ke_tgid ?raw, ke_connection_key ?raw, ke_direction ?raw)"
  let ?decoder = "hm_get_or (new_stream_decoder (decoder_config_of config)) (pr_streams p) ?key"
  let ?push = "push_bounded_prefix (env_codec env) ?decoder (take (captured_len ?raw) (ke_data ?raw)) MAX_CAPTURE_BYTES"
  have "stream_ok config (fst ?push)" if "snd ?push = Inr messages" for messages
  proof (rule stream_ok_pushed [OF inv_stream [OF inv]])
    show "?push = (fst ?push, Inr messages)" using that by (simp add: prod_eq_iff)
  qed (simp add: captured_len_def)
  with inv show ?thesis
    unfolding process_io_chunk_def Let_def inv_config [OF inv] case_prod_unfold
    by (auto simp: good_silent keeps process_messages_good simp del: process_messages.simps split: sum.split)
qed

lemma process_dns_good:
  assumes inv: "processor_inv (env_crypto env) config p"
  shows "good (env_crypto env) config (events_of (process_dns env p captured))"
proof -
  let ?raw = "ck_raw captured"
  have event: "good (env_crypto env) config (events_of (case connection_metadata_of env q ?raw of (q, connection) \<Rightarrow>
      (case event_of env q ?raw truncated (DnsActivity (payload connection)) of (q, event) \<Rightarrow> (q, Ok [event]))))"
    if "processor_inv (env_crypto env) config q" for q truncated payload
    using emit_event_good [OF connection_metadata_inv [OF that]]
    by (simp add: case_prod_unfold emit_def payload_private_def)
  have "processor_inv (env_crypto env) config (prune_pending_dns p now)" for now
    using inv by (rule prune_dns_inv)
  from inv_dns_insert [OF this prune_dns_makes_room] inv_dns_remove [OF inv] inv show ?thesis
    unfolding process_dns_def Let_def
    by (auto simp: good_silent split: sum.split intro!: event)
qed

lemma process_latency_good:
  "processor_inv crypto config p \<Longrightarrow> good crypto config (process_latency env p captured)"
  by (auto simp: process_latency_def Let_def payload_private_def good_silent intro!: emit_event_good split: option.split)

lemma process_profile_good:
  "processor_inv crypto config p \<Longrightarrow> good crypto config (process_profile env p captured)"
  by (auto simp: process_profile_def Let_def payload_private_def good_silent intro!: emit_event_good)

lemma process_lifecycle_good:
  "processor_inv crypto config p \<Longrightarrow> good crypto config (process_lifecycle_event env p captured)"
  by (auto simp: process_lifecycle_event_def Let_def payload_private_def good_silent keeps intro!: emit_event_good)

lemma connection_transition_ok:
  "connection_transition raw state = Some (state', rest) \<Longrightarrow> state_ok crypto config state \<Longrightarrow>
     state_ok crypto config state'"
  by (auto simp: connection_transition_def Let_def state_ok_def split: if_splits)

lemma process_connection_good:
  "processor_inv crypto config p \<Longrightarrow> good crypto config (process_connection env p captured)"
  using inv_state [of crypto config p]
  by (auto simp: process_connection_def Let_def case_prod_unfold payload_private_def good_silent keeps
      intro!: emit_event_good keeps dest: connection_transition_ok split: option.split)

lemma process_good:
  "processor_inv (env_crypto env) config p \<Longrightarrow> good (env_crypto env) config (events_of (process env p captured))"
  by (simp add: process_def Let_def case_prod_unfold process_io_chunk_good process_dns_good process_latency_good
      process_profile_good process_lifecycle_good process_connection_good good_silent)

subsection \<open>Runs\<close>

definition process_step ::
  "event_processor \<Rightarrow> env \<times> captured_kernel_event \<Rightarrow> event_processor \<times> dam_event list" where
  "process_step p input = (case input of (env, captured) \<Rightarrow> events_of (process env p captured))"

definition same_crypto :: "crypto \<Rightarrow> env \<times> captured_kernel_event \<Rightarrow> bool" where
  "same_crypto crypto input \<longleftrightarrow> env_crypto (fst input) = crypto"

interpretation kernel: stepper process_step "same_crypto crypto" "processor_inv crypto config"
  "event_promise crypto config" for crypto config
  by unfold_locales (use process_good in \<open>auto simp: good_def process_step_def same_crypto_def\<close>)

lemmas run_inv = kernel.run_invariant [OF inv_new]
lemmas run_events = kernel.run_promise [OF inv_new]

lemma hm_all_iff: "hm_all f m \<longleftrightarrow> list_all (\<lambda>(k, v). f v) m"
  by (simp add: hm_all_def comp_def case_prod_unfold)

text \<open>
  C30: the sensor's memory for undecoded traffic is bounded. Whatever kernel events arrive, in whatever
  order, at most 32768 requests and 4096 DNS queries wait for an answer, and every stream buffer
  holds less than one capture of 1024 bytes.
\<close>

theorem processor_memory_is_bounded:
  assumes "list_all (same_crypto crypto) inputs"
    and "run_steps process_step (new_processor config) inputs = (p, events)"
  shows "length (pr_pending p) \<le> 32768 \<and> length (pr_pending_dns p) \<le> 4096 \<and>
    list_all (\<lambda>(key, decoder). buffered_bytes decoder < 1024) (pr_streams p)"
proof -
  have "processor_inv crypto config p" using assms by (rule run_inv)
  then have sizes: "length (pr_pending p) \<le> 32768" "length (pr_pending_dns p) \<le> 4096"
    and "hm_all (stream_ok config) (pr_streams p)"
    by (simp_all add: processor_inv_def MAX_PENDING_REQUESTS_def MAX_PENDING_DNS_def)
  then have "list_all (\<lambda>(key, decoder). buffered_bytes decoder < 1024) (pr_streams p)"
    by (auto simp: hm_all_iff list_all_iff stream_ok_def buffered_bytes_def MAX_CAPTURE_BYTES_def)
  with sizes show ?thesis by simp
qed

text \<open>
  C3: no clear principal is kept or sent. Every principal in an event, in a waiting request or in the
  state of a connection is the salted hash of a principal, and there is none at all when no salt is
  configured; the commands that wait for a response have had theirs removed.
\<close>

theorem principals_are_hashed:
  assumes "list_all (same_crypto crypto) inputs"
    and "run_steps process_step (new_processor config) inputs = (p, events)"
  shows "list_all (\<lambda>event.
      case ev_payload event of
        MongodbActivity activity \<Rightarrow> hashed_by crypto config (act_principal activity)
      | MongodbAuth auth \<Rightarrow> hashed_by crypto config (au_principal auth)
      | _ \<Rightarrow> True) events \<and>
    list_all (\<lambda>(key, request).
      cmd_principal (pq_command request) = None \<and>
      hashed_by crypto config (pq_target_principal_hash request) \<and>
      hashed_by crypto config (pq_actor_principal_hash request)) (pr_pending p) \<and>
    list_all (\<lambda>(key, state).
      hashed_by crypto config (cs_authenticated_principal_hash state) \<and>
      hashed_by crypto config (cs_pending_auth_principal_hash state)) (pr_connections p)"
proof (intro conjI)
  have inv: "processor_inv crypto config p" using assms by (rule run_inv)
  have "list_all (event_promise crypto config) events" using assms by (rule run_events)
  then show "list_all (\<lambda>event.
      case ev_payload event of
        MongodbActivity activity \<Rightarrow> hashed_by crypto config (act_principal activity)
      | MongodbAuth auth \<Rightarrow> hashed_by crypto config (au_principal auth)
      | _ \<Rightarrow> True) events"
    by (rule list.pred_mono_strong) (auto simp: event_promise_def payload_private_def split: event_payload.splits)
  show "list_all (\<lambda>(key, request).
      cmd_principal (pq_command request) = None \<and>
      hashed_by crypto config (pq_target_principal_hash request) \<and>
      hashed_by crypto config (pq_actor_principal_hash request)) (pr_pending p)"
    using inv by (auto simp: processor_inv_def hm_all_iff list_all_iff request_ok_def)
  show "list_all (\<lambda>(key, state).
      hashed_by crypto config (cs_authenticated_principal_hash state) \<and>
      hashed_by crypto config (cs_pending_auth_principal_hash state)) (pr_connections p)"
    using inv by (auto simp: processor_inv_def hm_all_iff list_all_iff state_ok_def)
qed

text \<open>
  C4: query content leaves the sensor only on request. With query capture off, every event is marked
  metadata-only and no event carries a query.
\<close>

theorem no_query_content_unless_enabled:
  assumes "list_all (same_crypto crypto) inputs" and "\<not> pc_capture_query_content config"
    and "run_steps process_step (new_processor config) inputs = (p, events)"
  shows "list_all (\<lambda>event. cap_metadata_only (ev_capture event) \<and>
      (case ev_payload event of MongodbActivity activity \<Rightarrow> act_query activity = None | _ \<Rightarrow> True)) events"
proof -
  have "list_all (event_promise crypto config) events" using assms(1,3) by (rule run_events)
  then show ?thesis
    by (rule list.pred_mono_strong)
      (use assms(2) in \<open>auto simp: event_promise_def payload_private_def capture_mismatch_def split: event_payload.splits\<close>)
qed

text \<open>
  What the sensor produces, the ingestion gate accepts. Any non-empty selection of the events of a
  run, put in a batch under the configured identity, passes \<open>DamBatch::validate\<close>, provided the
  configured identity, sensor and node names are not blank.
\<close>

theorem sensor_events_pass_validation:
  assumes "list_all (same_crypto crypto) inputs"
    and "run_steps process_step (new_processor config) inputs = (p, events)"
    and "\<not> blank (pc_customer_id config)" "\<not> blank (pc_tenant_id config)" "\<not> blank (pc_source_id config)"
      "\<not> blank (pc_regional_cell_id config)" "\<not> blank (pc_sensor_id config)" "\<not> blank (pc_node_name config)"
    and "set chosen \<subseteq> set events" "chosen \<noteq> []" "\<not> blank batch_id"
  shows "validate
     \<lparr>ba_schema_version = 1, ba_batch_id = batch_id, ba_customer_id = pc_customer_id config,
      ba_tenant_id = pc_tenant_id config, ba_source_id = pc_source_id config,
      ba_regional_cell_id = pc_regional_cell_id config, ba_created_at = created_at, ba_events = chosen\<rparr> = Ok ()"
proof -
  have "list_all (event_promise crypto config) events" using assms(1,2) by (rule run_events)
  with assms(9) have "event_promise crypto config event" if "event \<in> set chosen" for event
    using that by (auto simp: list_all_iff)
  with assms(3-) show ?thesis
    unfolding validate_ok_iff
    by (auto simp: event_ok_def batch_identity_def event_promise_def config_identity_def BATCH_SCHEMA_VERSION_def)
qed

subsection \<open>No panic\<close>

lemma safe_map_err [no_panic]: "safe r \<Longrightarrow> safe (map_err f r)"
  by (auto simp: safe_def map_err_def split: sum.splits fault.splits)

lemma captured_len_le: "captured_len raw \<le> MAX_CAPTURE_BYTES"
  by (simp add: captured_len_def)


subsection \<open>Release of state\<close>

lemma event_from_seed_frame [simp]:
  "pr_config (fst (event_from_seed env p seed payload)) = pr_config p"
  "pr_streams (fst (event_from_seed env p seed payload)) = pr_streams p"
  "pr_pending (fst (event_from_seed env p seed payload)) = pr_pending p"
  "pr_pending_dns (fst (event_from_seed env p seed payload)) = pr_pending_dns p"
  "pr_connections (fst (event_from_seed env p seed payload)) = pr_connections p"
  "pr_endpoint_cache (fst (event_from_seed env p seed payload)) = pr_endpoint_cache p"
  by (simp_all add: event_from_seed_def Let_def)

lemma connection_metadata_connections [simp]:
  "hm_get (pr_connections (fst (connection_metadata_of env p raw))) k =
     (if k = (ke_tgid raw, ke_connection_key raw)
      then Some (hm_get_or default_connection_state (pr_connections p) k) else hm_get (pr_connections p) k)"
  by (simp add: connection_metadata_of_def Let_def case_prod_unfold hm_get_insert)

text \<open>
  Closing a connection releases everything kept for it and nothing else: its stream buffers, waiting
  requests, waiting DNS queries and authentication state are gone, those of other connections stay.
\<close>

theorem close_releases_exactly_the_connection:
  assumes "ke_event_type (ck_raw captured) = EVENT_CONNECTION" and "ke_operation (ck_raw captured) = OP_TCP_CLOSE"
    and "process env p captured = (p', result)"
    and "key = (ke_tgid (ck_raw captured), ke_connection_key (ck_raw captured))"
  shows "pr_streams p' = filter (\<lambda>((tgid, connection, _), _). (tgid, connection) \<noteq> key) (pr_streams p) \<and>
    pr_pending p' = filter (\<lambda>((tgid, connection, _), _). (tgid, connection) \<noteq> key) (pr_pending p) \<and>
    pr_pending_dns p' = filter (\<lambda>((tgid, connection, _), _). (tgid, connection) \<noteq> key) (pr_pending_dns p) \<and>
    (\<forall>k. hm_get (pr_connections p') k = (if k = key then None else hm_get (pr_connections p) k))"
proof -
  have p': "p' = fst (process_connection env p captured)"
    using assms(1,3) by (simp add: process_def Let_def event_type_defs case_prod_unfold)
  show ?thesis
    using assms(2,4) unfolding p' process_connection_def Let_def
    by (auto simp: connection_transition_def Let_def operation_defs emit_def event_of_def case_prod_unfold
        release_connection_def hm_retain_def hm_get_remove hm_get_insert)
qed

text \<open>
  When a process exits, everything kept for it is released, for all its connections and
  descriptors, and nothing of another process.
\<close>

theorem exit_releases_exactly_the_process:
  assumes "ke_event_type (ck_raw captured) = EVENT_PROCESS" and "ke_operation (ck_raw captured) = OP_PROCESS_EXIT"
    and "process env p captured = (p', result)" and "pid = ke_tgid (ck_raw captured)"
  shows "pr_streams p' = filter (\<lambda>((tgid, _), _). tgid \<noteq> pid) (pr_streams p) \<and>
    pr_pending p' = filter (\<lambda>((tgid, _), _). tgid \<noteq> pid) (pr_pending p) \<and>
    pr_pending_dns p' = filter (\<lambda>((tgid, _), _). tgid \<noteq> pid) (pr_pending_dns p) \<and>
    pr_connections p' = filter (\<lambda>((tgid, _), _). tgid \<noteq> pid) (pr_connections p) \<and>
    pr_endpoint_cache p' = filter (\<lambda>((tgid, _), _). tgid \<noteq> pid) (pr_endpoint_cache p)"
proof -
  have p': "p' = fst (process_lifecycle_event env p captured)"
    using assms(1,3) by (simp add: process_def Let_def event_type_defs case_prod_unfold)
  show ?thesis
    using assms(2,4) unfolding p' process_lifecycle_event_def Let_def
    by (simp add: operation_defs emit_def event_of_def case_prod_unfold release_process_def hm_retain_def)
qed

subsection \<open>Kernel records\<close>

text \<open>A record as the eBPF programs write it.\<close>

definition ring_bytes :: "kernel_event \<Rightarrow> bytes" where
  "ring_bytes raw =
     to_le_bytes (ke_timestamp_ns raw) @ to_le_bytes (ke_connection_key raw) @ to_le_bytes (ke_cgroup_id raw) @
     to_le_bytes (ke_duration_ns raw) @ to_le_bytes (ke_bytes raw) @ to_le_bytes (ke_result raw) @
     to_le_bytes (ke_pid raw) @ to_le_bytes (ke_tgid raw) @ to_le_bytes (ke_uid raw) @ to_le_bytes (ke_gid raw) @
     to_le_bytes (ke_fd raw) @ to_le_bytes (ke_original_len raw) @ to_le_bytes (ke_captured_len raw) @
     [ke_event_type raw, ke_direction raw, ke_source raw, ke_operation raw] @ ke_comm raw @ ke_data raw"

lemma from_le_one: "from_le_bytes [b] = (b :: u8)"
  by (simp add: from_le_bytes_def)

lemma from_to_le_bytes [simp]:
  "from_le_bytes (to_le_bytes (v :: u32)) = v"
  "from_le_bytes (to_le_bytes (w :: u64)) = w"
  by (simp_all add: to_le_bytes_32 to_le_bytes_64)

text \<open>
  The sensor reads a kernel record back field by field, and refuses every byte string that has not
  the size of a record.
\<close>

theorem kernel_record_round_trip:
  assumes "kernel_event_wf raw" and "length bs \<noteq> 1120"
  shows "from_ring_bytes (ring_bytes raw) = Some raw \<and> from_ring_bytes bs = None"
proof
  have arrays: "length (ke_comm raw) = 16" "length (ke_data raw) = 1024"
    using assms(1) by (simp_all add: kernel_event_wf_def MAX_CAPTURE_BYTES_def)
  show "from_ring_bytes (ring_bytes raw) = Some raw"
    unfolding from_ring_bytes_def ring_bytes_def field_at_def KERNEL_EVENT_SIZE_def
    by (cases raw) (use arrays in \<open>simp add: from_le_one\<close>)
  show "from_ring_bytes bs = None"
    using assms(2) by (simp add: from_ring_bytes_def KERNEL_EVENT_SIZE_def)
qed

subsection \<open>Sample runs\<close>

definition sample_crypto :: crypto where
  "sample_crypto =
     \<lparr>sha256 = (\<lambda>_. replicate 32 0xAB),
      hex_encode = (\<lambda>bs. concat (map (\<lambda>b. zero_pad 2 (digits_of 16 (unat b))) bs))\<rparr>"

definition sample_env :: env where
  "sample_env =
     \<lparr>env_crypto = sample_crypto, env_codec = stored_codec,
      env_fs = \<lparr>fs_link = (\<lambda>_. None), fs_file = (\<lambda>_. None)\<rparr>, env_utc = 0, env_instant = 0\<rparr>"

definition sample_processor_config :: processor_config where
  "sample_processor_config =
     \<lparr>pc_customer_id = ''customer'', pc_tenant_id = ''tenant'', pc_source_id = ''source'',
      pc_regional_cell_id = ''cell'', pc_sensor_id = ''sensor'', pc_node_name = ''node'',
      pc_cluster_name = ''cluster'', pc_host_proc = ''/proc'', pc_max_message_bytes = 1024 * 1024,
      pc_cpu_profile_hz = 0, pc_principal_hash_salt = Some ''customer-salt'', pc_capture_query_content = True\<rparr>"

definition sample_raw :: "u8 \<Rightarrow> u8 \<Rightarrow> bytes \<Rightarrow> kernel_event" where
  "sample_raw event_type operation bs =
     \<lparr>ke_timestamp_ns = 5000, ke_connection_key = 77, ke_cgroup_id = 88, ke_duration_ns = 0,
      ke_bytes = of_nat (length bs), ke_result = 0, ke_pid = 42, ke_tgid = 42, ke_uid = 999, ke_gid = 999,
      ke_fd = 9, ke_original_len = of_nat (length bs), ke_captured_len = of_nat (length bs),
      ke_event_type = event_type, ke_direction = 0, ke_source = 1, ke_operation = operation,
      ke_comm = as_bytes ''mongod'' @ replicate 10 0, ke_data = bs @ replicate (1024 - length bs) 0\<rparr>"

definition sample_input :: "u8 \<Rightarrow> u8 \<Rightarrow> bytes \<Rightarrow> env \<times> captured_kernel_event" where
  "sample_input event_type operation bs =
     (sample_env, \<lparr>ck_raw = sample_raw event_type operation bs, ck_user_stack_addresses = [],
        ck_kernel_stack_addresses = []\<rparr>)"


lemma sample_same_crypto: "list_all (same_crypto sample_crypto) [sample_input t1 o1 bs1, sample_input t2 o2 bs2]"
  by (simp add: same_crypto_def sample_input_def sample_env_def)

lemma sample_raw_wf: "length bs \<le> 1024 \<Longrightarrow> kernel_event_wf (sample_raw event_type operation bs)"
  by (simp add: kernel_event_wf_def sample_raw_def MAX_CAPTURE_BYTES_def)

abbreviation sample_run :: "(env \<times> captured_kernel_event) list \<Rightarrow> event_processor \<times> dam_event list" where
  "sample_run inputs \<equiv> run_steps process_step (new_processor sample_processor_config) inputs"

theorem kernel_record_round_trip_witness:
  "from_ring_bytes (ring_bytes (sample_raw 1 0 [1, 2, 3])) = Some (sample_raw 1 0 [1, 2, 3]) \<and>
   from_ring_bytes [] = None"
  using kernel_record_round_trip [of "sample_raw 1 0 [1, 2, 3]" "[]"] by (simp add: sample_raw_wf)


theorem processor_memory_is_bounded_witness:
  "length (pr_pending (fst (sample_run [sample_input 1 0 ping_frame, sample_input 5 16 []]))) \<le> 32768"
  using processor_memory_is_bounded [OF sample_same_crypto surjective_pairing] by blast

theorem principals_are_hashed_witness:
  "list_all (\<lambda>(key, request). cmd_principal (pq_command request) = None)
     (pr_pending (fst (sample_run [sample_input 1 0 ping_frame, sample_input 5 15 []])))"
  using principals_are_hashed [where config = sample_processor_config
      and inputs = "[sample_input 1 0 ping_frame, sample_input 5 15 []]", OF sample_same_crypto surjective_pairing]
  by (auto simp: list_all_iff)

theorem no_query_content_unless_enabled_witness:
  "list_all (\<lambda>event. cap_metadata_only (ev_capture event))
     (snd (run_steps process_step (new_processor (sample_processor_config\<lparr>pc_capture_query_content := False\<rparr>))
       [sample_input 1 0 ping_frame, sample_input 5 15 []]))"
  using no_query_content_unless_enabled [where config = "sample_processor_config\<lparr>pc_capture_query_content := False\<rparr>"
      and inputs = "[sample_input 1 0 ping_frame, sample_input 5 15 []]", OF sample_same_crypto _ surjective_pairing]
  by (simp add: list_all_iff)

theorem sensor_events_pass_validation_witness:
  "validate
     \<lparr>ba_schema_version = 1, ba_batch_id = ''batch'', ba_customer_id = ''customer'', ba_tenant_id = ''tenant'',
      ba_source_id = ''source'', ba_regional_cell_id = ''cell'', ba_created_at = 0,
      ba_events = snd (sample_run [sample_input 5 15 [], sample_input 3 8 []])\<rparr> = Ok ()"
proof -
  have "\<not> blank (CHR ''b'' # s)" "\<not> blank (CHR ''c'' # s)" "\<not> blank (CHR ''t'' # s)" "\<not> blank (CHR ''s'' # s)"
    "\<not> blank (CHR ''n'' # s)" for s
    by (rule not_blank_alnum [OF _ list.set_intros(1)],
        simp add: is_ascii_alphanumeric_def is_ascii_digit_def in_range_def)+
  moreover have "snd (sample_run [sample_input 5 15 [], sample_input 3 8 []]) \<noteq> []"
    by (simp add: process_step_def sample_input_def process_def sample_raw_def Let_def event_type_defs
        process_lifecycle_event_def operation_defs emit_def event_of_def case_prod_unfold)
  ultimately show ?thesis
    using sensor_events_pass_validation [OF sample_same_crypto surjective_pairing,
        where config = sample_processor_config and batch_id = "''batch''" and created_at = 0, OF _ _ _ _ _ _ subset_refl]
    by (simp add: sample_processor_config_def)
qed

theorem close_releases_exactly_the_connection_witness:
  "hm_get (pr_connections (fst (process sample_env (new_processor sample_processor_config)
     \<lparr>ck_raw = sample_raw 3 8 [], ck_user_stack_addresses = [], ck_kernel_stack_addresses = []\<rparr>))) (42, 77) = None"
  using close_releases_exactly_the_connection [OF _ _ surjective_pairing refl,
      of "\<lparr>ck_raw = sample_raw 3 8 [], ck_user_stack_addresses = [], ck_kernel_stack_addresses = []\<rparr>"
        sample_env "new_processor sample_processor_config"]
  by (simp add: sample_raw_def event_type_defs operation_defs)

theorem exit_releases_exactly_the_process_witness:
  "pr_streams (fst (process sample_env
     ((new_processor sample_processor_config)\<lparr>pr_streams := [((42, 77, 0), new_stream_decoder sample_config), ((43, 1, 0), new_stream_decoder sample_config)]\<rparr>)
     \<lparr>ck_raw = sample_raw 5 16 [], ck_user_stack_addresses = [], ck_kernel_stack_addresses = []\<rparr>)) =
   [((43, 1, 0), new_stream_decoder sample_config)]"
  using exit_releases_exactly_the_process [OF _ _ surjective_pairing refl,
      of "\<lparr>ck_raw = sample_raw 5 16 [], ck_user_stack_addresses = [], ck_kernel_stack_addresses = []\<rparr>"
        sample_env "(new_processor sample_processor_config)\<lparr>pr_streams := [((42, 77, 0), new_stream_decoder sample_config), ((43, 1, 0), new_stream_decoder sample_config)]\<rparr>"]
  by (simp add: sample_raw_def event_type_defs operation_defs)

end
