(* ===== verification/Outpost_Spec.thy ===== *)
theory Outpost_Spec
  imports Delivery Processor_Spec
begin

text \<open>
  What Outpost promises: which requests it accepts and with which status it answers the others, that
  enrichment keeps a batch valid and takes external identities from the validated mapping only, that
  the S3 keys of different batches differ, and that an accepted configuration sends over TLS.
\<close>

subsection \<open>Enrichment\<close>

definition outpost_identities :: "accept_env \<Rightarrow> outpost_state \<Rightarrow> (string, external_identity) hashmap" where
  "outpost_identities env state =
     (case oc_identity_mapping_file (os_config state) of
        None \<Rightarrow> []
      | Some _ \<Rightarrow>
          (case load_identity_mappings (ae_parse_document env) (ae_mapping_file env) of
             Inr identities \<Rightarrow> identities
           | Inl _ \<Rightarrow> []))"

definition enrich_event :: "accept_env \<Rightarrow> outpost_state \<Rightarrow> dam_event \<Rightarrow> dam_event" where
  "enrich_event env state event =
     enrich_kubernetes (oc_cluster_name (os_config state)) (os_kubernetes state)
       (event\<lparr>ev_identity := Option.bind (event_principal (ev_payload event)) (hm_get (outpost_identities env state))\<rparr>)"

lemma enrich_batch_events:
  "enrich_batch env state batch = batch\<lparr>ba_events := map (enrich_event env state) (ba_events batch)\<rparr>"
  by (simp add: enrich_batch_def enrich_event_def outpost_identities_def enrich_external_identities_def Let_def)

lemma enrich_kubernetes_keeps [simp]:
  "ev_schema_version (enrich_kubernetes cluster_name cache event) = ev_schema_version event"
  "ev_event_id (enrich_kubernetes cluster_name cache event) = ev_event_id event"
  "ev_customer_id (enrich_kubernetes cluster_name cache event) = ev_customer_id event"
  "ev_tenant_id (enrich_kubernetes cluster_name cache event) = ev_tenant_id event"
  "ev_source_id (enrich_kubernetes cluster_name cache event) = ev_source_id event"
  "ev_regional_cell_id (enrich_kubernetes cluster_name cache event) = ev_regional_cell_id event"
  "ev_capture (enrich_kubernetes cluster_name cache event) = ev_capture event"
  "ev_identity (enrich_kubernetes cluster_name cache event) = ev_identity event"
  "ev_payload (enrich_kubernetes cluster_name cache event) = ev_payload event"
  by (simp_all add: enrich_kubernetes_def Let_def)

lemma enrich_event_capture [simp]: "capture_mismatch (enrich_event env state event) = capture_mismatch event"
  by (simp add: enrich_event_def capture_mismatch_def split: event_payload.split)

lemma enrich_event_ok_iff: "event_ok identity (enrich_event env state event) \<longleftrightarrow> event_ok identity event"
  by (simp add: event_ok_def) (simp add: enrich_event_def)

lemma enrich_batch_identity [simp]: "batch_identity (enrich_batch env state batch) = batch_identity batch"
  by (simp add: batch_identity_def enrich_batch_events)

lemma enrich_batch_id [simp]: "ba_batch_id (enrich_batch env state batch) = ba_batch_id batch"
  by (simp add: enrich_batch_events)

lemma enrich_batch_valid: "validate (enrich_batch env state batch) = Ok () \<longleftrightarrow> validate batch = Ok ()"
  by (auto simp: validate_ok_iff enrich_batch_events batch_identity_def enrich_event_ok_iff)

text \<open>Every identity of a loaded mapping is that of an entry that passed validation.\<close>

lemma identity_mapping_loop_sound:
  assumes "identity_mapping_loop mappings identities = Ok loaded" and "hm_get loaded h = Some identity"
  shows "hm_get identities h = Some identity \<or>
    (\<exists>mapping \<in> set mappings. validate_identity_mapping mapping = Ok () \<and>
       im_mongodb_principal_hash mapping = h \<and> identity = identity_of_mapping mapping)"
  using assms
proof (induction mappings arbitrary: identities)
  case (Cons mapping mappings)
  let ?next = "hm_insert (im_mongodb_principal_hash mapping) (identity_of_mapping mapping) identities"
  have "validate_identity_mapping mapping = Ok ()" "identity_mapping_loop mappings ?next = Ok loaded"
    using Cons.prems(1) by auto
  with Cons.IH [of ?next] Cons.prems(2) show ?case
    by (auto simp: hm_get_insert split: if_splits)
qed auto

lemma load_identity_mappings_sound:
  assumes "load_identity_mappings parse_document file = Ok loaded" and "hm_get loaded h = Some identity"
  obtains encoded document mapping where "file = Contents encoded" "parse_document encoded = Some document"
    "mapping \<in> set (imd_mappings document)" "validate_identity_mapping mapping = Ok ()"
    "im_mongodb_principal_hash mapping = h" "identity = identity_of_mapping mapping"
  using assms identity_mapping_loop_sound [of _ "[]" loaded h identity]
  by (auto simp: load_identity_mappings_def parse_identity_mappings_def ok_or_def split: mapping_file.splits option.splits)

lemma outpost_identity_sound:
  assumes "hm_get (outpost_identities env state) h = Some identity"
  obtains encoded document mapping where "ae_mapping_file env = Contents encoded"
    "ae_parse_document env encoded = Some document" "mapping \<in> set (imd_mappings document)"
    "validate_identity_mapping mapping = Ok ()" "im_mongodb_principal_hash mapping = h"
    "identity = identity_of_mapping mapping"
  using assms
  by (auto simp: outpost_identities_def split: option.splits sum.splits elim: load_identity_mappings_sound)

text \<open>The pieces of a bounded split, put together again.\<close>

lemma splitn_Cons: "splitn (Suc n) d s = p # q # ps \<Longrightarrow> \<exists>t. s = p @ d # t \<and> splitn n d t = q # ps"
  by (auto dest: split_once_SomeD split: if_splits option.splits)

lemma splitn_single: "splitn n d s = [p] \<Longrightarrow> s = p"
proof (cases n)
  case (Suc m)
  moreover assume "splitn n d s = [p]"
  ultimately show "s = p"
    by (cases m) (auto split: option.splits if_splits)
qed simp

lemma splitn_six:
  assumes "splitn 6 d s = [p0, p1, p2, p3, p4, p5]"
  shows "s = p0 @ [d] @ p1 @ [d] @ p2 @ [d] @ p3 @ [d] @ p4 @ [d] @ p5"
proof -
  have six: "6 = Suc (Suc (Suc (Suc (Suc (Suc 0)))))" by simp
  show ?thesis
    using assms unfolding six by (fastforce dest!: splitn_Cons splitn_single simp del: splitn.simps)
qed

lemma ensure_eq [simp]: "ensure c e = Inr u \<longleftrightarrow> c"
  by (simp add: ensure_def)

lemma ensure_all_eq: "ensure_all checks = Inr () \<longleftrightarrow> list_all fst checks"
  by (induction checks rule: ensure_all.induct) auto

text \<open>A validated entry: its two ARNs belong to the AWS account it names.\<close>

lemma valid_iam_principal_arnD:
  "valid_iam_principal_arn arn account_id principal_type \<Longrightarrow>
     \<exists>partition resource. arn = ''arn:'' @ partition @ '':iam::'' @ account_id @ '':'' @ resource"
  by (auto simp: valid_iam_principal_arn_def Let_def split: list.splits dest!: splitn_six) (intro exI, rule refl)

lemma valid_secrets_manager_arnD:
  "valid_secrets_manager_arn arn account_id \<Longrightarrow>
     \<exists>partition region resource.
       arn = ''arn:'' @ partition @ '':secretsmanager:'' @ region @ '':'' @ account_id @ '':'' @ resource"
  by (auto simp: valid_secrets_manager_arn_def split: list.splits dest!: splitn_six) (intro exI, rule refl)

lemma valid_mapping_arns:
  assumes "validate_identity_mapping mapping = Ok ()"
  shows "valid_iam_principal_arn (im_principal_arn mapping) (im_account_id mapping) (im_principal_type mapping)"
    and "valid_secrets_manager_arn (im_credential_resource mapping) (im_account_id mapping)"
  using assms unfolding validate_identity_mapping_def ensure_all_eq by simp_all

text \<open>
  C22: external identities come from the operator's mapping only. After enrichment an event carries an
  external identity only if its MongoDB principal is hashed and the mapping file holds an entry for
  that hash that passed validation; the identity is that entry's, and its principal belongs to the AWS
  account it names. What the sensor sent as identity is discarded.
\<close>

theorem external_identity_comes_from_the_mapping:
  assumes "event \<in> set (ba_events (enrich_batch env state batch))" and "ev_identity event = Some identity"
  shows "\<exists>encoded document mapping h partition resource partition' region secret.
    ae_mapping_file env = Contents encoded \<and> ae_parse_document env encoded = Some document \<and>
    mapping \<in> set (imd_mappings document) \<and> validate_identity_mapping mapping = Ok () \<and>
    event_principal (ev_payload event) = Some h \<and> im_mongodb_principal_hash mapping = h \<and>
    identity = identity_of_mapping mapping \<and>
    xid_principal_arn identity = ''arn:'' @ partition @ '':iam::'' @ xid_account_id identity @ '':'' @ resource \<and>
    xid_credential_resource identity =
      ''arn:'' @ partition' @ '':secretsmanager:'' @ region @ '':'' @ xid_account_id identity @ '':'' @ secret"
proof -
  obtain h where h: "event_principal (ev_payload event) = Some h" "hm_get (outpost_identities env state) h = Some identity"
    using assms by (auto simp: enrich_batch_events enrich_event_def bind_eq_Some_conv)
  from h(2) obtain encoded document mapping where mapping: "ae_mapping_file env = Contents encoded"
      "ae_parse_document env encoded = Some document" "mapping \<in> set (imd_mappings document)"
      "validate_identity_mapping mapping = Ok ()" "im_mongodb_principal_hash mapping = h"
      "identity = identity_of_mapping mapping"
    by (rule outpost_identity_sound)
  obtain partition resource where "im_principal_arn mapping =
      ''arn:'' @ partition @ '':iam::'' @ im_account_id mapping @ '':'' @ resource"
    using valid_iam_principal_arnD [OF valid_mapping_arns(1) [OF mapping(4)]] by blast
  moreover obtain partition' region secret where "im_credential_resource mapping =
      ''arn:'' @ partition' @ '':secretsmanager:'' @ region @ '':'' @ im_account_id mapping @ '':'' @ secret"
    using valid_secrets_manager_arnD [OF valid_mapping_arns(2) [OF mapping(4)]] by blast
  ultimately show ?thesis using h(1) mapping unfolding identity_of_mapping_def
    by (intro exI conjI) (assumption | simp)+
qed

text \<open>
  Enrichment changes nothing but metadata. An enriched batch keeps its identifiers, its tenant and the
  payload and capture record of every event, in order, and is still valid if it was.
\<close>

theorem enrichment_keeps_payloads_and_validity:
  "ba_batch_id (enrich_batch env state batch) = ba_batch_id batch \<and>
   batch_identity (enrich_batch env state batch) = batch_identity batch \<and>
   map ev_payload (ba_events (enrich_batch env state batch)) = map ev_payload (ba_events batch) \<and>
   map ev_capture (ba_events (enrich_batch env state batch)) = map ev_capture (ba_events batch) \<and>
   map ev_event_id (ba_events (enrich_batch env state batch)) = map ev_event_id (ba_events batch) \<and>
   (validate (enrich_batch env state batch) = Ok () \<longleftrightarrow> validate batch = Ok ())"
  by (simp add: enrich_batch_valid) (simp add: enrich_batch_events enrich_event_def)

subsection \<open>Answers\<close>

definition own_batch :: "outpost_config \<Rightarrow> dam_batch \<Rightarrow> bool" where
  "own_batch config batch \<longleftrightarrow> validate batch = Ok () \<and> batch_identity batch = outpost_identity config"

text \<open>A request Outpost has to take: the credential is right and the body is a valid batch of its tenant.\<close>

definition good_request :: "accept_env \<Rightarrow> outpost_config \<Rightarrow> string option \<Rightarrow> bytes \<Rightarrow> bool" where
  "good_request env config authorization body \<longleftrightarrow> credential_ok config authorization \<and>
     (\<exists>batch. ae_decode env body = Some batch \<and> own_batch config batch)"

lemma refresh_spool_metrics_keeps [simp]:
  "os_spool (refresh_spool_metrics faults state) = os_spool state"
  "os_config (refresh_spool_metrics faults state) = os_config state"
  "os_kubernetes (refresh_spool_metrics faults state) = os_kubernetes state"
  "om_rejected_batches (os_metrics (refresh_spool_metrics faults state)) = om_rejected_batches (os_metrics state)"
  "om_accepted_batches (os_metrics (refresh_spool_metrics faults state)) = om_accepted_batches (os_metrics state)"
  by (simp_all add: refresh_spool_metrics_def Let_def split: sum.split)

lemma validate_safe: "safe (validate batch)"
  by (simp add: validate_def)

text \<open>Every request that is not good is answered with a client error and leaves the spool alone.\<close>

lemma bad_request:
  assumes "\<not> good_request env (os_config state) authorization body"
  obtains r where "accept_batch env state authorization body = reject state r" "is_client_error (rejection_status r)"
proof -
  consider "\<not> credential_ok (os_config state) authorization"
    | "credential_ok (os_config state) authorization" "ae_decode env body = None"
    | batch where "credential_ok (os_config state) authorization" "ae_decode env body = Some batch" "validate batch \<noteq> Ok ()"
    | batch where "credential_ok (os_config state) authorization" "ae_decode env body = Some batch" "validate batch = Ok ()"
        "batch_identity batch \<noteq> outpost_identity (os_config state)"
    using assms by (auto simp: good_request_def own_batch_def)
  then have "\<exists>r. accept_batch env state authorization body = reject state r \<and> is_client_error (rejection_status r)"
    by cases (auto simp: accept_batch_def Let_def batch_identity_def outpost_identity_def is_client_error_def
        split: sum.split fault.split)
  with that show thesis by blast
qed

text \<open>A good request reaches the spool, unless the encoder fails.\<close>

lemma good_request_run:
  assumes "good_request env (os_config state) authorization body"
    and "accept_batch env state authorization body = (state', response)"
  obtains (unencodable) batch where "ae_decode env body = Some batch"
      "ae_encode env (enrich_batch env state batch) = None"
      "response = Rejected EncodingFailed" "state' = fst (reject state EncodingFailed)"
  | (stored) batch encoded spool receipt where "ae_decode env body = Some batch"
      "ae_encode env (enrich_batch env state batch) = Some encoded"
      "spool_enqueue (digest_hex (ae_crypto env)) (ae_enqueue_fault env) (os_spool state) encoded = (spool, Ok receipt)"
      "response = Accepted (ba_batch_id batch) receipt" "os_spool state' = spool"
  | (full) batch encoded spool e reason where "ae_decode env body = Some batch"
      "ae_encode env (enrich_batch env state batch) = Some encoded"
      "spool_enqueue (digest_hex (ae_crypto env)) (ae_enqueue_fault env) (os_spool state) encoded = (spool, Inl e)"
      "response = Rejected (SpoolRejected reason)" "os_spool state' = spool"
      "om_rejected_batches (os_metrics state') = om_rejected_batches (os_metrics state) + 1"
      "om_accepted_batches (os_metrics state') = om_accepted_batches (os_metrics state)"
proof -
  obtain batch where batch: "credential_ok (os_config state) authorization" "ae_decode env body = Some batch"
      "own_batch (os_config state) batch"
    using assms(1) by (auto simp: good_request_def)
  let ?encoded = "ae_encode env (enrich_batch env state batch)"
  have run: "accept_batch env state authorization body =
    (case ?encoded of
       None \<Rightarrow> reject state EncodingFailed
     | Some encoded \<Rightarrow>
         (case spool_enqueue (digest_hex (ae_crypto env)) (ae_enqueue_fault env) (os_spool state) encoded of
            (spool, Inl e) \<Rightarrow>
              (case reject (state\<lparr>os_spool := spool\<rparr>) (SpoolRejected (case e of Err reason \<Rightarrow> reason | Panic \<Rightarrow> Io)) of
                 (state, response) \<Rightarrow> (refresh_spool_metrics (ae_stats_fault env) state, response))
          | (spool, Inr receipt_id) \<Rightarrow>
              (refresh_spool_metrics (ae_stats_fault env)
                 (state\<lparr>os_spool := spool,
                    os_metrics := (os_metrics state)\<lparr>om_accepted_batches :=
                      om_accepted_batches (os_metrics state) + 1\<rparr>\<rparr>),
               Accepted (ba_batch_id (enrich_batch env state batch)) receipt_id)))"
    using batch by (simp add: accept_batch_def Let_def own_batch_def batch_identity_def outpost_identity_def)
  show thesis
    using assms(2) unfolding run
    by (auto simp: reject_def split: option.splits prod.splits sum.splits
        intro: unencodable [OF batch(2)] stored [OF batch(2)] full [OF batch(2)])
qed

text \<open>What a successful \<open>enqueue\<close> leaves in the spool.\<close>

lemma batch_name: "extension name = Some ''json'' \<Longrightarrow> exists_in dir name \<Longrightarrow> name \<in> fst ` set (batches dir)"
  by (auto simp: exists_in_def intro: rev_image_eqI dest: batch_get)

lemma enqueue_stores:
  assumes "digest_shape hash" and "spool_enqueue hash fault spool body = (spool', Ok receipt)"
  shows "receipt = hash body \<and> json_name receipt \<in> fst ` (pending_batches spool' \<union> quarantined_batches spool') \<and>
    (known spool receipt \<or> (json_name receipt, body) \<in> pending_batches spool')"
proof -
  have json: "extension (json_name (hash body)) = Some ''json''" using digest_not_Nil [OF assms(1)] by simp
  from assms(2) show ?thesis
  proof (cases rule: enqueue_cases)
    case Known
    with json show ?thesis
      by (auto simp: known_def pending_batches_def quarantined_batches_def image_Un dest: batch_name)
  next
    case Stored
    with json show ?thesis
      by (auto simp: known_def exists_in_def pending_batches_def batches_insert_absent)
  qed auto
qed

lemma enqueue_keeps:
  assumes "digest_shape hash" and "spool_enqueue hash fault spool body = (spool', r)"
  shows "pending_batches spool \<subseteq> pending_batches spool' \<and> quarantined_batches spool' = quarantined_batches spool \<and>
    pending_batches spool' \<subseteq> insert (json_name (hash body), body) (pending_batches spool)"
  using assms(2)
proof (cases rule: enqueue_cases)
  case Stored
  then show ?thesis
    using digest_not_Nil [OF assms(1), of body]
    by (auto simp: known_def exists_in_def pending_batches_def quarantined_batches_def batches_insert_absent)
qed (auto simp: pending_batches_def quarantined_batches_def batches_insert_hidden)

text \<open>
  C21: an accepted batch is durable. When Outpost answers a request with 202, the request was good, the
  receipt is the digest of the enriched batch, and the spool holds a file of that name; if it held none
  before, that file is the enriched batch, waiting for delivery.
\<close>

theorem accepted_batch_is_spooled:
  assumes "digest_shape (digest_hex (ae_crypto env))"
    and "accept_batch env state authorization body = (state', Accepted batch_id receipt)"
  shows "good_request env (os_config state) authorization body \<and>
    (\<exists>batch encoded. ae_decode env body = Some batch \<and> batch_id = ba_batch_id batch \<and>
       ae_encode env (enrich_batch env state batch) = Some encoded \<and> receipt = digest_hex (ae_crypto env) encoded \<and>
       json_name receipt \<in> fst ` (pending_batches (os_spool state') \<union> quarantined_batches (os_spool state')) \<and>
       (known (os_spool state) receipt \<or> (json_name receipt, encoded) \<in> pending_batches (os_spool state')))"
proof -
  have good: "good_request env (os_config state) authorization body"
    by (rule ccontr, erule bad_request) (use assms(2) in \<open>simp add: reject_def\<close>)
  from good assms(2) obtain batch encoded spool where batch: "ae_decode env body = Some batch"
      "ae_encode env (enrich_batch env state batch) = Some encoded" "batch_id = ba_batch_id batch"
      and enqueue: "spool_enqueue (digest_hex (ae_crypto env)) (ae_enqueue_fault env) (os_spool state) encoded = (spool, Ok receipt)"
      "os_spool state' = spool"
    by (rule good_request_run) auto
  from enqueue_stores [OF assms(1) enqueue(1)] good batch enqueue(2) show ?thesis by auto
qed

text \<open>
  A rejection changes nothing that was accepted before. The request is counted as rejected and not as
  accepted; every pending and quarantined batch stays; and a rejection other than a storage error
  leaves the spool exactly as it was.
\<close>

theorem rejection_keeps_the_spool:
  assumes "digest_shape (digest_hex (ae_crypto env))"
    and "accept_batch env state authorization body = (state', Rejected r)"
  shows "om_rejected_batches (os_metrics state') = om_rejected_batches (os_metrics state) + 1 \<and>
    om_accepted_batches (os_metrics state') = om_accepted_batches (os_metrics state) \<and>
    pending_batches (os_spool state) \<subseteq> pending_batches (os_spool state') \<and>
    quarantined_batches (os_spool state') = quarantined_batches (os_spool state) \<and>
    (os_spool state' = os_spool state \<or> (\<exists>e. r = SpoolRejected e))"
proof (cases "good_request env (os_config state) authorization body")
  case True
  from True assms(2) show ?thesis
  proof (cases rule: good_request_run)
    case (full batch encoded spool e reason)
    with enqueue_keeps [OF assms(1) full(3)] show ?thesis by auto
  qed (auto simp: reject_def)
next
  case False
  then obtain r' where "accept_batch env state authorization body = reject state r'"
    by (rule bad_request)
  with assms(2) show ?thesis by (auto simp: reject_def)
qed

subsection \<open>S3 keys\<close>

lemma hex_digit_upper_eq: "a < 16 \<Longrightarrow> b < 16 \<Longrightarrow> hex_digit_upper a = hex_digit_upper b \<longleftrightarrow> a = b"
  by (auto simp: hex_digit_upper_def char_of_eq_iff take_bit_eq_mod split: if_splits)

lemma hex_digit_upper_slash: "a < 16 \<Longrightarrow> hex_digit_upper a \<noteq> CHR ''/''"
  by (auto simp: hex_digit_upper_def dest!: arg_cong [where f = "of_char :: char \<Rightarrow> nat"] split: if_splits)

lemma key_char_not: "\<not> key_char (CHR ''/'')" "\<not> key_char (CHR ''%'')"
  by (simp_all add: key_char_def is_ascii_alphanumeric_def in_range_def)

lemma high_nibble [simp]: "(of_char c :: nat) div 16 < 16"
  using nat_of_char_less_256 [of c] by (simp add: less_mult_imp_div_less)

lemma nibbles_inject:
  "(of_char c :: nat) div 16 = of_char d div 16 \<Longrightarrow> (of_char c :: nat) mod 16 = of_char d mod 16 \<Longrightarrow> c = d"
  by (metis div_mult_mod_eq of_char_eq_iff)

lemma encode_s3_key_segment_slash: "CHR ''/'' \<notin> set (encode_s3_key_segment s)"
proof (induction s)
  case (Cons c s)
  have "hex_digit_upper (of_char c div 16) \<noteq> CHR ''/''" "hex_digit_upper (of_char c mod 16) \<noteq> CHR ''/''"
    by (simp_all add: hex_digit_upper_slash)
  with Cons show ?case by (auto simp: key_char_not)
qed simp

lemma encode_s3_key_segment_inject [simp]: "encode_s3_key_segment s = encode_s3_key_segment t \<longleftrightarrow> s = t"
proof (induction s arbitrary: t)
  case Nil
  then show ?case by (cases t) auto
next
  case (Cons c s)
  show ?case
  proof (cases t)
    case t: (Cons d u)
    consider "key_char c \<longleftrightarrow> key_char d" | "key_char c" "\<not> key_char d" | "\<not> key_char c" "key_char d" by blast
    then show ?thesis
    proof cases
      case 1
      then show ?thesis
        using nibbles_inject [of c d] by (auto simp: t Cons.IH hex_digit_upper_eq)
    qed (auto simp: t key_char_not)
  qed auto
qed

lemma at_separator:
  fixes d :: char
  assumes "d \<notin> set a" and "d \<notin> set a'"
  shows "a @ d # b = a' @ d # b' \<longleftrightarrow> a = a' \<and> b = b'"
proof
  assume "a @ d # b = a' @ d # b'"
  then have "split_once d (a @ d # b) = split_once d (a' @ d # b')" by simp
  then show "a = a' \<and> b = b'" by (simp only: split_once_append [OF assms(1)] split_once_append [OF assms(2)]) simp
qed simp

lemma zero_pad_slash: "CHR ''/'' \<notin> set (zero_pad w (nat_string n))"
  using digits_of_10 [of "CHR ''/''" n] by (auto simp: zero_pad_def nat_string_def is_ascii_digit_def in_range_def)

lemma pad_int_slash: "CHR ''/'' \<notin> set (pad_int w i)"
  by (simp add: pad_int_def zero_pad_slash)

text \<open>
  No S3 object overwrites another's. Two batches whose customer, tenant, cell, source or identifier
  differ are uploaded under different keys, whatever characters the fields contain and whatever the
  calendar says of their dates.
\<close>

theorem s3_keys_are_distinct:
  assumes "(batch_identity a, ba_batch_id a) \<noteq> (batch_identity b, ba_batch_id b)"
  shows "s3_object_key calendar destination a \<noteq> s3_object_key calendar destination b"
proof
  assume same: "s3_object_key calendar destination a = s3_object_key calendar destination b"
  obtain ya ma da ha where ca: "calendar (ba_created_at a) = (ya, ma, da, ha)" by (metis prod_cases4)
  obtain yb mb db hb where cb: "calendar (ba_created_at b) = (yb, mb, db, hb)" by (metis prod_cases4)
  define date where "date = (\<lambda>y m d. pad_int 4 y @ ''-'' @ zero_pad 2 (nat_string m) @ ''-'' @ zero_pad 2 (nat_string d))"
  have slash: "CHR ''/'' \<notin> set (date y m d)" for y m d
    by (simp add: date_def pad_int_slash zero_pad_slash)
  have key: "s3_object_key calendar destination batch =
      normalized_s3_prefix (s3_prefix destination) @
      ''/customer_id='' @ encode_s3_key_segment (ba_customer_id batch) @
      ''/tenant_id='' @ encode_s3_key_segment (ba_tenant_id batch) @
      ''/regional_cell_id='' @ encode_s3_key_segment (ba_regional_cell_id batch) @
      ''/source_id='' @ encode_s3_key_segment (ba_source_id batch) @
      ''/date='' @ date y m d @ ''/hour='' @ zero_pad 2 (nat_string h) @
      ''/'' @ encode_s3_key_segment (ba_batch_id batch) @ ''.ndjson.gz''"
    if "calendar (ba_created_at batch) = (y, m, d, h)" for batch y m d h
    using that by (simp add: s3_object_key_def date_def)
  have "(batch_identity a, ba_batch_id a) = (batch_identity b, ba_batch_id b)"
    using same unfolding key [OF ca] key [OF cb]
    by (simp add: at_separator encode_s3_key_segment_slash slash zero_pad_slash batch_identity_def)
  with assms show False by simp
qed

subsection \<open>Configuration\<close>

text \<open>The endpoint of a destination, if it names one.\<close>

fun destination_endpoint :: "destination_config \<Rightarrow> string option" where
  "destination_endpoint (Http destination) = Some (hd_endpoint destination)"
| "destination_endpoint (S3 destination) = s3_endpoint_url destination"

lemma endpoint_checksD:
  "ensure_all (endpoint_checks endpoint local_hosts m1 m2) = Ok () \<Longrightarrow>
     (url_scheme endpoint = ''https'' \<or> url_scheme endpoint = ''http'' \<and> (\<exists>host \<in> set local_hosts. url_host endpoint = Some host)) \<and>
     url_username endpoint = [] \<and> url_password endpoint = None"
  by (auto simp: ensure_all_eq endpoint_checks_def split: option.splits)

text \<open>
  Credentials and batches leave over TLS. A configuration that Outpost accepts names a destination
  whose endpoint parses, carries no credentials in its URL, and uses HTTPS, or plain HTTP to one of
  the three hosts of the bundled local set-up.
\<close>

theorem accepted_configuration_uses_tls:
  assumes "validate_config parse_url config = Ok ()" and "destination_endpoint (oc_destination config) = Some endpoint"
  shows "\<exists>url. parse_url endpoint = Some url \<and> url_username url = [] \<and> url_password url = None \<and>
    (url_scheme url = ''https'' \<or>
     url_scheme url = ''http'' \<and> url_host url \<in> {Some ''127.0.0.1'', Some ''localhost'', Some ''mock-endpoint''})"
proof (cases "oc_destination config")
  case (Http destination)
  then show ?thesis
    using assms by (auto simp: validate_config_def validate_http_destination_def dest!: endpoint_checksD)
next
  case (S3 destination)
  then show ?thesis
    using assms by (auto simp: validate_config_def validate_s3_destination_def Let_def dest!: endpoint_checksD)
qed

subsection \<open>Samples\<close>

definition sample_mapping :: identity_mapping_entry where
  "sample_mapping =
     \<lparr>im_mongodb_principal_hash = ''sha256:'' @ replicate 64 (CHR ''a''), im_provider = ''aws'',
      im_principal_type = ''iam_role'', im_principal_arn = ''arn:aws:iam::123456789012:role/app'',
      im_account_id = ''123456789012'', im_credential_source = ''aws_secrets_manager'',
      im_credential_resource = ''arn:aws:secretsmanager:us-east-1:123456789012:secret:mongo''\<rparr>"

definition sample_auth_event :: dam_event where
  "sample_auth_event =
     \<lparr>ev_schema_version = 1, ev_event_id = ''event'', ev_observed_at = 0, ev_monotonic_timestamp_ns = 0,
      ev_customer_id = ''customer'', ev_tenant_id = ''tenant'', ev_source_id = ''source'',
      ev_regional_cell_id = ''cell'',
      ev_capture = \<lparr>cap_sensor_id = ''sensor'', cap_node_name = ''node'', cap_source = Sensor,
        cap_confidence = Complete, cap_metadata_only = True, cap_truncated = False\<rparr>,
      ev_kubernetes = None, ev_process = None, ev_identity = None,
      ev_payload = MongodbAuth \<lparr>au_mechanism = ''MONGODB-AWS'',
        au_principal = Some (im_mongodb_principal_hash sample_mapping), au_principal_hashed = True,
        au_succeeded = Some True, au_connection_id = ''c''\<rparr>\<rparr>"

definition sample_auth_batch :: dam_batch where
  "sample_auth_batch = (sample_batch [66])\<lparr>ba_events := [sample_auth_event]\<rparr>"

definition sample_accept_env :: accept_env where
  "sample_accept_env =
     \<lparr>ae_crypto = sample_crypto, ae_decode = (\<lambda>_. Some sample_auth_batch), ae_encode = (\<lambda>_. Some [1, 2, 3]),
      ae_parse_document = (\<lambda>_. Some \<lparr>imd_schema_version = 1, imd_mappings = [sample_mapping]\<rparr>),
      ae_mapping_file = Contents [], ae_enqueue_fault = None, ae_stats_fault = (None, None)\<rparr>"

definition sample_mapped_state :: outpost_state where
  "sample_mapped_state =
     sample_outpost_state\<lparr>os_config := sample_outpost_config\<lparr>oc_identity_mapping_file := Some ''/etc/mapping.json''\<rparr>\<rparr>"

lemma sample_mapping_valid: "validate_identity_mapping sample_mapping = Ok ()"
  by (simp add: validate_identity_mapping_def ensure_def sample_mapping_def starts_with_def
      valid_iam_principal_arn_def valid_secrets_manager_arn_def is_ascii_hexdigit_def is_ascii_digit_def in_range_def
      list_all_iff numeral_eq_Suc Let_def)

lemma sample_identities:
  "outpost_identities sample_accept_env sample_mapped_state =
     [(im_mongodb_principal_hash sample_mapping, identity_of_mapping sample_mapping)]"
  by (simp add: outpost_identities_def sample_mapped_state_def sample_accept_env_def load_identity_mappings_def
      parse_identity_mappings_def sample_mapping_valid ensure_def hm_insert_def)

lemma sample_enriched_identity:
  "ev_identity (enrich_event sample_accept_env sample_mapped_state sample_auth_event) = Some (identity_of_mapping sample_mapping)"
  by (simp add: enrich_event_def sample_identities event_principal_def sample_auth_event_def hm_get_def)

theorem external_identity_comes_from_the_mapping_witness:
  "\<exists>partition resource. xid_principal_arn (identity_of_mapping sample_mapping) =
     ''arn:'' @ partition @ '':iam::'' @ xid_account_id (identity_of_mapping sample_mapping) @ '':'' @ resource"
  using external_identity_comes_from_the_mapping
    [of "enrich_event sample_accept_env sample_mapped_state sample_auth_event" sample_accept_env sample_mapped_state
      sample_auth_batch, OF _ sample_enriched_identity]
  unfolding enrich_batch_events by (simp add: sample_auth_batch_def) blast

lemma sample_digest_shape: "digest_shape (digest_hex sample_crypto)"
proof -
  have "digest_hex sample_crypto body = concat (replicate 32 [char_of (97 :: nat), char_of (98 :: nat)])" for body
    by (simp add: digest_hex_def sample_crypto_def zero_pad_def digits_of.simps digit_char_def)
  then show ?thesis
    by (simp add: digest_shape_def length_concat list_all_iff sum_list_replicate is_ascii_hexdigit_def in_range_def)
qed

lemma sample_accept_env_crypto [simp]: "ae_crypto sample_accept_env = sample_crypto"
  by (simp add: sample_accept_env_def)

lemma sample_good_request: "good_request sample_accept_env (os_config sample_outpost_state) (Some ''Bearer secret'') []"
proof -
  have "validate sample_auth_batch = Ok ()"
    by (simp add: validate_ok_iff sample_auth_batch_def sample_batch_def sample_auth_event_def event_ok_def
        batch_identity_def capture_mismatch_def EVENT_SCHEMA_VERSION_def BATCH_SCHEMA_VERSION_def
        not_blank_alnum [OF _ list.set_intros(1)] is_ascii_alphanumeric_def in_range_def)
  then show ?thesis
    by (simp add: good_request_def own_batch_def credential_ok_def sample_outpost_state_def sample_outpost_config_def
        sample_accept_env_def batch_identity_def outpost_identity_def sample_auth_batch_def sample_batch_def)
qed

lemma sample_enqueue:
  "\<exists>spool. spool_enqueue (digest_hex sample_crypto) None sample_spool [1, 2, 3] = (spool, Ok (digest_hex sample_crypto [1, 2, 3]))"
proof -
  have "\<not> isl (snd (spool_enqueue (digest_hex sample_crypto) None sample_spool [1, 2, 3]))" by code_simp
  then obtain spool receipt where run: "spool_enqueue (digest_hex sample_crypto) None sample_spool [1, 2, 3] = (spool, Ok receipt)"
    by (metis prod.collapse sum.collapse(2))
  with enqueue_stores [OF sample_digest_shape run] show ?thesis by auto
qed

lemma sample_accept_run:
  "\<exists>state'. accept_batch sample_accept_env sample_outpost_state (Some ''Bearer secret'') [] =
     (state', Accepted (ba_batch_id sample_auth_batch) (digest_hex sample_crypto [1, 2, 3]))"
proof -
  obtain state' response where run:
    "accept_batch sample_accept_env sample_outpost_state (Some ''Bearer secret'') [] = (state', response)" by fastforce
  from sample_good_request run show ?thesis
    by (rule good_request_run)
      (use run sample_enqueue in \<open>auto simp: sample_accept_env_def sample_outpost_state_def\<close>)
qed

theorem accepted_batch_is_spooled_witness:
  "json_name (digest_hex sample_crypto [1, 2, 3]) \<in> fst ` (
     pending_batches (os_spool (fst (accept_batch sample_accept_env sample_outpost_state (Some ''Bearer secret'') []))) \<union>
     quarantined_batches (os_spool (fst (accept_batch sample_accept_env sample_outpost_state (Some ''Bearer secret'') []))))"
proof -
  obtain state' where run: "accept_batch sample_accept_env sample_outpost_state (Some ''Bearer secret'') [] =
     (state', Accepted (ba_batch_id sample_auth_batch) (digest_hex sample_crypto [1, 2, 3]))"
    using sample_accept_run by blast
  then show ?thesis
    using accepted_batch_is_spooled [OF _ run] sample_digest_shape by auto
qed

theorem rejection_keeps_the_spool_witness:
  "pending_batches sample_spool \<subseteq> pending_batches (os_spool (fst (accept_batch sample_accept_env sample_outpost_state None [])))"
proof -
  have run: "accept_batch sample_accept_env sample_outpost_state None [] =
      (fst (reject sample_outpost_state MissingCredential), Rejected MissingCredential)"
    by (simp add: accept_batch_def Let_def credential_ok_def sample_outpost_state_def sample_outpost_config_def reject_def)
  from rejection_keeps_the_spool [OF _ run] show ?thesis
    unfolding run using sample_digest_shape by (simp add: sample_outpost_state_def)
qed

theorem s3_keys_are_distinct_witness:
  "s3_object_key (\<lambda>_. (2026, 7, 20, 9)) \<lparr>s3_bucket = ''dam'', s3_prefix = ''/activity/'', s3_endpoint_url = None,
     s3_force_path_style = False\<rparr> (sample_batch [65]) \<noteq>
   s3_object_key (\<lambda>_. (2026, 7, 20, 9)) \<lparr>s3_bucket = ''dam'', s3_prefix = ''/activity/'', s3_endpoint_url = None,
     s3_force_path_style = False\<rparr> (sample_batch [66])"
  by (rule s3_keys_are_distinct) (simp add: sample_batch_def)

definition sample_parse_url :: url_parser where
  "sample_parse_url u =
     (if u = ''https://receiver''
      then Some \<lparr>url_scheme = ''https'', url_host = Some ''receiver'', url_username = [], url_password = None\<rparr>
      else None)"

theorem accepted_configuration_uses_tls_witness:
  "\<exists>url. sample_parse_url ''https://receiver'' = Some url \<and> url_scheme url = ''https''"
  using accepted_configuration_uses_tls [of sample_parse_url sample_outpost_config "''https://receiver''"]
  by (simp add: sample_parse_url_def sample_outpost_config_def validate_config_def validate_http_destination_def
      ensure_all_eq not_empty_checks_def endpoint_checks_def
      not_blank_alnum [OF _ list.set_intros(1)] is_ascii_alphanumeric_def in_range_def)

end
