(* ===== verification/Batcher_Spec.thy ===== *)
theory Batcher_Spec
  imports Outpost_Spec
begin

text \<open>
  What the sensor's batcher promises: it is a \<open>stepper\<close> whose outputs are valid batches of bounded size,
  it loses and reorders no event, and every event that is not stored is counted. With the processor
  before it and Outpost after it, this gives what a started sensor sends.
\<close>

subsection \<open>Batches are valid and bounded\<close>

definition assignment_identity :: "assignment \<Rightarrow> string \<times> string \<times> string \<times> string" where
  "assignment_identity a = (as_customer_id a, as_tenant_id a, as_source_id a, as_regional_cell_id a)"

definition settings_ok :: "batcher_settings \<Rightarrow> bool" where
  "settings_ok settings \<longleftrightarrow>
     (let a = bs_assignment settings in
      0 < bs_max_events settings \<and> \<not> blank (as_customer_id a) \<and> \<not> blank (as_tenant_id a) \<and>
      \<not> blank (as_source_id a) \<and> \<not> blank (as_regional_cell_id a) \<and> \<not> blank (as_sensor_id a) \<and>
      \<not> blank (as_node_name a))"

definition settings_identity :: "batcher_settings \<Rightarrow> string \<times> string \<times> string \<times> string" where
  "settings_identity settings = assignment_identity (bs_assignment settings)"

definition moment_ok :: "batcher_settings \<Rightarrow> batcher_moment \<Rightarrow> bool" where
  "moment_ok settings moment \<longleftrightarrow>
     (case bm_input moment of Received event \<Rightarrow> event_ok (settings_identity settings) event | Tick \<Rightarrow> True)"

definition batcher_inv :: "batcher_settings \<Rightarrow> batcher \<Rightarrow> bool" where
  "batcher_inv settings b \<longleftrightarrow> settings_ok settings \<and> length (bt_events b) < bs_max_events settings \<and>
     list_all (event_ok (settings_identity settings)) (bt_events b)"

definition batch_promise :: "batcher_settings \<Rightarrow> dam_batch \<Rightarrow> bool" where
  "batch_promise settings batch \<longleftrightarrow> validate batch = Ok () \<and> batch_identity batch = settings_identity settings \<and>
     0 < length (ba_events batch) \<and> length (ba_events batch) \<le> bs_max_events settings"

lemma not_blank_batch: "\<not> blank (''batch-'' @ s)" and not_blank_health: "\<not> blank (''health-'' @ s)"
  by (auto intro!: not_blank_alnum [OF _ list.set_intros(1)] simp: is_ascii_alphanumeric_def in_range_def)

lemma health_event_ok:
  "settings_ok settings \<Longrightarrow>
     event_ok (settings_identity settings) (sensor_health_event crypto (bs_assignment settings) fault spool metrics now)"
  using not_blank_health
  by (simp add: event_ok_def sensor_health_event_def Let_def settings_ok_def settings_identity_def
      assignment_identity_def capture_mismatch_def)

lemma batch_of_promise:
  assumes "settings_ok settings" "list_all (event_ok (settings_identity settings)) events"
    and "events \<noteq> []" "length events \<le> bs_max_events settings"
  shows "batch_promise settings (batch_of crypto (bs_assignment settings) now events)"
proof -
  have "batch_identity (batch_of crypto (bs_assignment settings) now events) = settings_identity settings"
    by (simp add: batch_identity_def batch_of_def Let_def settings_identity_def assignment_identity_def)
  with assms not_blank_batch show ?thesis
    unfolding batch_promise_def validate_ok_iff
    by (auto simp: batch_of_def Let_def settings_ok_def list_all_iff)
qed

lemma collect_ok:
  assumes "batcher_inv settings b" "moment_ok settings moment"
  shows "list_all (event_ok (settings_identity settings)) (bt_events (batcher_collect settings b moment)) \<and>
    length (bt_events (batcher_collect settings b moment)) \<le> bs_max_events settings"
  using assms health_event_ok
  by (auto simp: batcher_inv_def batcher_collect_def moment_ok_def split: batcher_input.splits)

lemma flush_events: "bt_events (fst (batcher_flush settings b fault now)) = []"
  by (simp add: batcher_flush_def case_prod_unfold)

lemma flush_batches:
  "snd (batcher_flush settings b fault now) =
     (if bt_events b = [] then [] else [batch_of (bs_crypto settings) (bs_assignment settings) now (bt_events b)])"
  by (simp add: batcher_flush_def case_prod_unfold)

interpretation batching: stepper "batcher_step settings" "moment_ok settings" "batcher_inv settings"
  "batch_promise settings" for settings
proof (unfold_locales, goal_cases)
  case (1 b moment)
  have "settings_ok settings" using 1 by (simp add: batcher_inv_def)
  with collect_ok [OF 1] show ?case
    by (auto simp: batcher_step_def Let_def batcher_inv_def flush_events settings_ok_def)
next
  case (2 b moment)
  have "settings_ok settings" using 2 by (simp add: batcher_inv_def)
  with collect_ok [OF 2] show ?case
    by (auto simp: batcher_step_def Let_def flush_batches intro: batch_of_promise)
qed

lemma run_batcher_promise:
  assumes "settings_ok settings" and "bt_events b = []" and "list_all (moment_ok settings) moments"
    and "run_batcher settings b moments fault now = (b', out)"
  shows "list_all (batch_promise settings) out"
proof -
  have inv: "batcher_inv settings b" using assms(1,2) by (auto simp: batcher_inv_def settings_ok_def Let_def)
  obtain c flushed where run: "run_steps (batcher_step settings) b moments = (c, flushed)" by fastforce
  have "batcher_inv settings c" "list_all (batch_promise settings) flushed"
    using batching.run_invariant [OF inv assms(3) run] batching.run_promise [OF inv assms(3) run] .
  then have "list_all (batch_promise settings) (flushed @ snd (batcher_flush settings c fault now))"
    by (auto simp: flush_batches batcher_inv_def intro: batch_of_promise)
  moreover have "out = flushed @ snd (batcher_flush settings c fault now)"
    using assms(4) by (simp add: run_batcher_def run case_prod_unfold)
  ultimately show ?thesis by simp
qed

text \<open>
  C28: every batch of the sensor is valid and within its limit. For a configured identity that is not
  blank and a positive limit, whatever the order of events and ticks, every batch the batcher hands to
  the spool, the last one included, has between one and \<open>batch_max_events\<close> events, carries the
  sensor's identity and passes \<open>DamBatch::validate\<close>, if the events it receives are valid for that
  identity.
\<close>

theorem batcher_batches_are_valid:
  assumes "settings_ok settings" and "bt_events b = []" and "list_all (moment_ok settings) moments"
    and "run_batcher settings b moments fault now = (b', out)"
  shows "list_all (\<lambda>batch. validate batch = Ok () \<and> batch_identity batch = settings_identity settings \<and>
    0 < length (ba_events batch) \<and> length (ba_events batch) \<le> bs_max_events settings) out"
  using run_batcher_promise [OF assms] by (auto simp: list_all_iff batch_promise_def)

subsection \<open>No event is lost or reordered\<close>

definition own_health :: "dam_event \<Rightarrow> bool" where
  "own_health event \<longleftrightarrow> (case ev_payload event of SensorHealth _ \<Rightarrow> True | _ \<Rightarrow> False)"

abbreviation batched_events :: "dam_batch list \<Rightarrow> dam_event list" where
  "batched_events out \<equiv> concat (map ba_events out)"

fun received_events :: "batcher_moment list \<Rightarrow> dam_event list" where
  "received_events [] = []"
| "received_events (moment # moments) =
     (case bm_input moment of Received event \<Rightarrow> [event] | Tick \<Rightarrow> []) @ received_events moments"

lemma step_conserves:
  assumes "batcher_step settings b moment = (c, flushed)"
  shows "batched_events flushed @ bt_events c = bt_events (batcher_collect settings b moment)"
proof (cases "snd (batcher_step settings b moment) = []")
  case True
  with assms show ?thesis
    by (auto simp: batcher_step_def Let_def flush_batches flush_events prod_eq_iff split: if_splits)
next
  case False
  with assms show ?thesis
    by (auto simp: batcher_step_def Let_def flush_batches flush_events prod_eq_iff batch_of_def split: if_splits)
qed

lemma collect_events:
  "filter (\<lambda>event. \<not> own_health event) (bt_events (batcher_collect settings b moment)) =
     filter (\<lambda>event. \<not> own_health event) (bt_events b @ received_events [moment])"
  by (auto simp: batcher_collect_def own_health_def sensor_health_event_def Let_def split: batcher_input.split)

lemma run_conserves:
  "run_steps (batcher_step settings) b moments = (c, flushed) \<Longrightarrow>
     filter (\<lambda>event. \<not> own_health event) (batched_events flushed @ bt_events c) =
     filter (\<lambda>event. \<not> own_health event) (bt_events b @ received_events moments)"
proof (induction moments arbitrary: b flushed)
  case (Cons moment moments)
  obtain d out where step: "batcher_step settings b moment = (d, out)" by fastforce
  with Cons.prems obtain rest where rest: "run_steps (batcher_step settings) d moments = (c, rest)" "flushed = out @ rest"
    by (auto split: prod.splits)
  have "filter (\<lambda>event. \<not> own_health event) (batched_events out @ bt_events d) =
      filter (\<lambda>event. \<not> own_health event) (bt_events b @ received_events [moment])"
    using step_conserves [OF step] collect_events [of settings b moment] by simp
  with Cons.IH [OF rest(1)] show ?case by (simp add: rest(2))
qed simp

lemma run_batcher_conserves:
  assumes "run_batcher settings b moments fault now = (b', out)"
  shows "filter (\<lambda>event. \<not> own_health event) (batched_events out) =
      filter (\<lambda>event. \<not> own_health event) (bt_events b @ received_events moments)"
    and "bt_events b' = []"
proof -
  obtain c flushed where run: "run_steps (batcher_step settings) b moments = (c, flushed)" by fastforce
  have batches: "out = flushed @ snd (batcher_flush settings c fault now)" "b' = fst (batcher_flush settings c fault now)"
    using assms by (simp_all add: run_batcher_def run case_prod_unfold prod_eq_iff)
  have "batched_events out = batched_events flushed @ bt_events c"
    by (simp add: batches flush_batches batch_of_def Let_def)
  with run_conserves [OF run]
  show "filter (\<lambda>event. \<not> own_health event) (batched_events out) =
      filter (\<lambda>event. \<not> own_health event) (bt_events b @ received_events moments)" by simp
  show "bt_events b' = []" by (simp add: batches(2) flush_events)
qed

text \<open>
  C27: the batcher loses, duplicates and reorders nothing. The events of all batches it hands to the spool,
  one after another and without its own health reports, are exactly the events it received, in order,
  whatever the ticks in between and whether or not the spool takes the batches.
\<close>

theorem batcher_conserves_events:
  assumes "bt_events b = []" and "list_all (\<lambda>event. \<not> own_health event) (received_events moments)"
    and "run_batcher settings b moments fault now = (b', out)"
  shows "filter (\<lambda>event. \<not> own_health event) (batched_events out) = received_events moments \<and> bt_events b' = []"
  using run_batcher_conserves [OF assms(3)] assms(1,2) by (simp add: filter_id_conv list_all_iff)

subsection \<open>Every event is stored or counted\<close>

text \<open>The spool holds the batch under the digest of its encoding.\<close>

definition stored_in :: "batcher_settings \<Rightarrow> spool \<Rightarrow> dam_batch \<Rightarrow> bool" where
  "stored_in settings spool batch \<longleftrightarrow>
     (\<exists>body. bs_encode settings batch = Some body \<and>
        json_name (digest_hex (bs_crypto settings) body) \<in> fst ` (pending_batches spool \<union> quarantined_batches spool))"

definition spool_grows :: "spool \<Rightarrow> spool \<Rightarrow> bool" where
  "spool_grows spool spool' \<longleftrightarrow>
     pending_batches spool \<subseteq> pending_batches spool' \<and> quarantined_batches spool' = quarantined_batches spool"

lemma spool_grows_refl [simp]: "spool_grows spool spool"
  by (simp add: spool_grows_def)

lemma spool_grows_trans: "spool_grows s t \<Longrightarrow> spool_grows t u \<Longrightarrow> spool_grows s u"
  by (auto simp: spool_grows_def)

lemma stored_in_grows: "stored_in settings spool batch \<Longrightarrow> spool_grows spool spool' \<Longrightarrow> stored_in settings spool' batch"
  unfolding stored_in_def spool_grows_def by (auto simp: image_Un)

text \<open>
  From \<open>b\<close> to \<open>c\<close> the batches of \<open>marked\<close> were flushed; those marked \<open>True\<close> are stored, the events of
  the others are counted as dropped.
\<close>

definition accounted :: "batcher_settings \<Rightarrow> batcher \<Rightarrow> batcher \<Rightarrow> (dam_batch \<times> bool) list \<Rightarrow> bool" where
  "accounted settings b c marked \<longleftrightarrow> spool_grows (bt_spool b) (bt_spool c) \<and>
     (\<forall>batch. (batch, True) \<in> set marked \<longrightarrow> stored_in settings (bt_spool c) batch) \<and>
     rm_spool_dropped_events (bt_metrics c) = rm_spool_dropped_events (bt_metrics b) +
       of_nat (sum_list (map (\<lambda>(batch, stored). if stored then 0 else length (ba_events batch)) marked))"

lemma accounted_same: "bt_spool c = bt_spool b \<Longrightarrow> bt_metrics c = bt_metrics b \<Longrightarrow> accounted settings b c []"
  by (simp add: accounted_def)

lemma accounted_append:
  assumes "accounted settings b c marked" and "accounted settings c d marked'"
  shows "accounted settings b d (marked @ marked')"
proof -
  have "spool_grows (bt_spool b) (bt_spool d)" using assms by (auto simp: accounted_def intro: spool_grows_trans)
  moreover have "stored_in settings (bt_spool d) batch" if "(batch, True) \<in> set (marked @ marked')" for batch
    using that assms stored_in_grows by (auto simp: accounted_def)
  ultimately show ?thesis using assms by (simp add: accounted_def)
qed

lemma flush_accounted:
  assumes shape: "digest_shape (digest_hex (bs_crypto settings))"
    and flush: "batcher_flush settings b fault now = (c, out)"
  shows "\<exists>marked. map fst marked = out \<and> accounted settings b c marked"
proof (cases "bt_events b = []")
  case True
  with flush show ?thesis
    by (intro exI [of _ "[]"]) (auto simp: batcher_flush_def flush_batch_def intro!: accounted_same)
next
  case False
  let ?batch = "batch_of (bs_crypto settings) (bs_assignment settings) now (bt_events b)"
  have out: "out = [?batch]" and events: "ba_events ?batch = bt_events b"
    using flush False by (auto simp: flush_batches batch_of_def Let_def dest: arg_cong [where f = snd])
  show ?thesis
  proof (cases "bs_encode settings ?batch")
    case None
    with flush False out events show ?thesis
      by (intro exI [of _ "[(?batch, False)]"]) (auto simp: batcher_flush_def flush_batch_def accounted_def Let_def)
  next
    case (Some body)
    obtain spool r where run: "spool_enqueue (digest_hex (bs_crypto settings)) fault (bt_spool b) body = (spool, r)"
      by fastforce
    have grows: "spool_grows (bt_spool b) spool"
      using enqueue_keeps [OF shape run] by (simp add: spool_grows_def)
    have "stored_in settings spool ?batch" if "r = Ok receipt" for receipt
      using enqueue_stores [OF shape run [unfolded that]] Some by (auto simp: stored_in_def)
    with flush False out events Some run grows show ?thesis
      by (intro exI [of _ "[(?batch, \<not> isl r)]"])
        (cases r, auto simp: batcher_flush_def flush_batch_def accounted_def Let_def)
  qed
qed

lemma collect_keeps [simp]:
  "bt_spool (batcher_collect settings b moment) = bt_spool b"
  "bt_metrics (batcher_collect settings b moment) = bt_metrics b"
  by (simp_all add: batcher_collect_def split: batcher_input.split)

lemma accounted_collect: "accounted settings (batcher_collect settings b moment) c marked \<longleftrightarrow> accounted settings b c marked"
  by (simp add: accounted_def)

lemma step_accounted:
  assumes shape: "digest_shape (digest_hex (bs_crypto settings))" and step: "batcher_step settings b moment = (c, out)"
  shows "\<exists>marked. map fst marked = out \<and> accounted settings b c marked"
proof (cases "batcher_step settings b moment =
    batcher_flush settings (batcher_collect settings b moment) (bm_fault moment) (bm_utc moment)")
  case True
  with step flush_accounted [OF shape, of "batcher_collect settings b moment"] show ?thesis
    by (auto simp: accounted_collect)
next
  case False
  with step show ?thesis
    by (intro exI [of _ "[]"]) (auto simp: batcher_step_def Let_def intro!: accounted_same split: if_splits)
qed

lemma run_accounted:
  assumes shape: "digest_shape (digest_hex (bs_crypto settings))"
  shows "run_steps (batcher_step settings) b moments = (c, out) \<Longrightarrow>
    \<exists>marked. map fst marked = out \<and> accounted settings b c marked"
proof (induction moments arbitrary: b out)
  case (Cons moment moments)
  obtain d first where step: "batcher_step settings b moment = (d, first)" by fastforce
  with Cons.prems obtain rest where rest: "run_steps (batcher_step settings) d moments = (c, rest)" "out = first @ rest"
    by (auto split: prod.splits)
  from step_accounted [OF shape step] Cons.IH [OF rest(1)] show ?case
    unfolding rest(2) by (metis accounted_append map_append)
qed (auto intro: accounted_same)

lemma run_batcher_accounted:
  assumes "digest_shape (digest_hex (bs_crypto settings))" and "run_batcher settings b moments fault now = (c, out)"
  shows "\<exists>marked. map fst marked = out \<and> accounted settings b c marked"
proof -
  obtain d flushed where run: "run_steps (batcher_step settings) b moments = (d, flushed)" by fastforce
  obtain rest where flush: "batcher_flush settings d fault now = (c, rest)" "out = flushed @ rest"
    using assms(2) by (auto simp: run_batcher_def run split: prod.splits)
  obtain marked where marked: "map fst marked = flushed" "accounted settings b d marked"
    using run_accounted [OF assms(1) run] by blast
  obtain marked' where marked': "map fst marked' = rest" "accounted settings d c marked'"
    using flush_accounted [OF assms(1) flush(1)] by blast
  show ?thesis
    using accounted_append [OF marked(2) marked'(2)] marked(1) marked'(1) flush(2)
    by (intro exI [of _ "marked @ marked'"]) simp
qed

text \<open>
  C26: no event disappears silently in the sensor. When the batcher ends, every batch it built is in the
  spool under the digest of its encoding, or its events have been added to the counter of dropped
  events; the counter grows by exactly their number, modulo 2 to the 64.
\<close>

theorem every_event_is_stored_or_counted:
  assumes "digest_shape (digest_hex (bs_crypto settings))" and "run_batcher settings b moments fault now = (c, out)"
  shows "\<exists>marked. map fst marked = out \<and>
    (\<forall>batch. (batch, True) \<in> set marked \<longrightarrow> stored_in settings (bt_spool c) batch) \<and>
    rm_spool_dropped_events (bt_metrics c) = rm_spool_dropped_events (bt_metrics b) +
      of_nat (sum_list (map (\<lambda>(batch, stored). if stored then 0 else length (ba_events batch)) marked))"
  using run_batcher_accounted [OF assms] by (auto simp: accounted_def)

subsection \<open>Sample runs\<close>

definition sample_settings :: batcher_settings where
  "sample_settings =
     \<lparr>bs_crypto = sample_crypto, bs_encode = (\<lambda>_. Some [1, 2, 3]),
      bs_assignment = \<lparr>as_customer_id = ''customer'', as_tenant_id = ''tenant'', as_source_id = ''source'',
        as_regional_cell_id = ''cell'', as_sensor_id = ''sensor'', as_node_name = ''node''\<rparr>,
      bs_max_events = 2, bs_emit_sensor_health = True\<rparr>"

definition sample_batcher :: batcher where
  "sample_batcher =
     \<lparr>bt_events = [], bt_last_health = 0, bt_spool = sample_spool, bt_metrics = sample_runtime_metrics\<rparr>"

definition sample_moments :: "batcher_moment list" where
  "sample_moments =
     [\<lparr>bm_input = Received sample_auth_event, bm_instant = 1, bm_utc = 0, bm_fault = None\<rparr>,
      \<lparr>bm_input = Received sample_auth_event, bm_instant = 2, bm_utc = 0, bm_fault = Some OpenTemporary\<rparr>,
      \<lparr>bm_input = Tick, bm_instant = 60000000001, bm_utc = 1, bm_fault = None\<rparr>]"

lemma not_blank_letter: "in_range c 97 122 \<Longrightarrow> \<not> blank (c # s)"
  by (rule not_blank_alnum [OF _ list.set_intros(1)]) (simp add: is_ascii_alphanumeric_def)

lemma sample_settings_ok: "settings_ok sample_settings"
  by (simp add: settings_ok_def sample_settings_def not_blank_letter in_range_def)

lemma sample_moments_ok: "list_all (moment_ok sample_settings) sample_moments"
  by (simp add: moment_ok_def sample_moments_def sample_settings_def event_ok_def sample_auth_event_def
      settings_identity_def assignment_identity_def capture_mismatch_def EVENT_SCHEMA_VERSION_def not_blank_letter in_range_def)

lemma sample_batcher_empty: "bt_events sample_batcher = []"
  by (simp add: sample_batcher_def)

theorem batcher_batches_are_valid_witness:
  "list_all (\<lambda>batch. validate batch = Ok () \<and> length (ba_events batch) \<le> 2)
     (snd (run_batcher sample_settings sample_batcher sample_moments None 2))"
  using batcher_batches_are_valid [OF sample_settings_ok sample_batcher_empty sample_moments_ok surjective_pairing]
  by (simp add: list_all_iff sample_settings_def)

theorem batcher_conserves_events_witness:
  "filter (\<lambda>event. \<not> own_health event)
     (batched_events (snd (run_batcher sample_settings sample_batcher sample_moments None 2))) =
   [sample_auth_event, sample_auth_event]"
  using batcher_conserves_events [OF sample_batcher_empty _ surjective_pairing, of sample_moments sample_settings None 2]
  by (simp add: sample_moments_def own_health_def sample_auth_event_def)

theorem every_event_is_stored_or_counted_witness:
  "\<exists>marked. map fst marked = snd (run_batcher sample_settings sample_batcher sample_moments None 2) \<and>
     rm_spool_dropped_events (bt_metrics (fst (run_batcher sample_settings sample_batcher sample_moments None 2))) =
       of_nat (sum_list (map (\<lambda>(batch, stored). if stored then 0 else length (ba_events batch)) marked))"
proof -
  have "digest_shape (digest_hex (bs_crypto sample_settings))" using sample_digest_shape by (simp add: sample_settings_def)
  from every_event_is_stored_or_counted [OF this surjective_pairing, of sample_batcher sample_moments None 2]
  show ?thesis by (auto simp: sample_batcher_def sample_runtime_metrics_def)
qed

end
