(* ===== verification/Outpost_Main.thy ===== *)
theory Outpost_Main
  imports Outpost
begin

text \<open>
  Start and HTTP surface of Outpost: the command line of \<open>crates/outpost/src/main.rs\<close>, and \<open>build_state\<close>,
  \<open>router\<close> and \<open>health\<close> of \<open>crates/outpost/src/lib.rs\<close>. Argument parsing (\<open>clap\<close>), the server
  (\<open>axum\<close>) and the task runtime are not modelled; the body limit the router installs is.
\<close>

subsection \<open>Command line\<close>

datatype destination_kind = HttpKind | S3Kind

record outpost_cli =
  ocli_listen_addr :: string
  ocli_customer_id :: string
  ocli_tenant_id :: string
  ocli_source_id :: string
  ocli_regional_cell_id :: string
  ocli_cluster_name :: string
  ocli_internal_token_file :: "string option"
  ocli_destination :: "destination_kind option"
  ocli_endpoint :: "string option"
  ocli_bearer_token_file :: "string option"
  ocli_ca_file :: "string option"
  ocli_s3_bucket :: "string option"
  ocli_s3_prefix :: "string option"
  ocli_s3_endpoint_url :: "string option"
  ocli_s3_force_path_style :: bool
  ocli_spool_dir :: string
  ocli_spool_max_bytes :: u64
  ocli_max_request_bytes :: usize
  ocli_export_interval_seconds :: u64
  ocli_kubernetes_service_host :: "string option"
  ocli_kubernetes_service_port :: string
  ocli_kubernetes_token_path :: string
  ocli_kubernetes_ca_path :: string
  ocli_kubernetes_refresh_seconds :: u64
  ocli_identity_mapping_file :: "string option"

text \<open>\<open>read_secret\<close> of Outpost, which words its errors differently from the sensor's.\<close>

definition read_secret_file :: "(string \<Rightarrow> string option) \<Rightarrow> string \<Rightarrow> (string, string) result" where
  "read_secret_file files path =
     rbind (ok_or (files path) (''reading secret file '' @ path)) (\<lambda>v.
     let v = trim v in
     rbind (ensure (v \<noteq> []) (''secret file '' @ path @ '' is empty'')) (\<lambda>_. Ok v))"

definition destination_kind_of :: "outpost_cli \<Rightarrow> destination_kind" where
  "destination_kind_of cli =
     (case ocli_destination cli of
        Some kind \<Rightarrow> kind
      | None \<Rightarrow> if ocli_s3_bucket cli \<noteq> None \<or> ocli_s3_prefix cli \<noteq> None then S3Kind else HttpKind)"

definition destination_of :: "(string \<Rightarrow> string option) \<Rightarrow> outpost_cli \<Rightarrow> (string, destination_config) result" where
  "destination_of files cli =
     (case destination_kind_of cli of
        HttpKind \<Rightarrow>
          rbind (ok_or (ocli_endpoint cli) ''OUTPOST_ENDPOINT is required for the HTTP destination'') (\<lambda>endpoint.
          rbind (ok_or (ocli_bearer_token_file cli)
            ''OUTPOST_BEARER_TOKEN_FILE is required for the HTTP destination'') (\<lambda>token_file.
          rbind (read_secret_file files token_file) (\<lambda>token.
          Ok (Http \<lparr>hd_endpoint = endpoint, hd_bearer_token = token, hd_ca_file = ocli_ca_file cli\<rparr>))))
      | S3Kind \<Rightarrow>
          rbind (ok_or (ocli_s3_bucket cli) ''OUTPOST_S3_BUCKET is required for the S3 destination'') (\<lambda>bucket.
          rbind (ok_or (ocli_s3_prefix cli) ''OUTPOST_S3_PREFIX is required for the S3 destination'') (\<lambda>prefix.
          Ok (S3 \<lparr>s3_bucket = bucket, s3_prefix = prefix, s3_endpoint_url = ocli_s3_endpoint_url cli,
            s3_force_path_style = ocli_s3_force_path_style cli\<rparr>))))"

definition outpost_config_of :: "(string \<Rightarrow> string option) \<Rightarrow> outpost_cli \<Rightarrow> (string, outpost_config) result" where
  "outpost_config_of files cli =
     rbind (destination_of files cli) (\<lambda>destination.
     rbind (case ocli_internal_token_file cli of
              None \<Rightarrow> Ok None
            | Some path \<Rightarrow> rbind (read_secret_file files path) (\<lambda>secret. Ok (Some secret))) (\<lambda>internal_token.
     Ok \<lparr>oc_customer_id = ocli_customer_id cli, oc_tenant_id = ocli_tenant_id cli,
         oc_source_id = ocli_source_id cli, oc_regional_cell_id = ocli_regional_cell_id cli,
         oc_cluster_name = ocli_cluster_name cli, oc_internal_token = internal_token,
         oc_destination = destination, oc_spool_dir = ocli_spool_dir cli,
         oc_spool_max_bytes = ocli_spool_max_bytes cli, oc_max_request_bytes = ocli_max_request_bytes cli,
         oc_export_seconds = max (ocli_export_interval_seconds cli) 1,
         oc_kubernetes_api_url =
           map_option (\<lambda>host. ''https://'' @ host @ '':'' @ ocli_kubernetes_service_port cli)
             (ocli_kubernetes_service_host cli),
         oc_kubernetes_token_path = ocli_kubernetes_token_path cli,
         oc_kubernetes_ca_path = ocli_kubernetes_ca_path cli,
         oc_kubernetes_refresh_seconds = max (ocli_kubernetes_refresh_seconds cli) 5,
         oc_identity_mapping_file = ocli_identity_mapping_file cli\<rparr>))"

subsection \<open>State\<close>

definition new_outpost_metrics :: outpost_metrics where
  "new_outpost_metrics =
     \<lparr>om_accepted_batches = 0, om_rejected_batches = 0, om_delivered_batches = 0, om_delivery_failures = 0,
      om_quarantined_batches = 0, om_spool_items = 0, om_spool_bytes = 0, om_quarantine_items = 0,
      om_quarantine_bytes = 0, om_kubernetes_cache_entries = 0\<rparr>"

text \<open>\<open>build_state\<close> on the directories an earlier run left; \<open>Inr e\<close> in the error is the spool's error.\<close>

definition build_state ::
  "(bytes \<Rightarrow> string) \<Rightarrow> url_parser \<Rightarrow> usize option \<Rightarrow> stats_fault \<Rightarrow> outpost_config \<Rightarrow>
   (string, bytes) hashmap \<Rightarrow> (string, bytes) hashmap \<Rightarrow> (string + spool_error, outpost_state) result" where
  "build_state hash parse_url failed_at stats_fault config pending_files quarantine_files =
     rbind (map_err Inl (validate_config parse_url config)) (\<lambda>_.
     case open_spool hash failed_at pending_files quarantine_files (unat (oc_spool_max_bytes config)) of
       (spool, opened) \<Rightarrow>
         rbind (map_err Inr opened) (\<lambda>_.
         Ok (refresh_spool_metrics stats_fault
           \<lparr>os_config = config, os_spool = spool, os_metrics = new_outpost_metrics, os_kubernetes = []\<rparr>)))"

subsection \<open>HTTP surface\<close>

definition PAYLOAD_TOO_LARGE :: u16 where "PAYLOAD_TOO_LARGE = 413"

text \<open>
  \<open>POST /v1/observer/batches\<close>: the body limit of the router, then the handler. \<open>None\<close> is the answer of
  the limit.
\<close>

definition post_batch ::
  "accept_env \<Rightarrow> outpost_state \<Rightarrow> string option \<Rightarrow> bytes \<Rightarrow> outpost_state \<times> outpost_response option" where
  "post_batch env state authorization body =
     (if length body > oc_max_request_bytes (os_config state) then (state, None)
      else (case accept_batch env state authorization body of (state, response) \<Rightarrow> (state, Some response)))"

fun post_status :: "outpost_response option \<Rightarrow> u16" where
  "post_status None = PAYLOAD_TOO_LARGE"
| "post_status (Some response) = response_status_code response"

record outpost_health_response =
  oh_service :: string
  oh_status :: string
  oh_regional_cell_id :: string
  oh_spool_items :: usize
  oh_spool_bytes :: usize
  oh_quarantine_items :: usize
  oh_quarantine_bytes :: usize

definition outpost_health ::
  "io_fault option \<Rightarrow> io_fault option \<Rightarrow> outpost_state \<Rightarrow> u16 \<times> outpost_health_response option" where
  "outpost_health stats_fault quarantine_fault state =
     (case (spool_root_stats stats_fault (os_spool state), spool_quarantine_stats quarantine_fault (os_spool state)) of
        (Inr stats, Inr quarantine) \<Rightarrow>
          (200, Some \<lparr>oh_service = ''mongodb-dam-outpost'', oh_status = ''ok'',
             oh_regional_cell_id = oc_regional_cell_id (os_config state),
             oh_spool_items = st_items stats, oh_spool_bytes = st_bytes stats,
             oh_quarantine_items = st_items quarantine, oh_quarantine_bytes = st_bytes quarantine\<rparr>)
      | _ \<Rightarrow> (503, None))"

end
