(* ===== verification/Sensor.thy ===== *)
theory Sensor
  imports Batcher_Spec Outpost_Main
begin

text \<open>
  The sensor as a whole: the processor task, its event filter and the batcher one after another, as
  \<open>main\<close> connects them with channels, up to Outpost's answer.
\<close>

subsection \<open>The processor task\<close>

definition task_step ::
  "observer_start \<Rightarrow> event_processor \<times> runtime_metrics \<Rightarrow> env \<times> captured_kernel_event \<Rightarrow>
   (event_processor \<times> runtime_metrics) \<times> dam_event list" where
  "task_step su state input =
     processor_task_step (su_enabled_event_types su) (su_enabled_mongodb_commands su) (fst input) (snd input) state"

definition task_promise :: "crypto \<Rightarrow> observer_start \<Rightarrow> dam_event \<Rightarrow> bool" where
  "task_promise crypto su event \<longleftrightarrow> event_promise crypto (su_processor_config su) event \<and>
     event_is_enabled (su_enabled_event_types su) (su_enabled_mongodb_commands su) (ev_payload event)"

lemma task_step_processor:
  "fst (fst (task_step su (p, metrics) input)) = fst (process_step p input)"
  "snd (task_step su (p, metrics) input) = filter (\<lambda>event.
     event_is_enabled (su_enabled_event_types su) (su_enabled_mongodb_commands su) (ev_payload event)) (snd (process_step p input))"
  by (simp_all add: task_step_def processor_task_step_def process_step_def events_of_def Let_def case_prod_unfold
      split: sum.split)

interpretation task: stepper "task_step su" "same_crypto crypto" "\<lambda>state. processor_inv crypto (su_processor_config su) (fst state)"
  "task_promise crypto su" for su crypto
proof (unfold_locales, goal_cases)
  case (1 state input)
  then show ?case
    using kernel.step_invariant [of crypto "su_processor_config su" "fst state" input]
      task_step_processor(1) [of su "fst state" "snd state"] by simp
next
  case (2 state input)
  then show ?case
    using kernel.step_promise [of crypto "su_processor_config su" "fst state" input]
      task_step_processor(2) [of su "fst state" "snd state"]
    by (auto simp: task_promise_def list_all_iff)
qed

lemma task_run_promise:
  assumes "list_all (same_crypto crypto) inputs"
    and "run_steps (task_step su) (new_processor (su_processor_config su), metrics) inputs = (state, events)"
  shows "list_all (task_promise crypto su) events"
  by (rule task.run_promise [OF _ assms]) (simp add: inv_new)

subsection \<open>Start\<close>

lemma start_observer_OkD:
  assumes "start_observer files cli = Ok su"
  shows "validate_cli cli = Ok () \<and> parse_enabled_event_types (cli_enabled_event_types cli) = Ok (su_enabled_event_types su) \<and>
    parse_enabled_mongodb_commands (cli_enabled_mongodb_commands cli) = Ok (su_enabled_mongodb_commands su) \<and>
    su_assignment su = assignment_of cli \<and> su_max_events su = cli_batch_max_events cli \<and>
    (\<exists>salt. su_processor_config su = processor_config_of cli salt)"
  using assms by (auto simp: start_observer_def)

lemma validate_cli_OkD:
  "validate_cli cli = Ok () \<Longrightarrow>
     \<not> blank (cli_customer_id cli) \<and> \<not> blank (cli_tenant_id cli) \<and> \<not> blank (cli_source_id cli) \<and>
     \<not> blank (cli_regional_cell_id cli) \<and> \<not> blank (cli_node_name cli) \<and> 0 < cli_batch_max_events cli"
  by (simp add: validate_cli_def ensure_all_eq not_empty_checks_def)

lemma event_promise_ok:
  "event_promise crypto config event \<Longrightarrow> \<not> blank (pc_sensor_id config) \<Longrightarrow> \<not> blank (pc_node_name config) \<Longrightarrow>
     event_ok (config_identity config) event"
  by (simp add: event_promise_def event_ok_def)

text \<open>The settings with which \<open>main\<close> starts the batcher.\<close>

definition batcher_settings_of :: "crypto \<Rightarrow> (dam_batch \<Rightarrow> bytes option) \<Rightarrow> observer_start \<Rightarrow> batcher_settings" where
  "batcher_settings_of crypto encode su =
     \<lparr>bs_crypto = crypto, bs_encode = encode, bs_assignment = su_assignment su, bs_max_events = su_max_events su,
      bs_emit_sensor_health = su_emit_sensor_health su\<rparr>"

lemma started_settings_ok:
  assumes "start_observer files cli = Ok su" and "\<not> blank (sensor_id_of cli)"
  shows "settings_ok (batcher_settings_of crypto encode su)"
  using start_observer_OkD [OF assms(1)] validate_cli_OkD assms(2)
  by (simp add: settings_ok_def batcher_settings_of_def assignment_of_def)

lemma received_moments_ok:
  "list_all (event_ok (settings_identity settings)) (received_events moments) \<Longrightarrow> list_all (moment_ok settings) moments"
  by (induction moments) (auto simp: moment_ok_def split: batcher_input.splits)

lemma started_events_ok:
  assumes start: "start_observer files cli = Ok su" and sensor: "\<not> blank (sensor_id_of cli)"
    and inputs: "list_all (same_crypto crypto) inputs"
    and run: "run_steps (task_step su) (new_processor (su_processor_config su), metrics) inputs = (state, events)"
  shows "list_all (event_ok (settings_identity (batcher_settings_of crypto encode su))) events"
proof -
  obtain salt where config: "su_processor_config su = processor_config_of cli salt"
    using start_observer_OkD [OF start] by blast
  have "settings_identity (batcher_settings_of crypto encode su) = config_identity (su_processor_config su)"
    using start_observer_OkD [OF start] config
    by (simp add: settings_identity_def batcher_settings_of_def assignment_identity_def assignment_of_def
        config_identity_def processor_config_of_def)
  moreover have "\<not> blank (pc_sensor_id (su_processor_config su))" "\<not> blank (pc_node_name (su_processor_config su))"
    using sensor validate_cli_OkD start_observer_OkD [OF start] config by (auto simp: processor_config_of_def)
  ultimately show ?thesis
    using task_run_promise [OF inputs run] event_promise_ok by (auto simp: list_all_iff task_promise_def)
qed

lemma good_request_no_client_error:
  assumes "good_request env (os_config state) authorization body"
    and "length body \<le> oc_max_request_bytes (os_config state)"
  shows "\<not> is_client_error (post_status (snd (post_batch env state authorization body)))"
proof -
  obtain state' response where run: "accept_batch env state authorization body = (state', response)" by fastforce
  have "snd (post_batch env state authorization body) = Some response"
    using assms(2) run by (simp add: post_batch_def)
  moreover from assms(1) run have "\<not> is_client_error (response_status_code response)"
    by (rule good_request_run) (auto simp: is_client_error_def)
  ultimately show ?thesis by simp
qed

text \<open>A batch beyond Outpost's body limit is answered with 413, on which the sensor gives it up.\<close>

lemma oversized_batch_is_refused:
  "oc_max_request_bytes (os_config state) < length body \<Longrightarrow>
     is_client_error (post_status (snd (post_batch env state authorization body))) \<and>
     fst (post_batch env state authorization body) = state"
  by (simp add: post_batch_def is_client_error_def PAYLOAD_TOO_LARGE_def)

text \<open>
  C20: Outpost blames the client exactly when the client is to blame. A posted batch is answered with
  a client error, on which the Observer gives the batch up, if and only if its body exceeds Outpost's
  body limit, its credential is wrong, or its body is not a valid batch of this Outpost's customer,
  tenant, source and cell; a full disk, an I/O error or a failing encoder is never answered that way.
\<close>

theorem client_error_exactly_for_bad_requests:
  "is_client_error (post_status (snd (post_batch env state authorization body))) \<longleftrightarrow>
     \<not> (length body \<le> oc_max_request_bytes (os_config state) \<and> credential_ok (os_config state) authorization \<and>
        (\<exists>batch. ae_decode env body = Some batch \<and> validate batch = Ok () \<and>
           batch_identity batch = outpost_identity (os_config state)))"
proof (cases "oc_max_request_bytes (os_config state) < length body")
  case True
  then show ?thesis by (simp add: oversized_batch_is_refused)
next
  case small: False
  show ?thesis
  proof (cases "good_request env (os_config state) authorization body")
    case True
    with small good_request_no_client_error [OF True] show ?thesis by (auto simp: good_request_def own_batch_def)
  next
    case False
    then obtain r where "accept_batch env state authorization body = reject state r" "is_client_error (rejection_status r)"
      by (rule bad_request)
    with False small show ?thesis by (auto simp: good_request_def own_batch_def reject_def post_batch_def)
  qed
qed


lemma card_1_all: "''all'' \<in> s \<Longrightarrow> card s = 1 \<Longrightarrow> s = {''all''}"
  by (auto simp: card_1_singleton_iff)

lemma parsed_event_types:
  assumes "parse_enabled_event_types raw = Ok enabled"
  shows "enabled = None \<and> selected_names raw = {''all''} \<or> enabled = Some (selected_names raw)"
  using assms card_1_all [of "selected_names raw"]
  unfolding parse_enabled_event_types_def Let_def by (simp split: if_splits)

lemma parsed_commands:
  assumes "parse_enabled_mongodb_commands raw = Ok enabled"
  shows "enabled = None \<and> to_ascii_lowercase ` selected_names raw = {''all''} \<or>
    enabled = Some (to_ascii_lowercase ` selected_names raw)"
  using assms card_1_all [of "to_ascii_lowercase ` selected_names raw"]
  unfolding parse_enabled_mongodb_commands_def Let_def by (simp split: if_splits)

text \<open>The event is one that the two lists of the command line select.\<close>

definition selected_event :: "observer_cli \<Rightarrow> dam_event \<Rightarrow> bool" where
  "selected_event cli event \<longleftrightarrow>
    (selected_names (cli_enabled_event_types cli) = {''all''} \<or>
     event_type_name (ev_payload event) \<in> selected_names (cli_enabled_event_types cli)) \<and>
    (case ev_payload event of
       MongodbActivity activity \<Rightarrow>
         to_ascii_lowercase ` selected_names (cli_enabled_mongodb_commands cli) = {''all''} \<or>
         to_ascii_lowercase (act_command activity) \<in> to_ascii_lowercase ` selected_names (cli_enabled_mongodb_commands cli)
     | _ \<Rightarrow> True)"

lemma enabled_is_selected:
  assumes "start_observer files cli = Ok su"
    and "event_is_enabled (su_enabled_event_types su) (su_enabled_mongodb_commands su) (ev_payload event)"
  shows "selected_event cli event"
proof -
  have types: "su_enabled_event_types su = None \<and> selected_names (cli_enabled_event_types cli) = {''all''} \<or>
      su_enabled_event_types su = Some (selected_names (cli_enabled_event_types cli))"
    using parsed_event_types start_observer_OkD [OF assms(1)] by blast
  have commands: "su_enabled_mongodb_commands su = None \<and>
        to_ascii_lowercase ` selected_names (cli_enabled_mongodb_commands cli) = {''all''} \<or>
      su_enabled_mongodb_commands su = Some (to_ascii_lowercase ` selected_names (cli_enabled_mongodb_commands cli))"
    using parsed_commands start_observer_OkD [OF assms(1)] by blast
  show ?thesis
    unfolding selected_event_def
  proof
    show "selected_names (cli_enabled_event_types cli) = {''all''} \<or>
        event_type_name (ev_payload event) \<in> selected_names (cli_enabled_event_types cli)"
      using assms(2) types by (elim disjE) (simp_all add: event_is_enabled_def event_type_is_enabled_def)
  qed (use assms(2) commands in \<open>elim disjE, simp_all add: event_is_enabled_def split: event_payload.splits\<close>)
qed

text \<open>
  C29: only what the operator selected leaves the sensor. Every event the processor task sends on has a
  type that the list of enabled event types names, or that list is \<open>all\<close>; and a MongoDB activity has a
  command that the list of enabled commands names, in any case, or that list is \<open>all\<close>.
\<close>

theorem only_selected_events_leave_the_sensor:
  assumes start: "start_observer files cli = Ok su" and inputs: "list_all (same_crypto crypto) inputs"
    and events: "run_steps (task_step su) (new_processor (su_processor_config su), metrics) inputs = (state, events)"
  shows "list_all (selected_event cli) events"
  by (rule list.pred_mono_strong [OF task_run_promise [OF inputs events]])
    (simp add: enabled_is_selected [OF start] task_promise_def)

subsection \<open>Samples\<close>

definition sample_cli :: observer_cli where
  "sample_cli =
     \<lparr>cli_customer_id = ''customer'', cli_tenant_id = ''tenant'', cli_source_id = ''source'',
      cli_regional_cell_id = ''cell'', cli_cluster_name = ''cluster'', cli_node_name = ''node'',
      cli_sensor_id = None, cli_outpost_url = ''http://outpost'', cli_internal_token_file = None,
      cli_principal_hash_salt_file = None, cli_host_proc = ''/proc'', cli_batch_max_events = 2,
      cli_enabled_event_types = ''all'', cli_enabled_mongodb_commands = ''all'',
      cli_capture_query_content = False, cli_batch_flush_milliseconds = 1000, cli_export_interval_seconds = 5,
      cli_rescan_seconds = 2, cli_max_message_bytes = 1000, cli_cpu_profile_hz = 49, cli_mongodb_port = 27017,
      cli_tls_uprobes = Auto, cli_lock_profiling = True\<rparr>"

lemma selected_all: "selected_names ''all'' = {''all''}"
  by code_simp

lemma sample_cli_valid: "validate_cli (sample_cli\<lparr>cli_sensor_id := s\<rparr>) = Ok ()"
  by (simp add: validate_cli_def ensure_all_eq not_empty_checks_def sample_cli_def not_blank_letter in_range_def)

lemma sample_start:
  "\<exists>su. start_observer (\<lambda>_. None) (sample_cli\<lparr>cli_sensor_id := s\<rparr>) = Ok su \<and> su_emit_sensor_health su"
  using sample_cli_valid [of s]
  by (simp add: start_observer_def parse_enabled_event_types_def parse_enabled_mongodb_commands_def selected_all
      read_secret_option_def event_type_is_enabled_def Let_def)
    (simp add: sample_cli_def selected_all to_ascii_lowercase_def char_lower_def in_range_def read_secret_option_def)

text \<open>
  The start does not look at the sensor name: with an empty one the sensor runs, and a batch with one of
  its health reports fails validation, as every other event of it does.
\<close>

lemma blank_sensor_name_starts_and_fails:
  "\<exists>su. start_observer (\<lambda>_. None) (sample_cli\<lparr>cli_sensor_id := Some []\<rparr>) = Ok su \<and>
     validate (batch_of crypto (su_assignment su) now
       [sensor_health_event crypto (su_assignment su) fault spool metrics now]) =
     Fail ''event identity fields must not be empty''"
proof -
  obtain su where start: "start_observer (\<lambda>_. None) (sample_cli\<lparr>cli_sensor_id := Some []\<rparr>) = Ok su"
    using sample_start by blast
  then have "su_assignment su = assignment_of (sample_cli\<lparr>cli_sensor_id := Some []\<rparr>)"
    using start_observer_OkD by blast
  then have assignment: "as_sensor_id (su_assignment su) = []" "\<not> blank (as_customer_id (su_assignment su))"
    "\<not> blank (as_tenant_id (su_assignment su))" "\<not> blank (as_source_id (su_assignment su))"
    "\<not> blank (as_regional_cell_id (su_assignment su))"
    by (simp_all add: assignment_of_def sensor_id_of_def sample_cli_def not_blank_letter in_range_def)
  with start not_blank_batch show ?thesis
    by (intro exI [of _ su]) (simp add: validate_def batch_of_def sensor_health_event_def Let_def)
qed

definition sample_sensor_moments :: "batcher_moment list" where
  "sample_sensor_moments = [\<lparr>bm_input = Tick, bm_instant = 60000000001, bm_utc = 1, bm_fault = None\<rparr>]"


theorem only_selected_events_leave_the_sensor_witness:
  "\<exists>su. start_observer (\<lambda>_. None) sample_cli = Ok su \<and>
     list_all (selected_event sample_cli)
       (snd (run_steps (task_step su) (new_processor (su_processor_config su), sample_runtime_metrics)
         [sample_input 5 15 [], sample_input 3 8 []]))"
proof -
  have cli: "sample_cli\<lparr>cli_sensor_id := None\<rparr> = sample_cli" by (simp add: sample_cli_def)
  obtain su where "start_observer (\<lambda>_. None) sample_cli = Ok su"
    using sample_start [of None] unfolding cli by blast
  then show ?thesis
    using only_selected_events_leave_the_sensor [OF _ sample_same_crypto surjective_pairing] by blast
qed

end
