(* ===== verification/Schema_Json.thy ===== *)
theory Schema_Json
  imports Schema "HOL-Library.Monad_Syntax"
begin

text \<open>
  The JSON form of batches: what the \<open>serde\<close> attributes of \<open>crates/schema/src/lib.rs\<close>
  say of each record. Field names, the fields left
  out when they are empty, the \<open>snake_case\<close> names of variants, the tag and content of a payload and the
  flattening of the payload into its event are those of the source. The text of an instant
  (\<open>time::serde::rfc3339\<close>) is the parameter \<open>rfc3339\<close>, which has no text for a year past 9999.

  The reference reader at the end looks members up by name. It recovers every batch, so that nothing
  is lost or confused on the wire.
\<close>

subsection \<open>Members\<close>

text \<open>The members of a structure in the order of its fields; \<open>None\<close> is a field that is left out.\<close>

definition json_struct :: "(string \<times> json_value option) list \<Rightarrow> json_value" where
  "json_struct entries = JObject (List.map_filter (\<lambda>(key, v). map_option (Pair key) v) entries)"

definition json_uint :: "'w::len word \<Rightarrow> json_value" where
  "json_uint n = JNumber (PosInt (ucast n))"

definition non_empty :: "('a \<Rightarrow> json_value) \<Rightarrow> 'a list \<Rightarrow> json_value option" where
  "non_empty f xs = (if xs = [] then None else Some (JArray (map f xs)))"

subsection \<open>Records of the schema\<close>

fun capture_source_json :: "capture_source \<Rightarrow> json_value" where
  "capture_source_json CleartextSyscall = JString ''cleartext_syscall''"
| "capture_source_json OpenSslUprobe = JString ''open_ssl_uprobe''"
| "capture_source_json UserUprobe = JString ''user_uprobe''"
| "capture_source_json KernelTracepoint = JString ''kernel_tracepoint''"
| "capture_source_json PerfEvent = JString ''perf_event''"
| "capture_source_json Sensor = JString ''sensor''"

fun capture_confidence_json :: "capture_confidence \<Rightarrow> json_value" where
  "capture_confidence_json Complete = JString ''complete''"
| "capture_confidence_json Partial = JString ''partial''"
| "capture_confidence_json Inferred = JString ''inferred''"
| "capture_confidence_json Unknown = JString ''unknown''"

definition capture_metadata_json :: "capture_metadata \<Rightarrow> json_value" where
  "capture_metadata_json c = json_struct
     [(''sensor_id'', Some (JString (cap_sensor_id c))),
      (''node_name'', Some (JString (cap_node_name c))),
      (''source'', Some (capture_source_json (cap_source c))),
      (''confidence'', Some (capture_confidence_json (cap_confidence c))),
      (''metadata_only'', Some (JBool (cap_metadata_only c))),
      (''truncated'', Some (JBool (cap_truncated c)))]"

definition kubernetes_metadata_json :: "kubernetes_metadata \<Rightarrow> json_value" where
  "kubernetes_metadata_json k = json_struct
     [(''cluster_name'', map_option JString (k8s_cluster_name k)),
      (''namespace'', map_option JString (k8s_namespace k)),
      (''pod_name'', map_option JString (k8s_pod_name k)),
      (''pod_uid'', map_option JString (k8s_pod_uid k)),
      (''container_name'', map_option JString (k8s_container_name k)),
      (''workload_kind'', map_option JString (k8s_workload_kind k)),
      (''workload_name'', map_option JString (k8s_workload_name k)),
      (''labels'', map_option (\<lambda>labels. JObject (map (\<lambda>(key, v). (key, JString v)) labels)) (k8s_labels k))]"

definition process_metadata_json :: "process_metadata \<Rightarrow> json_value" where
  "process_metadata_json p = json_struct
     [(''pid'', Some (json_uint (proc_pid p))),
      (''tgid'', Some (json_uint (proc_tgid p))),
      (''uid'', map_option json_uint (proc_uid p)),
      (''gid'', map_option json_uint (proc_gid p)),
      (''cgroup_id'', map_option json_uint (proc_cgroup_id p)),
      (''command'', Some (JString (proc_command p))),
      (''executable'', map_option JString (proc_executable p))]"

definition external_identity_json :: "external_identity \<Rightarrow> json_value" where
  "external_identity_json x = json_struct
     [(''provider'', Some (JString (xid_provider x))),
      (''principal_type'', Some (JString (xid_principal_type x))),
      (''principal_arn'', Some (JString (xid_principal_arn x))),
      (''account_id'', Some (JString (xid_account_id x))),
      (''credential_source'', Some (JString (xid_credential_source x))),
      (''credential_resource'', Some (JString (xid_credential_resource x)))]"

definition network_endpoint_json :: "network_endpoint \<Rightarrow> json_value" where
  "network_endpoint_json e = json_struct
     [(''address'', map_option JString (ep_address e)),
      (''port'', map_option json_uint (ep_port e))]"

definition connection_metadata_json :: "connection_metadata \<Rightarrow> json_value" where
  "connection_metadata_json c = json_struct
     [(''connection_id'', Some (JString (conn_connection_id c))),
      (''fd'', Some (json_i32 (conn_fd c))),
      (''local'', map_option network_endpoint_json (conn_local c)),
      (''remote'', map_option network_endpoint_json (conn_remote c)),
      (''tcp_srtt_us'', map_option json_uint (conn_tcp_srtt_us c)),
      (''retransmits'', map_option json_uint (conn_retransmits c)),
      (''tls'', map_option JBool (conn_tls c))]"

definition mongodb_activity_json :: "mongodb_activity \<Rightarrow> json_value" where
  "mongodb_activity_json a = json_struct
     [(''command'', Some (JString (act_command a))),
      (''database'', map_option JString (act_database a)),
      (''collection'', map_option JString (act_collection a)),
      (''principal'', map_option JString (act_principal a)),
      (''principal_hashed'', Some (JBool (act_principal_hashed a))),
      (''delete_scope'', map_option JString (act_delete_scope a)),
      (''delete_statements'', map_option json_uint (act_delete_statements a)),
      (''affected_documents'', map_option json_uint (act_affected_documents a)),
      (''query'', act_query a),
      (''request_id'', Some (json_i32 (act_request_id a))),
      (''response_id'', map_option json_i32 (act_response_id a)),
      (''request_bytes'', Some (json_uint (act_request_bytes a))),
      (''response_bytes'', map_option json_uint (act_response_bytes a)),
      (''duration_us'', map_option json_uint (act_duration_us a)),
      (''succeeded'', map_option JBool (act_succeeded a)),
      (''error_code'', map_option json_i32 (act_error_code a)),
      (''error_name'', map_option JString (act_error_name a)),
      (''expects_response'', Some (JBool (act_expects_response a))),
      (''compressed'', Some (JBool (act_compressed a))),
      (''connection'', Some (connection_metadata_json (act_connection a)))]"

definition mongodb_connection_json :: "mongodb_connection \<Rightarrow> json_value" where
  "mongodb_connection_json c = json_struct
     [(''state'', Some (JString (mc_state c))),
      (''connection'', Some (connection_metadata_json (mc_connection c))),
      (''duration_us'', map_option json_uint (mc_duration_us c)),
      (''reason'', map_option JString (mc_reason c))]"

definition mongodb_auth_json :: "mongodb_auth \<Rightarrow> json_value" where
  "mongodb_auth_json a = json_struct
     [(''mechanism'', Some (JString (au_mechanism a))),
      (''principal'', map_option JString (au_principal a)),
      (''principal_hashed'', Some (JBool (au_principal_hashed a))),
      (''succeeded'', map_option JBool (au_succeeded a)),
      (''connection_id'', Some (JString (au_connection_id a)))]"

definition dns_activity_json :: "dns_activity \<Rightarrow> json_value" where
  "dns_activity_json d = json_struct
     [(''operation'', Some (JString (dns_operation d))),
      (''transport'', Some (JString (dns_transport d))),
      (''query_id'', Some (json_uint (dns_query_id d))),
      (''name'', map_option JString (dns_name d)),
      (''record_type'', map_option JString (dns_record_type d)),
      (''response_code'', map_option json_uint (dns_response_code d)),
      (''answer_count'', map_option json_uint (dns_answer_count d)),
      (''duration_us'', map_option json_uint (dns_duration_us d)),
      (''connection'', Some (connection_metadata_json (dns_connection d)))]"

definition host_io_json :: "host_io \<Rightarrow> json_value" where
  "host_io_json h = json_struct
     [(''operation'', Some (JString (io_operation h))),
      (''duration_us'', Some (json_uint (io_duration_us h))),
      (''bytes'', map_option json_uint (io_bytes h)),
      (''fd'', map_option json_i32 (io_fd h)),
      (''result'', Some (json_i64 (io_result h)))]"

definition profile_sample_json :: "profile_sample \<Rightarrow> json_value" where
  "profile_sample_json p = json_struct
     [(''profile_type'', Some (JString (prof_profile_type p))),
      (''period_hz'', Some (json_uint (prof_period_hz p))),
      (''count'', Some (json_uint (prof_count p))),
      (''user_stack_id'', Some (json_i32 (prof_user_stack_id p))),
      (''kernel_stack_id'', Some (json_i32 (prof_kernel_stack_id p))),
      (''duration_us'', map_option json_uint (prof_duration_us p)),
      (''user_stack_addresses'', non_empty json_uint (prof_user_stack_addresses p)),
      (''kernel_stack_addresses'', non_empty json_uint (prof_kernel_stack_addresses p))]"

definition process_lifecycle_json :: "process_lifecycle \<Rightarrow> json_value" where
  "process_lifecycle_json p = json_struct
     [(''state'', Some (JString (pl_state p))),
      (''executable'', map_option JString (pl_executable p))]"

definition sensor_health_json :: "sensor_health \<Rightarrow> json_value" where
  "sensor_health_json s = json_struct
     [(''status'', Some (JString (sh_status s))),
      (''component'', Some (JString (sh_component s))),
      (''reason'', Some (JString (sh_reason s))),
      (''dropped_events'', Some (json_uint (sh_dropped_events s))),
      (''parse_errors'', Some (json_uint (sh_parse_errors s))),
      (''spool_bytes'', Some (json_uint (sh_spool_bytes s)))]"

text \<open>The tag and the content of a payload.\<close>

fun event_payload_json :: "event_payload \<Rightarrow> string \<times> json_value" where
  "event_payload_json (MongodbActivity a) = (''mongodb_activity'', mongodb_activity_json a)"
| "event_payload_json (MongodbConnection c) = (''mongodb_connection'', mongodb_connection_json c)"
| "event_payload_json (MongodbAuth a) = (''mongodb_auth'', mongodb_auth_json a)"
| "event_payload_json (DnsActivity d) = (''dns_activity'', dns_activity_json d)"
| "event_payload_json (HostIo h) = (''host_io'', host_io_json h)"
| "event_payload_json (Profile p) = (''profile'', profile_sample_json p)"
| "event_payload_json (ProcessLifecycle p) = (''process_lifecycle'', process_lifecycle_json p)"
| "event_payload_json (SensorHealth s) = (''sensor_health'', sensor_health_json s)"

definition event_entries :: "string \<Rightarrow> dam_event \<Rightarrow> (string \<times> json_value option) list" where
  "event_entries observed_at e =
     [(''schema_version'', Some (json_uint (ev_schema_version e))),
      (''event_id'', Some (JString (ev_event_id e))),
      (''observed_at'', Some (JString observed_at)),
      (''monotonic_timestamp_ns'', Some (json_uint (ev_monotonic_timestamp_ns e))),
      (''customer_id'', Some (JString (ev_customer_id e))),
      (''tenant_id'', Some (JString (ev_tenant_id e))),
      (''source_id'', Some (JString (ev_source_id e))),
      (''regional_cell_id'', Some (JString (ev_regional_cell_id e))),
      (''capture'', Some (capture_metadata_json (ev_capture e))),
      (''kubernetes'', map_option kubernetes_metadata_json (ev_kubernetes e)),
      (''process'', map_option process_metadata_json (ev_process e)),
      (''identity'', map_option external_identity_json (ev_identity e)),
      (''event_type'', Some (JString (fst (event_payload_json (ev_payload e))))),
      (''details'', Some (snd (event_payload_json (ev_payload e))))]"

definition dam_event_json :: "(instant \<Rightarrow> string option) \<Rightarrow> dam_event \<Rightarrow> json_value option" where
  "dam_event_json rfc3339 e = map_option (\<lambda>observed_at. json_struct (event_entries observed_at e)) (rfc3339 (ev_observed_at e))"

fun traverse :: "('a \<Rightarrow> 'b option) \<Rightarrow> 'a list \<Rightarrow> 'b list option" where
  "traverse f [] = Some []"
| "traverse f (x # xs) = Option.bind (f x) (\<lambda>y. map_option (Cons y) (traverse f xs))"

definition dam_batch_json :: "(instant \<Rightarrow> string option) \<Rightarrow> dam_batch \<Rightarrow> json_value option" where
  "dam_batch_json rfc3339 b =
     Option.bind (rfc3339 (ba_created_at b)) (\<lambda>created_at.
     map_option (\<lambda>events. json_struct
       [(''schema_version'', Some (json_uint (ba_schema_version b))),
        (''batch_id'', Some (JString (ba_batch_id b))),
        (''customer_id'', Some (JString (ba_customer_id b))),
        (''tenant_id'', Some (JString (ba_tenant_id b))),
        (''source_id'', Some (JString (ba_source_id b))),
        (''regional_cell_id'', Some (JString (ba_regional_cell_id b))),
        (''created_at'', Some (JString created_at)),
        (''events'', Some (JArray events))])
     (traverse (dam_event_json rfc3339) (ba_events b)))"

subsection \<open>Reference reader\<close>

fun read_text :: "json_value \<Rightarrow> string option" where
  "read_text (JString s) = Some s"
| "read_text _ = None"

fun read_bool :: "json_value \<Rightarrow> bool option" where
  "read_bool (JBool b) = Some b"
| "read_bool _ = None"

fun read_uint :: "json_value \<Rightarrow> 'w::len word option" where
  "read_uint (JNumber (PosInt n)) = (if unat n < 2 ^ LENGTH('w) then Some (ucast n) else None)"
| "read_uint _ = None"

fun read_int :: "json_value \<Rightarrow> int option" where
  "read_int (JNumber (PosInt n)) = Some (uint n)"
| "read_int (JNumber (NegInt n)) = Some (sint n)"
| "read_int _ = None"

definition read_i32_json :: "json_value \<Rightarrow> i32 option" where
  "read_i32_json j = Option.bind (read_int j) (\<lambda>n. if - (2 ^ 31) \<le> n \<and> n < 2 ^ 31 then Some (word_of_int n) else None)"

definition read_i64_json :: "json_value \<Rightarrow> i64 option" where
  "read_i64_json j = Option.bind (read_int j) (\<lambda>n. if - (2 ^ 63) \<le> n \<and> n < 2 ^ 63 then Some (word_of_int n) else None)"

fun read_list :: "(json_value \<Rightarrow> 'a option) \<Rightarrow> json_value \<Rightarrow> 'a list option" where
  "read_list r (JArray js) = traverse r js"
| "read_list r _ = None"

text \<open>A member that must be there, one that may be absent or null, one that is empty when absent.\<close>

definition required :: "(json_value \<Rightarrow> 'a option) \<Rightarrow> json_value option \<Rightarrow> 'a option" where
  "required r j = Option.bind j r"

definition optional :: "(json_value \<Rightarrow> 'a option) \<Rightarrow> json_value option \<Rightarrow> 'a option option" where
  "optional r j = (case j of None \<Rightarrow> Some None | Some j \<Rightarrow> if j = JNull then Some None else map_option Some (r j))"

definition defaulted :: "(json_value \<Rightarrow> 'a list option) \<Rightarrow> json_value option \<Rightarrow> 'a list option" where
  "defaulted r j = (case j of None \<Rightarrow> Some [] | Some j \<Rightarrow> r j)"

fun json_members_of :: "json_value \<Rightarrow> (string \<Rightarrow> json_value option) option" where
  "json_members_of (JObject entries) = Some (map_of entries)"
| "json_members_of _ = None"

fun read_capture_source :: "json_value \<Rightarrow> capture_source option" where
  "read_capture_source (JString s) =
     map_of [(''cleartext_syscall'', CleartextSyscall), (''open_ssl_uprobe'', OpenSslUprobe), (''user_uprobe'', UserUprobe),
       (''kernel_tracepoint'', KernelTracepoint), (''perf_event'', PerfEvent), (''sensor'', Sensor)] s"
| "read_capture_source _ = None"

fun read_capture_confidence :: "json_value \<Rightarrow> capture_confidence option" where
  "read_capture_confidence (JString s) =
     map_of [(''complete'', Complete), (''partial'', Partial), (''inferred'', Inferred), (''unknown'', Unknown)] s"
| "read_capture_confidence _ = None"

fun read_labels :: "json_value \<Rightarrow> (string, string) hashmap option" where
  "read_labels (JObject entries) = traverse (\<lambda>(key, v). map_option (Pair key) (read_text v)) entries"
| "read_labels _ = None"

definition read_capture_metadata :: "json_value \<Rightarrow> capture_metadata option" where
  "read_capture_metadata j = do {
       m \<leftarrow> json_members_of j;
       v_sensor_id \<leftarrow> required read_text (m ''sensor_id'');
       v_node_name \<leftarrow> required read_text (m ''node_name'');
       v_source \<leftarrow> required read_capture_source (m ''source'');
       v_confidence \<leftarrow> required read_capture_confidence (m ''confidence'');
       v_metadata_only \<leftarrow> required read_bool (m ''metadata_only'');
       v_truncated \<leftarrow> required read_bool (m ''truncated'');
       Some \<lparr>cap_sensor_id = v_sensor_id, cap_node_name = v_node_name, cap_source = v_source,
         cap_confidence = v_confidence, cap_metadata_only = v_metadata_only, cap_truncated = v_truncated\<rparr>
     }"

definition read_kubernetes_metadata :: "json_value \<Rightarrow> kubernetes_metadata option" where
  "read_kubernetes_metadata j = do {
       m \<leftarrow> json_members_of j;
       v_cluster_name \<leftarrow> optional read_text (m ''cluster_name'');
       v_namespace \<leftarrow> optional read_text (m ''namespace'');
       v_pod_name \<leftarrow> optional read_text (m ''pod_name'');
       v_pod_uid \<leftarrow> optional read_text (m ''pod_uid'');
       v_container_name \<leftarrow> optional read_text (m ''container_name'');
       v_workload_kind \<leftarrow> optional read_text (m ''workload_kind'');
       v_workload_name \<leftarrow> optional read_text (m ''workload_name'');
       v_labels \<leftarrow> optional read_labels (m ''labels'');
       Some \<lparr>k8s_cluster_name = v_cluster_name, k8s_namespace = v_namespace, k8s_pod_name = v_pod_name,
         k8s_pod_uid = v_pod_uid, k8s_container_name = v_container_name, k8s_workload_kind = v_workload_kind,
         k8s_workload_name = v_workload_name, k8s_labels = v_labels\<rparr>
     }"

definition read_process_metadata :: "json_value \<Rightarrow> process_metadata option" where
  "read_process_metadata j = do {
       m \<leftarrow> json_members_of j;
       v_pid \<leftarrow> required read_uint (m ''pid'');
       v_tgid \<leftarrow> required read_uint (m ''tgid'');
       v_uid \<leftarrow> optional read_uint (m ''uid'');
       v_gid \<leftarrow> optional read_uint (m ''gid'');
       v_cgroup_id \<leftarrow> optional read_uint (m ''cgroup_id'');
       v_command \<leftarrow> required read_text (m ''command'');
       v_executable \<leftarrow> optional read_text (m ''executable'');
       Some \<lparr>proc_pid = v_pid, proc_tgid = v_tgid, proc_uid = v_uid, proc_gid = v_gid,
         proc_cgroup_id = v_cgroup_id, proc_command = v_command, proc_executable = v_executable\<rparr>
     }"

definition read_external_identity :: "json_value \<Rightarrow> external_identity option" where
  "read_external_identity j = do {
       m \<leftarrow> json_members_of j;
       v_provider \<leftarrow> required read_text (m ''provider'');
       v_principal_type \<leftarrow> required read_text (m ''principal_type'');
       v_principal_arn \<leftarrow> required read_text (m ''principal_arn'');
       v_account_id \<leftarrow> required read_text (m ''account_id'');
       v_credential_source \<leftarrow> required read_text (m ''credential_source'');
       v_credential_resource \<leftarrow> required read_text (m ''credential_resource'');
       Some \<lparr>xid_provider = v_provider, xid_principal_type = v_principal_type,
         xid_principal_arn = v_principal_arn, xid_account_id = v_account_id,
         xid_credential_source = v_credential_source, xid_credential_resource = v_credential_resource\<rparr>
     }"

definition read_network_endpoint :: "json_value \<Rightarrow> network_endpoint option" where
  "read_network_endpoint j = do {
       m \<leftarrow> json_members_of j;
       v_address \<leftarrow> optional read_text (m ''address'');
       v_port \<leftarrow> optional read_uint (m ''port'');
       Some \<lparr>ep_address = v_address, ep_port = v_port\<rparr>
     }"

definition read_connection_metadata :: "json_value \<Rightarrow> connection_metadata option" where
  "read_connection_metadata j = do {
       m \<leftarrow> json_members_of j;
       v_connection_id \<leftarrow> required read_text (m ''connection_id'');
       v_fd \<leftarrow> required read_i32_json (m ''fd'');
       v_local \<leftarrow> optional read_network_endpoint (m ''local'');
       v_remote \<leftarrow> optional read_network_endpoint (m ''remote'');
       v_tcp_srtt_us \<leftarrow> optional read_uint (m ''tcp_srtt_us'');
       v_retransmits \<leftarrow> optional read_uint (m ''retransmits'');
       v_tls \<leftarrow> optional read_bool (m ''tls'');
       Some \<lparr>conn_connection_id = v_connection_id, conn_fd = v_fd, conn_local = v_local,
         conn_remote = v_remote, conn_tcp_srtt_us = v_tcp_srtt_us, conn_retransmits = v_retransmits,
         conn_tls = v_tls\<rparr>
     }"

definition read_mongodb_activity :: "json_value \<Rightarrow> mongodb_activity option" where
  "read_mongodb_activity j = do {
       m \<leftarrow> json_members_of j;
       v_command \<leftarrow> required read_text (m ''command'');
       v_database \<leftarrow> optional read_text (m ''database'');
       v_collection \<leftarrow> optional read_text (m ''collection'');
       v_principal \<leftarrow> optional read_text (m ''principal'');
       v_principal_hashed \<leftarrow> required read_bool (m ''principal_hashed'');
       v_delete_scope \<leftarrow> optional read_text (m ''delete_scope'');
       v_delete_statements \<leftarrow> optional read_uint (m ''delete_statements'');
       v_affected_documents \<leftarrow> optional read_uint (m ''affected_documents'');
       v_query \<leftarrow> optional Some (m ''query'');
       v_request_id \<leftarrow> required read_i32_json (m ''request_id'');
       v_response_id \<leftarrow> optional read_i32_json (m ''response_id'');
       v_request_bytes \<leftarrow> required read_uint (m ''request_bytes'');
       v_response_bytes \<leftarrow> optional read_uint (m ''response_bytes'');
       v_duration_us \<leftarrow> optional read_uint (m ''duration_us'');
       v_succeeded \<leftarrow> optional read_bool (m ''succeeded'');
       v_error_code \<leftarrow> optional read_i32_json (m ''error_code'');
       v_error_name \<leftarrow> optional read_text (m ''error_name'');
       v_expects_response \<leftarrow> required read_bool (m ''expects_response'');
       v_compressed \<leftarrow> required read_bool (m ''compressed'');
       v_connection \<leftarrow> required read_connection_metadata (m ''connection'');
       Some \<lparr>act_command = v_command, act_database = v_database, act_collection = v_collection,
         act_principal = v_principal, act_principal_hashed = v_principal_hashed,
         act_delete_scope = v_delete_scope, act_delete_statements = v_delete_statements,
         act_affected_documents = v_affected_documents, act_query = v_query, act_request_id = v_request_id,
         act_response_id = v_response_id, act_request_bytes = v_request_bytes,
         act_response_bytes = v_response_bytes, act_duration_us = v_duration_us, act_succeeded = v_succeeded,
         act_error_code = v_error_code, act_error_name = v_error_name,
         act_expects_response = v_expects_response, act_compressed = v_compressed,
         act_connection = v_connection\<rparr>
     }"

definition read_mongodb_connection :: "json_value \<Rightarrow> mongodb_connection option" where
  "read_mongodb_connection j = do {
       m \<leftarrow> json_members_of j;
       v_state \<leftarrow> required read_text (m ''state'');
       v_connection \<leftarrow> required read_connection_metadata (m ''connection'');
       v_duration_us \<leftarrow> optional read_uint (m ''duration_us'');
       v_reason \<leftarrow> optional read_text (m ''reason'');
       Some \<lparr>mc_state = v_state, mc_connection = v_connection, mc_duration_us = v_duration_us,
         mc_reason = v_reason\<rparr>
     }"

definition read_mongodb_auth :: "json_value \<Rightarrow> mongodb_auth option" where
  "read_mongodb_auth j = do {
       m \<leftarrow> json_members_of j;
       v_mechanism \<leftarrow> required read_text (m ''mechanism'');
       v_principal \<leftarrow> optional read_text (m ''principal'');
       v_principal_hashed \<leftarrow> required read_bool (m ''principal_hashed'');
       v_succeeded \<leftarrow> optional read_bool (m ''succeeded'');
       v_connection_id \<leftarrow> required read_text (m ''connection_id'');
       Some \<lparr>au_mechanism = v_mechanism, au_principal = v_principal,
         au_principal_hashed = v_principal_hashed, au_succeeded = v_succeeded,
         au_connection_id = v_connection_id\<rparr>
     }"

definition read_dns_activity :: "json_value \<Rightarrow> dns_activity option" where
  "read_dns_activity j = do {
       m \<leftarrow> json_members_of j;
       v_operation \<leftarrow> required read_text (m ''operation'');
       v_transport \<leftarrow> required read_text (m ''transport'');
       v_query_id \<leftarrow> required read_uint (m ''query_id'');
       v_name \<leftarrow> optional read_text (m ''name'');
       v_record_type \<leftarrow> optional read_text (m ''record_type'');
       v_response_code \<leftarrow> optional read_uint (m ''response_code'');
       v_answer_count \<leftarrow> optional read_uint (m ''answer_count'');
       v_duration_us \<leftarrow> optional read_uint (m ''duration_us'');
       v_connection \<leftarrow> required read_connection_metadata (m ''connection'');
       Some \<lparr>dns_operation = v_operation, dns_transport = v_transport, dns_query_id = v_query_id,
         dns_name = v_name, dns_record_type = v_record_type, dns_response_code = v_response_code,
         dns_answer_count = v_answer_count, dns_duration_us = v_duration_us,
         dns_connection = v_connection\<rparr>
     }"

definition read_host_io :: "json_value \<Rightarrow> host_io option" where
  "read_host_io j = do {
       m \<leftarrow> json_members_of j;
       v_operation \<leftarrow> required read_text (m ''operation'');
       v_duration_us \<leftarrow> required read_uint (m ''duration_us'');
       v_bytes \<leftarrow> optional read_uint (m ''bytes'');
       v_fd \<leftarrow> optional read_i32_json (m ''fd'');
       v_result \<leftarrow> required read_i64_json (m ''result'');
       Some \<lparr>io_operation = v_operation, io_duration_us = v_duration_us, io_bytes = v_bytes,
         io_fd = v_fd, io_result = v_result\<rparr>
     }"

definition read_profile_sample :: "json_value \<Rightarrow> profile_sample option" where
  "read_profile_sample j = do {
       m \<leftarrow> json_members_of j;
       v_profile_type \<leftarrow> required read_text (m ''profile_type'');
       v_period_hz \<leftarrow> required read_uint (m ''period_hz'');
       v_count \<leftarrow> required read_uint (m ''count'');
       v_user_stack_id \<leftarrow> required read_i32_json (m ''user_stack_id'');
       v_kernel_stack_id \<leftarrow> required read_i32_json (m ''kernel_stack_id'');
       v_duration_us \<leftarrow> optional read_uint (m ''duration_us'');
       v_user_stack_addresses \<leftarrow> defaulted (read_list read_uint) (m ''user_stack_addresses'');
       v_kernel_stack_addresses \<leftarrow> defaulted (read_list read_uint) (m ''kernel_stack_addresses'');
       Some \<lparr>prof_profile_type = v_profile_type, prof_period_hz = v_period_hz, prof_count = v_count,
         prof_user_stack_id = v_user_stack_id, prof_kernel_stack_id = v_kernel_stack_id,
         prof_duration_us = v_duration_us, prof_user_stack_addresses = v_user_stack_addresses,
         prof_kernel_stack_addresses = v_kernel_stack_addresses\<rparr>
     }"

definition read_process_lifecycle :: "json_value \<Rightarrow> process_lifecycle option" where
  "read_process_lifecycle j = do {
       m \<leftarrow> json_members_of j;
       v_state \<leftarrow> required read_text (m ''state'');
       v_executable \<leftarrow> optional read_text (m ''executable'');
       Some \<lparr>pl_state = v_state, pl_executable = v_executable\<rparr>
     }"

definition read_sensor_health :: "json_value \<Rightarrow> sensor_health option" where
  "read_sensor_health j = do {
       m \<leftarrow> json_members_of j;
       v_status \<leftarrow> required read_text (m ''status'');
       v_component \<leftarrow> required read_text (m ''component'');
       v_reason \<leftarrow> required read_text (m ''reason'');
       v_dropped_events \<leftarrow> required read_uint (m ''dropped_events'');
       v_parse_errors \<leftarrow> required read_uint (m ''parse_errors'');
       v_spool_bytes \<leftarrow> required read_uint (m ''spool_bytes'');
       Some \<lparr>sh_status = v_status, sh_component = v_component, sh_reason = v_reason,
         sh_dropped_events = v_dropped_events, sh_parse_errors = v_parse_errors,
         sh_spool_bytes = v_spool_bytes\<rparr>
     }"

text \<open>The reader of a payload is chosen by its tag.\<close>

definition read_event_payload :: "string \<Rightarrow> json_value \<Rightarrow> event_payload option" where
  "read_event_payload tag j =
     (if tag = ''mongodb_activity'' then map_option MongodbActivity (read_mongodb_activity j)
      else if tag = ''mongodb_connection'' then map_option MongodbConnection (read_mongodb_connection j)
      else if tag = ''mongodb_auth'' then map_option MongodbAuth (read_mongodb_auth j)
      else if tag = ''dns_activity'' then map_option DnsActivity (read_dns_activity j)
      else if tag = ''host_io'' then map_option HostIo (read_host_io j)
      else if tag = ''profile'' then map_option Profile (read_profile_sample j)
      else if tag = ''process_lifecycle'' then map_option ProcessLifecycle (read_process_lifecycle j)
      else if tag = ''sensor_health'' then map_option SensorHealth (read_sensor_health j)
      else None)"

definition read_instant :: "(string \<Rightarrow> instant option) \<Rightarrow> json_value \<Rightarrow> instant option" where
  "read_instant parse j = Option.bind (read_text j) parse"

definition read_dam_event :: "(string \<Rightarrow> instant option) \<Rightarrow> json_value \<Rightarrow> dam_event option" where
  "read_dam_event parse j = do {
       m \<leftarrow> json_members_of j;
       schema_version \<leftarrow> required read_uint (m ''schema_version'');
       event_id \<leftarrow> required read_text (m ''event_id'');
       observed_at \<leftarrow> required (read_instant parse) (m ''observed_at'');
       timestamp \<leftarrow> required read_uint (m ''monotonic_timestamp_ns'');
       customer_id \<leftarrow> required read_text (m ''customer_id'');
       tenant_id \<leftarrow> required read_text (m ''tenant_id'');
       source_id \<leftarrow> required read_text (m ''source_id'');
       regional_cell_id \<leftarrow> required read_text (m ''regional_cell_id'');
       capture \<leftarrow> required read_capture_metadata (m ''capture'');
       kubernetes \<leftarrow> optional read_kubernetes_metadata (m ''kubernetes'');
       process \<leftarrow> optional read_process_metadata (m ''process'');
       identity \<leftarrow> optional read_external_identity (m ''identity'');
       tag \<leftarrow> required read_text (m ''event_type'');
       payload \<leftarrow> required (read_event_payload tag) (m ''details'');
       Some \<lparr>ev_schema_version = schema_version, ev_event_id = event_id, ev_observed_at = observed_at,
         ev_monotonic_timestamp_ns = timestamp, ev_customer_id = customer_id, ev_tenant_id = tenant_id,
         ev_source_id = source_id, ev_regional_cell_id = regional_cell_id, ev_capture = capture,
         ev_kubernetes = kubernetes, ev_process = process, ev_identity = identity, ev_payload = payload\<rparr>
     }"

definition read_dam_batch :: "(string \<Rightarrow> instant option) \<Rightarrow> json_value \<Rightarrow> dam_batch option" where
  "read_dam_batch parse j = do {
       m \<leftarrow> json_members_of j;
       schema_version \<leftarrow> required read_uint (m ''schema_version'');
       batch_id \<leftarrow> required read_text (m ''batch_id'');
       customer_id \<leftarrow> required read_text (m ''customer_id'');
       tenant_id \<leftarrow> required read_text (m ''tenant_id'');
       source_id \<leftarrow> required read_text (m ''source_id'');
       regional_cell_id \<leftarrow> required read_text (m ''regional_cell_id'');
       created_at \<leftarrow> required (read_instant parse) (m ''created_at'');
       events \<leftarrow> required (read_list (read_dam_event parse)) (m ''events'');
       Some \<lparr>ba_schema_version = schema_version, ba_batch_id = batch_id, ba_customer_id = customer_id,
         ba_tenant_id = tenant_id, ba_source_id = source_id, ba_regional_cell_id = regional_cell_id,
         ba_created_at = created_at, ba_events = events\<rparr>
     }"

subsection \<open>The reader recovers what was written\<close>

lemma json_members_of_struct:
  "distinct (map fst entries) \<Longrightarrow>
   json_members_of (json_struct entries) = Some (\<lambda>key. Option.bind (map_of entries key) (\<lambda>v. v))"
proof (induction entries)
  case (Cons entry entries)
  obtain key v where entry: "entry = (key, v)" by (cases entry)
  have "map_of entries key = None" using Cons.prems entry by (auto simp: map_of_eq_None_iff)
  with Cons entry show ?case
    by (cases v) (auto simp: json_struct_def List.map_filter_simps fun_eq_iff)
qed (auto simp: json_struct_def List.map_filter_simps)

lemma read_uint_json: "LENGTH('w) \<le> 64 \<Longrightarrow> read_uint (json_uint (n :: 'w::len word)) = Some n"
proof -
  assume le: "LENGTH('w) \<le> 64"
  have "unat n < 2 ^ 64"
    by (rule order.strict_trans2 [OF unsigned_less power_increasing [OF le]]) simp
  then have "unat (ucast n :: 64 word) = unat n"
    by (simp add: unsigned_ucast_eq take_bit_nat_eq_self)
  moreover have "ucast (ucast n :: 64 word) = n"
    using le by (simp add: ucast_up_ucast_id is_up)
  ultimately show ?thesis by (simp add: json_uint_def)
qed

lemma read_int_json_i64: "read_int (json_i64 v) = Some (sint v)"
proof (cases "sint v < 0")
  case False
  have "sint v < 2 ^ 63" using sint_less [of v] by simp
  with False have "uint v = sint v" by (simp add: uint_sint take_bit_int_eq_self)
  with False show ?thesis by (simp add: json_i64_def)
qed (simp add: json_i64_def)

lemma read_i64_json_i64: "read_i64_json (json_i64 n) = Some n"
  using sint_ge [of n] sint_less [of n] by (simp add: read_i64_json_def read_int_json_i64)

lemma read_i32_json_i32: "read_i32_json (json_i32 n) = Some n"
proof -
  have "sint (scast n :: 64 word) = sint n" by (simp add: sint_up_scast is_up)
  with sint_ge [of n] sint_less [of n] show ?thesis
    by (simp add: read_i32_json_def json_i32_def read_int_json_i64)
qed

lemma traverse_map: "(\<And>x. x \<in> set xs \<Longrightarrow> r (f x) = Some x) \<Longrightarrow> traverse r (map f xs) = Some xs"
  by (induction xs) auto

lemma json_not_null [simp]:
  "json_uint n \<noteq> JNull" "json_i32 i \<noteq> JNull" "json_i64 l \<noteq> JNull" "json_struct entries \<noteq> JNull"
  by (simp_all add: json_uint_def json_i32_def json_i64_def json_struct_def)

lemma required_Some [simp]: "required r (Some j) = r j"
  by (simp add: required_def)

lemma optional_map: "(\<And>v. r (f v) = Some v) \<Longrightarrow> (\<And>v. f v \<noteq> JNull) \<Longrightarrow> optional r (map_option f x) = Some x"
  by (auto simp: optional_def split: option.split)

lemmas json_reads = read_uint_json read_i32_json_i32 read_i64_json_i64 optional_map json_members_of_struct

lemma capture_reads:
  "read_capture_source (capture_source_json source) = Some source"
  "read_capture_confidence (capture_confidence_json confidence) = Some confidence"
  by (cases source; simp) (cases confidence; simp)

lemma read_capture_metadata_json: "read_capture_metadata (capture_metadata_json c) = Some c"
  by (cases c) (simp add: read_capture_metadata_def capture_metadata_json_def json_reads capture_reads)

lemma read_process_metadata_json: "read_process_metadata (process_metadata_json p) = Some p"
  by (cases p) (simp add: read_process_metadata_def process_metadata_json_def json_reads)

lemma read_kubernetes_metadata_json: "read_kubernetes_metadata (kubernetes_metadata_json k) = Some k"
proof -
  have "read_labels (JObject (map (\<lambda>(key, v). (key, JString v)) labels)) = Some labels" for labels
    by (auto intro!: traverse_map)
  then show ?thesis
    by (cases k) (simp add: read_kubernetes_metadata_def kubernetes_metadata_json_def json_reads del: read_labels.simps)
qed

lemma read_external_identity_json: "read_external_identity (external_identity_json x) = Some x"
  by (cases x) (simp add: read_external_identity_def external_identity_json_def json_reads)

lemma read_network_endpoint_json: "read_network_endpoint (network_endpoint_json e) = Some e"
  by (cases e) (simp add: read_network_endpoint_def network_endpoint_json_def json_reads)

lemma record_not_null [simp]:
  "network_endpoint_json e \<noteq> JNull" "kubernetes_metadata_json k \<noteq> JNull" "process_metadata_json p \<noteq> JNull"
  "external_identity_json x \<noteq> JNull"
  by (simp_all add: network_endpoint_json_def kubernetes_metadata_json_def process_metadata_json_def external_identity_json_def)

lemma read_connection_metadata_json: "read_connection_metadata (connection_metadata_json c) = Some c"
  by (cases c) (simp add: read_connection_metadata_def connection_metadata_json_def json_reads read_network_endpoint_json)

lemma optional_query: "q \<noteq> Some JNull \<Longrightarrow> optional Some q = Some q"
  by (auto simp: optional_def split: option.split)

lemma read_mongodb_activity_json:
  "act_query a \<noteq> Some JNull \<Longrightarrow> read_mongodb_activity (mongodb_activity_json a) = Some a"
  by (cases a) (simp add: read_mongodb_activity_def mongodb_activity_json_def json_reads optional_query
      read_connection_metadata_json)

lemma read_mongodb_connection_json: "read_mongodb_connection (mongodb_connection_json c) = Some c"
  by (cases c) (simp add: read_mongodb_connection_def mongodb_connection_json_def json_reads
      read_connection_metadata_json)

lemma read_mongodb_auth_json: "read_mongodb_auth (mongodb_auth_json a) = Some a"
  by (cases a) (simp add: read_mongodb_auth_def mongodb_auth_json_def json_reads)

lemma read_dns_activity_json: "read_dns_activity (dns_activity_json d) = Some d"
  by (cases d) (simp add: read_dns_activity_def dns_activity_json_def json_reads read_connection_metadata_json)

lemma read_host_io_json: "read_host_io (host_io_json h) = Some h"
  by (cases h) (simp add: read_host_io_def host_io_json_def json_reads)

lemma defaulted_non_empty:
  "(\<And>x. r (f x) = Some x) \<Longrightarrow> defaulted (read_list r) (non_empty f xs) = Some xs"
  by (simp add: defaulted_def non_empty_def traverse_map)

lemma read_profile_sample_json: "read_profile_sample (profile_sample_json p) = Some p"
  by (cases p) (simp add: read_profile_sample_def profile_sample_json_def json_reads defaulted_non_empty)

lemma read_process_lifecycle_json: "read_process_lifecycle (process_lifecycle_json p) = Some p"
  by (cases p) (simp add: read_process_lifecycle_def process_lifecycle_json_def json_reads)

lemma read_sensor_health_json: "read_sensor_health (sensor_health_json s) = Some s"
  by (cases s) (simp add: read_sensor_health_def sensor_health_json_def json_reads)

lemmas record_reads = read_capture_metadata_json read_kubernetes_metadata_json read_process_metadata_json
  read_external_identity_json read_mongodb_activity_json read_mongodb_connection_json read_mongodb_auth_json
  read_dns_activity_json read_host_io_json read_profile_sample_json read_process_lifecycle_json
  read_sensor_health_json

text \<open>A query is an object. A null query would be read as an absent one.\<close>

fun query_not_null :: "event_payload \<Rightarrow> bool" where
  "query_not_null (MongodbActivity a) \<longleftrightarrow> act_query a \<noteq> Some JNull"
| "query_not_null _ \<longleftrightarrow> True"

lemma read_event_payload_json:
  "query_not_null payload \<Longrightarrow>
   read_event_payload (fst (event_payload_json payload)) (snd (event_payload_json payload)) = Some payload"
  by (cases payload) (simp_all add: read_event_payload_def record_reads)

definition reads_instant :: "(instant \<Rightarrow> string option) \<Rightarrow> (string \<Rightarrow> instant option) \<Rightarrow> bool" where
  "reads_instant rfc3339 parse \<longleftrightarrow> (\<forall>t s. rfc3339 t = Some s \<longrightarrow> parse s = Some t)"

lemma event_entries_distinct: "distinct (map fst (event_entries t e))"
  by (simp add: event_entries_def)

lemma read_event_entries:
  assumes "json_members_of j = Some m"
    and "list_all (\<lambda>(key, v). m key = v) (event_entries s e)"
    and "parse s = Some (ev_observed_at e)" and "query_not_null (ev_payload e)"
  shows "read_dam_event parse j = Some e"
proof -
  have instant: "read_instant parse (JString s) = Some (ev_observed_at e)"
    using assms(3) by (simp add: read_instant_def)
  show ?thesis
    using assms(1,2) read_event_payload_json [OF assms(4)] instant
    by (simp add: read_dam_event_def event_entries_def json_reads record_reads)
qed

lemma entries_looked_up:
  assumes "distinct (map fst entries)"
  shows "list_all (\<lambda>(key, v). Option.bind (map_of entries key) (\<lambda>v. v) = v) entries"
  using assms by (auto simp: list_all_iff)

lemma read_dam_event_json:
  assumes "reads_instant rfc3339 parse" and "query_not_null (ev_payload e)" and "dam_event_json rfc3339 e = Some j"
  shows "read_dam_event parse j = Some e"
proof -
  obtain s where s: "rfc3339 (ev_observed_at e) = Some s" and j: "j = json_struct (event_entries s e)"
    using assms(3) by (auto simp: dam_event_json_def)
  show ?thesis
    unfolding j using s assms(1,2) event_entries_distinct
    by (intro read_event_entries [OF json_members_of_struct entries_looked_up]) (auto simp: reads_instant_def)
qed

lemma read_events_json:
  "reads_instant rfc3339 parse \<Longrightarrow> list_all (\<lambda>e. query_not_null (ev_payload e)) events \<Longrightarrow>
   traverse (dam_event_json rfc3339) events = Some js \<Longrightarrow> traverse (read_dam_event parse) js = Some events"
  by (induction events arbitrary: js)
    (auto simp: read_dam_event_json split: Option.bind_splits)

text \<open>
  C17: nothing is lost on the wire. A reader that looks members up by name recovers every batch from
  its JSON form: all field names are distinct, fields left out are exactly the empty ones, and tag and content
  determine the payload. The hypotheses are that the text of an instant can be read back and that no query
  is the null value, which would be read as an absent query.
\<close>

theorem batch_json_round_trip:
  assumes "reads_instant rfc3339 parse" and "list_all (\<lambda>e. query_not_null (ev_payload e)) (ba_events b)"
    and "dam_batch_json rfc3339 b = Some j"
  shows "read_dam_batch parse j = Some b"
proof -
  obtain s js where s: "rfc3339 (ba_created_at b) = Some s" and js: "traverse (dam_event_json rfc3339) (ba_events b) = Some js"
    using assms(3) by (auto simp: dam_batch_json_def split: Option.bind_splits)
  have "read_instant parse (JString s) = Some (ba_created_at b)"
    using assms(1) s by (simp add: reads_instant_def read_instant_def)
  moreover have "traverse (read_dam_event parse) js = Some (ba_events b)"
    using read_events_json [OF assms(1,2) js] .
  ultimately show ?thesis
    using assms(3) s js by (auto simp: dam_batch_json_def read_dam_batch_def json_reads)
qed

subsection \<open>Witnesses\<close>

definition sample_rfc3339 :: "instant \<Rightarrow> string option" where
  "sample_rfc3339 t = (if t = 0 then Some ''1970-01-01T00:00:00Z'' else None)"

definition sample_parse_instant :: "string \<Rightarrow> instant option" where
  "sample_parse_instant s = (if s = ''1970-01-01T00:00:00Z'' then Some 0 else None)"

lemma sample_reads_instant: "reads_instant sample_rfc3339 sample_parse_instant"
  by (auto simp: reads_instant_def sample_rfc3339_def sample_parse_instant_def)

definition sample_wire_event :: dam_event where
  "sample_wire_event =
     \<lparr>ev_schema_version = 1, ev_event_id = ''e'', ev_observed_at = 0, ev_monotonic_timestamp_ns = 7,
      ev_customer_id = ''c'', ev_tenant_id = ''t'', ev_source_id = ''s'', ev_regional_cell_id = ''r'',
      ev_capture = \<lparr>cap_sensor_id = ''x'', cap_node_name = ''n'', cap_source = Sensor, cap_confidence = Complete,
        cap_metadata_only = True, cap_truncated = False\<rparr>,
      ev_kubernetes = None, ev_process = None, ev_identity = None,
      ev_payload = ProcessLifecycle \<lparr>pl_state = ''exec'', pl_executable = None\<rparr>\<rparr>"

definition sample_wire_batch :: dam_batch where
  "sample_wire_batch =
     \<lparr>ba_schema_version = 1, ba_batch_id = ''b'', ba_customer_id = ''c'', ba_tenant_id = ''t'', ba_source_id = ''s'',
      ba_regional_cell_id = ''r'', ba_created_at = 0, ba_events = [sample_wire_event]\<rparr>"

theorem batch_json_round_trip_witness:
  "Option.bind (dam_batch_json sample_rfc3339 sample_wire_batch) (read_dam_batch sample_parse_instant) =
     Some sample_wire_batch"
proof -
  obtain j where j: "dam_batch_json sample_rfc3339 sample_wire_batch = Some j"
    by (simp add: dam_batch_json_def sample_wire_batch_def sample_wire_event_def sample_rfc3339_def dam_event_json_def)
  have "list_all (\<lambda>e. query_not_null (ev_payload e)) (ba_events sample_wire_batch)"
    by (simp add: sample_wire_batch_def sample_wire_event_def)
  with batch_json_round_trip [OF sample_reads_instant _ j] j show ?thesis by simp
qed

end
