(* ===== verification/Wire_Json.thy ===== *)
theory Wire_Json
  imports Outpost Schema_Json
begin

text \<open>
  The JSON form on its way out: the names the event filter uses are the tags on the wire, metadata-only
  events carry no query, and the object uploaded to S3 (\<open>encode_s3_ndjson\<close> of
  \<open>crates/outpost/src/lib.rs\<close>) holds one self-contained line per event. Printing and parsing JSON text
  (\<open>serde_json\<close>) are parameters: parsing inverts printing, and a printed value has no line break.
\<close>

subsection \<open>Tags and query content\<close>

lemma wire_tag_is_filter_name: "fst (event_payload_json payload) = event_type_name payload"
  by (cases payload) (simp_all add: event_type_name_def)

text \<open>The member \<open>query\<close> of the details is there exactly if the event is not marked metadata only.\<close>

lemma metadata_only_event_has_no_query:
  assumes "validate batch = Ok ()" and "event \<in> set (ba_events batch)" and "ev_payload event = MongodbActivity activity"
    and "json_members_of (snd (event_payload_json (ev_payload event))) = Some m"
  shows "m ''query'' = None \<longleftrightarrow> cap_metadata_only (ev_capture event)"
proof -
  have "\<not> capture_mismatch event"
    using assms(1,2) by (auto simp: validate_ok_iff event_ok_def)
  moreover have "m ''query'' = act_query activity"
    using assms(3,4) by (auto simp: mongodb_activity_json_def json_members_of_struct)
  ultimately show ?thesis using assms(3) by (auto simp: capture_mismatch_def)
qed

subsection \<open>Lines of an S3 object\<close>

text \<open>The line of an event in an S3 object: the members of the event after three of the batch.\<close>

definition s3_ndjson_record_json :: "(instant \<Rightarrow> string option) \<Rightarrow> s3_ndjson_record \<Rightarrow> json_value option" where
  "s3_ndjson_record_json rfc3339 r =
     Option.bind (rfc3339 (nd_batch_created_at r)) (\<lambda>batch_created_at.
     map_option (\<lambda>observed_at. json_struct
       ([(''batch_schema_version'', Some (json_uint (nd_batch_schema_version r))),
         (''batch_id'', Some (JString (nd_batch_id r))),
         (''batch_created_at'', Some (JString batch_created_at))] @
        event_entries observed_at (nd_event r)))
     (rfc3339 (ev_observed_at (nd_event r))))"

definition read_s3_ndjson_record :: "(string \<Rightarrow> instant option) \<Rightarrow> json_value \<Rightarrow> s3_ndjson_record option" where
  "read_s3_ndjson_record parse j = do {
       m \<leftarrow> json_members_of j;
       schema_version \<leftarrow> required read_uint (m ''batch_schema_version'');
       batch_id \<leftarrow> required read_text (m ''batch_id'');
       created_at \<leftarrow> required (read_instant parse) (m ''batch_created_at'');
       event \<leftarrow> read_dam_event parse j;
       Some \<lparr>nd_batch_schema_version = schema_version, nd_batch_id = batch_id, nd_batch_created_at = created_at,
         nd_event = event\<rparr>
     }"

lemma s3_record_round_trip:
  assumes "reads_instant rfc3339 parse" and "query_not_null (ev_payload (nd_event r))"
    and "s3_ndjson_record_json rfc3339 r = Some j"
  shows "read_s3_ndjson_record parse j = Some r"
proof -
  obtain s t where s: "rfc3339 (nd_batch_created_at r) = Some s" and t: "rfc3339 (ev_observed_at (nd_event r)) = Some t"
    using assms(3) by (auto simp: s3_ndjson_record_json_def split: Option.bind_splits)
  define entries where "entries =
    [(''batch_schema_version'', Some (json_uint (nd_batch_schema_version r))), (''batch_id'', Some (JString (nd_batch_id r))),
     (''batch_created_at'', Some (JString s))] @ event_entries t (nd_event r)"
  have j: "j = json_struct entries"
    using assms(3) s t by (simp add: s3_ndjson_record_json_def entries_def)
  have "distinct (map fst entries)" by (simp add: entries_def event_entries_def)
  note look = json_members_of_struct [OF this] entries_looked_up [OF this]
  have "read_dam_event parse j = Some (nd_event r)"
    using look assms(1,2) t unfolding j
    by (intro read_event_entries) (auto simp: entries_def reads_instant_def)
  moreover have "read_instant parse (JString s) = Some (nd_batch_created_at r)"
    using assms(1) s by (simp add: reads_instant_def read_instant_def)
  ultimately show ?thesis
    using look(1) unfolding read_s3_ndjson_record_def j
    by (simp add: entries_def read_uint_json)
qed

definition s3_record :: "dam_batch \<Rightarrow> dam_event \<Rightarrow> s3_ndjson_record" where
  "s3_record batch event =
     \<lparr>nd_batch_schema_version = ba_schema_version batch, nd_batch_id = ba_batch_id batch,
      nd_batch_created_at = ba_created_at batch, nd_event = event\<rparr>"

lemma s3_record_sel [simp]:
  "nd_batch_created_at (s3_record batch event) = ba_created_at batch" "nd_event (s3_record batch event) = event"
  by (simp_all add: s3_record_def)

fun byte_lines :: "bytes \<Rightarrow> bytes \<Rightarrow> bytes list" where
  "byte_lines line [] = []"
| "byte_lines line (b # bs) = (if b = 0x0A then line # byte_lines [] bs else byte_lines (line @ [b]) bs)"

lemma byte_lines_append: "0x0A \<notin> set a \<Longrightarrow> byte_lines line (a @ 0x0A # bs) = (line @ a) # byte_lines [] bs"
  by (induction a arbitrary: line) auto

text \<open>What the text of an event's line must satisfy: it has no line break and parses to the value printed.\<close>

definition line_ok ::
  "(json_value \<Rightarrow> bytes) \<Rightarrow> (bytes \<Rightarrow> json_value option) \<Rightarrow> json_value option \<Rightarrow> bool" where
  "line_ok print parse_json j \<longleftrightarrow>
     (case j of None \<Rightarrow> False | Some j \<Rightarrow> parse_json (print j) = Some j \<and> 0x0A \<notin> set (print j))"

lemma ndjson_lines_read:
  assumes "reads_instant rfc3339 parse"
  shows "list_all (\<lambda>e. query_not_null (ev_payload e) \<and> line_ok print parse_json (s3_ndjson_record_json rfc3339 (s3_record batch e)))
      events \<Longrightarrow>
    \<exists>bs. ndjson_lines (\<lambda>r. map_option print (s3_ndjson_record_json rfc3339 r)) batch events = Some bs \<and>
      traverse (\<lambda>line. Option.bind (parse_json line) (read_s3_ndjson_record parse)) (byte_lines [] bs) =
        Some (map (s3_record batch) events)"
proof (induction events)
  case (Cons e events)
  obtain j where j: "s3_ndjson_record_json rfc3339 (s3_record batch e) = Some j"
    and ok: "parse_json (print j) = Some j" "0x0A \<notin> set (print j)"
    using Cons.prems by (auto simp: line_ok_def split: option.splits)
  have "read_s3_ndjson_record parse j = Some (s3_record batch e)"
    using Cons.prems by (intro s3_record_round_trip [OF assms _ j]) simp
  moreover obtain bs where
    "ndjson_lines (\<lambda>r. map_option print (s3_ndjson_record_json rfc3339 r)) batch events = Some bs"
    "traverse (\<lambda>line. Option.bind (parse_json line) (read_s3_ndjson_record parse)) (byte_lines [] bs) =
        Some (map (s3_record batch) events)"
    using Cons by auto
  ultimately show ?case
    using j ok by (simp add: byte_lines_append s3_record_def [symmetric])
qed simp

text \<open>
  C18: an S3 object is complete and self-contained. The upload of a batch is one line per event, in order;
  each line alone gives the event back together with the identifier, schema version and creation time
  of its batch. The hypotheses are that gzip can be undone, that instants can be read back, that no query is
  null, and that each line's text has no line break and parses to the value printed.
\<close>

theorem s3_object_round_trip:
  assumes "reads_instant rfc3339 parse" and "\<And>bs. gunzip (gzip bs) = bs"
    and "list_all (\<lambda>e. query_not_null (ev_payload e) \<and>
      line_ok print parse_json (s3_ndjson_record_json rfc3339 (s3_record batch e))) (ba_events batch)"
  shows "\<exists>body. encode_s3_ndjson (\<lambda>r. map_option print (s3_ndjson_record_json rfc3339 r)) gzip batch = Some body \<and>
    traverse (\<lambda>line. Option.bind (parse_json line) (read_s3_ndjson_record parse)) (byte_lines [] (gunzip body)) =
      Some (map (s3_record batch) (ba_events batch))"
  using ndjson_lines_read [OF assms(1,3)] assms(2) by (auto simp: encode_s3_ndjson_def)

subsection \<open>Witnesses\<close>

text \<open>A text for the one line of the sample.\<close>

definition sample_line :: json_value where
  "sample_line = the (s3_ndjson_record_json sample_rfc3339 (s3_record sample_wire_batch sample_wire_event))"

theorem s3_object_round_trip_witness:
  "\<exists>body. encode_s3_ndjson
      (\<lambda>r. map_option (\<lambda>_. [1]) (s3_ndjson_record_json sample_rfc3339 r)) rev sample_wire_batch = Some body \<and>
    traverse (\<lambda>line. Option.bind (if line = [1] then Some sample_line else None)
        (read_s3_ndjson_record sample_parse_instant)) (byte_lines [] (rev body)) =
      Some [s3_record sample_wire_batch sample_wire_event]"
proof -
  have events: "ba_events sample_wire_batch = [sample_wire_event]" by (simp add: sample_wire_batch_def)
  have "s3_ndjson_record_json sample_rfc3339 (s3_record sample_wire_batch sample_wire_event) = Some sample_line"
    by (simp add: sample_line_def s3_ndjson_record_json_def sample_wire_batch_def sample_wire_event_def sample_rfc3339_def)
  then have "list_all (\<lambda>e. query_not_null (ev_payload e) \<and>
      line_ok (\<lambda>_. [1]) (\<lambda>line. if line = [1] then Some sample_line else None)
        (s3_ndjson_record_json sample_rfc3339 (s3_record sample_wire_batch e))) (ba_events sample_wire_batch)"
    by (simp add: events line_ok_def) (simp add: sample_wire_event_def)
  from s3_object_round_trip [where gzip = rev and gunzip = rev, OF sample_reads_instant _ this]
  show ?thesis by (simp add: events)
qed

end
