(* ===== verification/Privacy.thy ===== *)
theory Privacy
  imports Sensor Wire_Json
begin

text \<open>
  What leaves the host, as JSON: the batches the sensor posts to Outpost, the enriched batches Outpost sends on, and
  the lines of its S3 objects. The processor's promises about principals and queries reach all of them.
\<close>

subsection \<open>Private JSON\<close>

text \<open>
  An event object is private if the principal in its details, where there is one, is the salted hash
  of a name, and a query is there only if the command line asks for query content.
\<close>

definition private_json :: "crypto \<Rightarrow> string option \<Rightarrow> bool \<Rightarrow> json_value \<Rightarrow> bool" where
  "private_json crypto salt capture_query j \<longleftrightarrow>
     (let details = json_get ''details'' j in
      (json_get ''query'' details = JNull \<or> capture_query) \<and>
      (case json_get ''principal'' details of
         JNull \<Rightarrow> True
       | JString s \<Rightarrow> \<exists>secret name. salt = Some secret \<and> s = hash_principal crypto secret name
       | _ \<Rightarrow> False))"

abbreviation private_under :: "crypto \<Rightarrow> processor_config \<Rightarrow> json_value \<Rightarrow> bool" where
  "private_under crypto config \<equiv> private_json crypto (pc_principal_hash_salt config) (pc_capture_query_content config)"

lemma json_get_struct:
  "distinct (map fst entries) \<Longrightarrow>
   json_get key (json_struct entries) = (case Option.bind (map_of entries key) (\<lambda>v. v) of None \<Rightarrow> JNull | Some v \<Rightarrow> v)"
  using json_members_of_struct [of entries] by (auto simp: json_struct_def fun_eq_iff)

lemmas payload_json_defs = mongodb_activity_json_def mongodb_connection_json_def mongodb_auth_json_def
  dns_activity_json_def host_io_json_def profile_sample_json_def process_lifecycle_json_def sensor_health_json_def

lemma details_private:
  assumes "payload_private crypto config payload"
  defines "details \<equiv> snd (event_payload_json payload)"
  shows "json_get ''query'' details = JNull \<or> pc_capture_query_content config"
    and "case json_get ''principal'' details of
      JNull \<Rightarrow> True | JString s \<Rightarrow> \<exists>secret name. pc_principal_hash_salt config = Some secret \<and> s = hash_principal crypto secret name | _ \<Rightarrow> False"
  using assms(1) unfolding details_def
  by (cases payload; auto simp: payload_private_def hashed_by_def payload_json_defs json_get_struct split: option.splits)+

lemma event_entries_private:
  assumes "payload_private crypto config (ev_payload e)" and "distinct (map fst (pre @ event_entries observed_at e))"
  shows "private_under crypto config (json_struct (pre @ event_entries observed_at e))"
proof -
  have "map_of (pre @ event_entries observed_at e) ''details'' = Some (Some (snd (event_payload_json (ev_payload e))))"
    using assms(2) by (intro map_of_is_SomeI) (simp_all add: event_entries_def)
  then have "json_get ''details'' (json_struct (pre @ event_entries observed_at e)) = snd (event_payload_json (ev_payload e))"
    using assms(2) by (simp add: json_get_struct)
  with details_private [OF assms(1)] show ?thesis by (simp add: private_json_def Let_def)
qed

lemma dam_event_json_private:
  assumes "payload_private crypto config (ev_payload e)" and "dam_event_json rfc3339 e = Some j"
  shows "private_under crypto config j"
proof -
  obtain t where "j = json_struct ([] @ event_entries t e)" using assms(2) by (auto simp: dam_event_json_def)
  moreover have "distinct (map fst ([] @ event_entries t e))" by (simp add: event_entries_def)
  ultimately show ?thesis using event_entries_private [OF assms(1)] by metis
qed

lemma s3_line_private:
  assumes "payload_private crypto config (ev_payload e)" and "s3_ndjson_record_json rfc3339 (s3_record batch e) = Some j"
  shows "private_under crypto config j"
proof -
  let ?pre = "\<lambda>t. [(''batch_schema_version'', Some (json_uint (nd_batch_schema_version (s3_record batch e)))),
    (''batch_id'', Some (JString (nd_batch_id (s3_record batch e)))), (''batch_created_at'', Some (JString t))]"
  obtain t u where "j = json_struct (?pre t @ event_entries u e)"
    using assms(2) by (auto simp: s3_ndjson_record_json_def split: Option.bind_splits)
  moreover have "distinct (map fst (?pre t @ event_entries u e))" by (simp add: event_entries_def)
  ultimately show ?thesis using event_entries_private [OF assms(1)] by metis
qed

lemma events_json_private:
  "list_all (\<lambda>e. payload_private crypto config (ev_payload e)) events \<Longrightarrow>
   traverse (dam_event_json rfc3339) events = Some js \<Longrightarrow>
   length js = length events \<and> list_all (private_under crypto config) js"
  by (induction events arbitrary: js) (auto simp: dam_event_json_private split: Option.bind_splits)

lemma batch_json_private:
  assumes "list_all (\<lambda>e. payload_private crypto config (ev_payload e)) (ba_events batch)"
    and "dam_batch_json rfc3339 batch = Some json"
  shows "\<exists>js. json_get ''events'' json = JArray js \<and> length js = length (ba_events batch) \<and>
    list_all (private_under crypto config) js"
  using assms events_json_private [OF assms(1)]
  by (auto simp: dam_batch_json_def json_get_struct split: Option.bind_splits)

subsection \<open>Batches of a started sensor\<close>

lemma sensor_batch_private:
  assumes inputs: "list_all (same_crypto crypto) inputs"
    and events: "run_steps (task_step su) (new_processor (su_processor_config su), metrics) inputs = (state, received_events moments)"
    and batcher: "run_batcher settings b moments fault now = (b', out)" "bt_events b = []"
    and batch: "batch \<in> set out"
  shows "list_all (\<lambda>e. payload_private crypto (su_processor_config su) (ev_payload e)) (ba_events batch)"
  unfolding list_all_iff
proof
  fix e assume e: "e \<in> set (ba_events batch)"
  show "payload_private crypto (su_processor_config su) (ev_payload e)"
  proof (cases "own_health e")
    case True
    then show ?thesis by (auto simp: own_health_def payload_private_def split: event_payload.splits)
  next
    case False
    with e batch have "e \<in> set (filter (\<lambda>e. \<not> own_health e) (batched_events out))" by auto
    then have "e \<in> set (received_events moments)"
      unfolding run_batcher_conserves(1) [OF batcher(1)] using batcher(2) by simp
    with task_run_promise [OF inputs events] show ?thesis
      by (auto simp: list_all_iff task_promise_def event_promise_def)
  qed
qed

text \<open>
  C11: what leaves the host is private. Start a sensor, let its processor handle any kernel events and its
  batcher any interleaving of them with ticks, and take a batch it built, as it is or as Outpost enriches it. In
  the JSON value of the batch, and in each line of the S3 object of the batch, the principal of every event is
  the salted hash of a name, or absent when no salt is configured, and no event has a query unless
  the command line enables query content.
\<close>

theorem exported_json_is_private:
  assumes start: "start_observer files cli = Ok su"
    and inputs: "list_all (same_crypto crypto) inputs"
    and events: "run_steps (task_step su) (new_processor (su_processor_config su), metrics) inputs = (state, received_events moments)"
    and batcher: "run_batcher (batcher_settings_of crypto encode su) b moments fault now = (b', out)" "bt_events b = []"
    and batch: "batch \<in> set out" and sent: "sent \<in> {batch, enrich_batch env outpost batch}"
  shows "\<exists>salt. read_secret_option files (cli_principal_hash_salt_file cli) = Ok salt \<and>
    (case dam_batch_json rfc3339 sent of
       None \<Rightarrow> True
     | Some json \<Rightarrow> \<exists>js. json_get ''events'' json = JArray js \<and> length js = length (ba_events sent) \<and>
         list_all (private_json crypto salt (cli_capture_query_content cli)) js) \<and>
    list_all (\<lambda>e. case s3_ndjson_record_json rfc3339 (s3_record sent e) of
       None \<Rightarrow> True
     | Some line \<Rightarrow> private_json crypto salt (cli_capture_query_content cli) line) (ba_events sent)"
proof -
  obtain salt where salt: "read_secret_option files (cli_principal_hash_salt_file cli) = Ok salt"
    and config: "su_processor_config su = processor_config_of cli salt"
    using start by (auto simp: start_observer_def)
  have fields: "pc_principal_hash_salt (processor_config_of cli salt) = salt"
    "pc_capture_query_content (processor_config_of cli salt) = cli_capture_query_content cli"
    by (simp_all add: processor_config_of_def)
  have "map ev_payload (ba_events sent) = map ev_payload (ba_events batch)"
    using sent by (auto simp: enrich_batch_events enrich_event_def)
  moreover have "list_all (\<lambda>p. payload_private crypto (processor_config_of cli salt) p) (map ev_payload (ba_events batch))"
    using sensor_batch_private [OF inputs events batcher batch] config by (simp add: list.pred_map comp_def)
  ultimately have "list_all (\<lambda>p. payload_private crypto (processor_config_of cli salt) p) (map ev_payload (ba_events sent))"
    by simp
  then have payloads: "list_all (\<lambda>e. payload_private crypto (processor_config_of cli salt) (ev_payload e)) (ba_events sent)"
    by (simp add: list.pred_map comp_def)
  show ?thesis
    using salt payloads batch_json_private [OF payloads] s3_line_private [where config = "processor_config_of cli salt"]
    unfolding fields by (fastforce simp: list_all_iff split: option.split)
qed

subsection \<open>Witness\<close>

lemma traverse_total: "(\<And>x. f x \<noteq> None) \<Longrightarrow> traverse f xs \<noteq> None"
proof (induction xs)
  case (Cons x xs)
  obtain y ys where "f x = Some y" "traverse f xs = Some ys" using Cons by fastforce
  then show ?case by simp
qed simp

lemma sample_sensor_sends:
  assumes "su_emit_sensor_health su"
    and "run_batcher (batcher_settings_of crypto encode su) sample_batcher sample_sensor_moments None 2 = (b', out)"
  shows "\<exists>batch. batch \<in> set out"
proof -
  have "out \<noteq> []"
    using assms by (auto simp: run_batcher_def sample_sensor_moments_def batcher_step_def batcher_collect_def sample_batcher_def
        batcher_settings_of_def batcher_flush_def Let_def case_prod_unfold split: if_splits)
  then show ?thesis by (cases out) auto
qed

theorem exported_json_is_private_witness:
  "\<exists>su batch json js. start_observer (\<lambda>_. None) sample_cli = Ok su \<and>
     batch \<in> set (snd (run_batcher (batcher_settings_of sample_crypto (\<lambda>_. Some [7]) su) sample_batcher sample_sensor_moments None 2)) \<and>
     dam_batch_json (\<lambda>_. Some ''now'') batch = Some json \<and> json_get ''events'' json = JArray js \<and>
     list_all (\<lambda>j. json_get ''query'' (json_get ''details'' j) = JNull) js"
proof -
  have cli: "sample_cli\<lparr>cli_sensor_id := None\<rparr> = sample_cli" by (simp add: sample_cli_def)
  obtain su where start: "start_observer (\<lambda>_. None) sample_cli = Ok su" "su_emit_sensor_health su"
    using sample_start [of None] unfolding cli by blast
  let ?settings = "batcher_settings_of sample_crypto (\<lambda>_. Some [7]) su"
  obtain b' out where run: "run_batcher ?settings sample_batcher sample_sensor_moments None 2 = (b', out)" by fastforce
  obtain batch where batch: "batch \<in> set out" using sample_sensor_sends [OF start(2) run] ..
  obtain json where json: "dam_batch_json (\<lambda>_. Some ''now'') batch = Some json"
    using traverse_total [of "dam_event_json (\<lambda>_. Some ''now'')" "ba_events batch"]
    by (auto simp: dam_batch_json_def dam_event_json_def)
  from exported_json_is_private [OF start(1), of sample_crypto "[]" sample_runtime_metrics _ sample_sensor_moments "\<lambda>_. Some [7]"
      sample_batcher None 2 b' out batch batch undefined undefined "\<lambda>_. Some ''now''"] run batch json
  obtain js where "json_get ''events'' json = JArray js"
    "list_all (\<lambda>j. json_get ''query'' (json_get ''details'' j) = JNull) js"
    by (auto simp: sample_sensor_moments_def sample_batcher_def private_json_def Let_def list_all_iff sample_cli_def)
  with start(1) run batch json show ?thesis by auto
qed

end
