(* ===== verification/Pipeline.thy ===== *)
theory Pipeline
  imports Outpost_Spec Outpost_Main
begin

text \<open>
  Sensor, Outpost and destination together. The two spools, the requests between them and the uploads are
  interleaved in any order, with failing system calls, lost answers and restarts of either process.
  The step relation runs the handlers of the program; two ghost components record what Outpost has
  acknowledged and what the destination has confirmed.
\<close>

subsection \<open>Passes item by item\<close>

text \<open>A pass over several items is the passes over the single ones, as long as they succeed.\<close>

lemma observer_pass_in_steps:
  "deliver_observer_items env state (items @ items') =
     (case deliver_observer_items env state items of
        (state, Inr _) \<Rightarrow> deliver_observer_items env state items'
      | (state, Inl e) \<Rightarrow> (state, Inl e))"
  by (induction env state items rule: deliver_observer_items.induct)
    (auto split: sum.split option.split prod.split)

lemma outpost_pass_in_steps:
  "deliver_pending_items env state (items @ items') =
     (case deliver_pending_items env state items of
        (state, Inr _) \<Rightarrow> deliver_pending_items env state items'
      | (state, Inl e) \<Rightarrow> (state, Inl e))"
  by (induction env state items rule: deliver_pending_items.induct)
    (auto split: sum.split option.split prod.split bool.split)

subsection \<open>The system\<close>

record pipeline =
  pl_observer :: "spool \<times> runtime_metrics"
  pl_outpost :: outpost_state
  pl_entered :: "string set"
  pl_handed :: "(string \<times> string) set"
  pl_confirmed :: "string set"

text \<open>The names of the batches a spool holds, waiting or in quarantine.\<close>

definition spool_holds :: "spool \<Rightarrow> string set" where
  "spool_holds spool = fst ` (pending_batches spool \<union> quarantined_batches spool)"

definition answers_with :: "u16 option \<Rightarrow> delivery_env \<Rightarrow> delivery_env" where
  "answers_with status env = env\<lparr>de_send := (\<lambda>_ _. status)\<rparr>"

text \<open>The name under which \<open>flush_batch\<close> has stored the events, if it has.\<close>

definition spooled_name ::
  "crypto \<Rightarrow> (dam_batch \<Rightarrow> bytes option) \<Rightarrow> assignment \<Rightarrow> io_fault option \<Rightarrow> instant \<Rightarrow> spool \<Rightarrow> dam_event list \<Rightarrow> string set"
  where
  "spooled_name crypto encode assignment fault now spool events =
     (if events = [] then {}
      else
        (case encode (batch_of crypto assignment now events) of
           None \<Rightarrow> {}
         | Some body \<Rightarrow>
             (case snd (spool_enqueue (digest_hex crypto) fault spool body) of
                Inl _ \<Rightarrow> {} | Inr receipt \<Rightarrow> {json_name receipt})))"

fun acknowledged :: "string \<Rightarrow> outpost_response option \<Rightarrow> (string \<times> string) set" where
  "acknowledged name (Some (Accepted _ receipt)) = {(name, json_name receipt)}"
| "acknowledged name _ = {}"

definition confirmed :: "outpost_delivery_env \<Rightarrow> outpost_state \<Rightarrow> pending_item \<Rightarrow> string set" where
  "confirmed env outpost item =
     (case spool_read (od_read_fault env item) (os_spool outpost) item of
        Inl _ \<Rightarrow> {}
      | Inr body \<Rightarrow>
          if destination_verdict env (oc_destination (os_config outpost)) body = Delivered then {pi_path item} else {})"

inductive pipeline_step :: "(bytes \<Rightarrow> string) \<Rightarrow> pipeline \<Rightarrow> pipeline \<Rightarrow> bool" for hash where
  flush: "digest_hex crypto = hash \<Longrightarrow>
    flush_batch crypto encode assignment fault now (pl_observer s) events = observer \<Longrightarrow>
    pipeline_step hash s (s\<lparr>pl_observer := observer,
      pl_entered := pl_entered s \<union> spooled_name crypto encode assignment fault now (fst (pl_observer s)) events\<rparr>)"
| forward: "listed_item item \<Longrightarrow> spool_read (de_read_fault env item) (fst (pl_observer s)) item = Ok body \<Longrightarrow>
    de_decode env body \<noteq> None \<Longrightarrow> digest_hex (ae_crypto aenv) = hash \<Longrightarrow>
    post_batch aenv (pl_outpost s) authorization body = (outpost, response) \<Longrightarrow>
    answer \<in> {None, Some (post_status response)} \<Longrightarrow>
    deliver_observer_items (answers_with answer env) (pl_observer s) [item] = (observer, r) \<Longrightarrow>
    pipeline_step hash s (s\<lparr>pl_observer := observer, pl_outpost := outpost,
      pl_handed := pl_handed s \<union> acknowledged (pi_path item) response\<rparr>)"
| unreachable: "listed_item item \<Longrightarrow>
    deliver_observer_items (answers_with None env) (pl_observer s) [item] = (observer, r) \<Longrightarrow>
    pipeline_step hash s (s\<lparr>pl_observer := observer\<rparr>)"
| export: "listed_item item \<Longrightarrow> deliver_pending_items denv (pl_outpost s) [item] = (outpost, r) \<Longrightarrow>
    pipeline_step hash s (s\<lparr>pl_outpost := outpost,
      pl_confirmed := pl_confirmed s \<union> confirmed denv (pl_outpost s) item\<rparr>)"
| enrichment: "pipeline_step hash s (s\<lparr>pl_outpost := fst (fetch_kubernetes_cache pods (pl_outpost s))\<rparr>)"
| enriched: "pipeline_step hash s (s\<lparr>pl_outpost := write_kubernetes_cache pod_cache (pl_outpost s)\<rparr>)"
| observer_restart: "open_spool hash failed_at (sp_root (fst (pl_observer s))) (sp_quarantine (fst (pl_observer s))) max_bytes =
      (spool, r) \<Longrightarrow>
    pipeline_step hash s (s\<lparr>pl_observer := (spool, metrics)\<rparr>)"
| outpost_restart: "open_spool hash failed_at (sp_root (os_spool (pl_outpost s))) (sp_quarantine (os_spool (pl_outpost s))) max_bytes =
      (spool, r) \<Longrightarrow>
    pipeline_step hash s (s\<lparr>pl_outpost := (pl_outpost s)\<lparr>os_spool := spool, os_metrics := outpost_metrics, os_kubernetes := []\<rparr>\<rparr>)"

inductive_cases pipeline_stepE: "pipeline_step hash s s'"

definition pipeline_inv :: "pipeline \<Rightarrow> bool" where
  "pipeline_inv s \<longleftrightarrow> spool_names (fst (pl_observer s)) \<and> spool_names (os_spool (pl_outpost s)) \<and>
     pl_entered s \<subseteq> spool_holds (fst (pl_observer s)) \<union> fst ` pl_handed s \<and>
     snd ` pl_handed s \<subseteq> spool_holds (os_spool (pl_outpost s)) \<union> pl_confirmed s"

subsection \<open>What each operation keeps of a spool\<close>

lemma enqueue_holds:
  assumes "digest_shape hash" and "spool_enqueue hash fault spool body = (spool', r)"
  shows "spool_holds spool \<subseteq> spool_holds spool'"
  using enqueue_keeps [OF assms] by (auto simp: spool_holds_def)

lemma enqueue_names:
  assumes "spool_names spool" and "spool_enqueue hash fault spool body = (spool', r)"
  shows "spool_names spool'"
  using assms(2) by (cases rule: enqueue_cases) (use assms(1) in \<open>auto simp: spool_names_def\<close>)

lemma flush_keeps:
  assumes "digest_hex crypto = hash" and "digest_shape hash" and "spool_names (fst observer)"
    and flush: "flush_batch crypto encode assignment fault now observer events = observer'"
  shows "spool_names (fst observer') \<and> spool_holds (fst observer) \<subseteq> spool_holds (fst observer') \<and>
    spooled_name crypto encode assignment fault now (fst observer) events \<subseteq> spool_holds (fst observer')"
proof (cases "events = [] \<or> encode (batch_of crypto assignment now events) = None")
  case True
  with assms(3) flush show ?thesis
    by (auto simp: flush_batch_def spooled_name_def Let_def case_prod_unfold)
next
  case False
  then obtain body where body: "events \<noteq> []" "encode (batch_of crypto assignment now events) = Some body" by auto
  obtain spool r where run: "spool_enqueue hash fault (fst observer) body = (spool, r)" by fastforce
  have "fst observer' = spool"
    using flush body run assms(1) by (auto simp: flush_batch_def Let_def case_prod_unfold split: sum.splits)
  moreover have "spooled_name crypto encode assignment fault now (fst observer) events \<subseteq> spool_holds spool"
    using enqueue_stores [OF assms(2)] run body assms(1)
    by (auto simp: spooled_name_def spool_holds_def split: sum.splits)
  ultimately show ?thesis
    using enqueue_holds [OF assms(2) run] enqueue_names [OF assms(3) run] by simp
qed

lemma accept_batch_holds:
  assumes "digest_hex (ae_crypto env) = hash" and "digest_shape hash" and "spool_names (os_spool state)"
    and run: "accept_batch env state authorization body = (state', response)"
  shows "spool_names (os_spool state') \<and> spool_holds (os_spool state) \<subseteq> spool_holds (os_spool state') \<and>
    snd ` acknowledged name (Some response) \<subseteq> spool_holds (os_spool state')"
proof (cases "good_request env (os_config state) authorization body")
  case True
  from True run show ?thesis
  proof (cases rule: good_request_run)
    case (stored batch encoded spool receipt)
    with assms enqueue_holds enqueue_names enqueue_stores [OF assms(2), of _ "os_spool state" encoded spool receipt]
    show ?thesis by (auto simp: spool_holds_def)
  next
    case (full batch encoded spool e reason)
    with assms enqueue_holds enqueue_names show ?thesis by auto
  qed (use assms in \<open>auto simp: reject_def\<close>)
next
  case False
  then obtain r where "accept_batch env state authorization body = reject state r" by (rule bad_request)
  with assms show ?thesis by (auto simp: reject_def)
qed

lemma post_batch_holds:
  assumes "digest_hex (ae_crypto env) = hash" and "digest_shape hash" and "spool_names (os_spool state)"
    and "post_batch env state authorization body = (state', response)"
  shows "spool_names (os_spool state') \<and> spool_holds (os_spool state) \<subseteq> spool_holds (os_spool state') \<and>
    snd ` acknowledged name response \<subseteq> spool_holds (os_spool state')"
proof (cases "oc_max_request_bytes (os_config state) < length body")
  case True
  with assms(3,4) show ?thesis by (auto simp: post_batch_def)
next
  case False
  then obtain answered where "accept_batch env state authorization body = (state', answered)" "response = Some answered"
    using assms(4) by (auto simp: post_batch_def split: prod.splits)
  with accept_batch_holds [OF assms(1-3)] show ?thesis by blast
qed

text \<open>A settled item: every name the spool held it still holds, but for the item itself when it was delivered.\<close>

lemma settle_item_holds:
  assumes "spool_names spool" and "listed_item item"
    and run: "settle_spool read_fault finish_fault judge spool [item] = (spool', ok)"
    and name: "n \<in> spool_holds spool"
  shows "n \<in> spool_holds spool' \<or>
    n = pi_path item \<and> (\<exists>body. fetch_from read_fault item spool = Some body \<and> judge body = Delivered)"
proof -
  have settled: "spool_store.settled judge spool spool'"
    by (rule spool_store.settle_items_settled [OF assms(1) _ run]) (simp add: assms(2))
  from name consider body where "(n, body) \<in> pending_batches spool" | "n \<in> fst ` quarantined_batches spool"
    by (auto simp: spool_holds_def)
  then show ?thesis
  proof cases
    case (1 body)
    show ?thesis
    proof (cases "n = pi_path item")
      case False
      then have "(n, body) \<in> pending_batches spool'"
        using spool_store.settle_items_others [OF assms(1) _ run 1] assms(2) by simp
      then show ?thesis by (force simp: spool_holds_def)
    next
      case True
      show ?thesis
      proof (cases "fetch_from read_fault item spool")
        case None
        then show ?thesis using run name by simp
      next
        case (Some c)
        then have "c = body"
          using spool_store.fetch_pending [OF assms(1,2) Some] spool_store.pending_at [OF assms(1)] 1 True by blast
        with Some True have item: "n = pi_path item" "fetch_from read_fault item spool = Some body" by simp_all
        from settled 1 show ?thesis
          by (cases rule: spool_store.settled_accounted) (use item in \<open>force simp: spool_holds_def\<close>)+
      qed
    qed
  next
    case 2
    then show ?thesis
      using spool_store.settled_quarantined [OF settled] by (auto simp: spool_holds_def)
  qed
qed

lemma settle_item_names:
  assumes "spool_names spool" and "listed_item item"
    and "settle_spool read_fault finish_fault judge spool [item] = (spool', ok)"
  shows "spool_names spool'"
  by (rule spool_store.settled_invar, rule spool_store.settle_items_settled [OF assms(1) _ assms(3)]) (simp add: assms(2))

lemma recover_entry_keeps:
  assumes "spool_names spool"
  shows "spool_names (recover_entry hash entry spool) \<and> spool_holds spool \<subseteq> spool_holds (recover_entry hash entry spool)"
proof (cases "temporary_id (fst entry)")
  case None
  with assms show ?thesis by (simp add: recover_entry_def case_prod_unfold)
next
  case (Some item_id)
  have removed: "batches (hm_remove (fst entry) (sp_root spool)) = batches (sp_root spool)"
    using temporary_hidden [OF Some] by (rule batches_remove_hidden)
  have inserted: "set (batches (sp_root spool)) \<subseteq>
      set (batches (hm_insert (json_name item_id) body (hm_remove (fst entry) (sp_root spool))))"
    if "\<not> exists_in (sp_root spool) (json_name item_id)" for body
    using that temporary_idD [OF Some] removed
    by (auto simp: exists_in_def batches_insert_absent hm_get_remove)
  show ?thesis
    using assms Some inserted
    by (auto simp: recover_entry_def case_prod_unfold Let_def spool_names_def spool_holds_def pending_batches_def
        quarantined_batches_def removed)
qed

lemma recover_entries_keep:
  "spool_names spool \<Longrightarrow>
     spool_names (fold (recover_entry hash) entries spool) \<and> spool_holds spool \<subseteq> spool_holds (fold (recover_entry hash) entries spool)"
  by (induction entries arbitrary: spool) (use recover_entry_keeps in \<open>fastforce+\<close>)

lemma open_spool_keeps:
  assumes "open_spool hash failed_at (sp_root spool) (sp_quarantine spool) max_bytes = (spool', r)" and "spool_names spool"
  shows "spool_names spool' \<and> spool_holds spool \<subseteq> spool_holds spool'"
proof -
  let ?opened = "\<lparr>sp_root = sp_root spool, sp_quarantine = sp_quarantine spool, sp_max_bytes = max_bytes\<rparr>"
  have "spool_names ?opened" "spool_holds ?opened = spool_holds spool"
    using assms(2) by (simp_all add: spool_names_def spool_holds_def pending_batches_def quarantined_batches_def)
  then show ?thesis
    using assms(1) recover_entries_keep [of ?opened hash]
    by (auto simp: open_spool_def recover_temporary_files_def split: option.splits)
qed

subsection \<open>The invariant\<close>

lemma rejection_not_success: "\<not> is_success (rejection_status r) \<and> rejection_status r \<noteq> CONFLICT"
  by (cases r) (simp_all add: is_success_def CONFLICT_def)

text \<open>An answer that makes the sensor drop the batch is Outpost's acceptance of it.\<close>

lemma delivered_is_acknowledged:
  assumes "observer_verdict (answers_with answer env) body = Delivered" and "answer \<in> {None, Some (post_status response)}"
  shows "fst ` acknowledged name response = {name}"
proof -
  have "is_success (post_status response) \<or> post_status response = CONFLICT"
    using assms by (auto simp: observer_verdict_def answers_with_def split: option.splits if_splits)
  then show ?thesis
    using rejection_not_success
    by (cases "(name, response)" rule: acknowledged.cases) (auto simp: is_success_def CONFLICT_def PAYLOAD_TOO_LARGE_def)
qed

lemma forward_keeps:
  assumes "spool_names (fst observer)" and "listed_item item"
    and run: "deliver_observer_items (answers_with answer env) observer [item] = (observer', r)"
    and answer: "answer \<in> {None, Some (post_status response)}"
  shows "spool_names (fst observer') \<and>
    spool_holds (fst observer) \<subseteq> spool_holds (fst observer') \<union> fst ` acknowledged (pi_path item) response"
proof -
  obtain spool' metrics' where observer': "observer' = (spool', metrics')" by fastforce
  let ?env = "answers_with answer env"
  have settle: "settle_spool (de_read_fault ?env) (de_finish_fault ?env) (observer_verdict ?env) (fst observer) [item] = (spool', \<not> isl r)"
    using run unfolding observer' by (rule observer_items_settle)
  have "n \<in> spool_holds spool' \<union> fst ` acknowledged (pi_path item) response" if "n \<in> spool_holds (fst observer)" for n
    using settle_item_holds [OF assms(1,2) settle that] delivered_is_acknowledged [OF _ answer, of env _ "pi_path item"]
    by blast
  then show ?thesis using settle_item_names [OF assms(1,2) settle] observer' by auto
qed

lemma export_keeps:
  assumes "spool_names (os_spool outpost)" and "listed_item item"
    and run: "deliver_pending_items env outpost [item] = (outpost', r)"
  shows "spool_names (os_spool outpost') \<and>
    spool_holds (os_spool outpost) \<subseteq> spool_holds (os_spool outpost') \<union> confirmed env outpost item"
proof -
  note settle = outpost_items_settle [OF run]
  have "n \<in> spool_holds (os_spool outpost') \<union> confirmed env outpost item" if "n \<in> spool_holds (os_spool outpost)" for n
    using settle_item_holds [OF assms(1,2) settle that]
    by (auto simp: confirmed_def fetch_from_def split: sum.splits)
  then show ?thesis using settle_item_names [OF assms(1,2) settle] by auto
qed

lemma pipeline_step_inv:
  assumes "pipeline_step hash s s'" and shape: "digest_shape hash" and inv: "pipeline_inv s"
  shows "pipeline_inv s'"
  using assms(1)
proof cases
  case (flush crypto encode assignment fault now events observer)
  with inv flush_keeps [OF flush(2) shape _ flush(3)] show ?thesis by (auto simp: pipeline_inv_def)
next
  case (forward item env body aenv authorization outpost response answer observer r)
  have names: "spool_names (fst (pl_observer s))" "spool_names (os_spool (pl_outpost s))"
    using inv by (simp_all add: pipeline_inv_def)
  from forward_keeps [OF names(1) forward(2) forward(8,7)]
    post_batch_holds [OF forward(5) shape names(2) forward(6), of "pi_path item"] inv
  show ?thesis unfolding forward(1) pipeline_inv_def by (simp add: image_Un) blast
next
  case (unreachable item env observer r)
  have names: "spool_names (fst (pl_observer s))" using inv by (simp add: pipeline_inv_def)
  from forward_keeps [OF names unreachable(2,3), of None] inv
  show ?thesis unfolding unreachable(1) pipeline_inv_def by auto
next
  case (export item denv outpost r)
  with inv export_keeps [OF _ export(2,3)] show ?thesis unfolding export(1) pipeline_inv_def by auto
next
  case (enrichment pods)
  with inv show ?thesis
    by (auto simp: pipeline_inv_def fetch_kubernetes_cache_def Let_def split: option.split)
next
  case (enriched pod_cache)
  with inv show ?thesis by (auto simp: pipeline_inv_def write_kubernetes_cache_def)
next
  case (observer_restart failed_at max_bytes spool r metrics)
  with inv open_spool_keeps [OF observer_restart(2)] show ?thesis by (auto simp: pipeline_inv_def)
next
  case (outpost_restart failed_at max_bytes spool r outpost_metrics)
  with inv open_spool_keeps [OF outpost_restart(2)] show ?thesis by (auto simp: pipeline_inv_def)
qed

text \<open>
  C1: no batch is lost on its way. However enqueues, requests, lost answers, uploads, cache refreshes,
  failing system calls and restarts of sensor and Outpost are interleaved, every batch that the
  sensor's spool once took is still in the sensor's spool or quarantine, or Outpost has acknowledged
  it; and every batch Outpost acknowledged is in Outpost's spool or quarantine, or the destination has
  confirmed it. Batches are identified by the digests under which the two spools store them.
\<close>

theorem no_batch_is_lost_on_its_way:
  assumes "digest_shape hash" and "pipeline_inv s" and "(pipeline_step hash)\<^sup>*\<^sup>* s s'" and "name \<in> pl_entered s'"
  shows "name \<in> spool_holds (fst (pl_observer s')) \<or>
    (\<exists>receipt. (name, receipt) \<in> pl_handed s' \<and> (receipt \<in> spool_holds (os_spool (pl_outpost s')) \<or> receipt \<in> pl_confirmed s'))"
proof -
  have "pipeline_inv s'"
    using assms(3,2) by (induction rule: rtranclp_induct) (auto intro: pipeline_step_inv [OF _ assms(1)])
  with assms(4) show ?thesis unfolding pipeline_inv_def by (force simp: subset_iff)
qed

subsection \<open>A sample run\<close>

definition sample_pipeline :: pipeline where
  "sample_pipeline =
     \<lparr>pl_observer = (\<lparr>sp_root = [], sp_quarantine = [], sp_max_bytes = 1000\<rparr>, sample_runtime_metrics),
      pl_outpost = sample_outpost_state, pl_entered = {}, pl_handed = {}, pl_confirmed = {}\<rparr>"

lemma sample_pipeline_inv: "pipeline_inv sample_pipeline"
  using sample_spool_names by (simp add: pipeline_inv_def sample_pipeline_def spool_names_def sample_outpost_state_def)

theorem no_batch_is_lost_on_its_way_witness:
  "\<exists>s. (pipeline_step (digest_hex sample_crypto))\<^sup>*\<^sup>* sample_pipeline s \<and>
     json_name (digest_hex sample_crypto [9]) \<in> pl_entered s \<and>
     json_name (digest_hex sample_crypto [9]) \<in> spool_holds (fst (pl_observer s))"
proof -
  let ?empty = "\<lparr>sp_root = [], sp_quarantine = [], sp_max_bytes = 1000\<rparr>"
  let ?assignment = "\<lparr>as_customer_id = [], as_tenant_id = [], as_source_id = [], as_regional_cell_id = [], as_sensor_id = [], as_node_name = []\<rparr>"
  have run: "snd (spool_enqueue (digest_hex sample_crypto) None ?empty [9]) = Ok (digest_hex sample_crypto [9])"
    by (simp add: spool_enqueue_def exists_in_def Let_def directory_stats_def saturating_add_usize_def)
  let ?s = "sample_pipeline\<lparr>
    pl_observer := flush_batch sample_crypto (\<lambda>_. Some [9]) ?assignment None 0 (pl_observer sample_pipeline) [sample_auth_event],
    pl_entered := pl_entered sample_pipeline \<union>
      spooled_name sample_crypto (\<lambda>_. Some [9]) ?assignment None 0 (fst (pl_observer sample_pipeline)) [sample_auth_event]\<rparr>"
  have "pipeline_step (digest_hex sample_crypto) sample_pipeline ?s"
    by (rule pipeline_step.flush [OF refl refl])
  then have steps: "(pipeline_step (digest_hex sample_crypto))\<^sup>*\<^sup>* sample_pipeline ?s" by (rule r_into_rtranclp)
  have entered: "json_name (digest_hex sample_crypto [9]) \<in> pl_entered ?s"
    using run by (simp add: spooled_name_def sample_pipeline_def)
  from no_batch_is_lost_on_its_way [OF sample_digest_shape sample_pipeline_inv steps entered]
  have "json_name (digest_hex sample_crypto [9]) \<in> spool_holds (fst (pl_observer ?s))"
    by (simp add: sample_pipeline_def)
  with steps entered show ?thesis by blast
qed

end
