(* ===== verification/Uprobes.thy ===== *)
theory Uprobes
  imports Observer_Main
begin

text \<open>
  Discovery of MongoDB processes and the user-space probes on them, \<open>scan_and_attach_uprobes\<close> and what it
  calls in \<open>crates/observer/src/main.rs\<close>. Attaching a probe (\<open>libbpf\<close>) and updating the map of target
  processes are parameters; a link is a number.
\<close>

subsection \<open>Attaching\<close>

type_synonym link = nat

text \<open>\<open>attach program pid path symbol retprobe\<close>.\<close>

type_synonym attach_symbol = "string \<Rightarrow> int \<Rightarrow> string list \<Rightarrow> string \<Rightarrow> bool \<Rightarrow> link option"

definition ssl_pairs :: "(string \<times> string \<times> string) list" where
  "ssl_pairs =
     [(''handle_ssl_read_enter'', ''handle_ssl_read_exit'', ''SSL_read''),
      (''handle_ssl_write_enter'', ''handle_ssl_write_exit'', ''SSL_write''),
      (''handle_ssl_read_ex_enter'', ''handle_ssl_read_ex_exit'', ''SSL_read_ex''),
      (''handle_ssl_write_ex_enter'', ''handle_ssl_write_ex_exit'', ''SSL_write_ex'')]"

definition ssl_singles :: "(string \<times> string) list" where
  "ssl_singles = [(''handle_ssl_set_fd'', ''SSL_set_fd''), (''handle_ssl_free'', ''SSL_free'')]"

text \<open>The links of one library: entry and exit probes only together.\<close>

definition candidate_links :: "attach_symbol \<Rightarrow> int \<Rightarrow> string list \<Rightarrow> link list" where
  "candidate_links attach pid path =
     concat (map (\<lambda>(entry, exit, symbol).
       case (attach entry pid path symbol False, attach exit pid path symbol True) of
         (Some entry, Some exit) \<Rightarrow> [entry, exit]
       | _ \<Rightarrow> []) ssl_pairs) @
     concat (map (\<lambda>(program, symbol).
       case attach program pid path symbol False of Some link \<Rightarrow> [link] | None \<Rightarrow> []) ssl_singles)"

text \<open>\<open>executable_exists\<close> is \<open>Path::exists\<close> on the process's \<open>exe\<close> entry.\<close>

definition attach_ssl_uprobes ::
  "proc_fs \<Rightarrow> (string list \<Rightarrow> bool) \<Rightarrow> attach_symbol \<Rightarrow> string \<Rightarrow> int \<Rightarrow> link list option" where
  "attach_ssl_uprobes fs executable_exists attach host_proc pid =
     map_option (\<lambda>candidates.
       let executable = [host_proc, int_string pid, ''exe''];
           candidates = (if candidates = [] \<and> executable_exists executable then [executable] else candidates)
       in concat (map (candidate_links attach pid) candidates))
       (mapped_libraries fs host_proc pid [''libssl.so'', ''libboringssl''])"

fun lock_links_of :: "attach_symbol \<Rightarrow> int \<Rightarrow> string list list \<Rightarrow> link list" where
  "lock_links_of attach pid [] = []"
| "lock_links_of attach pid (path # paths) =
     (case (attach ''handle_mutex_lock_enter'' pid path ''pthread_mutex_lock'' False,
            attach ''handle_mutex_lock_exit'' pid path ''pthread_mutex_lock'' True) of
        (Some entry, Some exit) \<Rightarrow> [entry, exit]
      | _ \<Rightarrow> lock_links_of attach pid paths)"

definition attach_lock_uprobes :: "proc_fs \<Rightarrow> attach_symbol \<Rightarrow> string \<Rightarrow> int \<Rightarrow> link list option" where
  "attach_lock_uprobes fs attach host_proc pid =
     map_option (lock_links_of attach pid) (mapped_libraries fs host_proc pid [''libpthread.so'', ''libc.so''])"

subsection \<open>The scan\<close>

record uprobe_set =
  ssl_links :: "link list"
  lock_links :: "link list"

text \<open>What the scan reads from the node; \<open>sc_entries\<close> is the listing of \<open>/proc\<close>, if it can be read.\<close>

record scan_env =
  sc_fs :: proc_fs
  sc_entries :: "string list option"
  sc_executable_exists :: "string list \<Rightarrow> bool"
  sc_attach :: attach_symbol
  sc_update_target :: "int \<Rightarrow> bool"

text \<open>The probes of one process: those missing are attached, those present are kept.\<close>

definition attach_process :: "scan_env \<Rightarrow> bpf_config \<Rightarrow> int \<Rightarrow> uprobe_set \<Rightarrow> uprobe_set" where
  "attach_process env config pid probes =
     (let probes =
        (if bc_tls_mode config \<noteq> Off \<and> ssl_links probes = [] then
           (case attach_ssl_uprobes (sc_fs env) (sc_executable_exists env) (sc_attach env) (bc_host_proc config) pid of
              Some links \<Rightarrow> if links \<noteq> [] then probes\<lparr>ssl_links := links\<rparr> else probes
            | None \<Rightarrow> probes)
         else probes)
      in if bc_lock_profiling config \<and> lock_links probes = [] then
           (case attach_lock_uprobes (sc_fs env) (sc_attach env) (bc_host_proc config) pid of
              Some links \<Rightarrow> probes\<lparr>lock_links := links\<rparr>
            | None \<Rightarrow> probes)
         else probes)"

fun attach_processes ::
  "scan_env \<Rightarrow> bpf_config \<Rightarrow> int list \<Rightarrow> (int, uprobe_set) hashmap \<Rightarrow> (int, uprobe_set) hashmap \<times> bool" where
  "attach_processes env config [] attached = (attached, True)"
| "attach_processes env config (pid # pids) attached =
     (if \<not> sc_update_target env pid then (attached, False)
      else
        attach_processes env config pids
          (hm_insert pid (attach_process env config pid
             (hm_get_or \<lparr>ssl_links = [], lock_links = []\<rparr> attached pid)) attached))"

definition scan_and_attach_uprobes ::
  "scan_env \<Rightarrow> bpf_config \<Rightarrow> (int, uprobe_set) hashmap \<times> runtime_metrics \<Rightarrow>
   ((int, uprobe_set) hashmap \<times> runtime_metrics) \<times> (string, unit) result" where
  "scan_and_attach_uprobes env config state =
     (case state of (attached, metrics) \<Rightarrow>
        (case sc_entries env of
           None \<Rightarrow> ((attached, metrics), Fail ''reading host procfs'')
         | Some entries \<Rightarrow>
             let pids = mongodb_pids (sc_fs env) (bc_host_proc config) entries in
             (case attach_processes env config pids (hm_retain (\<lambda>pid _. pid \<in> set pids) attached) of
                (attached, False) \<Rightarrow> ((attached, metrics), Fail ''updating target map'')
              | (attached, True) \<Rightarrow>
                  let metrics = metrics\<lparr>rm_target_processes := length pids,
                        rm_tls_uprobe_processes := length (filter (\<lambda>(_, probes). ssl_links probes \<noteq> []) attached)\<rparr>
                  in ((attached, metrics),
                      if bc_tls_mode config = Required \<and> pids \<noteq> [] \<and> list_all (\<lambda>(_, probes). ssl_links probes = []) attached
                      then Fail ''TLS uprobes are required, but no mongod/mongos OpenSSL symbols could be attached''
                      else Ok ()))))"

subsection \<open>What a scan keeps\<close>

definition hm_keys :: "('k, 'v) hashmap \<Rightarrow> 'k set" where
  "hm_keys m = fst ` set m"

lemma hm_keys_insert [simp]: "hm_keys (hm_insert k v m) = insert k (hm_keys m)"
  by (induction m) (auto simp: hm_keys_def hm_insert_def)

lemma hm_keys_get: "hm_get m k \<noteq> None \<longleftrightarrow> k \<in> hm_keys m"
  by (simp add: hm_get_def hm_keys_def map_of_eq_None_iff)

lemma attach_process_keeps:
  "ssl_links probes \<noteq> [] \<Longrightarrow> ssl_links (attach_process env config pid probes) = ssl_links probes"
  "lock_links probes \<noteq> [] \<Longrightarrow> lock_links (attach_process env config pid probes) = lock_links probes"
  by (simp_all add: attach_process_def Let_def split: option.split)

lemma attach_processes_keys:
  "attach_processes env config pids attached = (attached', True) \<Longrightarrow> hm_wf attached \<Longrightarrow>
     hm_wf attached' \<and> hm_keys attached' = hm_keys attached \<union> set pids"
  by (induction env config pids attached rule: attach_processes.induct) (auto split: if_splits)

lemma attach_processes_keeps:
  "attach_processes env config pids attached = (attached', ok) \<Longrightarrow> hm_get attached pid = Some probes \<Longrightarrow>
     \<exists>probes'. hm_get attached' pid = Some probes' \<and>
       (ssl_links probes \<noteq> [] \<longrightarrow> ssl_links probes' = ssl_links probes) \<and>
       (lock_links probes \<noteq> [] \<longrightarrow> lock_links probes' = lock_links probes)"
proof (induction pids arbitrary: attached probes)
  case (Cons p pids)
  show ?case
  proof (cases "sc_update_target env p")
    case False
    with Cons.prems show ?thesis by auto
  next
    case True
    let ?probes = "hm_get_or \<lparr>ssl_links = [], lock_links = []\<rparr> attached p"
    let ?next = "hm_insert p (attach_process env config p ?probes) attached"
    have run: "attach_processes env config pids ?next = (attached', ok)" using Cons.prems(1) True by simp
    show ?thesis
    proof (cases "p = pid")
      case True
      then have "hm_get ?next pid = Some (attach_process env config p probes)"
        using Cons.prems(2) by (simp add: hm_get_insert hm_get_or_def)
      from Cons.IH [OF run this] show ?thesis using attach_process_keeps [of probes env config p] by force
    next
      case False
      then have "hm_get ?next pid = Some probes" using Cons.prems(2) by (simp add: hm_get_insert)
      from Cons.IH [OF run this] show ?thesis .
    qed
  qed
qed auto

lemma attach_processes_ok:
  "snd (attach_processes env config pids attached) \<longleftrightarrow> (\<forall>pid \<in> set pids. sc_update_target env pid)"
  by (induction pids arbitrary: attached) auto

lemma attach_processes_subset: "hm_keys (fst (attach_processes env config pids attached)) \<subseteq> hm_keys attached \<union> set pids"
proof (induction pids arbitrary: attached)
  case (Cons pid pids)
  have "hm_keys (fst (attach_processes env config pids (hm_insert pid probes attached))) \<subseteq>
      hm_keys attached \<union> set (pid # pids)" for probes
    using Cons.IH [of "hm_insert pid probes attached"] by auto
  then show ?case by auto
qed simp

lemma length_filter_values:
  assumes "hm_wf m"
  shows "length (filter (\<lambda>(_, v). P v) m) = card {k. \<exists>v. hm_get m k = Some v \<and> P v}"
proof -
  have "{k. \<exists>v. hm_get m k = Some v \<and> P v} = set (map fst (filter (\<lambda>(_, v). P v) m))"
    using hm_get_in_set [OF assms] by (force dest: hm_get_SomeD)
  moreover have "distinct (map fst (filter (\<lambda>(_, v). P v) m))"
    using assms by (simp add: hm_wf_def distinct_map_filter)
  ultimately show ?thesis by (metis distinct_card length_map)
qed

lemma hm_keys_retain: "hm_keys (hm_retain (\<lambda>k _. k \<in> ks) m) = hm_keys m \<inter> ks"
  by (force simp: hm_keys_def hm_retain_def)

text \<open>
  C39: the probes follow the processes, on every branch of a scan. If \<open>/proc\<close> cannot be listed, the scan fails and changes
  nothing. If the kernel's map cannot be updated for one of the running \<open>mongod\<close> and \<open>mongos\<close> processes, it
  fails, keeps no probes of other processes and leaves the gauges alone. Otherwise probes are recorded for exactly the running
  processes, the two gauges are the number of processes and of those with TLS probes, and the scan
  fails exactly when TLS probes are required, there is a process, and none has any; one process with TLS probes is
  enough. Whenever \<open>/proc\<close> could be listed, a running process that had TLS or lock probes before keeps the same links and
  is not probed a second time.
\<close>

theorem scan_follows_the_processes:
  assumes "hm_wf attached"
    and "scan_and_attach_uprobes env config (attached, metrics) = ((attached', metrics'), r)"
  shows "case sc_entries env of
      None \<Rightarrow> isl r \<and> attached' = attached \<and> metrics' = metrics
    | Some entries \<Rightarrow>
        let pids = mongodb_pids (sc_fs env) (bc_host_proc config) entries in
        (\<forall>pid probes. pid \<in> set pids \<longrightarrow> hm_get attached pid = Some probes \<longrightarrow>
          (\<exists>probes'. hm_get attached' pid = Some probes' \<and>
             (ssl_links probes \<noteq> [] \<longrightarrow> ssl_links probes' = ssl_links probes) \<and>
             (lock_links probes \<noteq> [] \<longrightarrow> lock_links probes' = lock_links probes))) \<and>
        (if \<exists>pid \<in> set pids. \<not> sc_update_target env pid
         then isl r \<and> hm_keys attached' \<subseteq> set pids \<and> metrics' = metrics
         else hm_keys attached' = set pids \<and> rm_target_processes metrics' = length pids \<and>
           rm_tls_uprobe_processes metrics' = card {pid. \<exists>probes. hm_get attached' pid = Some probes \<and> ssl_links probes \<noteq> []} \<and>
           (isl r \<longleftrightarrow> bc_tls_mode config = Required \<and> pids \<noteq> [] \<and>
              (\<forall>pid probes. hm_get attached' pid = Some probes \<longrightarrow> ssl_links probes = [])))"
proof (cases "sc_entries env")
  case None
  with assms(2) show ?thesis by (auto simp: scan_and_attach_uprobes_def)
next
  case (Some entries)
  define pids where "pids = mongodb_pids (sc_fs env) (bc_host_proc config) entries"
  let ?retained = "hm_retain (\<lambda>pid _. pid \<in> set pids) attached"
  obtain final ok where run: "attach_processes env config pids ?retained = (final, ok)" by fastforce
  have kept: "\<exists>probes'. hm_get final pid = Some probes' \<and>
        (ssl_links probes \<noteq> [] \<longrightarrow> ssl_links probes' = ssl_links probes) \<and>
        (lock_links probes \<noteq> [] \<longrightarrow> lock_links probes' = lock_links probes)"
    if "pid \<in> set pids" "hm_get attached pid = Some probes" for pid probes
    using attach_processes_keeps [OF run] that assms(1) by (simp add: hm_get_retain)
  have ok: "ok \<longleftrightarrow> (\<forall>pid \<in> set pids. sc_update_target env pid)"
    using attach_processes_ok [of env config pids ?retained] run by simp
  have final: "attached' = final"
    using assms(2) run Some by (auto simp: scan_and_attach_uprobes_def pids_def Let_def split: bool.splits)
  show ?thesis
  proof (cases ok)
    case False
    have "hm_keys final \<subseteq> set pids"
      using attach_processes_subset [of env config pids ?retained] run by (auto simp: hm_keys_retain)
    moreover have "isl r" "metrics' = metrics"
      using False assms(2) run Some by (auto simp: scan_and_attach_uprobes_def pids_def [symmetric] Let_def)
    moreover have "\<exists>pid \<in> set pids. \<not> sc_update_target env pid" using False ok by blast
    ultimately show ?thesis using kept final Some by (simp add: pids_def [symmetric] Let_def)
  next
    case True
    have wf: "hm_wf final" and keys: "hm_keys final = set pids"
      using attach_processes_keys [of env config pids ?retained final] run True assms(1) by (auto simp: hm_keys_retain)
    have none: "list_all (\<lambda>(_, probes). ssl_links probes = []) final \<longleftrightarrow>
        (\<forall>pid probes. hm_get final pid = Some probes \<longrightarrow> ssl_links probes = [])"
      using hm_get_in_set [OF wf] by (force simp: list_all_iff dest: hm_get_SomeD)
    have "rm_target_processes metrics' = length pids"
        "rm_tls_uprobe_processes metrics' = length (filter (\<lambda>(_, probes). ssl_links probes \<noteq> []) final)"
        "isl r \<longleftrightarrow> bc_tls_mode config = Required \<and> pids \<noteq> [] \<and> list_all (\<lambda>(_, probes). ssl_links probes = []) final"
      using assms(2) run Some True
      by (auto simp: scan_and_attach_uprobes_def Let_def pids_def [symmetric] split: if_splits)
    with keys kept final ok True none length_filter_values [OF wf, of "\<lambda>probes. ssl_links probes \<noteq> []"] Some show ?thesis
      by (simp add: pids_def [symmetric] Let_def)
  qed
qed

text \<open>
  The last field of the line of a mapped file that has been replaced is the word \<open>(deleted)\<close>, so such
  a library is never a candidate: the suffix that the code removes is not part of the field.
\<close>

lemma deleted_library_is_skipped:
  "mapped_library [''libssl.so''] ''7f00-7f01 r-xp 0 08:01 42 /usr/lib/libssl.so.3 (deleted)'' = None \<and>
   mapped_library [''libssl.so''] ''7f00-7f01 r-xp 0 08:01 42 /usr/lib/libssl.so.3'' = Some ''usr/lib/libssl.so.3''"
  by code_simp

definition sample_scan_env :: scan_env where
  "sample_scan_env =
     \<lparr>sc_fs = \<lparr>fs_link = (\<lambda>_. None), fs_file = (\<lambda>_. Some (as_bytes ''mongod''))\<rparr>, sc_entries = Some [''7''],
      sc_executable_exists = (\<lambda>_. True), sc_attach = (\<lambda>_ _ _ _ _. Some 1), sc_update_target = (\<lambda>_. True)\<rparr>"

theorem scan_follows_the_processes_witness:
  "hm_keys (fst (fst (scan_and_attach_uprobes sample_scan_env
     \<lparr>bc_host_proc = ''/proc'', bc_rescan_seconds = 2, bc_cpu_profile_hz = 0, bc_mongodb_port = 27017,
      bc_tls_mode = Auto, bc_lock_profiling = True\<rparr>
     ([(9, \<lparr>ssl_links = [3], lock_links = []\<rparr>)],
      \<lparr>rm_bpf_ready = True, rm_ring_events = 0, rm_malformed_ring_events = 0, rm_userspace_dropped_events = 0,
       rm_parse_errors = 0, rm_metadata_events = 0, rm_batches_spooled = 0, rm_spool_dropped_events = 0,
       rm_batches_delivered = 0, rm_delivery_failures = 0, rm_quarantined_batches = 0, rm_bpf_dropped_events = 0,
       rm_target_processes = 0, rm_tls_uprobe_processes = 0\<rparr>)))) =
   set (mongodb_pids (sc_fs sample_scan_env) ''/proc'' [''7''])"
  (is "hm_keys (fst (fst (scan_and_attach_uprobes _ ?config (?attached, ?metrics)))) = _")
proof -
  obtain attached' metrics' r where
    run: "scan_and_attach_uprobes sample_scan_env ?config (?attached, ?metrics) = ((attached', metrics'), r)"
    by (metis prod.collapse)
  have "hm_wf ?attached" by (simp add: hm_wf_def)
  moreover have "sc_entries sample_scan_env = Some [''7'']" "\<And>pid. sc_update_target sample_scan_env pid"
    by (simp_all add: sample_scan_env_def)
  ultimately show ?thesis using scan_follows_the_processes [OF _ run] by (simp add: run Let_def)
qed

end
