(* ===== verification/Probes.thy ===== *)
theory Probes
  imports Uprobes
begin

text \<open>
  The life of the eBPF worker, \<open>run_bpf\<close> of \<open>crates/observer/src/main.rs\<close> and the thread \<open>main\<close> runs it
  in: loading the object, attaching required and optional kernel probes, CPU sampling, the first scan,
  then polling the ring buffer until it is told to stop. What \<open>libbpf\<close> and the kernel answer is the
  parameter \<open>bpf_env\<close>; a link and a file descriptor are numbers.
\<close>

subsection \<open>Kernel probes\<close>

text \<open>Programs and the names \<open>run_bpf\<close> reports them by.\<close>

definition required_probes :: "(string \<times> string) list" where
  "required_probes =
     [(''handle_sys_enter'', ''raw_syscalls/sys_enter''),
      (''handle_sys_exit'', ''raw_syscalls/sys_exit''),
      (''handle_sched_switch'', ''sched/sched_switch''),
      (''handle_process_exec'', ''sched/sched_process_exec''),
      (''handle_process_exit'', ''sched/sched_process_exit''),
      (''handle_tcp_sendmsg'', ''tcp_sendmsg''),
      (''handle_tcp_recvmsg'', ''tcp_recvmsg'')]"

definition optional_probes :: "(string \<times> string) list" where
  "optional_probes =
     [(''handle_udp_sendmsg'', ''udp_sendmsg''),
      (''handle_udp_recvmsg'', ''udp_recvmsg''),
      (''handle_udpv6_sendmsg'', ''udpv6_sendmsg''),
      (''handle_udpv6_recvmsg'', ''udpv6_recvmsg''),
      (''handle_tcp_connect'', ''tcp_connect''),
      (''handle_tcp_state'', ''tcp_set_state''),
      (''handle_tcp_accept'', ''inet_csk_accept''),
      (''handle_tcp_close'', ''tcp_close''),
      (''handle_tcp_rtt'', ''tcp_rcv_established''),
      (''handle_tcp_retransmit'', ''tcp_retransmit_skb''),
      (''handle_tcp_reset'', ''tcp_reset''),
      (''handle_tcp_active_reset'', ''tcp_send_active_reset''),
      (''handle_page_fault_enter'', ''handle_mm_fault entry''),
      (''handle_page_fault_exit'', ''handle_mm_fault return'')]"

text \<open>The macro \<open>required!\<close>: a probe that does not attach ends \<open>run_bpf\<close>.\<close>

fun attach_required :: "(string \<Rightarrow> link option) \<Rightarrow> (string \<times> string) list \<Rightarrow> link list \<Rightarrow> (string, link list) result" where
  "attach_required attach [] links = Ok links"
| "attach_required attach ((program, name) # probes) links =
     (case attach program of
        None \<Rightarrow> Fail (''attaching '' @ name)
      | Some l \<Rightarrow> attach_required attach probes (links @ [l]))"

text \<open>The macro \<open>optional!\<close>: a probe that does not attach is skipped.\<close>

fun attach_optional :: "(string \<Rightarrow> link option) \<Rightarrow> (string \<times> string) list \<Rightarrow> link list \<Rightarrow> link list" where
  "attach_optional attach [] links = links"
| "attach_optional attach ((program, name) # probes) links =
     attach_optional attach probes (case attach program of None \<Rightarrow> links | Some l \<Rightarrow> links @ [l])"

subsection \<open>CPU sampling\<close>

text \<open>One sampling event per CPU; a CPU whose event cannot be opened or attached is skipped.\<close>

definition sample_cpu ::
  "(nat \<Rightarrow> int) \<Rightarrow> (int \<Rightarrow> link option) \<Rightarrow> nat \<Rightarrow> int list \<times> link list \<Rightarrow> int list \<times> link list" where
  "sample_cpu open_event attach cpu state =
     (case state of (fds, links) \<Rightarrow>
        let fd = open_event cpu in
        if fd < 0 then (fds, links)
        else (case attach fd of None \<Rightarrow> (fds, links) | Some l \<Rightarrow> (fds @ [fd], links @ [l])))"

definition attach_cpu_sampling ::
  "usize option \<Rightarrow> (nat \<Rightarrow> int) \<Rightarrow> (int \<Rightarrow> link option) \<Rightarrow> int list \<times> link list \<Rightarrow> int list \<times> link list" where
  "attach_cpu_sampling cpus open_event attach state =
     (case cpus of None \<Rightarrow> state | Some n \<Rightarrow> fold (sample_cpu open_event attach) [0..<n] state)"

subsection \<open>Start\<close>

text \<open>What the kernel and \<open>libbpf\<close> answer while the worker starts; \<open>be_succeeds\<close> says which further calls succeed.\<close>

datatype bpf_call = OpenObject | Rodata | LoadObject | TargetMap | DroppedMap | StackMap | AddRing | BuildRing

record bpf_env =
  be_succeeds :: "bpf_call \<Rightarrow> bool"
  be_attach :: "string \<Rightarrow> link option"
  be_cpus :: "usize option"
  be_perf_open :: "nat \<Rightarrow> int"
  be_perf_attach :: "int \<Rightarrow> link option"
  be_scan :: scan_env

fun bpf_call_error :: "bpf_call \<Rightarrow> string" where
  "bpf_call_error OpenObject = ''opening the eBPF object''"
| "bpf_call_error Rodata = ''eBPF rodata map is unavailable''"
| "bpf_call_error LoadObject =
     ''loading eBPF programs; the node needs BTF, Linux 5.8+, and privileged BPF access''"
| "bpf_call_error _ = ''libbpf''"

definition try_bpf :: "bpf_env \<Rightarrow> bpf_call \<Rightarrow> (string, unit) result" where
  "try_bpf env call = (if be_succeeds env call then Ok () else Fail (bpf_call_error call))"

record bpf_worker =
  bw_kernel_links :: "link list"
  bw_perf_fds :: "int list"
  bw_perf_links :: "link list"
  bw_uprobes :: "(int, uprobe_set) hashmap"

text \<open>\<open>run_bpf\<close> up to the first scan, which does not touch the metrics.\<close>

definition attach_probes :: "bpf_env \<Rightarrow> bpf_config \<Rightarrow> (string, bpf_worker) result" where
  "attach_probes env config =
     rbind (try_bpf env OpenObject) (\<lambda>_.
     rbind (try_bpf env Rodata) (\<lambda>_.
     rbind (try_bpf env LoadObject) (\<lambda>_.
     rbind (attach_required (be_attach env) required_probes []) (\<lambda>links.
     let kernel_links = attach_optional (be_attach env) optional_probes links in
     rbind (try_bpf env TargetMap) (\<lambda>_.
     rbind (try_bpf env DroppedMap) (\<lambda>_.
     rbind (try_bpf env StackMap) (\<lambda>_.
     let (perf_fds, perf_links) =
       (if bc_cpu_profile_hz config > 0
        then attach_cpu_sampling (be_cpus env) (be_perf_open env) (be_perf_attach env) ([], []) else ([], [])) in
     rbind (try_bpf env AddRing) (\<lambda>_.
     rbind (try_bpf env BuildRing) (\<lambda>_.
     Ok \<lparr>bw_kernel_links = kernel_links, bw_perf_fds = perf_fds, bw_perf_links = perf_links, bw_uprobes = []\<rparr>)))))))))"

definition start_bpf ::
  "bpf_env \<Rightarrow> bpf_config \<Rightarrow> runtime_metrics \<Rightarrow> runtime_metrics \<times> (string, bpf_worker) result" where
  "start_bpf env config metrics =
     (case attach_probes env config of
        Inl e \<Rightarrow> (metrics, Inl e)
      | Inr worker \<Rightarrow>
          (case scan_and_attach_uprobes (be_scan env) config (bw_uprobes worker, metrics) of
             ((uprobes, metrics), Inl e) \<Rightarrow> (metrics, Inl e)
           | ((uprobes, metrics), Inr _) \<Rightarrow>
               (metrics\<lparr>rm_bpf_ready := True\<rparr>, Ok (worker\<lparr>bw_uprobes := uprobes\<rparr>))))"

subsection \<open>Polling\<close>

text \<open>
  What one turn of the loop meets: the flag at its head, the records in the ring with the state of the
  channel at each, whether the poll itself fails, whether the interval is over, the scan, and the value in
  the map of dropped events.
\<close>

record bpf_turn =
  tn_stopping :: bool
  tn_records :: "(channel_state \<times> bytes) list"
  tn_stacks :: "i32 \<Rightarrow> bytes option"
  tn_poll_fails :: bool
  tn_rescan :: bool
  tn_scan :: scan_env
  tn_dropped :: "bytes option"

text \<open>The records of one poll; a negative answer of the callback ends the poll with an error.\<close>

fun poll_records ::
  "(i32 \<Rightarrow> bytes option) \<Rightarrow> runtime_metrics \<Rightarrow> (channel_state \<times> bytes) list \<Rightarrow>
   runtime_metrics \<times> captured_kernel_event list \<times> bool" where
  "poll_records stacks metrics [] = (metrics, [], True)"
| "poll_records stacks metrics ((channel, bs) # records) =
     (case ring_callback stacks channel metrics bs of (metrics, sent, code) \<Rightarrow>
        if code < 0 then (metrics, [], False)
        else (case poll_records stacks metrics records of (metrics, rest, ok) \<Rightarrow>
          (metrics, (case sent of None \<Rightarrow> rest | Some captured \<Rightarrow> captured # rest), ok)))"

text \<open>The counter of events the kernel dropped, read from the map if it has eight bytes.\<close>

definition dropped_value :: "bytes option \<Rightarrow> u64 option" where
  "dropped_value v = map_option from_le_bytes (Option.bind v (\<lambda>bs. slice_range bs 0 8))"

datatype bpf_outcome = Running | Stopped | Failed "string fault"

definition rescan :: "bpf_config \<Rightarrow> bpf_turn \<Rightarrow> bpf_worker \<times> runtime_metrics \<Rightarrow> (bpf_worker \<times> runtime_metrics) \<times> bpf_outcome" where
  "rescan config turn state =
     (case state of (worker, metrics) \<Rightarrow>
        (case scan_and_attach_uprobes (tn_scan turn) config (bw_uprobes worker, metrics) of
           ((uprobes, metrics), Inl e) \<Rightarrow> ((worker\<lparr>bw_uprobes := uprobes\<rparr>, metrics), Failed e)
         | ((uprobes, metrics), Inr _) \<Rightarrow>
             ((worker\<lparr>bw_uprobes := uprobes\<rparr>,
               (case dropped_value (tn_dropped turn) of
                  None \<Rightarrow> metrics | Some n \<Rightarrow> metrics\<lparr>rm_bpf_dropped_events := n\<rparr>)), Running)))"

text \<open>One turn of the loop: the records sent to the processor, and whether the loop goes on.\<close>

definition poll_turn ::
  "bpf_config \<Rightarrow> bpf_turn \<Rightarrow> bpf_worker \<times> runtime_metrics \<Rightarrow>
   (bpf_worker \<times> runtime_metrics) \<times> captured_kernel_event list \<times> bpf_outcome" where
  "poll_turn config turn state =
     (case state of (worker, metrics) \<Rightarrow>
        if tn_stopping turn then ((worker, metrics\<lparr>rm_bpf_ready := False\<rparr>), [], Stopped)
        else (case poll_records (tn_stacks turn) metrics (tn_records turn) of (metrics, sent, ok) \<Rightarrow>
          if \<not> ok \<or> tn_poll_fails turn then ((worker, metrics), sent, Failed (Err ''polling''))
          else if tn_rescan turn then
            (case rescan config turn (worker, metrics) of (state, outcome) \<Rightarrow> (state, sent, outcome))
          else ((worker, metrics), sent, Running)))"

subsection \<open>The worker thread\<close>

text \<open>
  Where the thread is. \<open>Announcing\<close> has set the readiness and not yet answered the start-up channel;
  \<open>Stopping\<close> has left the loop and cleared the readiness, with the links still held; in \<open>Returned\<close>
  the function \<open>run_bpf\<close> has returned, which has dropped its links; after an error the closure of the thread then clears
  the readiness (\<open>Cleared\<close>) and answers the start-up channel if that was not done.
\<close>

datatype thread_phase =
    Starting
  | Announcing bpf_worker
  | Polling bpf_worker
  | Stopping bpf_worker
  | Returned "string fault option"
  | Cleared "string fault"
  | Over

text \<open>\<open>th_sent\<close> is what went to the processor, \<open>th_offered\<close> the records the ring held at the polls so far.\<close>

record bpf_thread =
  th_phase :: thread_phase
  th_metrics :: runtime_metrics
  th_startup :: "(string, unit) result option"
  th_sent :: "captured_kernel_event list"
  th_offered :: "(channel_state \<times> bytes) list"

definition new_thread :: "runtime_metrics \<Rightarrow> bpf_thread" where
  "new_thread metrics =
     \<lparr>th_phase = Starting, th_metrics = metrics, th_startup = None, th_sent = [], th_offered = []\<rparr>"

text \<open>One step of the thread; between any two steps the other tasks see the metrics as they are then.\<close>

definition thread_step :: "bpf_env \<Rightarrow> bpf_config \<Rightarrow> bpf_turn \<Rightarrow> bpf_thread \<Rightarrow> bpf_thread" where
  "thread_step env config turn thread =
     (case th_phase thread of
        Starting \<Rightarrow>
          (case start_bpf env config (th_metrics thread) of
             (metrics, Inl e) \<Rightarrow> thread\<lparr>th_phase := Returned (Some e), th_metrics := metrics\<rparr>
           | (metrics, Inr worker) \<Rightarrow> thread\<lparr>th_phase := Announcing worker, th_metrics := metrics\<rparr>)
      | Announcing worker \<Rightarrow> thread\<lparr>th_phase := Polling worker, th_startup := Some (Ok ())\<rparr>
      | Polling worker \<Rightarrow>
          (case poll_turn config turn (worker, th_metrics thread) of
             ((worker, metrics), sent, outcome) \<Rightarrow>
               thread\<lparr>th_phase := (case outcome of Running \<Rightarrow> Polling worker | Stopped \<Rightarrow> Stopping worker
                                    | Failed e \<Rightarrow> Returned (Some e)),
                      th_metrics := metrics, th_sent := th_sent thread @ sent,
                      th_offered := th_offered thread @ (if tn_stopping turn then [] else tn_records turn)\<rparr>)
      | Stopping worker \<Rightarrow> thread\<lparr>th_phase := Returned None\<rparr>
      | Returned None \<Rightarrow> thread\<lparr>th_phase := Over\<rparr>
      | Returned (Some e) \<Rightarrow>
          thread\<lparr>th_phase := Cleared e, th_metrics := (th_metrics thread)\<lparr>rm_bpf_ready := False\<rparr>\<rparr>
      | Cleared e \<Rightarrow>
          thread\<lparr>th_phase := Over,
                 th_startup := (case th_startup thread of None \<Rightarrow> Some (Inl e) | Some answer \<Rightarrow> Some answer)\<rparr>
      | Over \<Rightarrow> thread)"

definition run_thread :: "bpf_env \<Rightarrow> bpf_config \<Rightarrow> runtime_metrics \<Rightarrow> bpf_turn list \<Rightarrow> bpf_thread" where
  "run_thread env config metrics turns = fold (thread_step env config) turns (new_thread metrics)"

text \<open>\<open>RuntimeMetrics::default()\<close>, with which \<open>main\<close> starts.\<close>

definition default_runtime_metrics :: runtime_metrics where
  "default_runtime_metrics =
     \<lparr>rm_bpf_ready = False, rm_ring_events = 0, rm_malformed_ring_events = 0, rm_userspace_dropped_events = 0,
      rm_parse_errors = 0, rm_metadata_events = 0, rm_batches_spooled = 0, rm_spool_dropped_events = 0,
      rm_batches_delivered = 0, rm_delivery_failures = 0, rm_quarantined_batches = 0, rm_bpf_dropped_events = 0,
      rm_target_processes = 0, rm_tls_uprobe_processes = 0\<rparr>"

subsection \<open>Readiness\<close>

lemma attach_required_links:
  "attach_required attach probes links = Ok links' \<Longrightarrow>
     set links \<subseteq> set links' \<and> (\<forall>program name. (program, name) \<in> set probes \<longrightarrow> (\<exists>l \<in> set links'. attach program = Some l))"
proof (induction attach probes links rule: attach_required.induct)
  case (2 attach program name probes links)
  then show ?case by (fastforce split: option.splits)
qed simp

lemma attach_optional_links: "set links \<subseteq> set (attach_optional attach probes links)"
  by (induction attach probes links rule: attach_optional.induct) (auto split: option.splits)

text \<open>The worker holds a link for every required probe.\<close>

definition holds_required :: "bpf_env \<Rightarrow> bpf_worker \<Rightarrow> bool" where
  "holds_required env worker \<longleftrightarrow>
     list_all (\<lambda>(program, name). \<exists>l \<in> set (bw_kernel_links worker). be_attach env program = Some l) required_probes"

lemma attach_probes_holds:
  assumes "attach_probes env config = Ok worker"
  shows "holds_required env worker"
proof -
  obtain links where "attach_required (be_attach env) required_probes [] = Ok links"
    and "bw_kernel_links worker = attach_optional (be_attach env) optional_probes links"
    using assms by (auto simp: attach_probes_def Let_def case_prod_unfold)
  with attach_required_links [OF this(1)] attach_optional_links [of links "be_attach env" optional_probes]
  show ?thesis unfolding holds_required_def list_all_iff by fastforce
qed

lemma scan_keeps:
  "scan_and_attach_uprobes env config (attached, metrics) = ((attached', metrics'), r) \<Longrightarrow>
     rm_bpf_ready metrics' = rm_bpf_ready metrics \<and> rm_ring_events metrics' = rm_ring_events metrics \<and>
     rm_malformed_ring_events metrics' = rm_malformed_ring_events metrics \<and>
     rm_userspace_dropped_events metrics' = rm_userspace_dropped_events metrics"
  by (auto simp: scan_and_attach_uprobes_def Let_def split: option.splits prod.splits bool.splits if_splits)

text \<open>A record that is a whole kernel event and meets a closed channel.\<close>

definition refused :: "channel_state \<times> bytes \<Rightarrow> bool" where
  "refused r \<longleftrightarrow> fst r = Closed \<and> length (snd r) = KERNEL_EVENT_SIZE"

text \<open>The records taken from the ring: all that were there, up to the first that the channel refuses.\<close>

fun taken_records :: "(channel_state \<times> bytes) list \<Rightarrow> (channel_state \<times> bytes) list" where
  "taken_records [] = []"
| "taken_records (r # records) = r # (if refused r then [] else taken_records records)"

text \<open>The events that a list of records carries to an accepting channel.\<close>

fun accepted_events :: "(channel_state \<times> bytes) list \<Rightarrow> kernel_event list" where
  "accepted_events [] = []"
| "accepted_events ((channel, bs) # records) =
     (case from_ring_bytes bs of
        None \<Rightarrow> accepted_events records
      | Some raw \<Rightarrow> if channel = Accepting then raw # accepted_events records else accepted_events records)"

lemma taken_records_append:
  "taken_records (xs @ ys) = (if \<exists>r \<in> set xs. refused r then taken_records xs else xs @ taken_records ys)"
  by (induction xs) auto

lemma taken_records_refused: "(\<exists>r \<in> set (taken_records xs). refused r) \<longleftrightarrow> (\<exists>r \<in> set xs. refused r)"
  by (induction xs) auto

lemma accepted_events_append: "accepted_events (xs @ ys) = accepted_events xs @ accepted_events ys"
  by (induction xs rule: accepted_events.induct) (auto split: option.split)

text \<open>The counters have grown by what the records are.\<close>

definition counted_records :: "runtime_metrics \<Rightarrow> runtime_metrics \<Rightarrow> (channel_state \<times> bytes) list \<Rightarrow> bool" where
  "counted_records before after records \<longleftrightarrow>
     rm_ring_events after = rm_ring_events before + of_nat (length records) \<and>
     rm_malformed_ring_events after = rm_malformed_ring_events before +
       of_nat (length (filter (\<lambda>(channel, bs). length bs \<noteq> KERNEL_EVENT_SIZE) records)) \<and>
     rm_userspace_dropped_events after = rm_userspace_dropped_events before +
       of_nat (length (filter (\<lambda>(channel, bs). length bs = KERNEL_EVENT_SIZE \<and> channel = Full) records))"

lemma counted_records_Nil [simp]:
  "counted_records before after [] \<longleftrightarrow>
     rm_ring_events after = rm_ring_events before \<and> rm_malformed_ring_events after = rm_malformed_ring_events before \<and>
     rm_userspace_dropped_events after = rm_userspace_dropped_events before"
  by (simp add: counted_records_def)

lemma counted_records_append:
  "counted_records a b xs \<Longrightarrow> counted_records b c ys \<Longrightarrow> counted_records a c (xs @ ys)"
  by (simp add: counted_records_def)

lemma counted_records_trans: "counted_records a b xs \<Longrightarrow> counted_records b c [] \<Longrightarrow> counted_records a c xs"
  using counted_records_append [of a b xs c "[]"] by simp

lemma callback_effect:
  assumes "ring_callback stacks channel metrics bs = (metrics', sent, code)"
  shows "rm_bpf_ready metrics' = rm_bpf_ready metrics"
    and "counted_records metrics metrics' [(channel, bs)]"
    and "code < 0 \<longleftrightarrow> refused (channel, bs)"
    and "map ck_raw (case sent of None \<Rightarrow> [] | Some captured \<Rightarrow> [captured]) = accepted_events [(channel, bs)]"
  using assms
  by (auto simp: ring_callback_def counted_records_def refused_def from_ring_bytes_def Let_def
      split: option.splits channel_state.splits if_splits)

lemma poll_effect:
  "poll_records stacks metrics records = (metrics', sent, ok) \<Longrightarrow>
     rm_bpf_ready metrics' = rm_bpf_ready metrics \<and> counted_records metrics metrics' (taken_records records) \<and>
     map ck_raw sent = accepted_events (taken_records records) \<and> (ok \<longleftrightarrow> \<not> (\<exists>r \<in> set records. refused r))"
proof (induction records arbitrary: metrics metrics' sent ok)
  case (Cons r records)
  obtain channel bs where r: "r = (channel, bs)" by (cases r)
  obtain mid first code where call: "ring_callback stacks channel metrics bs = (mid, first, code)"
    by (metis prod.collapse)
  note effect = callback_effect [OF call]
  obtain last rest ok' where poll: "poll_records stacks mid records = (last, rest, ok')"
    by (metis prod.collapse)
  show ?case
  proof (cases "refused r")
    case True
    with Cons.prems effect r call have "metrics' = mid" "sent = []" "\<not> ok" by (simp_all add: effect(3))
    moreover have "accepted_events [r] = []" using True r by (simp add: refused_def split: option.split)
    ultimately show ?thesis using True effect r by simp
  next
    case False
    then have "metrics' = last" "sent = (case first of None \<Rightarrow> rest | Some captured \<Rightarrow> captured # rest)" "ok = ok'"
      using Cons.prems effect(3) r call poll by auto
    moreover have "map ck_raw (case first of None \<Rightarrow> rest | Some captured \<Rightarrow> captured # rest) =
        accepted_events [r] @ map ck_raw rest"
      using effect(4) r by (cases first) auto
    ultimately show ?thesis
      using False Cons.IH [OF poll] effect(1) counted_records_append [OF effect(2), of last "taken_records records"]
        accepted_events_append [of "[r]" "taken_records records"] r by simp
  qed
qed simp

lemma rescan_effect:
  assumes "rescan config turn (worker, metrics) = ((worker', metrics'), outcome)"
  shows "bw_kernel_links worker' = bw_kernel_links worker" and "rm_bpf_ready metrics' = rm_bpf_ready metrics"
    and "counted_records metrics metrics' []" and "outcome \<noteq> Stopped"
  using assms scan_keeps [of "tn_scan turn" config "bw_uprobes worker" metrics]
  by (auto simp: rescan_def split: prod.splits sum.splits option.splits)

text \<open>A turn keeps the kernel links, counts the records it takes and sends on the events it can.\<close>

lemma turn_effect:
  assumes "poll_turn config turn (worker, metrics) = ((worker', metrics'), sent, outcome)"
    and "records = (if tn_stopping turn then [] else tn_records turn)"
  shows "bw_kernel_links worker' = bw_kernel_links worker"
    and "rm_bpf_ready metrics' \<longleftrightarrow> rm_bpf_ready metrics \<and> outcome \<noteq> Stopped"
    and "counted_records metrics metrics' (taken_records records)"
    and "map ck_raw sent = accepted_events (taken_records records)"
    and "(\<exists>r \<in> set records. refused r) \<Longrightarrow> \<exists>e. outcome = Failed e"
proof -
  obtain mid out ok where poll: "poll_records (tn_stacks turn) metrics (tn_records turn) = (mid, out, ok)"
    by (metis prod.collapse)
  obtain worker'' end_metrics outcome' where scan: "rescan config turn (worker, mid) = ((worker'', end_metrics), outcome')"
    by (metis prod.collapse)
  note effects = poll_effect [OF poll] rescan_effect [OF scan]
  have "bw_kernel_links worker' = bw_kernel_links worker \<and>
    (rm_bpf_ready metrics' \<longleftrightarrow> rm_bpf_ready metrics \<and> outcome \<noteq> Stopped) \<and>
    counted_records metrics metrics' (taken_records records) \<and> map ck_raw sent = accepted_events (taken_records records) \<and>
    ((\<exists>r \<in> set records. refused r) \<longrightarrow> (\<exists>e. outcome = Failed e))"
  proof (cases "tn_stopping turn")
    case True
    with assms show ?thesis by (auto simp: poll_turn_def)
  next
    case False
    show ?thesis
      using assms False poll scan effects counted_records_trans [of metrics mid "taken_records (tn_records turn)" end_metrics]
      by (cases "ok \<and> \<not> tn_poll_fails turn") (auto simp: poll_turn_def split: if_splits)
  qed
  then show "bw_kernel_links worker' = bw_kernel_links worker"
    and "rm_bpf_ready metrics' \<longleftrightarrow> rm_bpf_ready metrics \<and> outcome \<noteq> Stopped"
    and "counted_records metrics metrics' (taken_records records)"
    and "map ck_raw sent = accepted_events (taken_records records)"
    and "(\<exists>r \<in> set records. refused r) \<Longrightarrow> \<exists>e. outcome = Failed e" by blast+
qed

lemma start_bpf_effect:
  assumes "start_bpf env config metrics = (metrics', r)"
  shows "r = Ok worker \<Longrightarrow> rm_bpf_ready metrics' \<and> holds_required env worker"
    and "isl r \<Longrightarrow> rm_bpf_ready metrics' = rm_bpf_ready metrics"
    and "counted_records metrics metrics' []"
proof -
  have "(r = Ok worker \<longrightarrow> rm_bpf_ready metrics' \<and> holds_required env worker) \<and>
    (isl r \<longrightarrow> rm_bpf_ready metrics' = rm_bpf_ready metrics) \<and> counted_records metrics metrics' []"
  proof (cases "attach_probes env config")
    case (Inl e)
    with assms show ?thesis by (auto simp: start_bpf_def)
  next
    case (Inr w)
    obtain uprobes m r' where scan: "scan_and_attach_uprobes (be_scan env) config (bw_uprobes w, metrics) = ((uprobes, m), r')"
      by (metis prod.collapse)
    with assms Inr scan_keeps [OF scan] attach_probes_holds [OF Inr] show ?thesis
      by (cases r') (auto simp: start_bpf_def holds_required_def)
  qed
  then show "r = Ok worker \<Longrightarrow> rm_bpf_ready metrics' \<and> holds_required env worker"
    and "isl r \<Longrightarrow> rm_bpf_ready metrics' = rm_bpf_ready metrics"
    and "counted_records metrics metrics' []" by simp_all
qed

text \<open>When the readiness is set: from the end of a successful start to the stop or, after an error, its handling.\<close>

fun reports_ready :: "thread_phase \<Rightarrow> (string, unit) result option \<Rightarrow> bool" where
  "reports_ready (Announcing worker) startup = True"
| "reports_ready (Polling worker) startup = True"
| "reports_ready (Returned (Some e)) startup = (startup = Some (Ok ()))"
| "reports_ready phase startup = False"

text \<open>What the start-up channel has been told, given how the start ended.\<close>

fun startup_told :: "(string, bpf_worker) result \<Rightarrow> thread_phase \<Rightarrow> (string, unit) result option \<Rightarrow> bool" where
  "startup_told started Starting startup = (startup = None)"
| "startup_told started (Announcing worker) startup = (startup = None \<and> \<not> isl started)"
| "startup_told started (Returned (Some e)) startup =
     (startup = Some (Ok ()) \<and> \<not> isl started \<or> startup = None \<and> started = Inl e)"
| "startup_told started (Cleared e) startup =
     (startup = Some (Ok ()) \<and> \<not> isl started \<or> startup = None \<and> started = Inl e)"
| "startup_told started Over startup =
     (startup = Some (Ok ()) \<and> \<not> isl started \<or> (\<exists>e. startup = Some (Inl e) \<and> started = Inl e))"
| "startup_told started phase startup = (startup = Some (Ok ()) \<and> \<not> isl started)"

definition readiness_inv :: "bpf_env \<Rightarrow> bpf_config \<Rightarrow> runtime_metrics \<Rightarrow> bpf_thread \<Rightarrow> bool" where
  "readiness_inv env config metrics thread \<longleftrightarrow>
     (rm_bpf_ready (th_metrics thread) \<longleftrightarrow> reports_ready (th_phase thread) (th_startup thread)) \<and>
     startup_told (snd (start_bpf env config metrics)) (th_phase thread) (th_startup thread) \<and>
     (th_phase thread = Starting \<longrightarrow> th_metrics thread = metrics) \<and>
     (\<forall>worker. th_phase thread \<in> {Announcing worker, Polling worker, Stopping worker} \<longrightarrow> holds_required env worker)"

lemma thread_step_readiness:
  assumes "readiness_inv env config metrics thread"
  shows "readiness_inv env config metrics (thread_step env config turn thread)"
proof (cases "th_phase thread")
  case Starting
  obtain started r where start: "start_bpf env config metrics = (started, r)" by (metis prod.collapse)
  with Starting assms start_bpf_effect [OF start] show ?thesis
    by (cases r) (auto simp: readiness_inv_def thread_step_def)
next
  case (Polling worker)
  obtain worker' after sent outcome where
    turn: "poll_turn config turn (worker, th_metrics thread) = ((worker', after), sent, outcome)"
    by (metis prod.collapse)
  have "holds_required env worker'"
    using turn_effect(1) [OF turn refl] assms Polling by (simp add: readiness_inv_def holds_required_def)
  with Polling assms turn turn_effect(2) [OF turn refl] show ?thesis
    by (cases outcome) (auto simp: readiness_inv_def thread_step_def)
next
  case (Returned r)
  with assms show ?thesis by (cases r) (auto simp: readiness_inv_def thread_step_def)
qed (use assms in \<open>auto simp: readiness_inv_def thread_step_def split: option.split\<close>)

lemma run_thread_readiness:
  "\<not> rm_bpf_ready metrics \<Longrightarrow> readiness_inv env config metrics (run_thread env config metrics turns)"
proof -
  assume "\<not> rm_bpf_ready metrics"
  then have "readiness_inv env config metrics (new_thread metrics)" by (simp add: new_thread_def readiness_inv_def)
  then show ?thesis
    unfolding run_thread_def by (rule fold_invariant [where Q = "\<lambda>_. True", rotated]) (simp_all add: thread_step_readiness)
qed

text \<open>The phases after a failed start or loop.\<close>

fun after_error :: "thread_phase \<Rightarrow> bool" where
  "after_error (Returned r) = (r \<noteq> None)"
| "after_error (Cleared e) = True"
| "after_error Over = True"
| "after_error phase = False"

definition records_inv :: "runtime_metrics \<Rightarrow> bpf_thread \<Rightarrow> bool" where
  "records_inv metrics thread \<longleftrightarrow>
     counted_records metrics (th_metrics thread) (taken_records (th_offered thread)) \<and>
     map ck_raw (th_sent thread) = accepted_events (taken_records (th_offered thread)) \<and>
     ((\<exists>r \<in> set (th_offered thread). refused r) \<longrightarrow> after_error (th_phase thread))"

lemma thread_step_records:
  assumes "records_inv metrics thread"
  shows "records_inv metrics (thread_step env config turn thread)"
proof (cases "th_phase thread")
  case Starting
  obtain started r where start: "start_bpf env config (th_metrics thread) = (started, r)" by (metis prod.collapse)
  with Starting assms counted_records_trans [OF _ start_bpf_effect(3) [OF start]] show ?thesis
    by (cases r) (auto simp: records_inv_def thread_step_def)
next
  case (Polling worker)
  let ?records = "if tn_stopping turn then [] else tn_records turn"
  obtain worker' after sent outcome where
    turn: "poll_turn config turn (worker, th_metrics thread) = ((worker', after), sent, outcome)"
    by (metis prod.collapse)
  have taken: "taken_records (th_offered thread @ ?records) = taken_records (th_offered thread) @ taken_records ?records"
    using assms Polling taken_records_append [of "th_offered thread" "[]"]
    by (auto simp: records_inv_def taken_records_append)
  have step: "thread_step env config turn thread = thread
      \<lparr>th_phase := (case outcome of Running \<Rightarrow> Polling worker' | Stopped \<Rightarrow> Stopping worker' | Failed e \<Rightarrow> Returned (Some e)),
       th_metrics := after, th_sent := th_sent thread @ sent, th_offered := th_offered thread @ ?records\<rparr>"
    using Polling turn by (simp add: thread_step_def)
  have "(\<exists>r \<in> set ?records. refused r) \<longrightarrow> (\<exists>e. outcome = Failed e)" using turn_effect(5) [OF turn refl] by blast
  moreover have "\<not> (\<exists>r \<in> set (th_offered thread). refused r)" using assms Polling by (auto simp: records_inv_def)
  ultimately show ?thesis
    using assms counted_records_append [OF _ turn_effect(3) [OF turn refl]] turn_effect(4) [OF turn refl]
    unfolding step records_inv_def
    by (auto simp: taken accepted_events_append simp del: after_error.simps)
      (auto split: if_splits)
next
  case (Returned r)
  with assms show ?thesis by (cases r) (auto simp: records_inv_def thread_step_def counted_records_def)
qed (use assms in \<open>auto simp: records_inv_def thread_step_def\<close>)

lemma run_thread_records: "records_inv metrics (run_thread env config metrics turns)"
proof -
  have "records_inv metrics (new_thread metrics)" by (simp add: new_thread_def records_inv_def)
  then show ?thesis
    unfolding run_thread_def by (rule fold_invariant [where Q = "\<lambda>_. True", rotated]) (simp_all add: thread_step_records)
qed

text \<open>
  C15: \<open>/ready\<close> follows the worker. Whatever the kernel answers and whatever happens while the worker polls, at every
  moment the endpoint answers 200 exactly if both reads of the spool succeed and the worker is between the end of
  its start and its end, or has returned with an error that the thread has not handled yet; while the
  worker runs, a link for every required probe is held. The start-up channel is told success only if the
  start succeeded, an error only if the start failed with it, and when the thread is over it has been told. So the
  answer is exact but for the moment after an error in which \<open>run_bpf\<close> has already dropped its links.
\<close>

theorem readiness_follows_the_worker:
  assumes "\<not> rm_bpf_ready metrics" and "run_thread env config metrics turns = thread"
  shows "(fst (observer_health stats_fault quarantine_fault node_name spool (th_metrics thread)) = 200 \<longleftrightarrow>
      stats_fault \<noteq> Some ReadRoot \<and> quarantine_fault \<noteq> Some ReadQuarantine \<and>
      (case th_phase thread of
         Announcing worker \<Rightarrow> True | Polling worker \<Rightarrow> True
       | Returned (Some e) \<Rightarrow> th_startup thread = Some (Ok ()) | _ \<Rightarrow> False)) \<and>
    (\<forall>worker. th_phase thread \<in> {Announcing worker, Polling worker, Stopping worker} \<longrightarrow> holds_required env worker) \<and>
    (th_startup thread = Some (Ok ()) \<longrightarrow> \<not> isl (snd (start_bpf env config metrics))) \<and>
    (\<forall>e. th_startup thread = Some (Inl e) \<longrightarrow> snd (start_bpf env config metrics) = Inl e) \<and>
    (th_phase thread = Over \<longrightarrow> th_startup thread \<noteq> None)"
proof -
  note inv = run_thread_readiness [OF assms(1), of env config turns, unfolded assms(2) readiness_inv_def]
  have "fst (observer_health stats_fault quarantine_fault node_name spool (th_metrics thread)) = 200 \<longleftrightarrow>
      stats_fault \<noteq> Some ReadRoot \<and> quarantine_fault \<noteq> Some ReadQuarantine \<and> rm_bpf_ready (th_metrics thread)"
    by (simp add: observer_health_def spool_root_stats_def spool_quarantine_stats_def)
  with inv show ?thesis
    by (cases "(snd (start_bpf env config metrics), th_phase thread, th_startup thread)" rule: startup_told.cases) auto
qed

text \<open>
  C16: no kernel record disappears silently. The records are those that the ring held at the polls, up to
  the first whole event that meets a closed channel. Those of the size of an event that meet an accepting
  channel are sent to the processor, in order and once; the counter of ring events grows by the number of all, that of
  malformed ones by the number of those of another size, and that of dropped ones by the number of those of the right size that
  meet a full channel (modulo 2 to the 64). A record refused by a closed channel is the last one, and ends the worker with an
  error.
\<close>

theorem every_ring_record_is_forwarded_or_counted:
  assumes "run_thread env config metrics turns = thread" and "taken_records (th_offered thread) = records"
  shows "map ck_raw (th_sent thread) = accepted_events records \<and>
    rm_ring_events (th_metrics thread) = rm_ring_events metrics + of_nat (length records) \<and>
    rm_malformed_ring_events (th_metrics thread) = rm_malformed_ring_events metrics +
      of_nat (length (filter (\<lambda>(channel, bs). length bs \<noteq> KERNEL_EVENT_SIZE) records)) \<and>
    rm_userspace_dropped_events (th_metrics thread) = rm_userspace_dropped_events metrics +
      of_nat (length (filter (\<lambda>(channel, bs). length bs = KERNEL_EVENT_SIZE \<and> channel = Full) records)) \<and>
    (\<forall>r \<in> set records. fst r = Closed \<and> length (snd r) = KERNEL_EVENT_SIZE \<longrightarrow>
      r = last records \<and> after_error (th_phase thread))"
proof -
  have last: "refused r \<Longrightarrow> r \<in> set (taken_records xs) \<Longrightarrow> r = last (taken_records xs)" for r xs
    by (induction xs) (auto split: if_splits)
  show ?thesis
    using run_thread_records [of metrics env config turns] assms last taken_records_refused [of "th_offered thread"]
    by (auto simp: records_inv_def counted_records_def refused_def)
qed

subsection \<open>Witnesses\<close>

definition sample_bpf_scan :: scan_env where
  "sample_bpf_scan = \<lparr>sc_fs = \<lparr>fs_link = \<lambda>_. None, fs_file = \<lambda>_. None\<rparr>, sc_entries = Some [],
     sc_executable_exists = \<lambda>_. False, sc_attach = \<lambda>_ _ _ _ _. None, sc_update_target = \<lambda>_. True\<rparr>"

definition sample_bpf_env :: bpf_env where
  "sample_bpf_env = \<lparr>be_succeeds = \<lambda>_. True, be_attach = \<lambda>program. Some (length program), be_cpus = Some 2,
     be_perf_open = \<lambda>cpu. int cpu + 3, be_perf_attach = \<lambda>fd. Some (nat fd), be_scan = sample_bpf_scan\<rparr>"

definition sample_bpf_config :: bpf_config where
  "sample_bpf_config = \<lparr>bc_host_proc = ''/proc'', bc_rescan_seconds = 15, bc_cpu_profile_hz = 99,
     bc_mongodb_port = 27017, bc_tls_mode = Auto, bc_lock_profiling = False\<rparr>"

text \<open>A turn that reads one record too short to be an event.\<close>

definition sample_bpf_turn :: bpf_turn where
  "sample_bpf_turn = \<lparr>tn_stopping = False, tn_records = [(Accepting, [1, 2, 3])], tn_stacks = \<lambda>_. None,
     tn_poll_fails = False, tn_rescan = True, tn_scan = sample_bpf_scan, tn_dropped = Some [5, 0, 0, 0, 0, 0, 0, 0]\<rparr>"

text \<open>A turn that reads a whole event for an accepting and one for a full channel.\<close>

definition sample_event_turn :: bpf_turn where
  "sample_event_turn = sample_bpf_turn
     \<lparr>tn_records := [(Accepting, replicate KERNEL_EVENT_SIZE 0), (Full, replicate KERNEL_EVENT_SIZE 0)], tn_rescan := False\<rparr>"

definition sample_thread :: bpf_thread where
  "sample_thread = run_thread sample_bpf_env sample_bpf_config default_runtime_metrics
     [sample_bpf_turn, sample_bpf_turn, sample_bpf_turn, sample_event_turn]"

definition sample_failed_thread :: bpf_thread where
  "sample_failed_thread = run_thread sample_bpf_env sample_bpf_config default_runtime_metrics
     [sample_bpf_turn, sample_bpf_turn, sample_bpf_turn\<lparr>tn_poll_fails := True\<rparr>]"

definition sample_polling_thread :: bpf_thread where
  "sample_polling_thread = run_thread sample_bpf_env sample_bpf_config default_runtime_metrics
     [sample_bpf_turn, sample_bpf_turn, sample_bpf_turn]"

lemma sample_polling_run:
  "(case th_phase sample_polling_thread of Polling worker \<Rightarrow> True | _ \<Rightarrow> False)"
  "th_offered sample_polling_thread = [(Accepting, [1, 2, 3])]"
  "th_phase sample_failed_thread = Returned (Some (Err ''polling''))" "th_startup sample_failed_thread = Some (Ok ())"
  by code_simp+

lemma quiet_turn:
  assumes "th_phase thread = Polling worker" and "\<not> tn_stopping turn" "\<not> tn_poll_fails turn" "\<not> tn_rescan turn"
    and "\<forall>r \<in> set (tn_records turn). \<not> refused r"
  shows "th_phase (thread_step env config turn thread) = Polling worker \<and>
    th_offered (thread_step env config turn thread) = th_offered thread @ tn_records turn"
proof -
  obtain metrics sent ok where poll: "poll_records (tn_stacks turn) (th_metrics thread) (tn_records turn) = (metrics, sent, ok)"
    by (metis prod.collapse)
  with poll_effect [OF poll] assms show ?thesis by (simp add: thread_step_def poll_turn_def)
qed

lemma sample_thread_run:
  "\<exists>worker. th_phase sample_thread = Polling worker"
  "th_offered sample_thread =
     [(Accepting, [1, 2, 3]), (Accepting, replicate KERNEL_EVENT_SIZE 0), (Full, replicate KERNEL_EVENT_SIZE 0)]"
proof -
  have step: "sample_thread = thread_step sample_bpf_env sample_bpf_config sample_event_turn sample_polling_thread"
    by (simp add: sample_thread_def sample_polling_thread_def run_thread_def)
  obtain worker where "th_phase sample_polling_thread = Polling worker"
    using sample_polling_run(1) by (auto split: thread_phase.splits)
  from quiet_turn [OF this, of sample_event_turn sample_bpf_env sample_bpf_config] sample_polling_run(2)
  show "\<exists>worker. th_phase sample_thread = Polling worker"
    "th_offered sample_thread =
       [(Accepting, [1, 2, 3]), (Accepting, replicate KERNEL_EVENT_SIZE 0), (Full, replicate KERNEL_EVENT_SIZE 0)]"
    unfolding step by (simp_all add: sample_event_turn_def sample_bpf_turn_def refused_def)
qed

theorem readiness_follows_the_worker_witness:
  "fst (observer_health None None ''node'' empty_spool (th_metrics sample_thread)) = 200 \<and>
   (\<exists>worker. th_phase sample_thread = Polling worker \<and> holds_required sample_bpf_env worker) \<and>
   fst (observer_health None None ''node'' empty_spool (th_metrics sample_failed_thread)) = 200 \<and>
   fst (observer_health (Some ReadRoot) None ''node'' empty_spool (th_metrics sample_thread)) \<noteq> 200"
proof -
  have unready: "\<not> rm_bpf_ready default_runtime_metrics" by (simp add: default_runtime_metrics_def)
  obtain worker where polling: "th_phase sample_thread = Polling worker"
    using sample_thread_run(1) by blast
  show ?thesis
    using readiness_follows_the_worker [OF unready sample_thread_def [symmetric], of None None "''node''" empty_spool]
      readiness_follows_the_worker [OF unready sample_thread_def [symmetric], of "Some ReadRoot" None "''node''" empty_spool]
      readiness_follows_the_worker [OF unready sample_failed_thread_def [symmetric], of None None "''node''" empty_spool]
      polling sample_polling_run(3,4)
    by simp
qed

theorem every_ring_record_is_forwarded_or_counted_witness:
  "rm_ring_events (th_metrics sample_thread) = 3 \<and> rm_malformed_ring_events (th_metrics sample_thread) = 1 \<and>
   rm_userspace_dropped_events (th_metrics sample_thread) = 1 \<and> length (th_sent sample_thread) = 1"
proof -
  have size: "KERNEL_EVENT_SIZE \<noteq> 3" by code_simp
  let ?zeros = "replicate KERNEL_EVENT_SIZE (0 :: u8)"
  have "length (accepted_events [(Accepting, [1, 2, 3]), (Accepting, ?zeros), (Full, ?zeros)]) = 1"
    using size by (simp add: from_ring_bytes_def)
  moreover have "taken_records (th_offered sample_thread) = [(Accepting, [1, 2, 3]), (Accepting, ?zeros), (Full, ?zeros)]"
    by (simp add: sample_thread_run(2) refused_def)
  ultimately show ?thesis
    using every_ring_record_is_forwarded_or_counted [OF sample_thread_def [symmetric]] size
    by (auto simp: default_runtime_metrics_def dest: arg_cong [where f = length])
qed

end
