(* ===== verification/Shutdown.thy ===== *)
theory Shutdown
  imports Sensor Pipeline Probes
begin

text \<open>
  The end of the sensor: what \<open>main\<close> does after the server or the signal handler returns, and the last pass of
  \<open>run_exporter\<close> (\<open>crates/observer/src/main.rs\<close>). The worker is stopped first; its end closes the channel of
  kernel events, which lets the processor task drain that channel and end, which closes the channel of activity
  events, which lets the batcher drain, flush and end; only then is the exporter told to make its last pass.
\<close>

subsection \<open>The exporter's wait\<close>

text \<open>What ends the wait between two passes; \<open>ShutdownChanged True\<close> is a set flag or a closed channel.\<close>

datatype exporter_wake = Notified | RetryElapsed | ShutdownChanged bool

text \<open>The answer says whether the loop goes on. A failed last pass is not counted.\<close>

definition exporter_select ::
  "delivery_env \<Rightarrow> exporter_wake \<Rightarrow> spool \<times> runtime_metrics \<Rightarrow> (spool \<times> runtime_metrics) \<times> bool" where
  "exporter_select env wake state =
     (case wake of
        ShutdownChanged stop \<Rightarrow> if stop then (fst (deliver_observer_spool env state), False) else (state, True)
      | _ \<Rightarrow> (state, True))"

subsection \<open>The order of the end\<close>

text \<open>
  \<open>kernel_queue\<close> is what the worker had sent and the processor not yet taken, \<open>event_queue\<close> what the processor
  had sent and the batcher not yet taken. The runtime chooses between events and ticks: \<open>schedule\<close>.
\<close>

definition fair_schedule :: "(dam_event list \<Rightarrow> batcher_moment list) \<Rightarrow> bool" where
  "fair_schedule schedule \<longleftrightarrow> (\<forall>events. received_events (schedule events) = events)"

definition shut_down ::
  "observer_start \<Rightarrow> batcher_settings \<Rightarrow> (dam_event list \<Rightarrow> batcher_moment list) \<Rightarrow> io_fault option \<Rightarrow> instant \<Rightarrow>
   delivery_env \<Rightarrow> event_processor \<times> runtime_metrics \<Rightarrow> (env \<times> captured_kernel_event) list \<Rightarrow> dam_event list \<Rightarrow> batcher \<Rightarrow>
   batcher \<times> dam_batch list \<times> spool" where
  "shut_down su settings schedule fault now env task kernel_queue event_queue b =
     (let events = snd (run_steps (task_step su) task kernel_queue);
          (b, out) = run_batcher settings b (schedule (event_queue @ events)) fault now
      in (b, out, fst (fst (exporter_select env (ShutdownChanged True) (bt_spool b, bt_metrics b)))))"

subsection \<open>Nothing in flight is lost\<close>

lemma flush_names:
  "spool_names (bt_spool b) \<Longrightarrow> spool_names (bt_spool (fst (batcher_flush settings b fault now)))"
  by (auto simp: batcher_flush_def flush_batch_def Let_def case_prod_unfold
      intro: enqueue_names [OF _ surjective_pairing]
      split: option.split sum.split prod.split)

interpretation named: stepper "batcher_step settings" "\<lambda>_. True" "\<lambda>b. spool_names (bt_spool b)" "\<lambda>_. True" for settings
proof (unfold_locales, goal_cases)
  case (1 b moment)
  then show ?case
    using flush_names [of "batcher_collect settings b moment"] by (auto simp: batcher_step_def Let_def)
qed (simp add: list_all_iff)

lemma run_batcher_names:
  assumes "run_batcher settings b moments fault now = (b', out)" and "spool_names (bt_spool b)"
  shows "spool_names (bt_spool b')"
proof -
  obtain c flushed where run: "run_steps (batcher_step settings) b moments = (c, flushed)" by fastforce
  have "spool_names (bt_spool c)"
    using named.run_invariant [OF assms(2) _ run] by (simp add: list_all_iff)
  with assms(1) run flush_names [of c settings fault now] show ?thesis
    by (auto simp: run_batcher_def split: prod.splits)
qed

text \<open>The bodies of the pending batches, and the encodings of flushed ones.\<close>

definition pending_bodies :: "spool \<Rightarrow> bytes set" where
  "pending_bodies spool = snd ` pending_batches spool"

definition encodings :: "batcher_settings \<Rightarrow> dam_batch list \<Rightarrow> bytes set" where
  "encodings settings out = {body. \<exists>batch \<in> set out. bs_encode settings batch = Some body}"

lemma encodings_append [simp]: "encodings settings (out @ out') = encodings settings out \<union> encodings settings out'"
  by (auto simp: encodings_def)

lemma enqueue_bodies:
  assumes "spool_enqueue hash fault spool body = (spool', r)"
  shows "pending_bodies spool' \<subseteq> insert body (pending_bodies spool)"
  using assms
proof (cases rule: enqueue_cases)
  case (Partial k)
  then show ?thesis by (auto simp: pending_bodies_def pending_batches_def batches_insert_hidden)
next
  case Stored
  then show ?thesis
    by (auto simp: pending_bodies_def pending_batches_def batches_def image_iff dest!: set_hm_insert)
qed auto

lemma flush_bodies:
  assumes "batcher_flush settings b fault now = (c, out)"
  shows "pending_bodies (bt_spool c) \<subseteq> pending_bodies (bt_spool b) \<union> encodings settings out"
proof (cases "bt_events b = []")
  case True
  with assms show ?thesis by (auto simp: batcher_flush_def flush_batch_def)
next
  case False
  let ?batch = "batch_of (bs_crypto settings) (bs_assignment settings) now (bt_events b)"
  have out: "out = [?batch]" using assms False by (auto simp: flush_batches dest: arg_cong [where f = snd])
  show ?thesis
  proof (cases "bs_encode settings ?batch")
    case None
    with assms False show ?thesis by (auto simp: batcher_flush_def flush_batch_def Let_def)
  next
    case (Some body)
    obtain spool r where run: "spool_enqueue (digest_hex (bs_crypto settings)) fault (bt_spool b) body = (spool, r)"
      by fastforce
    have "bt_spool c = spool"
      using assms False Some run by (cases r) (auto simp: batcher_flush_def flush_batch_def Let_def)
    with enqueue_bodies [OF run] Some out show ?thesis by (auto simp: encodings_def)
  qed
qed

lemma run_bodies:
  "run_steps (batcher_step settings) b moments = (c, out) \<Longrightarrow>
   pending_bodies (bt_spool c) \<subseteq> pending_bodies (bt_spool b) \<union> encodings settings out"
proof (induction moments arbitrary: b out)
  case (Cons moment moments)
  obtain d first where step: "batcher_step settings b moment = (d, first)" by fastforce
  with Cons.prems obtain rest where rest: "run_steps (batcher_step settings) d moments = (c, rest)" "out = first @ rest"
    by (auto split: prod.splits)
  have "pending_bodies (bt_spool d) \<subseteq> pending_bodies (bt_spool b) \<union> encodings settings first"
    using step flush_bodies [of settings "batcher_collect settings b moment" "bm_fault moment" "bm_utc moment" d first]
    by (auto simp: batcher_step_def Let_def split: if_splits)
  with Cons.IH [OF rest(1)] rest(2) show ?case by auto
qed simp

lemma run_batcher_bodies:
  assumes "run_batcher settings b moments fault now = (c, out)"
  shows "pending_bodies (bt_spool c) \<subseteq> pending_bodies (bt_spool b) \<union> encodings settings out"
proof -
  obtain d flushed where run: "run_steps (batcher_step settings) b moments = (d, flushed)" by fastforce
  obtain rest where "batcher_flush settings d fault now = (c, rest)" "out = flushed @ rest"
    using assms by (auto simp: run_batcher_def run split: prod.splits)
  with run_bodies [OF run] flush_bodies show ?thesis by fastforce
qed

text \<open>
  C14: a graceful shutdown loses nothing. Stopped at any moment, with kernel events and activity events still
  in the channels and events collected but not flushed, the sensor ends with every one of these events, processed and filtered,
  in a batch, in order and once; each batch is in the spool or its events are counted as dropped; and
  if the disk works, and each body that was pending or was flushed now decodes and gets a final answer
  from Outpost, the last pass leaves nothing pending.
\<close>

theorem graceful_shutdown_loses_nothing:
  assumes "fair_schedule schedule" and "digest_shape (digest_hex (bs_crypto settings))" and "spool_names (bt_spool b)"
    and "shut_down su settings schedule fault now env task kernel_queue event_queue b = (b', out, spool)"
    and "events = snd (run_steps (task_step su) task kernel_queue)"
  shows "filter (\<lambda>event. \<not> own_health event) (batched_events out) =
      filter (\<lambda>event. \<not> own_health event) (bt_events b @ event_queue @ events) \<and>
    (\<exists>marked. map fst marked = out \<and>
      (\<forall>batch. (batch, True) \<in> set marked \<longrightarrow> stored_in settings (bt_spool b') batch) \<and>
      rm_spool_dropped_events (bt_metrics b') = rm_spool_dropped_events (bt_metrics b) +
        of_nat (sum_list (map (\<lambda>(batch, stored). if stored then 0 else length (ba_events batch)) marked))) \<and>
    (de_list_fault env = None \<longrightarrow> de_read_fault env = (\<lambda>_. None) \<longrightarrow> de_finish_fault env = (\<lambda>_. None) \<longrightarrow>
      (\<forall>body \<in> pending_bodies (bt_spool b) \<union> encodings settings out.
        \<exists>batch status. de_decode env body = Some batch \<and> de_send env batch body = Some status \<and>
          \<not> is_server_error status \<and> status \<noteq> TOO_MANY_REQUESTS) \<longrightarrow>
      pending_batches spool = {})"
proof -
  have run: "run_batcher settings b (schedule (event_queue @ events)) fault now = (b', out)"
    and last: "spool = fst (fst (deliver_observer_spool env (bt_spool b', bt_metrics b')))"
    using assms(4,5) by (auto simp: shut_down_def exporter_select_def Let_def case_prod_unfold)
  have received: "received_events (schedule (event_queue @ events)) = event_queue @ events"
    using assms(1) by (simp add: fair_schedule_def)
  have drained: "pending_batches spool = {}"
    if "de_list_fault env = None" "de_read_fault env = (\<lambda>_. None)" "de_finish_fault env = (\<lambda>_. None)"
      "\<forall>body \<in> pending_bodies (bt_spool b) \<union> encodings settings out.
        \<exists>batch status. de_decode env body = Some batch \<and> de_send env batch body = Some status \<and>
          \<not> is_server_error status \<and> status \<noteq> TOO_MANY_REQUESTS"
  proof -
    have "\<exists>batch status. de_decode env body = Some batch \<and> de_send env batch body = Some status \<and>
        \<not> is_server_error status \<and> status \<noteq> TOO_MANY_REQUESTS"
      if "(name, body) \<in> pending_batches (bt_spool b')" for name body
    proof -
      have "body \<in> pending_bodies (bt_spool b')" using that by (force simp: pending_bodies_def)
      with run_batcher_bodies [OF run] \<open>\<forall>body \<in> _. _\<close> show ?thesis by blast
    qed
    from observer_pass_empties [OF run_batcher_names [OF run assms(3)] that(1-3), of "bt_metrics b'"] this last
    show ?thesis by auto
  qed
  show ?thesis
    using run_batcher_conserves(1) [OF run] received run_batcher_accounted [OF assms(2) run] drained
    by (auto simp: accounted_def)
qed

subsection \<open>Witness\<close>

definition sample_schedule :: "dam_event list \<Rightarrow> batcher_moment list" where
  "sample_schedule events = map (\<lambda>event. \<lparr>bm_input = Received event, bm_instant = 1, bm_utc = 0, bm_fault = None\<rparr>) events"

lemma sample_schedule_fair: "fair_schedule sample_schedule"
proof -
  have "received_events (sample_schedule events) = events" for events
    by (induction events) (simp_all add: sample_schedule_def)
  then show ?thesis by (simp add: fair_schedule_def)
qed

text \<open>A decoder that reads the spooled bodies and the encoding of the sample batches, and nothing else.\<close>

definition sample_last_pass :: delivery_env where
  "sample_last_pass = sample_delivery_env
     \<lparr>de_decode := (\<lambda>body. if body \<in> {[65], [66], [1, 2, 3]} then Some (sample_batch body) else None)\<rparr>"

theorem graceful_shutdown_loses_nothing_witness:
  "\<exists>su b' out spool. start_observer (\<lambda>_. None) sample_cli = Ok su \<and>
     shut_down su sample_settings sample_schedule None 1 sample_last_pass
       (new_processor (su_processor_config su), sample_runtime_metrics) [] [sample_auth_event] sample_batcher = (b', out, spool) \<and>
     filter (\<lambda>event. \<not> own_health event) (batched_events out) = [sample_auth_event] \<and> pending_batches spool = {}"
proof -
  have cli: "sample_cli\<lparr>cli_sensor_id := None\<rparr> = sample_cli" by (simp add: sample_cli_def)
  obtain su where start: "start_observer (\<lambda>_. None) sample_cli = Ok su"
    using sample_start [of None] unfolding cli by blast
  obtain b' out spool where run: "shut_down su sample_settings sample_schedule None 1 sample_last_pass
       (new_processor (su_processor_config su), sample_runtime_metrics) [] [sample_auth_event] sample_batcher = (b', out, spool)"
    by (metis prod.collapse)
  have names: "digest_shape (digest_hex (bs_crypto sample_settings))" "spool_names (bt_spool sample_batcher)"
    using sample_digest_shape sample_spool_names by (simp_all add: sample_settings_def sample_batcher_def)
  have "pending_bodies (bt_spool sample_batcher) \<union> encodings sample_settings out \<subseteq> {[65], [66], [1, 2, 3]}"
    by (auto simp: pending_bodies_def encodings_def sample_batcher_def sample_spool_pending sample_settings_def)
  then have "\<forall>body \<in> pending_bodies (bt_spool sample_batcher) \<union> encodings sample_settings out.
      \<exists>batch status. de_decode sample_last_pass body = Some batch \<and> de_send sample_last_pass batch body = Some status \<and>
        \<not> is_server_error status \<and> status \<noteq> TOO_MANY_REQUESTS"
    by (force simp: sample_last_pass_def sample_delivery_env_def is_server_error_def TOO_MANY_REQUESTS_def)
  with graceful_shutdown_loses_nothing [OF sample_schedule_fair names run refl]
  have "filter (\<lambda>event. \<not> own_health event) (batched_events out) = [sample_auth_event]" and "pending_batches spool = {}"
    by (simp_all add: sample_batcher_def own_health_def sample_auth_event_def sample_last_pass_def sample_delivery_env_def)
  with start run show ?thesis by blast
qed

end
