(* ===== verification/Outpost_Tasks.thy ===== *)
theory Outpost_Tasks
  imports Pipeline
begin

text \<open>
  The running Outpost: its metrics registry and page, the clients it builds for the destination and the
  Kubernetes API, the tasks \<open>spawn_background_tasks\<close> starts, and the interleaving of requests, deliveries and
  cache refreshes. \<open>reqwest\<close>, the S3 SDK and the text encoder of \<open>prometheus\<close> are parameters.
\<close>

subsection \<open>The metrics registry\<close>

datatype metric_kind = IntCounter | IntGauge

record collector =
  co_name :: string
  co_help :: string
  co_kind :: metric_kind
  co_value :: "outpost_metrics \<Rightarrow> int"

definition counter :: "string \<Rightarrow> string \<Rightarrow> (outpost_metrics \<Rightarrow> u64) \<Rightarrow> collector" where
  "counter name help field = \<lparr>co_name = name, co_help = help, co_kind = IntCounter, co_value = (\<lambda>m. uint (field m))\<rparr>"

definition gauge :: "string \<Rightarrow> string \<Rightarrow> (outpost_metrics \<Rightarrow> i64) \<Rightarrow> collector" where
  "gauge name help field = \<lparr>co_name = name, co_help = help, co_kind = IntGauge, co_value = (\<lambda>m. sint (field m))\<rparr>"

definition outpost_collectors :: "collector list" where
  "outpost_collectors =
     [counter ''mongodb_dam_outpost_accepted_batches_total'' ''Observer batches durably accepted by Outpost'' om_accepted_batches,
      counter ''mongodb_dam_outpost_rejected_batches_total'' ''Observer batches rejected before spooling'' om_rejected_batches,
      counter ''mongodb_dam_outpost_delivered_batches_total''
        ''Batches successfully delivered to the configured destination'' om_delivered_batches,
      counter ''mongodb_dam_outpost_delivery_failures_total'' ''Destination delivery attempts that failed'' om_delivery_failures,
      counter ''mongodb_dam_outpost_quarantined_batches_total''
        ''Permanently rejected HTTP batches retained in the spool'' om_quarantined_batches,
      gauge ''mongodb_dam_outpost_spool_items'' ''Metadata batches awaiting destination delivery'' om_spool_items,
      gauge ''mongodb_dam_outpost_spool_bytes'' ''Metadata bytes awaiting regional delivery'' om_spool_bytes,
      gauge ''mongodb_dam_outpost_quarantine_items''
        ''Permanently rejected metadata batches retained for review'' om_quarantine_items,
      gauge ''mongodb_dam_outpost_quarantine_bytes''
        ''Permanently rejected metadata bytes retained for review'' om_quarantine_bytes,
      gauge ''mongodb_dam_outpost_kubernetes_cache_entries'' ''Pods available for event enrichment'' om_kubernetes_cache_entries]"

text \<open>A family as the registry gathers it; the encoder, which sorts and prints them, is a parameter.\<close>

type_synonym metric_family = "string \<times> string \<times> metric_kind \<times> int"

definition gather :: "outpost_metrics \<Rightarrow> metric_family list" where
  "gather metrics = map (\<lambda>c. (co_name c, co_help c, co_kind c, co_value c metrics)) outpost_collectors"

definition metrics_page ::
  "(metric_family list \<Rightarrow> bytes option) \<Rightarrow> stats_fault \<Rightarrow> outpost_state \<Rightarrow> outpost_state \<times> u16 \<times> bytes option" where
  "metrics_page encode faults state =
     (let state = refresh_spool_metrics faults state in
      case encode (gather (os_metrics state)) of
        Some encoded \<Rightarrow> (state, 200, Some encoded)
      | None \<Rightarrow> (state, 500, None))"

text \<open>The registry refuses two collectors of one name, and a name must be an identifier.\<close>

lemma collector_names:
  "distinct (map co_name outpost_collectors)"
  "list_all (\<lambda>c. list_all (\<lambda>x. is_ascii_alphanumeric x \<or> x = CHR ''_'') (co_name c)) outpost_collectors"
  by (simp_all add: outpost_collectors_def counter_def gauge_def is_ascii_alphanumeric_def is_ascii_digit_def in_range_def)

subsection \<open>Clients\<close>

text \<open>What \<open>Client::builder()\<close> is told; times in seconds. Without a policy redirects are followed.\<close>

record client_builder =
  cb_connect_timeout :: nat
  cb_timeout :: nat
  cb_redirects :: bool
  cb_root_certificate :: "bytes option"

record client_env =
  ce_file :: "string \<Rightarrow> bytes option"
  ce_certificate :: "bytes \<Rightarrow> bool"
  ce_build :: "client_builder \<Rightarrow> bool"

definition regional_client :: "client_env \<Rightarrow> http_destination_config \<Rightarrow> (string, client_builder) result" where
  "regional_client env destination =
     rbind (case hd_ca_file destination of
              None \<Rightarrow> Ok None
            | Some path \<Rightarrow>
                rbind (ok_or (ce_file env path) (''reading destination CA '' @ path)) (\<lambda>pem.
                rbind (ensure (ce_certificate env pem) ''parsing destination CA'') (\<lambda>_. Ok (Some pem)))) (\<lambda>certificate.
     let builder = \<lparr>cb_connect_timeout = 10, cb_timeout = 30, cb_redirects = False, cb_root_certificate = certificate\<rparr> in
     rbind (ensure (ce_build env builder) ''building regional HTTP client'') (\<lambda>_. Ok builder))"

text \<open>The settings of the S3 client that differ from the shared AWS configuration.\<close>

record s3_client =
  s3c_endpoint_url :: "string option"
  s3c_force_path_style :: bool

datatype outpost_client = HttpClient client_builder | S3Client s3_client

definition destination_client :: "client_env \<Rightarrow> outpost_config \<Rightarrow> (string, outpost_client) result" where
  "destination_client env config =
     (case oc_destination config of
        Http destination \<Rightarrow> rbind (regional_client env destination) (\<lambda>client. Ok (HttpClient client))
      | S3 destination \<Rightarrow>
          Ok (S3Client \<lparr>s3c_endpoint_url = s3_endpoint_url destination,
                        s3c_force_path_style = s3_force_path_style destination\<rparr>))"

definition kubernetes_client :: "client_env \<Rightarrow> outpost_config \<Rightarrow> (string, client_builder) result" where
  "kubernetes_client env config =
     rbind (ok_or (ce_file env (oc_kubernetes_ca_path config)) (''reading '' @ oc_kubernetes_ca_path config)) (\<lambda>ca.
     rbind (ensure (ce_certificate env ca) ''parsing Kubernetes service CA'') (\<lambda>_.
     let builder = \<lparr>cb_connect_timeout = 5, cb_timeout = 15, cb_redirects = True, cb_root_certificate = Some ca\<rparr> in
     rbind (ensure (ce_build env builder) ''building Kubernetes API client'') (\<lambda>_. Ok builder)))"

subsection \<open>The Kubernetes request\<close>

text \<open>\<open>get url token\<close> is the decoded answer of the API, if the call succeeds.\<close>

definition kubernetes_pods ::
  "(string \<Rightarrow> string option) \<Rightarrow> (string \<Rightarrow> string \<Rightarrow> pod list option) \<Rightarrow> outpost_config \<Rightarrow> (string, pod list) result" where
  "kubernetes_pods files get config =
     rbind (ok_or (oc_kubernetes_api_url config) ''Kubernetes API URL missing'') (\<lambda>api_url.
     rbind (read_secret_file files (oc_kubernetes_token_path config)) (\<lambda>token.
     ok_or (get (trim_end_matches ''/'' api_url @ ''/api/v1/pods'') token) ''Kubernetes API''))"

definition refresh_from_kubernetes ::
  "(string \<Rightarrow> string option) \<Rightarrow> (string \<Rightarrow> string \<Rightarrow> pod list option) \<Rightarrow> outpost_state \<Rightarrow> outpost_state \<times> pod_cache option" where
  "refresh_from_kubernetes files get state =
     fetch_kubernetes_cache
       (case kubernetes_pods files get (os_config state) of Inl _ \<Rightarrow> None | Inr pods \<Rightarrow> Some pods) state"

subsection \<open>Tasks\<close>

text \<open>
  Where the exporter is in its loop: between two passes, in a pass with these items left, or at the end of a pass, which
  failed or not.
\<close>

datatype exporter_phase = Idle | Delivering "pending_item list" | PassOver bool

text \<open>
  The state, and the tasks that run beside the server. A task whose client cannot be built ends at once.
  \<open>sv_next\<close> is a cache that the Kubernetes task has built and not yet written.
\<close>

record outpost_server =
  sv_state :: outpost_state
  sv_exporter :: bool
  sv_pass :: exporter_phase
  sv_cache :: bool
  sv_next :: "pod_cache option"

definition spawn_background_tasks :: "client_env \<Rightarrow> outpost_state \<Rightarrow> outpost_server" where
  "spawn_background_tasks env state =
     \<lparr>sv_state = state, sv_exporter = (\<not> isl (destination_client env (os_config state))), sv_pass = Idle,
      sv_cache = (oc_kubernetes_api_url (os_config state) \<noteq> None \<and> \<not> isl (kubernetes_client env (os_config state))),
      sv_next = None\<rparr>"

text \<open>
  What can happen next. A step is what a task does between two points where it waits for another: a request waits only
  for its body and for the lock of the cache, before it changes anything; the exporter waits for the destination, and only
  the exporter removes files, so an item is read, sent and settled in one step.
\<close>

datatype outpost_input =
    PostBatch accept_env "string option" bytes
  | GetMetrics "metric_family list \<Rightarrow> bytes option" stats_fault
  | GetHealth "io_fault option" "io_fault option"
  | BeginPass "io_fault option"
  | DeliverItem outpost_delivery_env
  | PassEnds stats_fault
  | FetchCache "string \<Rightarrow> string option" "string \<Rightarrow> string \<Rightarrow> pod list option"
  | WriteCache

datatype outpost_output =
    Posted "outpost_response option"
  | MetricsPage "u16 \<times> bytes option"
  | HealthPage "u16 \<times> outpost_health_response option"
  | ListingFailed
  | Settled verdict

text \<open>What became of one item: the destination's verdict, if the spool could carry it out.\<close>

definition settled_as :: "outpost_delivery_env \<Rightarrow> outpost_state \<Rightarrow> pending_item \<Rightarrow> verdict" where
  "settled_as env state item =
     (case fetch_from (od_read_fault env) item (os_spool state) of
        None \<Rightarrow> Undecided
      | Some body \<Rightarrow>
          (case destination_verdict env (oc_destination (os_config state)) body of
             Delivered \<Rightarrow> if snd (acknowledge_in (od_finish_fault env) item (os_spool state)) then Delivered else Undecided
           | Refused \<Rightarrow> if snd (quarantine_in (od_finish_fault env) item (os_spool state)) then Refused else Undecided
           | Undecided \<Rightarrow> Undecided))"

definition pass_ends :: "stats_fault \<Rightarrow> bool \<Rightarrow> outpost_state \<Rightarrow> outpost_state" where
  "pass_ends faults failed state =
     refresh_spool_metrics faults
       (if failed then state\<lparr>os_metrics := (os_metrics state)\<lparr>om_delivery_failures :=
          om_delivery_failures (os_metrics state) + 1\<rparr>\<rparr> else state)"

text \<open>
  The steps of the exporter: listing the spool, the next item, and the end of the pass. A listing that fails
  and an item that is not settled end the pass with an error, as \<open>?\<close> does.
\<close>

definition begin_pass :: "io_fault option \<Rightarrow> outpost_server \<Rightarrow> outpost_server \<times> outpost_output list" where
  "begin_pass fault sv =
     (case spool_pending fault (os_spool (sv_state sv)) of
        Inl _ \<Rightarrow> (sv\<lparr>sv_pass := PassOver True\<rparr>, [ListingFailed])
      | Inr items \<Rightarrow> (sv\<lparr>sv_pass := Delivering items\<rparr>, []))"

fun deliver_next :: "outpost_delivery_env \<Rightarrow> pending_item list \<Rightarrow> outpost_server \<Rightarrow> outpost_server \<times> outpost_output list" where
  "deliver_next env [] sv = (sv\<lparr>sv_pass := PassOver False\<rparr>, [])"
| "deliver_next env (item # items) sv =
     (case deliver_pending_items env (sv_state sv) [item] of
        (state, r) \<Rightarrow>
          (sv\<lparr>sv_state := state, sv_pass := (if isl r then PassOver True else Delivering items)\<rparr>,
           [Settled (settled_as env (sv_state sv) item)]))"

fun outpost_step :: "outpost_server \<Rightarrow> outpost_input \<Rightarrow> outpost_server \<times> outpost_output list" where
  "outpost_step sv (PostBatch env authorization body) =
     (sv\<lparr>sv_state := fst (post_batch env (sv_state sv) authorization body)\<rparr>,
      [Posted (snd (post_batch env (sv_state sv) authorization body))])"
| "outpost_step sv (GetMetrics encode faults) =
     (sv\<lparr>sv_state := fst (metrics_page encode faults (sv_state sv))\<rparr>,
      [MetricsPage (snd (metrics_page encode faults (sv_state sv)))])"
| "outpost_step sv (GetHealth stats_fault quarantine_fault) =
     (sv, [HealthPage (outpost_health stats_fault quarantine_fault (sv_state sv))])"
| "outpost_step sv (BeginPass fault) =
     (if sv_exporter sv \<and> sv_pass sv = Idle then begin_pass fault sv else (sv, []))"
| "outpost_step sv (DeliverItem env) =
     (case sv_pass sv of
        Delivering items \<Rightarrow> if sv_exporter sv then deliver_next env items sv else (sv, [])
      | _ \<Rightarrow> (sv, []))"
| "outpost_step sv (PassEnds faults) =
     (case sv_pass sv of
        PassOver failed \<Rightarrow>
          if sv_exporter sv then (sv\<lparr>sv_state := pass_ends faults failed (sv_state sv), sv_pass := Idle\<rparr>, []) else (sv, [])
      | _ \<Rightarrow> (sv, []))"
| "outpost_step sv (FetchCache files get) =
     (if sv_cache sv \<and> sv_next sv = None
      then (case refresh_from_kubernetes files get (sv_state sv) of
              (state, next) \<Rightarrow> (sv\<lparr>sv_state := state, sv_next := next\<rparr>, []))
      else (sv, []))"
| "outpost_step sv WriteCache =
     (case sv_next sv of
        None \<Rightarrow> (sv, [])
      | Some next \<Rightarrow> (sv\<lparr>sv_state := write_kubernetes_cache next (sv_state sv), sv_next := None\<rparr>, []))"

subsection \<open>The counters\<close>

fun accepted_answer :: "outpost_output \<Rightarrow> bool" where
  "accepted_answer (Posted (Some (Accepted _ _))) = True"
| "accepted_answer _ = False"

text \<open>What makes a pass of the exporter fail.\<close>

definition pass_failure :: "outpost_output \<Rightarrow> bool" where
  "pass_failure out \<longleftrightarrow> out = ListingFailed \<or> out = Settled Undecided"

fun rejected_answer :: "outpost_output \<Rightarrow> bool" where
  "rejected_answer (Posted (Some (Rejected _))) = True"
| "rejected_answer _ = False"

lemma refresh_keeps_counters [simp]:
  "om_delivered_batches (os_metrics (refresh_spool_metrics faults state)) = om_delivered_batches (os_metrics state)"
  "om_delivery_failures (os_metrics (refresh_spool_metrics faults state)) = om_delivery_failures (os_metrics state)"
  "om_quarantined_batches (os_metrics (refresh_spool_metrics faults state)) = om_quarantined_batches (os_metrics state)"
  "om_kubernetes_cache_entries (os_metrics (refresh_spool_metrics faults state)) = om_kubernetes_cache_entries (os_metrics state)"
  by (simp_all add: refresh_spool_metrics_def Let_def split: sum.split)

lemma accept_batch_counts:
  assumes "accept_batch env state authorization body = (state', response)"
  shows "om_accepted_batches (os_metrics state') =
      om_accepted_batches (os_metrics state) + (if accepted_answer (Posted (Some response)) then 1 else 0)"
    and "om_rejected_batches (os_metrics state') =
      om_rejected_batches (os_metrics state) + (if rejected_answer (Posted (Some response)) then 1 else 0)"
    and "om_delivered_batches (os_metrics state') = om_delivered_batches (os_metrics state)"
    and "om_delivery_failures (os_metrics state') = om_delivery_failures (os_metrics state)"
    and "om_quarantined_batches (os_metrics state') = om_quarantined_batches (os_metrics state)"
    and "om_kubernetes_cache_entries (os_metrics state') = om_kubernetes_cache_entries (os_metrics state)"
    and "os_kubernetes state' = os_kubernetes state"
  using assms unfolding accept_batch_def Let_def reject_def
  by (auto split: if_splits option.splits sum.splits fault.splits prod.splits)

lemma deliver_item_counts:
  fixes env item
  defines "m \<equiv> \<lambda>state. os_metrics (fst (deliver_pending_items env state [item]))"
  shows "om_accepted_batches (m state) = om_accepted_batches (os_metrics state)"
    and "om_rejected_batches (m state) = om_rejected_batches (os_metrics state)"
    and "om_delivered_batches (m state) =
      om_delivered_batches (os_metrics state) + (if settled_as env state item = Delivered then 1 else 0)"
    and "om_delivery_failures (m state) = om_delivery_failures (os_metrics state)"
    and "om_quarantined_batches (m state) =
      om_quarantined_batches (os_metrics state) + (if settled_as env state item = Refused then 1 else 0)"
    and "om_kubernetes_cache_entries (m state) = om_kubernetes_cache_entries (os_metrics state)"
    and "os_kubernetes (fst (deliver_pending_items env state [item])) = os_kubernetes state"
    and "isl (snd (deliver_pending_items env state [item])) \<longleftrightarrow> settled_as env state item = Undecided"
  by (auto simp: m_def settled_as_def fetch_from_def acknowledge_in_def quarantine_in_def destination_verdict_def
      split: option.split sum.split prod.split bool.split)

lemma post_batch_counts:
  assumes "post_batch env state authorization body = (state', response)"
  shows "om_accepted_batches (os_metrics state') =
      om_accepted_batches (os_metrics state) + (if accepted_answer (Posted response) then 1 else 0)"
    and "om_rejected_batches (os_metrics state') =
      om_rejected_batches (os_metrics state) + (if rejected_answer (Posted response) then 1 else 0)"
    and "om_delivered_batches (os_metrics state') = om_delivered_batches (os_metrics state)"
    and "om_delivery_failures (os_metrics state') = om_delivery_failures (os_metrics state)"
    and "om_quarantined_batches (os_metrics state') = om_quarantined_batches (os_metrics state)"
    and "om_kubernetes_cache_entries (os_metrics state') = om_kubernetes_cache_entries (os_metrics state)"
    and "os_kubernetes state' = os_kubernetes state"
  using assms by (auto simp: post_batch_def accept_batch_counts split: if_splits prod.splits)

lemma metrics_page_state: "fst (metrics_page encode faults state) = refresh_spool_metrics faults state"
  by (simp add: metrics_page_def Let_def split: option.split)

lemma refresh_cache_counts:
  "om_accepted_batches (os_metrics (fst (refresh_from_kubernetes files get state))) = om_accepted_batches (os_metrics state)"
  "om_rejected_batches (os_metrics (fst (refresh_from_kubernetes files get state))) = om_rejected_batches (os_metrics state)"
  "om_delivered_batches (os_metrics (fst (refresh_from_kubernetes files get state))) = om_delivered_batches (os_metrics state)"
  "om_delivery_failures (os_metrics (fst (refresh_from_kubernetes files get state))) = om_delivery_failures (os_metrics state)"
  "om_quarantined_batches (os_metrics (fst (refresh_from_kubernetes files get state))) = om_quarantined_batches (os_metrics state)"
  by (simp_all add: refresh_from_kubernetes_def fetch_kubernetes_cache_def Let_def split: option.split)

declare deliver_pending_items.simps [simp del]

lemmas counted_parts =
  post_batch_counts [OF surjective_pairing] deliver_item_counts refresh_cache_counts metrics_page_state pass_ends_def
  write_kubernetes_cache_def

text \<open>The failures that have been counted and the one that the end of the present pass will count.\<close>

definition failures_known :: "outpost_server \<Rightarrow> u64" where
  "failures_known sv = om_delivery_failures (os_metrics (sv_state sv)) + (if sv_pass sv = PassOver True then 1 else 0)"

text \<open>One step adds to each counter what its output says.\<close>

definition step_counts :: "outpost_server \<Rightarrow> outpost_server \<Rightarrow> outpost_output list \<Rightarrow> bool" where
  "step_counts sv sv' out \<longleftrightarrow>
     (let m = os_metrics (sv_state sv); m' = os_metrics (sv_state sv'); n = (\<lambda>counted. of_nat (length (filter counted out)))
      in om_accepted_batches m' = om_accepted_batches m + n accepted_answer \<and>
         om_rejected_batches m' = om_rejected_batches m + n rejected_answer \<and>
         om_delivered_batches m' = om_delivered_batches m + n (\<lambda>out. out = Settled Delivered) \<and>
         om_quarantined_batches m' = om_quarantined_batches m + n (\<lambda>out. out = Settled Refused) \<and>
         failures_known sv' = failures_known sv + n pass_failure)"

lemma step_counts_refl [simp]: "step_counts sv sv []"
  by (simp add: step_counts_def)

lemma begin_pass_counts: "sv_pass sv = Idle \<Longrightarrow> step_counts sv (fst (begin_pass fault sv)) (snd (begin_pass fault sv))"
  by (auto simp: begin_pass_def step_counts_def failures_known_def pass_failure_def Let_def split: sum.split)

lemma deliver_next_counts:
  assumes "sv_pass sv = Delivering items"
  shows "step_counts sv (fst (deliver_next env items sv)) (snd (deliver_next env items sv))"
proof (cases items)
  case (Cons item rest)
  obtain state r where run: "deliver_pending_items env (sv_state sv) [item] = (state, r)" by fastforce
  show ?thesis
    using assms Cons run deliver_item_counts [of env "sv_state sv" item]
    by (auto simp: step_counts_def failures_known_def pass_failure_def Let_def)
qed (use assms in \<open>simp add: step_counts_def failures_known_def\<close>)

lemma outpost_step_step_counts: "step_counts sv (fst (outpost_step sv i)) (snd (outpost_step sv i))"
proof (cases i)
  case (BeginPass fault)
  then show ?thesis by (simp add: begin_pass_counts)
next
  case (DeliverItem env)
  then show ?thesis by (cases "sv_pass sv") (simp_all add: deliver_next_counts)
next
  case (PassEnds faults)
  then show ?thesis
    by (cases "sv_pass sv") (simp_all add: step_counts_def failures_known_def pass_ends_def)
next
  case (FetchCache files get)
  then show ?thesis
    using refresh_cache_counts [of files get "sv_state sv"]
    by (auto simp: step_counts_def failures_known_def Let_def split: prod.split)
qed (simp_all add: step_counts_def failures_known_def pass_failure_def counted_parts split: option.split)

lemmas outpost_step_counts = outpost_step_step_counts [unfolded step_counts_def Let_def]

interpretation accepted: counted_steps outpost_step "\<lambda>sv. om_accepted_batches (os_metrics (sv_state sv))" accepted_answer
  by unfold_locales (simp add: outpost_step_counts)

interpretation rejected: counted_steps outpost_step "\<lambda>sv. om_rejected_batches (os_metrics (sv_state sv))" rejected_answer
  by unfold_locales (simp add: outpost_step_counts)

interpretation delivered: counted_steps outpost_step "\<lambda>sv. om_delivered_batches (os_metrics (sv_state sv))"
    "\<lambda>out. out = Settled Delivered"
  by unfold_locales (simp add: outpost_step_counts)

interpretation failures: counted_steps outpost_step failures_known pass_failure
  by unfold_locales (simp add: outpost_step_counts)

interpretation refused: counted_steps outpost_step "\<lambda>sv. om_quarantined_batches (os_metrics (sv_state sv))"
    "\<lambda>out. out = Settled Refused"
  by unfold_locales (simp add: outpost_step_counts)

text \<open>The gauge of the cache is the size of the newest cache, written or waiting to be.\<close>

definition newest_cache :: "outpost_server \<Rightarrow> pod_cache" where
  "newest_cache sv = (case sv_next sv of None \<Rightarrow> os_kubernetes (sv_state sv) | Some next \<Rightarrow> next)"

definition cache_gauge :: "outpost_server \<Rightarrow> bool" where
  "cache_gauge sv \<longleftrightarrow>
     om_kubernetes_cache_entries (os_metrics (sv_state sv)) = of_nat (length (newest_cache sv))"

lemma begin_pass_keeps: "sv_state (fst (begin_pass fault sv)) = sv_state sv" "sv_next (fst (begin_pass fault sv)) = sv_next sv"
  by (simp_all add: begin_pass_def split: sum.split)

lemma deliver_next_keeps:
  "om_kubernetes_cache_entries (os_metrics (sv_state (fst (deliver_next env items sv)))) =
     om_kubernetes_cache_entries (os_metrics (sv_state sv))"
  "os_kubernetes (sv_state (fst (deliver_next env items sv))) = os_kubernetes (sv_state sv)"
  "sv_next (fst (deliver_next env items sv)) = sv_next sv"
  using deliver_item_counts(6,7) [of env "sv_state sv" "hd items"]
  by (cases items; cases "deliver_pending_items env (sv_state sv) [hd items]"; simp)+

interpretation cached: stepper outpost_step "\<lambda>_. True" cache_gauge "\<lambda>_. True"
proof (unfold_locales, goal_cases)
  case (1 sv i)
  show ?case
  proof (cases i)
    case (BeginPass fault)
    with 1 show ?thesis by (simp add: cache_gauge_def newest_cache_def begin_pass_keeps split: option.splits)
  next
    case (DeliverItem env)
    with 1 show ?thesis by (cases "sv_pass sv") (simp_all add: cache_gauge_def newest_cache_def deliver_next_keeps split: option.splits)
  next
    case (PassEnds faults)
    with 1 show ?thesis by (cases "sv_pass sv") (simp_all add: cache_gauge_def newest_cache_def pass_ends_def split: option.splits)
  next
    case (FetchCache files get)
    with 1 show ?thesis
      by (simp add: cache_gauge_def newest_cache_def refresh_from_kubernetes_def fetch_kubernetes_cache_def Let_def split: option.split)
  next
    case WriteCache
    with 1 show ?thesis by (simp add: cache_gauge_def newest_cache_def write_kubernetes_cache_def split: option.splits)
  qed (use 1 in \<open>simp_all add: cache_gauge_def newest_cache_def counted_parts split: option.splits\<close>)
qed (simp add: list_all_iff)

subsection \<open>The page\<close>

lemma build_state_metrics:
  assumes "build_state hash parse_url failed_at stats_fault config pending_files quarantine_files = Ok state"
  shows "om_accepted_batches (os_metrics state) = 0" "om_rejected_batches (os_metrics state) = 0"
    "om_delivered_batches (os_metrics state) = 0" "om_delivery_failures (os_metrics state) = 0"
    "om_quarantined_batches (os_metrics state) = 0" "cache_gauge (spawn_background_tasks env state)"
  using assms
  by (auto simp: build_state_def rbind_def new_outpost_metrics_def cache_gauge_def newest_cache_def spawn_background_tasks_def
      split: sum.splits prod.splits)

lemma metrics_page_answer:
  "snd (metrics_page encode faults state) =
     (case encode (gather (os_metrics (refresh_spool_metrics faults state))) of
        Some page \<Rightarrow> (200, Some page) | None \<Rightarrow> (500, None))"
  by (simp add: metrics_page_def Let_def split: option.split)

text \<open>
  C19: the metrics page tells the truth. Whatever requests, passes, cache refreshes and pages came before, in
  any order, a page shows the number of requests that were accepted and rejected (those above the body limit are not
  counted), of batches delivered and quarantined, and of passes that failed, modulo \<open>2 ^ 64\<close>; a pass fails when its listing
  fails or an item is not settled, and is counted when it ends. If the read of the spool succeeds, the page
  shows the number and size of the batches that wait, otherwise the gauges keep what they showed; likewise for
  the quarantine. The gauge of the cache is the size of the newest cache, which for the moment between fetching and
  writing is not yet the one in use. The page is scraped between two steps, not in the middle of a request or of an item.
\<close>

theorem metrics_page_tells_the_truth:
  assumes "build_state hash parse_url failed_at stats_fault config pending_files quarantine_files = Ok state"
    and "run_steps outpost_step (spawn_background_tasks cenv state) inputs = (sv, out)"
    and "m = os_metrics (sv_state sv)" and "spool = os_spool (sv_state sv)"
  shows "snd (metrics_page encode (root_fault, quarantine_fault) (sv_state sv)) =
    (case encode (gather
        \<lparr>om_accepted_batches = of_nat (length (filter accepted_answer out)),
         om_rejected_batches = of_nat (length (filter rejected_answer out)),
         om_delivered_batches = of_nat (length (filter (\<lambda>out. out = Settled Delivered) out)),
         om_delivery_failures = of_nat (length (filter (\<lambda>out. out = ListingFailed \<or> out = Settled Undecided) out)) -
           (if sv_pass sv = PassOver True then 1 else 0),
         om_quarantined_batches = of_nat (length (filter (\<lambda>out. out = Settled Refused) out)),
         om_spool_items = (if root_fault = Some ReadRoot then om_spool_items m
           else of_nat (min (length (batches (sp_root spool))) usize_max)),
         om_spool_bytes = (if root_fault = Some ReadRoot then om_spool_bytes m
           else of_nat (min (dir_bytes (sp_root spool)) usize_max)),
         om_quarantine_items = (if quarantine_fault = Some ReadQuarantine then om_quarantine_items m
           else of_nat (min (length (batches (sp_quarantine spool))) usize_max)),
         om_quarantine_bytes = (if quarantine_fault = Some ReadQuarantine then om_quarantine_bytes m
           else of_nat (min (dir_bytes (sp_quarantine spool)) usize_max)),
         om_kubernetes_cache_entries =
           of_nat (length (case sv_next sv of None \<Rightarrow> os_kubernetes (sv_state sv) | Some next \<Rightarrow> next))\<rparr>) of
       Some page \<Rightarrow> (200, Some page) | None \<Rightarrow> (500, None))"
  (is "_ = (case encode (gather ?metrics) of Some page \<Rightarrow> _ page | None \<Rightarrow> _)")
proof -
  note start = build_state_metrics [OF assms(1)]
  have "failures_known (spawn_background_tasks cenv state) = 0"
    using start(4) by (simp add: failures_known_def spawn_background_tasks_def)
  then have failed: "om_delivery_failures m =
      of_nat (length (filter (\<lambda>out. out = ListingFailed \<or> out = Settled Undecided) out)) -
        (if sv_pass sv = PassOver True then 1 else 0)"
    using failures.run_counts [OF assms(2)] by (auto simp: failures_known_def pass_failure_def [abs_def] assms(3) eq_diff_eq split: if_splits)
  have "cache_gauge sv" using cached.run_invariant [OF start(6) _ assms(2)] by (simp add: list_all_iff)
  then have entries: "om_kubernetes_cache_entries m =
      of_nat (length (case sv_next sv of None \<Rightarrow> os_kubernetes (sv_state sv) | Some next \<Rightarrow> next))"
    by (simp add: cache_gauge_def newest_cache_def assms(3))
  have counts: "om_accepted_batches m = of_nat (length (filter accepted_answer out))"
    "om_rejected_batches m = of_nat (length (filter rejected_answer out))"
    "om_delivered_batches m = of_nat (length (filter (\<lambda>out. out = Settled Delivered) out))"
    "om_quarantined_batches m = of_nat (length (filter (\<lambda>out. out = Settled Refused) out))"
    using start(1,2,3,5) accepted.run_counts [OF assms(2)] rejected.run_counts [OF assms(2)]
      delivered.run_counts [OF assms(2)] refused.run_counts [OF assms(2)]
    by (simp_all add: assms(3) spawn_background_tasks_def)
  have "os_metrics (refresh_spool_metrics (root_fault, quarantine_fault) (sv_state sv)) =
      (if quarantine_fault = Some ReadQuarantine then (\<lambda>m. m)
       else (\<lambda>m. m\<lparr>om_quarantine_items := of_nat (min (length (batches (sp_quarantine spool))) usize_max),
                   om_quarantine_bytes := of_nat (min (dir_bytes (sp_quarantine spool)) usize_max)\<rparr>))
      ((if root_fault = Some ReadRoot then (\<lambda>m. m)
        else (\<lambda>m. m\<lparr>om_spool_items := of_nat (min (length (batches (sp_root spool))) usize_max),
                    om_spool_bytes := of_nat (min (dir_bytes (sp_root spool)) usize_max)\<rparr>)) m)"
    by (simp add: assms(3,4) refresh_spool_metrics_def Let_def spool_root_stats_def spool_quarantine_stats_def
        directory_stats_items directory_stats_bytes)
  also have "\<dots> = ?metrics"
    unfolding counts [symmetric] failed [symmetric] entries [symmetric] by (cases m) simp
  finally have shown: "os_metrics (refresh_spool_metrics (root_fault, quarantine_fault) (sv_state sv)) = ?metrics" .
  show ?thesis unfolding metrics_page_answer shown ..
qed

text \<open>
  A destination client that cannot be built, for example because the CA file is missing, ends the exporter
  before its first pass. Nothing of what waits is delivered until a restart, and the health page stays fine.
\<close>

lemma stalled_step:
  assumes "\<not> sv_exporter sv"
  shows "\<not> sv_exporter (fst (outpost_step sv i)) \<and> (\<forall>v. Settled v \<notin> set (snd (outpost_step sv i)))"
proof (cases i)
  case (DeliverItem env)
  with assms show ?thesis by (cases "sv_pass sv") simp_all
next
  case (PassEnds faults)
  with assms show ?thesis by (cases "sv_pass sv") simp_all
next
  case (FetchCache files get)
  with assms show ?thesis by (cases "refresh_from_kubernetes files get (sv_state sv)") simp
next
  case WriteCache
  with assms show ?thesis by (cases "sv_next sv") simp_all
qed (use assms in simp_all)

interpretation stalled: stepper outpost_step "\<lambda>_. True" "\<lambda>sv. \<not> sv_exporter sv" "\<lambda>out. \<forall>v. out \<noteq> Settled v"
  by unfold_locales (use stalled_step in \<open>auto simp: list_all_iff\<close>)

lemma failed_client_delivers_nothing:
  assumes "isl (destination_client cenv (os_config state))"
    and "run_steps outpost_step (spawn_background_tasks cenv state) inputs = (sv, out)"
  shows "\<forall>v. Settled v \<notin> set out" and "fst (outpost_health None None (sv_state sv)) = 200"
proof -
  have "\<not> sv_exporter (spawn_background_tasks cenv state)" using assms(1) by (simp add: spawn_background_tasks_def)
  then show "\<forall>v. Settled v \<notin> set out"
    using stalled.run_promise [OF _ _ assms(2)] by (auto simp: list_all_iff)
  show "fst (outpost_health None None (sv_state sv)) = 200"
    by (simp add: outpost_health_def spool_root_stats_def spool_quarantine_stats_def)
qed

text \<open>The configuration check does not look at the CA file.\<close>

lemma missing_ca_is_not_noticed:
  assumes "oc_destination config = Http destination" and "hd_ca_file destination = Some path" and "ce_file cenv path = None"
  shows "isl (destination_client cenv config)"
    and "validate_config parse_url (config\<lparr>oc_destination := Http (destination\<lparr>hd_ca_file := None\<rparr>)\<rparr>) = validate_config parse_url config"
  using assms
  by (simp_all add: destination_client_def regional_client_def validate_config_def validate_http_destination_def ok_or_def)

text \<open>The client for the destination never follows a redirect, so the bearer token stays with the configured origin.\<close>

lemma destination_client_follows_no_redirect: "destination_client cenv config = Ok (HttpClient builder) \<Longrightarrow> \<not> cb_redirects builder"
  by (auto simp: destination_client_def regional_client_def rbind_def Let_def ensure_def split: destination_config.splits sum.splits if_splits)

subsection \<open>A pass of the exporter in steps\<close>

text \<open>
  The exporter's steps implement its loop body: listing, one step per item up to the first that is not settled, and the end of
  the pass leave the state that a whole pass leaves.
\<close>

lemma deliver_items_are_steps:
  "sv_exporter sv \<Longrightarrow> sv_pass sv = Delivering items \<Longrightarrow>
   \<exists>k out. run_steps outpost_step sv (replicate k (DeliverItem env)) =
     (sv\<lparr>sv_state := fst (deliver_pending_items env (sv_state sv) items),
         sv_pass := PassOver (isl (snd (deliver_pending_items env (sv_state sv) items)))\<rparr>, out)"
proof (induction items arbitrary: sv)
  case Nil
  then show ?case by (intro exI [of _ 1] exI [of _ "[]"]) (simp add: deliver_pending_items.simps)
next
  case (Cons item items)
  obtain state r where run: "deliver_pending_items env (sv_state sv) [item] = (state, r)" by fastforce
  show ?case
  proof (cases r)
    case (Inl e)
    then have "deliver_pending_items env (sv_state sv) (item # items) = (state, r)"
      using outpost_pass_in_steps [of env "sv_state sv" "[item]" items] run by simp
    then show ?thesis using Cons.prems run Inl by (intro exI [of _ 1]) simp
  next
    case (Inr u)
    let ?next = "sv\<lparr>sv_state := state, sv_pass := Delivering items\<rparr>"
    have rest: "deliver_pending_items env (sv_state sv) (item # items) = deliver_pending_items env state items"
      using outpost_pass_in_steps [of env "sv_state sv" "[item]" items] run Inr by simp
    obtain k out where "run_steps outpost_step ?next (replicate k (DeliverItem env)) =
        (?next\<lparr>sv_state := fst (deliver_pending_items env state items),
           sv_pass := PassOver (isl (snd (deliver_pending_items env state items)))\<rparr>, out)"
      using Cons.IH [of ?next] Cons.prems by auto
    then show ?thesis using Cons.prems run Inr rest by (intro exI [of _ "Suc k"]) simp
  qed
qed

lemma exporter_pass_is_steps:
  assumes "sv_exporter sv" and "sv_pass sv = Idle"
  shows "\<exists>k out. run_steps outpost_step sv
      (BeginPass (od_list_fault env) # replicate k (DeliverItem env) @ [PassEnds (od_stats_fault env)]) =
    (sv\<lparr>sv_state := outpost_exporter_pass env (sv_state sv)\<rparr>, out)"
proof (cases "spool_pending (od_list_fault env) (os_spool (sv_state sv))")
  case (Inl e)
  with assms show ?thesis
    by (intro exI [of _ 0]) (cases sv; simp add: begin_pass_def outpost_exporter_pass_def deliver_pending_def pass_ends_def)
next
  case (Inr items)
  let ?sv = "sv\<lparr>sv_pass := Delivering items\<rparr>"
  obtain state r where run: "deliver_pending_items env (sv_state sv) items = (state, r)" by fastforce
  obtain k out where "run_steps outpost_step ?sv (replicate k (DeliverItem env)) =
      (?sv\<lparr>sv_state := state, sv_pass := PassOver (isl r)\<rparr>, out)"
    using deliver_items_are_steps [of ?sv items env] assms(1) run by auto
  with Inr assms run show ?thesis
    by (intro exI [of _ k]) (cases sv; cases r; simp add: run_steps_append begin_pass_def outpost_exporter_pass_def
        deliver_pending_def pass_ends_def)
qed

subsection \<open>Witness\<close>

definition sample_page_encoder :: "metric_family list \<Rightarrow> bytes option" where
  "sample_page_encoder families = Some (map (\<lambda>(_, _, _, n). word_of_int n) families)"

definition sample_client_env :: client_env where
  "sample_client_env = \<lparr>ce_file = (\<lambda>_. None), ce_certificate = (\<lambda>_. True), ce_build = (\<lambda>_. True)\<rparr>"

definition sample_started :: outpost_state where
  "sample_started = refresh_spool_metrics (None, None)
     \<lparr>os_config = sample_outpost_config, os_spool = \<lparr>sp_root = [], sp_quarantine = [], sp_max_bytes = 1000\<rparr>,
      os_metrics = new_outpost_metrics, os_kubernetes = []\<rparr>"

lemma sample_config_valid: "validate_config sample_parse_url sample_outpost_config = Ok ()"
  by (simp add: sample_parse_url_def sample_outpost_config_def validate_config_def validate_http_destination_def
      ensure_all_eq not_empty_checks_def endpoint_checks_def
      not_blank_alnum [OF _ list.set_intros(1)] is_ascii_alphanumeric_def in_range_def)

lemma sample_started: "build_state (\<lambda>_. []) sample_parse_url None (None, None) sample_outpost_config [] [] = Ok sample_started"
  by (simp add: build_state_def sample_config_valid open_spool_def recover_temporary_files_def sample_started_def)
    (simp add: sample_outpost_config_def map_err_def)

lemma sample_refused:
  "run_steps outpost_step (spawn_background_tasks sample_client_env sample_started) [PostBatch sample_accept_env None []] =
     ((spawn_background_tasks sample_client_env sample_started)\<lparr>sv_state := fst (reject sample_started MissingCredential)\<rparr>,
      [Posted (Some (Rejected MissingCredential))])"
  by (simp add: post_batch_def accept_batch_def Let_def credential_ok_def spawn_background_tasks_def sample_started_def
      sample_outpost_config_def reject_def)

theorem metrics_page_tells_the_truth_witness:
  "snd (metrics_page sample_page_encoder (None, None) (fst (reject sample_started MissingCredential))) =
     (200, Some [0, 1, 0, 0, 0, 0, 0, 0, 0, 0])"
  using metrics_page_tells_the_truth [OF sample_started sample_refused refl refl, of sample_page_encoder None None]
  by (simp add: sample_page_encoder_def gather_def outpost_collectors_def counter_def gauge_def sample_started_def reject_def
      batches_def dir_bytes_def spawn_background_tasks_def)

end
