(* ===== verification/Mock_Endpoint.thy ===== *)
theory Mock_Endpoint
  imports Outpost_Spec
begin

text \<open>
  The mock of the regional receiver, \<open>crates/mock-endpoint/src/main.rs\<close>. \<open>ingest\<close> releases its lock
  between reserving an idempotency key and storing the batch, so requests interleave there: the model
  has the two halves as operations, the handler as their composition, and a step relation in which
  several requests are in flight. JSON decoding is a parameter, the outcome of the file write an input.
\<close>

subsection \<open>State and handlers\<close>

record mock_endpoint =
  me_token :: string
  me_seen :: "string set"
  me_batches :: "dam_batch list"
  me_max_batches :: usize
  me_output :: "(string, bytes) hashmap option"

record ingest_request =
  iq_authorization :: "string option"
  iq_idempotency_key :: "string option"
  iq_body :: bytes

definition new_mock_endpoint :: "string \<Rightarrow> usize \<Rightarrow> bool \<Rightarrow> (string, mock_endpoint) result" where
  "new_mock_endpoint token max_batches has_output =
     rbind (ensure (max_batches > 0) ''max_batches must be positive'') (\<lambda>_.
     Ok \<lparr>me_token = token, me_seen = {}, me_batches = [], me_max_batches = max_batches,
         me_output = (if has_output then Some [] else None)\<rparr>)"

definition authorized :: "string option \<Rightarrow> string \<Rightarrow> bool" where
  "authorized authorization token \<longleftrightarrow> authorization = Some (''Bearer '' @ token)"

definition mock_health :: "mock_endpoint \<Rightarrow> string \<times> string \<times> nat \<times> nat" where
  "mock_health m = (''mock-endpoint'', ''ok'', card (me_seen m), length (me_batches m))"

text \<open>\<open>limit.unwrap_or(50).clamp(1, max_batches)\<close>; \<open>clamp\<close> panics when its bounds are out of order.\<close>

definition list_batches :: "mock_endpoint \<Rightarrow> string option \<Rightarrow> usize option \<Rightarrow> (u16, nat \<times> dam_batch list) result" where
  "list_batches m authorization limit =
     (if \<not> authorized authorization (me_token m) then Fail 401
      else if me_max_batches m < 1 then panicked
      else
        let limit = min (max (case limit of None \<Rightarrow> 50 | Some n \<Rightarrow> n) 1) (me_max_batches m);
            batches = take limit (me_batches m)
        in Ok (length batches, batches))"

text \<open>The checks of \<open>ingest\<close> before it takes the lock: the status of the refusal, or the key and the batch.\<close>

definition check_request ::
  "(bytes \<Rightarrow> dam_batch option) \<Rightarrow> mock_endpoint \<Rightarrow> ingest_request \<Rightarrow> (u16, string \<times> dam_batch) result" where
  "check_request decode m request =
     (if \<not> authorized (iq_authorization request) (me_token m) then Fail 401
      else
        (case iq_idempotency_key request of
           None \<Rightarrow> Fail 400
         | Some idempotency_key \<Rightarrow>
             (case decode (iq_body request) of
                None \<Rightarrow> Fail 400
              | Some batch \<Rightarrow>
                  if validate batch \<noteq> Ok () then Fail 400
                  else if idempotency_key \<noteq> ba_batch_id batch then Fail 400
                  else Ok (idempotency_key, batch))))"

text \<open>\<open>seen.insert(key)\<close>: whether the key is new.\<close>

definition reserve :: "mock_endpoint \<Rightarrow> string \<Rightarrow> mock_endpoint \<times> bool" where
  "reserve m idempotency_key =
     (m\<lparr>me_seen := insert idempotency_key (me_seen m)\<rparr>, idempotency_key \<notin> me_seen m)"

text \<open>
  The rest of \<open>ingest\<close>, with the outcome of the file write: complete, failed before the file was
  created, or stopped after some bytes.
\<close>

datatype write_outcome = Written | NotCreated | Stopped usize

definition store_batch :: "write_outcome \<Rightarrow> mock_endpoint \<Rightarrow> string \<times> dam_batch \<times> bytes \<Rightarrow> mock_endpoint \<times> u16" where
  "store_batch outcome m accepted =
     (case accepted of (idempotency_key, batch, body) \<Rightarrow>
        if me_output m \<noteq> None \<and> outcome \<noteq> Written
        then
          (m\<lparr>me_output := (case outcome of
                Stopped k \<Rightarrow> map_option (hm_insert (idempotency_key @ ''.json'') (take k body)) (me_output m)
              | _ \<Rightarrow> me_output m),
             me_seen := me_seen m - {idempotency_key}\<rparr>, 500)
        else
          (m\<lparr>me_output := map_option (hm_insert (idempotency_key @ ''.json'') body) (me_output m),
             me_batches := take (me_max_batches m) (batch # me_batches m)\<rparr>, 202))"

definition ingest ::
  "(bytes \<Rightarrow> dam_batch option) \<Rightarrow> write_outcome \<Rightarrow> mock_endpoint \<Rightarrow> ingest_request \<Rightarrow> mock_endpoint \<times> u16" where
  "ingest decode outcome m request =
     (case check_request decode m request of
        Inl (Err status) \<Rightarrow> (m, status)
      | Inl Panic \<Rightarrow> (m, 500)
      | Inr (idempotency_key, batch) \<Rightarrow>
          (case reserve m idempotency_key of
             (m, False) \<Rightarrow> (m, CONFLICT)
           | (m, True) \<Rightarrow> store_batch outcome m (idempotency_key, batch, iq_body request)))"

subsection \<open>Requests in flight\<close>

text \<open>The requests that hold a reserved key, and the answers given so far, the latest first.\<close>

record mock_run =
  mr_endpoint :: mock_endpoint
  mr_writing :: "(string \<times> dam_batch \<times> bytes) list"
  mr_answers :: "((string \<times> dam_batch) \<times> u16) list"

inductive mock_step :: "(bytes \<Rightarrow> dam_batch option) \<Rightarrow> mock_run \<Rightarrow> mock_run \<Rightarrow> bool" for decode where
  refused: "check_request decode (mr_endpoint r) request = Fail status \<Longrightarrow> mock_step decode r r"
| conflict: "check_request decode (mr_endpoint r) request = Ok (idempotency_key, batch) \<Longrightarrow>
    reserve (mr_endpoint r) idempotency_key = (m, False) \<Longrightarrow>
    mock_step decode r (r\<lparr>mr_endpoint := m, mr_answers := ((idempotency_key, batch), CONFLICT) # mr_answers r\<rparr>)"
| began: "check_request decode (mr_endpoint r) request = Ok (idempotency_key, batch) \<Longrightarrow>
    reserve (mr_endpoint r) idempotency_key = (m, True) \<Longrightarrow>
    mock_step decode r (r\<lparr>mr_endpoint := m, mr_writing := (idempotency_key, batch, iq_body request) # mr_writing r\<rparr>)"
| ended: "mr_writing r = before @ accepted # after \<Longrightarrow> store_batch outcome (mr_endpoint r) accepted = (m, status) \<Longrightarrow>
    mock_step decode r (r\<lparr>mr_endpoint := m, mr_writing := before @ after,
      mr_answers := ((fst accepted, fst (snd accepted)), status) # mr_answers r\<rparr>)"

inductive_cases mock_stepE: "mock_step decode r r'"

definition start_run :: "mock_endpoint \<Rightarrow> mock_run" where
  "start_run m = \<lparr>mr_endpoint = m, mr_writing = [], mr_answers = []\<rparr>"

text \<open>The batches answered with 202, the latest first.\<close>

fun taken :: "((string \<times> dam_batch) \<times> u16) list \<Rightarrow> (string \<times> dam_batch) list" where
  "taken [] = []"
| "taken ((request, status) # answers) = (if status = 202 then request # taken answers else taken answers)"

definition mock_inv :: "usize \<Rightarrow> mock_run \<Rightarrow> bool" where
  "mock_inv max_batches r \<longleftrightarrow>
     me_max_batches (mr_endpoint r) = max_batches \<and>
     me_seen (mr_endpoint r) = fst ` set (mr_writing r) \<union> fst ` set (taken (mr_answers r)) \<and>
     distinct (map fst (mr_writing r) @ map fst (taken (mr_answers r))) \<and>
     (\<forall>(key, batch, body) \<in> set (mr_writing r). validate batch = Ok () \<and> key = ba_batch_id batch) \<and>
     (\<forall>(key, batch) \<in> set (taken (mr_answers r)). validate batch = Ok () \<and> key = ba_batch_id batch) \<and>
     me_batches (mr_endpoint r) = take max_batches (map snd (taken (mr_answers r)))"

lemma mock_inv_start: "mock_inv max_batches (start_run
    \<lparr>me_token = token, me_seen = {}, me_batches = [], me_max_batches = max_batches, me_output = output\<rparr>)"
  by (simp add: mock_inv_def start_run_def)

lemma check_request_OkD:
  "check_request decode m request = Ok (key, batch) \<Longrightarrow> validate batch = Ok () \<and> key = ba_batch_id batch"
  by (auto simp: check_request_def split: if_splits option.splits)

lemma mock_step_inv:
  assumes "mock_step decode r r'" and inv: "mock_inv max_batches r"
  shows "mock_inv max_batches r'"
  using assms(1)
proof cases
  case refused
  with inv show ?thesis by simp
next
  case (conflict request key batch m)
  then have "key \<in> me_seen (mr_endpoint r)" "m = mr_endpoint r" by (auto simp: reserve_def insert_absorb)
  with conflict inv show ?thesis by (simp add: mock_inv_def CONFLICT_def)
next
  case (began request key batch m)
  then have "key \<notin> me_seen (mr_endpoint r)" "m = (mr_endpoint r)\<lparr>me_seen := insert key (me_seen (mr_endpoint r))\<rparr>"
    by (simp_all add: reserve_def)
  with began(1) inv check_request_OkD [OF began(2)] show ?thesis by (simp add: mock_inv_def)
next
  case (ended before accepted after outcome m status)
  obtain key batch body where accepted: "accepted = (key, batch, body)" by (cases accepted)
  show ?thesis
  proof (cases "me_output (mr_endpoint r) \<noteq> None \<and> outcome \<noteq> Written")
    case True
    with ended accepted have "status = 500" "me_seen m = me_seen (mr_endpoint r) - {key}"
        "me_batches m = me_batches (mr_endpoint r)" "me_max_batches m = me_max_batches (mr_endpoint r)"
      by (auto simp: store_batch_def)
    with ended(1,2) accepted inv show ?thesis by (auto simp: mock_inv_def intro: rev_image_eqI)
  next
    case False
    with ended accepted have "status = 202" "me_seen m = me_seen (mr_endpoint r)"
        "me_batches m = take (me_max_batches (mr_endpoint r)) (batch # me_batches (mr_endpoint r))"
        "me_max_batches m = me_max_batches (mr_endpoint r)"
      by (auto simp: store_batch_def)
    with ended accepted inv show ?thesis
      by (auto simp: mock_inv_def take_Cons' take_map)
  qed
qed

lemma mock_run_inv:
  assumes "(mock_step decode)\<^sup>*\<^sup>* r r'" and "mock_inv max_batches r"
  shows "mock_inv max_batches r'"
  using assms by (induction rule: rtranclp_induct) (auto intro: mock_step_inv)

text \<open>The handler on its own is one of the interleavings.\<close>

lemma ingest_is_a_run:
  assumes "ingest decode outcome (mr_endpoint r) request = (m, status)"
  shows "\<exists>r'. (mock_step decode)\<^sup>*\<^sup>* r r' \<and> mr_endpoint r' = m \<and> mr_writing r' = mr_writing r"
proof (cases "check_request decode (mr_endpoint r) request")
  case (Inl e)
  then have "m = mr_endpoint r" using assms by (auto simp: ingest_def split: fault.splits)
  then show ?thesis by blast
next
  case (Inr accepted)
  obtain key batch where accepted: "accepted = (key, batch)" by (cases accepted)
  let ?reserved = "(mr_endpoint r)\<lparr>me_seen := insert key (me_seen (mr_endpoint r))\<rparr>"
  show ?thesis
  proof (cases "key \<in> me_seen (mr_endpoint r)")
    case True
    then have "m = ?reserved" "reserve (mr_endpoint r) key = (?reserved, False)"
      using assms Inr accepted by (auto simp: ingest_def reserve_def)
    with mock_step.conflict [OF Inr [unfolded accepted]] show ?thesis
      by (intro exI conjI r_into_rtranclp) (assumption, simp_all)
  next
    case False
    then have reserved: "reserve (mr_endpoint r) key = (?reserved, True)"
        and stored: "store_batch outcome ?reserved (key, batch, iq_body request) = (m, status)"
      using assms Inr accepted by (auto simp: ingest_def reserve_def)
    have "mock_step decode (r\<lparr>mr_endpoint := ?reserved, mr_writing := (key, batch, iq_body request) # mr_writing r\<rparr>)
        (r\<lparr>mr_endpoint := m, mr_writing := mr_writing r, mr_answers := ((key, batch), status) # mr_answers r\<rparr>)"
      using mock_step.ended [of "r\<lparr>mr_endpoint := ?reserved, mr_writing := (key, batch, iq_body request) # mr_writing r\<rparr>"
          "[]" "(key, batch, iq_body request)" "mr_writing r" outcome m status decode] stored by simp
    with mock_step.began [OF Inr [unfolded accepted] reserved] show ?thesis
      by (intro exI conjI rtranclp.rtrancl_into_rtrancl [OF r_into_rtranclp]) (assumption+, simp_all)
  qed
qed

text \<open>
  C40: the receiver takes each batch once. From a fresh mock endpoint, in every interleaving of requests
  and with any failing writes, no batch identifier is answered with 202 twice, every batch taken is
  valid and carried its own identifier as idempotency key, and what the endpoint retains are the most
  recently taken batches, at most \<open>max_batches\<close> of them.
\<close>

theorem receiver_takes_each_batch_once:
  assumes "new_mock_endpoint token max_batches has_output = Ok m" and "(mock_step decode)\<^sup>*\<^sup>* (start_run m) r"
  shows "distinct (map fst (taken (mr_answers r))) \<and>
    list_all (\<lambda>(key, batch). validate batch = Ok () \<and> key = ba_batch_id batch) (taken (mr_answers r)) \<and>
    me_batches (mr_endpoint r) = take max_batches (map snd (taken (mr_answers r)))"
proof -
  have "mock_inv max_batches (start_run m)"
    using assms(1) mock_inv_start by (auto simp: new_mock_endpoint_def)
  with assms(2) have "mock_inv max_batches r" by (rule mock_run_inv)
  then show ?thesis by (auto simp: mock_inv_def list_all_iff)
qed

text \<open>
  The key is reserved before the batch is stored. A second request with the same batch is answered with
  409, which its sender takes for delivered, although the first one is still writing; when that write
  fails, nothing is kept.
\<close>

lemma conflict_for_a_batch_that_is_not_kept:
  assumes request: "check_request decode m request = Ok (key, batch)"
    and fresh: "key \<notin> me_seen m" and dir: "me_output m \<noteq> None"
  shows "\<exists>r. (mock_step decode)\<^sup>*\<^sup>* (start_run m) r \<and> mr_answers r = [((key, batch), 500), ((key, batch), CONFLICT)] \<and>
    me_batches (mr_endpoint r) = me_batches m \<and> key \<notin> me_seen (mr_endpoint r)"
proof -
  let ?m1 = "m\<lparr>me_seen := insert key (me_seen m)\<rparr>"
  let ?m2 = "m\<lparr>me_seen := insert key (me_seen m) - {key}\<rparr>"
  have token: "check_request decode ?m1 request = Ok (key, batch)" using request by (simp add: check_request_def)
  have "mock_step decode (start_run m) \<lparr>mr_endpoint = ?m1, mr_writing = [(key, batch, iq_body request)], mr_answers = []\<rparr>"
    using mock_step.began [of decode "start_run m" request key batch ?m1] request fresh
    by (simp add: start_run_def reserve_def)
  moreover have "mock_step decode \<lparr>mr_endpoint = ?m1, mr_writing = [(key, batch, iq_body request)], mr_answers = []\<rparr>
      \<lparr>mr_endpoint = ?m1, mr_writing = [(key, batch, iq_body request)], mr_answers = [((key, batch), CONFLICT)]\<rparr>"
    using mock_step.conflict [of decode "\<lparr>mr_endpoint = ?m1, mr_writing = [(key, batch, iq_body request)], mr_answers = []\<rparr>"
        request key batch ?m1] token by (simp add: reserve_def)
  moreover have "mock_step decode
      \<lparr>mr_endpoint = ?m1, mr_writing = [(key, batch, iq_body request)], mr_answers = [((key, batch), CONFLICT)]\<rparr>
      \<lparr>mr_endpoint = ?m2, mr_writing = [], mr_answers = [((key, batch), 500), ((key, batch), CONFLICT)]\<rparr>"
    using mock_step.ended [of
        "\<lparr>mr_endpoint = ?m1, mr_writing = [(key, batch, iq_body request)], mr_answers = [((key, batch), CONFLICT)]\<rparr>"
        "[]" "(key, batch, iq_body request)" "[]" NotCreated ?m2 500 decode] dir by (simp add: store_batch_def)
  ultimately have "(mock_step decode)\<^sup>*\<^sup>* (start_run m)
      \<lparr>mr_endpoint = ?m2, mr_writing = [], mr_answers = [((key, batch), 500), ((key, batch), CONFLICT)]\<rparr>"
    by (meson rtranclp.rtrancl_into_rtrancl r_into_rtranclp)
  then show ?thesis by (intro exI conjI) (assumption, simp_all)
qed

definition sample_endpoint :: mock_endpoint where
  "sample_endpoint = \<lparr>me_token = ''t'', me_seen = {}, me_batches = [], me_max_batches = 1, me_output = None\<rparr>"

theorem receiver_takes_each_batch_once_witness:
  "\<exists>r. (mock_step (\<lambda>_. Some sample_auth_batch))\<^sup>*\<^sup>* (start_run sample_endpoint) r \<and>
     mr_endpoint r = fst (ingest (\<lambda>_. Some sample_auth_batch) Written sample_endpoint
       \<lparr>iq_authorization = Some ''Bearer t'', iq_idempotency_key = Some (ba_batch_id sample_auth_batch), iq_body = []\<rparr>) \<and>
     length (me_batches (mr_endpoint r)) \<le> 1"
proof -
  obtain r where run: "(mock_step (\<lambda>_. Some sample_auth_batch))\<^sup>*\<^sup>* (start_run sample_endpoint) r"
      "mr_endpoint r = fst (ingest (\<lambda>_. Some sample_auth_batch) Written sample_endpoint
       \<lparr>iq_authorization = Some ''Bearer t'', iq_idempotency_key = Some (ba_batch_id sample_auth_batch), iq_body = []\<rparr>)"
    using ingest_is_a_run [of "\<lambda>_. Some sample_auth_batch" Written "start_run sample_endpoint", OF surjective_pairing]
    by (auto simp: start_run_def)
  have "new_mock_endpoint ''t'' 1 False = Ok sample_endpoint"
    by (simp add: new_mock_endpoint_def sample_endpoint_def ensure_def)
  from receiver_takes_each_batch_once [OF this run(1)] run show ?thesis by auto
qed

end
