(* ===== verification/Bson_Spec.thy ===== *)
theory Bson_Spec
  imports Bson_Encode
begin

text \<open>
  BSON documents as a datatype, their encoding, and the JSON value each stands for. The converter
  of \<open>crates/mongo-protocol/src/lib.rs\<close> is proved to compute exactly that value on every encoded
  document that fits a wire message.
\<close>

subsection \<open>Documents, encoding and meaning\<close>

datatype bson =
    BDouble f64
  | BString string
  | BDocument "(string \<times> bson) list"
  | BArray "bson list"
  | BBinary u8 bytes
  | BUndefined
  | BObjectId bytes
  | BBool bool
  | BDate i64
  | BNull
  | BRegex string string
  | BDbPointer string bytes
  | BCode string
  | BSymbol string
  | BInt32 i32
  | BTimestamp u64
  | BInt64 i64
  | BDecimal bytes
  | BMaxKey
  | BMinKey

fun bson_tag :: "bson \<Rightarrow> u8" where
  "bson_tag (BDouble _) = 0x01"
| "bson_tag (BString _) = 0x02"
| "bson_tag (BDocument _) = 0x03"
| "bson_tag (BArray _) = 0x04"
| "bson_tag (BBinary _ _) = 0x05"
| "bson_tag BUndefined = 0x06"
| "bson_tag (BObjectId _) = 0x07"
| "bson_tag (BBool _) = 0x08"
| "bson_tag (BDate _) = 0x09"
| "bson_tag BNull = 0x0a"
| "bson_tag (BRegex _ _) = 0x0b"
| "bson_tag (BDbPointer _ _) = 0x0c"
| "bson_tag (BCode _) = 0x0d"
| "bson_tag (BSymbol _) = 0x0e"
| "bson_tag (BInt32 _) = 0x10"
| "bson_tag (BTimestamp _) = 0x11"
| "bson_tag (BInt64 _) = 0x12"
| "bson_tag (BDecimal _) = 0x13"
| "bson_tag BMaxKey = 0x7f"
| "bson_tag BMinKey = 0xff"

fun enc_value :: "bson \<Rightarrow> bytes"
  and enc_members :: "(string \<times> bson) list \<Rightarrow> bytes"
  and enc_items :: "nat \<Rightarrow> bson list \<Rightarrow> bytes"
where
  "enc_value (BDouble v) = to_le_bytes v"
| "enc_value (BString s) = string_value s"
| "enc_value (BDocument members) = bson_document [enc_members members]"
| "enc_value (BArray items) = bson_document [enc_items 0 items]"
| "enc_value (BBinary subtype b) = binary_value subtype b"
| "enc_value BUndefined = []"
| "enc_value (BObjectId b) = b"
| "enc_value (BBool v) = [if v then 1 else 0]"
| "enc_value (BDate v) = to_le_bytes v"
| "enc_value BNull = []"
| "enc_value (BRegex pattern options) = as_bytes pattern @ 0 # as_bytes options @ [0]"
| "enc_value (BDbPointer namespace b) = string_value namespace @ b"
| "enc_value (BCode s) = string_value s"
| "enc_value (BSymbol s) = string_value s"
| "enc_value (BInt32 v) = to_le_bytes v"
| "enc_value (BTimestamp v) = to_le_bytes v"
| "enc_value (BInt64 v) = to_le_bytes v"
| "enc_value (BDecimal b) = b"
| "enc_value BMaxKey = []"
| "enc_value BMinKey = []"
| "enc_members [] = []"
| "enc_members ((key, v) # members) = element_header (bson_tag v) key @ enc_value v @ enc_members members"
| "enc_items i [] = []"
| "enc_items i (v # items) = element_header (bson_tag v) (nat_string i) @ enc_value v @ enc_items (Suc i) items"

definition enc_document :: "(string \<times> bson) list \<Rightarrow> bytes" where
  "enc_document members = bson_document [enc_members members]"

text \<open>The JSON value of a BSON value; a repeated key keeps its last value.\<close>

fun json_of :: "bson \<Rightarrow> json_value"
  and json_members :: "(string \<times> bson) list \<Rightarrow> (string, json_value) hashmap \<Rightarrow> (string, json_value) hashmap"
where
  "json_of (BDouble v) =
     (if f64_is_finite v then JNumber (Float v)
      else JObject [(''$numberDouble'', JString (f64_nonfinite_string v))])"
| "json_of (BString s) = JString s"
| "json_of (BDocument members) = JObject (json_members members [])"
| "json_of (BArray items) = JArray (map json_of items)"
| "json_of (BBinary subtype b) = JObject [(''$binary'', JObject
     [(''hex'', JString (encode_hex b)), (''subType'', JString (zero_pad 2 (digits_of 16 (unat subtype))))])]"
| "json_of BUndefined = JObject [(''$undefined'', JBool True)]"
| "json_of (BObjectId b) = JObject [(''$oid'', JString (encode_hex b))]"
| "json_of (BBool v) = JBool v"
| "json_of (BDate v) = JObject [(''$date'', JObject [(''$numberLong'', JString (int_string (sint v)))])]"
| "json_of BNull = JNull"
| "json_of (BRegex pattern options) =
     JObject [(''$regularExpression'', JObject [(''pattern'', JString pattern), (''options'', JString options)])]"
| "json_of (BDbPointer namespace b) =
     JObject [(''$dbPointer'', JObject [(''$ref'', JString namespace), (''$id'', JString (encode_hex b))])]"
| "json_of (BCode s) = JObject [(''$code'', JString s)]"
| "json_of (BSymbol s) = JObject [(''$symbol'', JString s)]"
| "json_of (BInt32 v) = json_i32 v"
| "json_of (BTimestamp v) = JObject [(''$timestamp'', JObject
     [(''t'', JNumber (PosInt (drop_bit 32 v))), (''i'', JNumber (PosInt (v AND 0xffffffff)))])]"
| "json_of (BInt64 v) = json_i64 v"
| "json_of (BDecimal b) = JObject [(''$numberDecimalBytes'', JString (encode_hex b))]"
| "json_of BMaxKey = JObject [(''$maxKey'', JNumber (PosInt 1))]"
| "json_of BMinKey = JObject [(''$minKey'', JNumber (PosInt 1))]"
| "json_members [] object = object"
| "json_members ((key, v) # members) object = json_members members (hm_insert key (json_of v) object)"

text \<open>Strings are UTF-8, C strings hold no NUL, fixed-size values have their size.\<close>

definition utf8_string :: "string \<Rightarrow> bool" where
  "utf8_string s \<longleftrightarrow> utf8_valid (as_bytes s)"

definition c_string :: "string \<Rightarrow> bool" where
  "c_string s \<longleftrightarrow> utf8_string s \<and> CHR 0x00 \<notin> set s"

fun wf_bson :: "bson \<Rightarrow> bool"
  and wf_members :: "(string \<times> bson) list \<Rightarrow> bool"
where
  "wf_bson (BString s) = utf8_string s"
| "wf_bson (BDocument members) = wf_members members"
| "wf_bson (BArray items) = list_all wf_bson items"
| "wf_bson (BObjectId b) = (length b = 12)"
| "wf_bson (BRegex pattern options) = (c_string pattern \<and> c_string options)"
| "wf_bson (BDbPointer namespace b) = (utf8_string namespace \<and> length b = 12)"
| "wf_bson (BCode s) = utf8_string s"
| "wf_bson (BSymbol s) = utf8_string s"
| "wf_bson (BDecimal b) = (length b = 16)"
| "wf_bson _ = True"
| "wf_members [] = True"
| "wf_members ((key, v) # members) = (c_string key \<and> wf_bson v \<and> wf_members members)"

subsection \<open>Reading back what was encoded\<close>

text \<open>
  A reader at \<open>offset\<close> sees \<open>drop offset bs\<close>. The lemmas of this collection say what each reader
  returns when that suffix starts with an encoded value.
\<close>

named_theorems reads \<open>readers on a suffix that starts with an encoded value\<close>

lemma i32_of_usize_sint: "n < 2 ^ 31 \<Longrightarrow> sint (i32_of_usize n) = int n"
  by (simp add: i32_of_usize_def signed_of_nat signed_take_bit_int_eq_self)

lemma i32_as_usize_of_usize: "n < 2 ^ 31 \<Longrightarrow> i32_as_usize (i32_of_usize n) = n"
  by (simp add: i32_as_usize_nonneg i32_of_usize_sint)

lemma read_i32_reads [reads]:
  "drop offset bs = to_le_bytes w @ b \<Longrightarrow> offset \<le> length bs \<Longrightarrow> read_i32 bs offset = Ok w"
  using slice_range_reads [of offset bs "to_le_bytes w" b]
  by (simp add: read_i32_def to_le_bytes_32 del: slice_range_eq_Some)

lemma read_u32_reads [reads]:
  "drop offset bs = to_le_bytes w @ b \<Longrightarrow> offset \<le> length bs \<Longrightarrow> read_u32 bs offset = Ok w"
  using slice_range_reads [of offset bs "to_le_bytes w" b]
  by (simp add: read_u32_def to_le_bytes_32 del: slice_range_eq_Some)

lemma read_i64_reads [reads]:
  "drop offset bs = to_le_bytes w @ b \<Longrightarrow> offset \<le> length bs \<Longrightarrow> read_i64 bs offset = Ok w"
  using slice_range_reads [of offset bs "to_le_bytes w" b]
  by (simp add: read_i64_def to_le_bytes_64 del: slice_range_eq_Some)

lemma read_u64_reads [reads]:
  "drop offset bs = to_le_bytes w @ b \<Longrightarrow> offset \<le> length bs \<Longrightarrow> read_u64 bs offset = Ok w"
  using slice_range_reads [of offset bs "to_le_bytes w" b]
  by (simp add: read_u64_def to_le_bytes_64 del: slice_range_eq_Some)

lemma byte_char_zero: "byte_char 0 = CHR 0x00"
  by code_simp

lemma char_byte_zero: "char_byte c = 0 \<longleftrightarrow> c = CHR 0x00"
  by (metis byte_char_inverse byte_char_zero char_byte_inverse)

lemma read_cstring_reads [reads]:
  assumes "drop offset bs = as_bytes s @ 0 # b" and "offset \<le> length bs" and "c_string s"
  shows "read_cstring bs offset = Ok (s, offset + length s + 1)"
proof -
  have "position (\<lambda>b. b = 0) (drop offset bs) = Some (length s)"
    using assms(1,3) position_append [of "as_bytes s" "\<lambda>b. b = 0" 0 b]
    by (auto simp: c_string_def as_bytes_def char_byte_zero)
  moreover have "(slice_sub bs offset (offset + length s) :: bytes decode) = Ok (as_bytes s)"
    using assms(1,2) drop_length [OF assms(1,2)] by simp
  moreover have "from_utf8 (as_bytes s) = Some s"
    using assms(3) by (simp add: c_string_def utf8_string_def from_utf8_as_bytes)
  ultimately show ?thesis
    using assms(2) by (simp add: read_cstring_def slice_from_def del: slice_sub_eq_Inr)
qed

lemma length_string_value [simp]: "length (string_value s) = length s + 5"
  by (simp add: string_value_def)

lemma length_binary_value [simp]: "length (binary_value t d) = length d + 5"
  by (simp add: binary_value_def)

lemma string_value_length_reads:
  "drop offset bs = string_value s @ b \<Longrightarrow> offset \<le> length bs \<Longrightarrow>
   read_i32 bs offset = Ok (i32_of_usize (length s + 1))"
  by (rule read_i32_reads) (simp_all add: string_value_def)

lemma read_bson_string_reads [reads]:
  assumes bs: "drop offset bs = string_value s @ b" and "offset \<le> length bs"
    and "length bs < 2 ^ 31" and "utf8_string s"
  shows "read_bson_string bs offset = Ok s"
proof -
  have len: "length bs = offset + (length s + 5) + length b"
    using drop_length [OF bs assms(2)] by simp
  have tail: "drop (offset + 4) bs = as_bytes s @ 0 # b"
    using drop_next [of offset bs "to_le_bytes (i32_of_usize (length s + 1))"] bs by (simp add: string_value_def)
  have "drop (offset + 4 + length s) bs = 0 # b"
    using drop_next [OF tail] by simp
  then have terminator: "(slice_index bs (offset + 4 + length s) :: u8 decode) = Ok 0"
    using len by (intro slice_index_reads) auto
  have body: "(slice_sub bs (offset + 4) (offset + 4 + length s) :: bytes decode) = Ok (as_bytes s)"
    using tail len by simp
  have "from_utf8 (as_bytes s) = Some s"
    using assms(4) by (simp add: utf8_string_def from_utf8_as_bytes)
  with terminator body len assms(3) string_value_length_reads [OF bs assms(2)] show ?thesis
    by (simp add: read_bson_string_def i32_of_usize_sint i32_as_usize_of_usize checked_add_def usize_max_def
        ac_simps del: slice_sub_eq_Inr slice_index_eq_Inr)
qed

lemma read_bson_binary_reads [reads]:
  assumes bs: "drop offset bs = binary_value subtype d @ b" and "offset \<le> length bs"
    and "length bs < 2 ^ 31"
  shows "read_bson_binary bs offset = Ok d" "slice_get bs (offset + 4) = Some subtype"
    "read_i32 bs offset = Ok (i32_of_usize (length d))"
proof -
  have len: "length bs = offset + (length d + 5) + length b"
    using drop_length [OF bs assms(2)] by simp
  show head: "read_i32 bs offset = Ok (i32_of_usize (length d))"
    using bs assms(2) by (intro read_i32_reads) (simp_all add: binary_value_def)
  have tail: "drop (offset + 4) bs = subtype # d @ b"
    using drop_next [of offset bs "to_le_bytes (i32_of_usize (length d))"] bs by (simp add: binary_value_def)
  then show "slice_get bs (offset + 4) = Some subtype"
    using len by (intro slice_get_reads) auto
  have "drop (offset + 5) bs = d @ b"
    using drop_next [of "offset + 4" bs "[subtype]" "d @ b"] tail by (simp add: ac_simps)
  with head len assms(3) show "read_bson_binary bs offset = Ok d"
    by (simp add: read_bson_binary_def i32_of_usize_sint i32_as_usize_of_usize checked_add_def usize_max_def
        slice_range_def)
qed

lemma length_bson_document [simp]: "length (bson_document elements) = length (concat elements) + 5"
  by (simp add: bson_document_def Let_def)

lemma document_length_reads:
  "drop offset bs = bson_document elements @ b \<Longrightarrow> offset \<le> length bs \<Longrightarrow>
   read_i32 bs offset = Ok (i32_of_usize (length (concat elements) + 5))"
  by (rule read_i32_reads) (simp_all add: bson_document_def Let_def add.commute)

lemma end_within_reads:
  "drop offset bs = a @ b \<Longrightarrow> offset \<le> length bs \<Longrightarrow> length bs < 2 ^ 31 \<Longrightarrow>
   end_within bs offset (length a) = Ok (offset + length a)"
  by (auto simp: usize_max_def dest: drop_length)

subsection \<open>Skipping an encoded value\<close>

lemma skip_value_reads:
  assumes bs: "drop offset bs = enc_value v @ b" and offset: "offset \<le> length bs"
    and small: "length bs < 2 ^ 31" and wf: "wf_bson v"
  shows "skip_value bs offset (bson_tag v) = Ok (offset + length (enc_value v))"
proof -
  have ends: "end_within bs offset (length (enc_value v)) = Ok (offset + length (enc_value v))"
    using end_within_reads [OF bs offset small] .
  have len: "length bs = offset + length (enc_value v) + length b"
    using drop_length [OF bs offset] .
  note skip = skip_value_def fixed_size_def i32_of_usize_sint i32_as_usize_of_usize usize_max_def
  have texts: ?thesis if "v \<in> {BString s, BCode s, BSymbol s}" for s
    using that bs string_value_length_reads [of offset bs s b] offset small len
    by - (elim insertE emptyE; simp add: skip)
  have containers: ?thesis if "enc_value v = bson_document d" "bson_tag v \<in> {0x03, 0x04}" for d
    using that bs document_length_reads [of offset bs d b] offset small len by (auto simp: skip)
  have fixed: "skip_value bs offset t = Ok (offset + length (enc_value v))"
    if "fixed_size t = Some (length (enc_value v))" for t
    using that ends by (simp add: skip_value_def)
  show ?thesis
  proof (cases v)
    case (BBinary t d)
    with bs have "read_i32 bs offset = Ok (i32_of_usize (length d))"
      using read_bson_binary_reads(3) offset small by simp
    with BBinary small len show ?thesis
      by (auto simp: skip)
  next
    case (BRegex p q)
    have first: "read_cstring bs offset = Ok (p, offset + length p + 1)"
      using bs offset wf BRegex by (intro read_cstring_reads [where b = "as_bytes q @ 0 # b"]) auto
    have "drop (offset + length p + 1) bs = as_bytes q @ 0 # b"
      using drop_next [of offset bs "as_bytes p @ [0]" "as_bytes q @ 0 # b"] bs BRegex by simp
    then have "read_cstring bs (offset + length p + 1) = Ok (q, offset + length p + 1 + length q + 1)"
      using wf BRegex len by (intro read_cstring_reads) auto
    with first BRegex show ?thesis by (simp add: skip_value_def fixed_size_def)
  next
    case (BDbPointer s d)
    have "read_i32 bs offset = Ok (i32_of_usize (length s + 1))"
      using bs offset BDbPointer by (intro string_value_length_reads [where b = "d @ b"]) auto
    with BDbPointer small len wf show ?thesis
      by (auto simp: skip)
  qed (use texts containers fixed wf in \<open>auto simp: fixed_size_def\<close>)
qed

subsection \<open>One element\<close>

lemma length_element_header [simp]: "length (element_header t key) = length key + 2"
  by (simp add: element_header_def)

text \<open>What a document loop reads at an element, and where the element after it starts.\<close>

lemma element_reads:
  assumes bs: "drop offset bs = element_header (bson_tag v) key @ enc_value v @ b"
    and offset: "offset \<le> length bs" and small: "length bs < 2 ^ 31" and key: "c_string key"
  shows "(slice_index bs offset :: u8 decode) = Ok (bson_tag v)"
    and "read_cstring bs (offset + 1) = Ok (key, offset + length key + 2)"
    and "drop (offset + length key + 2) bs = enc_value v @ b"
    and "drop (offset + length key + 2 + length (enc_value v)) bs = b"
    and "length bs = offset + length key + 2 + length (enc_value v) + length b"
proof -
  show "(slice_index bs offset :: u8 decode) = Ok (bson_tag v)"
    using bs offset by (intro slice_index_reads) (auto simp: element_header_def)
  show len: "length bs = offset + length key + 2 + length (enc_value v) + length b"
    using drop_length [OF bs offset] by simp
  have "drop (offset + 1) bs = as_bytes key @ 0 # enc_value v @ b"
    using drop_next [of offset bs "[bson_tag v]"] bs by (simp add: element_header_def)
  then show "read_cstring bs (offset + 1) = Ok (key, offset + length key + 2)"
    using read_cstring_reads [of "offset + 1" bs key "enc_value v @ b"] key len by simp
  show tail: "drop (offset + length key + 2) bs = enc_value v @ b"
    using drop_next [OF bs] by (simp add: ac_simps)
  show "drop (offset + length key + 2 + length (enc_value v)) bs = b"
    using drop_next [OF tail] .
qed

lemma is_ascii_digit_byte: "is_ascii_digit c \<Longrightarrow> char_byte c < 0x80 \<and> c \<noteq> CHR 0x00"
  by (auto simp: is_ascii_digit_def in_range_def char_byte_def word_less_nat_alt unat_of_nat)

lemma c_string_digits: "c_string (nat_string n)"
  using digits_of_10 [of _ n] is_ascii_digit_byte
  by (auto simp: c_string_def utf8_string_def nat_string_def as_bytes_def intro!: utf8_valid_ascii)

lemma check_document_reads: "length (bson_document d) < 2 ^ 31 \<Longrightarrow> check_document (bson_document d) = Ok ()"
  using document_length_reads [of 0 "bson_document d" d "[]"]
  by (simp add: check_document_def i32_as_usize_of_usize) (simp add: bson_document_def Let_def)

lemma drop_document: "drop 4 (bson_document [body]) = body @ [0]"
  by (simp add: bson_document_def Let_def)

subsection \<open>The conversion computes the meaning\<close>

lemma regex_to_json_reads:
  assumes prems: "drop offset bs = enc_value (BRegex p q) @ b" "offset \<le> length bs" "length bs < 2 ^ 31"
    "wf_bson (BRegex p q)"
  shows "bson_value_to_json bs offset 0x0b =
    Ok (json_of (BRegex p q), offset + length (enc_value (BRegex p q)))"
proof -
  have first: "read_cstring bs offset = Ok (p, offset + length p + 1)"
    using prems by (intro read_cstring_reads [where b = "as_bytes q @ 0 # b"]) auto
  have "drop (offset + length p + 1) bs = as_bytes q @ 0 # b"
    using drop_next [of offset bs "as_bytes p @ [0]" "as_bytes q @ 0 # b"] prems by simp
  then have "read_cstring bs (offset + length p + 1) = Ok (q, offset + length p + 1 + length q + 1)"
    using prems drop_length [OF prems(1,2)] by (intro read_cstring_reads) auto
  with first skip_value_reads [OF prems] show ?thesis
    by (simp add: bson_value_to_json.simps [of bs offset])
qed

lemma dbpointer_to_json_reads:
  assumes prems: "drop offset bs = enc_value (BDbPointer n d) @ b" "offset \<le> length bs" "length bs < 2 ^ 31"
    "wf_bson (BDbPointer n d)"
  shows "bson_value_to_json bs offset 0x0c =
    Ok (json_of (BDbPointer n d), offset + length (enc_value (BDbPointer n d)))"
proof -
  have bs: "drop offset bs = string_value n @ d @ b" using prems by simp
  have len: "length bs = offset + (length n + 5) + length (d @ b)"
    using drop_length [OF bs prems(2)] by simp
  have "drop (offset + (length n + 5)) bs = d @ b" using drop_next [OF bs] by simp
  then have "slice_range bs (offset + (length n + 5)) (offset + (length n + 5) + length d) = Some d"
    using len by (intro slice_range_reads) auto
  moreover have "offset + 4 + i32_as_usize (i32_of_usize (length n + 1)) = offset + (length n + 5)"
    using len prems(3) by (simp add: i32_as_usize_of_usize)
  moreover have "offset + (length n + 5) + length d = offset + length (enc_value (BDbPointer n d))"
    by simp
  ultimately have "slice_range bs (offset + 4 + i32_as_usize (i32_of_usize (length n + 1)))
      (offset + length (enc_value (BDbPointer n d))) = Some d"
    by (simp only:)
  with string_value_length_reads [OF bs prems(2)] read_bson_string_reads [OF bs prems(2,3)]
    skip_value_reads [OF prems] prems(4)
  show ?thesis
    by (simp add: bson_value_to_json.simps [of bs offset] del: slice_range_eq_Some)
qed

text \<open>Values that are not containers.\<close>

lemma scalar_to_json_reads:
  assumes bs: "drop offset bs = enc_value v @ b" and offset: "offset \<le> length bs"
    and small: "length bs < 2 ^ 31" and wf: "wf_bson v"
    and scalar: "bson_tag v \<noteq> 0x03" "bson_tag v \<noteq> 0x04"
  shows "bson_value_to_json bs offset (bson_tag v) = Ok (json_of v, offset + length (enc_value v))"
  supply slice_range_eq_Some [simp del]
proof -
  note to_json = bson_value_to_json.simps [of bs offset] Let_def to_le_bytes_64
  note skip = skip_value_reads [OF bs offset small wf]
  have texts: ?thesis if "v \<in> {BString s, BCode s, BSymbol s}" for s
    using that skip read_bson_string_reads [of offset bs s b] bs offset small wf by (auto simp: to_json)
  have longs: ?thesis if "v \<in> {BDate w, BInt64 w}" for w
    using that skip read_i64_reads [of offset bs w b] bs offset by (auto simp: to_json)
  have slices: ?thesis if "v \<in> {BDouble w, BObjectId d, BDecimal d}" for w d
    using that skip slice_range_reads [OF bs offset] wf by (auto simp: to_json)
  have markers: ?thesis if "v \<in> {BUndefined, BNull, BMaxKey, BMinKey}"
    using that skip by (auto simp: to_json)
  show ?thesis
  proof (cases v)
    case (BBinary t d)
    then show ?thesis using skip read_bson_binary_reads [of offset bs t d b] bs offset small
      by (simp add: to_json)
  next
    case (BBool w)
    then show ?thesis using skip slice_get_reads [of offset bs _ b] bs offset by (simp add: to_json)
  next
    case (BInt32 w)
    then show ?thesis using skip read_i32_reads [of offset bs w b] bs offset by (simp add: to_json)
  next
    case (BTimestamp w)
    then show ?thesis using skip read_u64_reads [of offset bs w b] bs offset by (simp add: to_json)
  next
    case (BRegex p q)
    then show ?thesis using regex_to_json_reads [of offset bs p q b] bs offset small wf by simp
  next
    case (BDbPointer n d)
    then show ?thesis using dbpointer_to_json_reads [of offset bs n d b] bs offset small wf by simp
  qed (use scalar texts longs slices markers in auto)
qed

text \<open>One element of a container, and one nested container, given what is inside.\<close>

lemma container_value_reads:
  assumes prems: "drop offset bs = enc_value v @ b" "offset \<le> length bs" "length bs < 2 ^ 31" "wf_bson v"
    and v: "enc_value v = bson_document d" "bson_tag v = (if is_array then 0x04 else 0x03)"
    and loop: "bson_container_loop (bson_document d) is_array 4 [] [] = Ok (json_of v)"
  shows "bson_value_to_json bs offset (bson_tag v) = Ok (json_of v, offset + length (enc_value v))"
proof -
  have "slice_range bs offset (offset + length (bson_document d)) = Some (bson_document d)"
    using slice_range_reads [OF prems(1,2)] v(1) by (simp del: slice_range_eq_Some)
  moreover have "bson_container_to_json (bson_document d) is_array = Ok (json_of v)"
    using loop check_document_reads [of d] drop_length [OF prems(1,2)] prems(3) v(1)
    by (simp add: bson_container_to_json.simps)
  ultimately show ?thesis
    using skip_value_reads [OF prems] v
    by (simp add: bson_value_to_json.simps del: slice_range_eq_Some split: if_splits)
qed

lemma container_element_reads:
  assumes bs: "drop offset bs = element_header (bson_tag v) key @ enc_value v @ rest @ [0]"
    and prems: "offset \<le> length bs" "length bs < 2 ^ 31" "c_string key" "wf_bson v"
    and v: "\<And>offset b. drop offset bs = enc_value v @ b \<Longrightarrow> offset \<le> length bs \<Longrightarrow>
      bson_value_to_json bs offset (bson_tag v) = Ok (json_of v, offset + length (enc_value v))"
    and rest: "\<And>offset object items. drop offset bs = rest @ [0] \<Longrightarrow> offset \<le> length bs \<Longrightarrow>
      bson_container_loop bs is_array offset object items = Ok (result object items)"
  shows "bson_container_loop bs is_array offset object items =
    Ok (if is_array then result object (items @ [json_of v]) else result (hm_insert key (json_of v) object) items)"
proof -
  note parts = element_reads [OF bs prems(1-3)]
  show ?thesis
    using parts(1,2) v [OF parts(3)] rest [OF parts(4)] parts(5)
    by (cases is_array) (simp_all add: bson_container_loop.simps [of bs _ offset] del: slice_index_eq_Inr)
qed

lemma bson_to_json_reads:
  shows "drop offset bs = enc_value v @ b \<Longrightarrow> offset \<le> length bs \<Longrightarrow> length bs < 2 ^ 31 \<Longrightarrow> wf_bson v \<Longrightarrow>
      bson_value_to_json bs offset (bson_tag v) = Ok (json_of v, offset + length (enc_value v))"
    and "drop offset bs = enc_members members @ [0] \<Longrightarrow> offset \<le> length bs \<Longrightarrow> length bs < 2 ^ 31 \<Longrightarrow>
      wf_members members \<Longrightarrow>
      bson_container_loop bs False offset object items = Ok (JObject (json_members members object))"
    and "drop offset bs = enc_items i vs @ [0] \<Longrightarrow> offset \<le> length bs \<Longrightarrow> length bs < 2 ^ 31 \<Longrightarrow>
      list_all wf_bson vs \<Longrightarrow>
      bson_container_loop bs True offset object items = Ok (JArray (items @ map json_of vs))"
proof (induction v and members and i vs arbitrary: bs offset b and bs offset object items and bs offset object items
    rule: enc_value_enc_members_enc_items.induct)
  case (3 members)
  then show ?case
    using drop_length [OF "3.prems"(1,2)]
    by (intro container_value_reads [where d = "[enc_members members]" and is_array = False])
      (simp_all add: drop_document "3.IH")
next
  case (4 vs)
  then show ?case
    using drop_length [OF "4.prems"(1,2)]
    by (intro container_value_reads [where d = "[enc_items 0 vs]" and is_array = True])
      (simp_all add: drop_document "4.IH")
next
  case (22 key v members)
  show ?case
    using 22 by (subst container_element_reads [where rest = "enc_members members"
        and result = "\<lambda>object _. JObject (json_members members object)"]) auto
next
  case (24 i v vs)
  show ?case
    using 24 c_string_digits by (subst container_element_reads [where rest = "enc_items (Suc i) vs"
        and result = "\<lambda>_ items. JArray (items @ map json_of vs)"]) auto
next
  case 21
  then show ?case
    using drop_length [OF "21.prems"(1,2)] by (simp add: bson_container_loop.simps [of bs False offset])
next
  case (23 i)
  then show ?case
    using drop_length [OF "23.prems"(1,2)] by (simp add: bson_container_loop.simps [of bs True offset])
qed (rule scalar_to_json_reads; (assumption | simp))+

lemma bson_document_to_json_reads:
  assumes "wf_members members" and "length (enc_document members) < 2 ^ 31"
  shows "bson_document_to_json (enc_document members) = Ok (JObject (json_members members []))"
  using bson_to_json_reads(2) [of 4 "enc_document members" members "[]" "[]"] assms
    check_document_reads [of "[enc_members members]"]
  by (simp add: bson_document_to_json_def bson_container_to_json.simps enc_document_def drop_document)

end
