(* ===== verification/Summary_Spec.thy ===== *)
theory Summary_Spec
  imports Bson_Spec
begin

text \<open>
  What a command document means to the sensor, stated on BSON values: the command name, the
  database, the outcome of a reply, the user name of an authentication, the kind of a delete. The
  summarizers of \<open>crates/mongo-protocol/src/lib.rs\<close>, which work on raw bytes and offsets, compute
  exactly this on every encoded document.
\<close>

subsection \<open>Meaning of a command document\<close>

fun boolish :: "bson \<Rightarrow> bool option" where
  "boolish (BDouble d) = Some (f64_nonzero d)"
| "boolish (BBool b) = Some b"
| "boolish (BInt32 i) = Some (i \<noteq> 0)"
| "boolish (BInt64 i) = Some (i \<noteq> 0)"
| "boolish _ = None"

fun i32ish :: "bson \<Rightarrow> i32 option" where
  "i32ish (BInt32 i) = Some i"
| "i32ish (BInt64 i) = i32_of_i64 i"
| "i32ish (BDouble d) =
     (if f64_ge_int d (- (2 ^ 31)) \<and> f64_le_int d (2 ^ 31 - 1) then Some (f64_as_i32 d) else None)"
| "i32ish _ = None"

fun u64ish :: "bson \<Rightarrow> u64 option" where
  "u64ish (BInt32 i) = (if 0 \<le> sint i then Some (scast i) else None)"
| "u64ish (BInt64 i) = (if 0 \<le> sint i then Some i else None)"
| "u64ish (BDouble d) =
     (if f64_is_finite d \<and> f64_ge_int d 0 \<and> f64_is_integer d \<and> f64_le_int d (2 ^ 64)
      then Some (f64_as_u64 d) else None)"
| "u64ish _ = None"

text \<open>The first \<open>limit\<close> of a delete statement, and the classification of a list of statements.\<close>

fun limit_of :: "(string \<times> bson) list \<Rightarrow> i32 option" where
  "limit_of [] = None"
| "limit_of ((key, v) # members) = (if key = ''limit'' then i32ish v else limit_of members)"

fun statement_limits :: "bson list \<Rightarrow> i32 option list" where
  "statement_limits [] = []"
| "statement_limits (BDocument members # vs) = limit_of members # statement_limits vs"
| "statement_limits (_ # vs) = statement_limits vs"

definition delete_summary :: "i32 option list \<Rightarrow> delete_scope option \<times> u32" where
  "delete_summary limits =
     (scope_of (Some 1 \<in> set limits) (Some 0 \<in> set limits), u32_of_usize (length limits))"

fun string_of :: "bson \<Rightarrow> string option" where
  "string_of (BString s) = Some s"
| "string_of _ = None"

fun binary_of :: "bson \<Rightarrow> bytes option" where
  "binary_of (BBinary _ d) = Some d"
| "binary_of _ = None"

definition field_spec :: "string \<Rightarrow> bson \<Rightarrow> bson_summary \<Rightarrow> bson_summary" where
  "field_spec key v summary =
     (if key = ''$db'' \<and> string_of v \<noteq> None then summary\<lparr>bs_database := string_of v\<rparr>
      else if key = ''collection'' \<and> string_of v \<noteq> None then summary\<lparr>bs_collection := string_of v\<rparr>
      else if key = ''ok'' then summary\<lparr>bs_ok := boolish v\<rparr>
      else if key = ''code'' then summary\<lparr>bs_code := i32ish v\<rparr>
      else if key = ''n'' then summary\<lparr>bs_affected_count := u64ish v\<rparr>
      else if key = ''done'' then summary\<lparr>bs_auth_done := boolish v\<rparr>
      else if key = ''codeName'' \<and> string_of v \<noteq> None then summary\<lparr>bs_code_name := string_of v\<rparr>
      else if key = ''mechanism'' \<and> string_of v \<noteq> None then summary\<lparr>bs_auth_mechanism := string_of v\<rparr>
      else if key = ''user'' \<and> string_of v \<noteq> None then summary\<lparr>bs_principal := string_of v\<rparr>
      else if key = ''payload'' \<and> binary_of v \<noteq> None then
        summary\<lparr>bs_principal :=
          option_or (Option.bind (binary_of v) parse_scram_principal) (bs_principal summary)\<rparr>
      else summary)"

definition first_spec :: "string \<Rightarrow> bson \<Rightarrow> bson_summary \<Rightarrow> bson_summary" where
  "first_spec key v summary = summary\<lparr>bs_first_key := Some key,
     bs_first_string := option_or (string_of v) (bs_first_string summary)\<rparr>"

definition query_spec :: "(string \<times> bson) list \<Rightarrow> bson_summary \<Rightarrow> bson_summary" where
  "query_spec members summary =
     (if first_key_captures_query summary
      then summary\<lparr>bs_query := Some (JObject (json_members members []))\<rparr> else summary)"

text \<open>A nested \<open>speculativeAuthenticate\<close> document is summarized by \<open>nested\<close>, where it is allowed.\<close>

definition element_spec ::
  "((string \<times> bson) list \<Rightarrow> bson_summary) option \<Rightarrow> string \<Rightarrow> bson \<Rightarrow> bson_summary \<Rightarrow> bson_summary" where
  "element_spec nested key v summary =
     (case v of
        BDocument inner \<Rightarrow>
          if key = ''speculativeAuthenticate'' \<and> nested \<noteq> None
          then merge_speculative (the nested inner) summary else field_spec key v summary
      | BArray vs \<Rightarrow>
          if key = ''deletes'' then
            summary\<lparr>bs_delete_scope := fst (delete_summary (statement_limits vs)),
              bs_delete_statements := Some (snd (delete_summary (statement_limits vs)))\<rparr>
          else field_spec key v summary
      | _ \<Rightarrow> field_spec key v summary)"

fun members_spec ::
  "((string \<times> bson) list \<Rightarrow> bson_summary) option \<Rightarrow> nat \<Rightarrow> (string \<times> bson) list \<Rightarrow> bson_summary \<Rightarrow> bson_summary"
where
  "members_spec nested ordinal [] summary = summary"
| "members_spec nested ordinal ((key, v) # members) summary =
     members_spec nested (Suc ordinal) members
       (element_spec nested key v (if ordinal = 0 then first_spec key v summary else summary))"

definition nested_spec :: "(string \<times> bson) list \<Rightarrow> bson_summary" where
  "nested_spec members = query_spec members (members_spec None 0 members default_summary)"

definition summary_spec :: "(string \<times> bson) list \<Rightarrow> bson_summary" where
  "summary_spec members = query_spec members (members_spec (Some nested_spec) 0 members default_summary)"

subsection \<open>Scalars\<close>

lemma bson_tag_simps:
  "bson_tag v = 0x02 \<longleftrightarrow> (\<exists>s. v = BString s)"
  "bson_tag v = 0x03 \<longleftrightarrow> (\<exists>m. v = BDocument m)"
  "bson_tag v = 0x04 \<longleftrightarrow> (\<exists>vs. v = BArray vs)"
  "bson_tag v = 0x05 \<longleftrightarrow> (\<exists>t d. v = BBinary t d)"
  by (cases v; simp)+

lemma read_f64_bits_reads:
  "drop offset bs = to_le_bytes (w :: 64 word) @ b \<Longrightarrow> offset \<le> length bs \<Longrightarrow> read_f64_bits bs offset = Some w"
  using slice_range_reads [of offset bs "to_le_bytes w" b]
  by (simp add: read_f64_bits_def to_le_bytes_64 del: slice_range_eq_Some)

lemma read_scalar_reads:
  assumes "drop offset bs = enc_value v @ b" "offset \<le> length bs"
  shows "read_boolish bs offset (bson_tag v) = boolish v"
    and "read_i32ish bs offset (bson_tag v) = i32ish v"
    and "read_u64ish bs offset (bson_tag v) = u64ish v"
  using assms
  by (cases v; auto simp: read_boolish_def read_i32ish_def read_u64ish_def result_ok_def
      read_f64_bits_reads read_i32_reads slice_get_reads)+

subsection \<open>Delete statements\<close>

lemma delete_statement_limit_loop_reads:
  "drop offset bs = enc_members members @ [0] \<Longrightarrow> offset \<le> length bs \<Longrightarrow> length bs < 2 ^ 31 \<Longrightarrow>
   wf_members members \<Longrightarrow> delete_statement_limit_loop bs offset = Ok (limit_of members)"
proof (induction members arbitrary: offset rule: limit_of.induct)
  case 1
  then show ?case
    using drop_length [OF "1.prems"(1,2)] by (simp add: delete_statement_limit_loop.simps)
next
  case (2 key v members)
  have bs: "drop offset bs = element_header (bson_tag v) key @ enc_value v @ enc_members members @ [0]"
    using "2.prems"(1) by simp
  have wf: "c_string key" "wf_bson v" "wf_members members" using "2.prems"(4) by simp_all
  note parts = element_reads [OF bs "2.prems"(2,3) wf(1)]
  have start: "offset + length key + 2 \<le> length bs" using parts(5) by simp
  note skip = skip_value_reads [OF parts(3) start "2.prems"(3) wf(2)]
  have rest: "delete_statement_limit_loop bs (offset + length key + 2 + length (enc_value v)) = Ok (limit_of members)"
    if "key \<noteq> ''limit''"
    using "2.IH" [OF that parts(4)] parts(5) "2.prems"(3) wf(3) by simp
  show ?case
    using parts(1,2,5) skip rest read_scalar_reads(2) [OF parts(3) start]
    by (cases "key = ''limit''") (simp_all add: delete_statement_limit_loop.simps [of bs offset] del: slice_index_eq_Inr)
qed

lemma delete_statement_limit_reads:
  "length (enc_value (BDocument members)) < 2 ^ 31 \<Longrightarrow> wf_members members \<Longrightarrow>
   delete_statement_limit (enc_value (BDocument members)) = Ok (limit_of members)"
  using delete_statement_limit_loop_reads [of 4 "enc_value (BDocument members)" members]
    check_document_reads [of "[enc_members members]"]
  by (simp add: delete_statement_limit_def drop_document)

lemma statement_limits_other:
  "(\<forall>m. v \<noteq> BDocument m) \<Longrightarrow> statement_limits (v # vs) = statement_limits vs"
  by (cases v) auto

lemma summarize_delete_statements_loop_reads:
  "drop offset bs = enc_items i vs @ [0] \<Longrightarrow> offset \<le> length bs \<Longrightarrow> length bs < 2 ^ 31 \<Longrightarrow>
   list_all wf_bson vs \<Longrightarrow>
   summarize_delete_statements_loop bs offset statements has_single has_multi =
     Ok (scope_of (has_single \<or> Some 1 \<in> set (statement_limits vs)) (has_multi \<or> Some 0 \<in> set (statement_limits vs)),
         ((\<lambda>n. saturating_add n 1) ^^ length (statement_limits vs)) statements)"
proof (induction vs arbitrary: i offset statements has_single has_multi)
  case Nil
  then show ?case
    using drop_length [OF Nil(1,2)] by (simp add: summarize_delete_statements_loop.simps)
next
  case (Cons v vs)
  let ?key = "nat_string i"
  let ?start = "offset + length ?key + 2"
  have bs: "drop offset bs = element_header (bson_tag v) ?key @ enc_value v @ enc_items (Suc i) vs @ [0]"
    using Cons.prems(1) by simp
  have wf: "wf_bson v" "list_all wf_bson vs" using Cons.prems(4) by simp_all
  note parts = element_reads [OF bs Cons.prems(2,3) c_string_digits]
  have start: "?start \<le> length bs" using parts(5) by simp
  note skip = skip_value_reads [OF parts(3) start Cons.prems(3) wf(1)]
  note rest = Cons.IH [OF parts(4) _ Cons.prems(3) wf(2)]
  show ?case
  proof (cases "\<exists>m. v = BDocument m")
    case True
    then obtain m where v: "v = BDocument m" ..
    have "slice_range bs ?start (?start + length (enc_value v)) = Some (enc_value v)"
      using slice_range_reads [OF parts(3) start] .
    moreover have "delete_statement_limit (enc_value v) = Ok (limit_of m)"
      using delete_statement_limit_reads [of m] wf(1) v parts(5) Cons.prems(3) by simp
    ultimately show ?thesis
      using parts(1,2,5) skip rest v
      by (simp add: summarize_delete_statements_loop.simps [of bs offset] 
          funpow_swap1 [where f = "\<lambda>n. saturating_add n 1"] disj_assoc
          eq_commute [of "Some _" "limit_of m"] del: slice_index_eq_Inr slice_range_eq_Some)
  next
    case False
    then show ?thesis
      using parts(1,2,5) skip rest bson_tag_simps(2) [of v]
      by (simp add: summarize_delete_statements_loop.simps [of bs offset] statement_limits_other
          del: slice_index_eq_Inr)
  qed
qed

lemma unat_u32_of_usize: "unat (u32_of_usize n) = min n (2 ^ 32 - 1)"
  by (auto simp: u32_of_usize_def unat_of_nat unsigned_minus_1_eq_mask mask_eq_exp_minus_1)

lemma saturating_count: "((\<lambda>n. saturating_add n 1) ^^ k) (0 :: u32) = u32_of_usize k"
proof (induction k)
  case 0
  then show ?case by (simp add: u32_of_usize_def)
next
  case (Suc k)
  have "saturating_add (u32_of_usize k) 1 = u32_of_usize (Suc k)"
    by (simp add: word_unat_eq_iff unat_saturating_add unat_u32_of_usize)
  with Suc show ?case by simp
qed

lemma summarize_delete_statements_reads:
  "length (enc_value (BArray vs)) < 2 ^ 31 \<Longrightarrow> list_all wf_bson vs \<Longrightarrow>
   summarize_delete_statements (enc_value (BArray vs)) = Ok (delete_summary (statement_limits vs))"
  using summarize_delete_statements_loop_reads [of 4 "enc_value (BArray vs)" 0 vs]
    check_document_reads [of "[enc_items 0 vs]"]
  by (simp add: summarize_delete_statements_def drop_document delete_summary_def saturating_count)

subsection \<open>The summarizer computes the meaning\<close>

lemma string_of_tag: "bson_tag v = 0x02 \<longleftrightarrow> string_of v \<noteq> None"
  by (cases v) simp_all

lemma binary_of_tag: "bson_tag v = 0x05 \<longleftrightarrow> binary_of v \<noteq> None"
  by (cases v) simp_all

lemma string_of_reads:
  assumes "drop start bs = enc_value v @ b" "start \<le> length bs" "length bs < 2 ^ 31" "wf_bson v"
    and "string_of v = Some s"
  shows "read_bson_string bs start = Ok s"
  using assms by (cases v) (auto intro: read_bson_string_reads)

lemma binary_of_reads:
  assumes "drop start bs = enc_value v @ b" "start \<le> length bs" "length bs < 2 ^ 31"
    and "binary_of v = Some d"
  shows "read_bson_binary bs start = Ok d"
  using assms by (cases v) (auto intro: read_bson_binary_reads(1))

lemma summarize_field_reads:
  assumes at: "drop start bs = enc_value v @ b" "start \<le> length bs" "length bs < 2 ^ 31" "wf_bson v"
  shows "summarize_field bs key (bson_tag v) start summary = Ok (field_spec key v summary)"
proof -
  note str = string_of_reads [OF at]
  note bin = binary_of_reads [OF at(1-3)]
  show ?thesis
    unfolding summarize_field_def field_spec_def string_of_tag binary_of_tag if_distrib [of Inr]
      read_scalar_reads [OF at(1,2)]
    using str bin by (cases "string_of v"; cases "binary_of v") simp_all
qed

lemma summarize_first_reads:
  assumes at: "drop start bs = enc_value v @ b" "start \<le> length bs" "length bs < 2 ^ 31" "wf_bson v"
  shows "summarize_first bs key (bson_tag v) start ordinal summary =
    Ok (if ordinal = 0 then first_spec key v summary else summary)"
  using string_of_reads [OF at]
  by (cases "string_of v") (simp_all add: summarize_first_def first_spec_def string_of_tag)

text \<open>The summarizer of nested documents agrees with its specification.\<close>

definition nested_agrees ::
  "(bytes \<Rightarrow> bson_summary decode) option \<Rightarrow> ((string \<times> bson) list \<Rightarrow> bson_summary) option \<Rightarrow> bool" where
  "nested_agrees f g \<longleftrightarrow>
     (case (f, g) of
        (None, None) \<Rightarrow> True
      | (Some f, Some g) \<Rightarrow> \<forall>members. wf_members members \<longrightarrow> length (enc_document members) < 2 ^ 31 \<longrightarrow>
          f (enc_document members) = Ok (g members)
      | _ \<Rightarrow> False)"

lemma summarize_element_reads:
  assumes at: "drop start bs = enc_value v @ b" "start \<le> length bs" "length bs < 2 ^ 31" "wf_bson v"
    and nested: "nested_agrees f g"
  shows "summarize_element f bs key (bson_tag v) start (start + length (enc_value v)) summary =
    Ok (element_spec g key v summary)"
proof -
  have slice: "slice_range bs start (start + length (enc_value v)) = Some (enc_value v)"
    using slice_range_reads [OF at(1,2)] .
  have len: "length (enc_value v) < 2 ^ 31"
    using drop_length [OF at(1,2)] at(3) by simp
  show ?thesis
  proof (cases "key = ''speculativeAuthenticate'' \<and> f \<noteq> None \<and> bson_tag v = 0x03")
    case True
    then obtain m f' where v: "v = BDocument m" and f: "f = Some f'"
      by (auto simp: bson_tag_simps)
    with nested obtain g' where g: "g = Some g'" by (cases g) (auto simp: nested_agrees_def)
    have "f' (enc_value v) = Ok (g' m)"
      using nested f g v len at(4) by (simp add: nested_agrees_def enc_document_def)
    with True v f g slice show ?thesis
      by (simp add: summarize_element_def element_spec_def del: slice_range_eq_Some enc_value.simps)
  next
    case plain: False
    show ?thesis
    proof (cases "key = ''deletes'' \<and> bson_tag v = 0x04")
      case True
      then obtain vs where v: "v = BArray vs" by (auto simp: bson_tag_simps)
      have "summarize_delete_statements (enc_value v) = Ok (delete_summary (statement_limits vs))"
        using summarize_delete_statements_reads [of vs] len at(4) v by simp
      with True v slice show ?thesis
        by (simp add: summarize_element_def element_spec_def case_prod_beta
            del: slice_range_eq_Some enc_value.simps)
    next
      case False
      have "f = None \<longleftrightarrow> g = None" using nested by (cases f; cases g) (auto simp: nested_agrees_def)
      with plain False have "element_spec g key v summary = field_spec key v summary"
        by (auto simp: element_spec_def split: bson.splits)
      with plain False summarize_field_reads [OF at] show ?thesis
        by (auto simp: summarize_element_def)
    qed
  qed
qed

lemma summarize_loop_reads:
  "drop offset bs = enc_members members @ [0] \<Longrightarrow> offset \<le> length bs \<Longrightarrow> length bs < 2 ^ 31 \<Longrightarrow>
   wf_members members \<Longrightarrow> nested_agrees f g \<Longrightarrow>
   summarize_loop f bs offset ordinal summary = Ok (members_spec g ordinal members summary)"
proof (induction g ordinal members summary arbitrary: offset rule: members_spec.induct)
  case (1 g ordinal summary)
  then show ?case
    using drop_length [OF "1.prems"(1,2)] by (simp add: summarize_loop.simps)
next
  case (2 g ordinal key v members summary)
  have bs: "drop offset bs = element_header (bson_tag v) key @ enc_value v @ enc_members members @ [0]"
    using "2.prems"(1) by simp
  have wf: "c_string key" "wf_bson v" "wf_members members" using "2.prems"(4) by simp_all
  note parts = element_reads [OF bs "2.prems"(2,3) wf(1)]
  have start: "offset + length key + 2 \<le> length bs" using parts(5) by simp
  note at = parts(3) start "2.prems"(3) wf(2)
  have rest: "summarize_loop f bs (offset + length key + 2 + length (enc_value v)) (Suc ordinal)
      (element_spec g key v (if ordinal = 0 then first_spec key v summary else summary)) =
      Ok (members_spec g ordinal ((key, v) # members) summary)"
    using "2.IH" [OF parts(4)] parts(5) "2.prems"(3,5) wf(3) by simp
  have bound: "offset < length bs - 1" "\<not> offset + length key + 2 + length (enc_value v) > length bs - 1"
    using parts(5) by simp_all
  show ?case
    unfolding summarize_loop.simps [of f bs offset]
    using bound parts(1,2) skip_value_reads [OF at] summarize_first_reads [OF at] rest
      summarize_element_reads [OF at "2.prems"(5)]
    by (simp del: members_spec.simps slice_index_eq_Inr add_2_eq_Suc')
qed

lemma summarize_document_reads:
  assumes "wf_members members" "length (enc_document members) < 2 ^ 31" "nested_agrees f g"
  shows "summarize_document f (enc_document members) =
    Ok (query_spec members (members_spec g 0 members default_summary))"
proof -
  have "summarize_loop f (enc_document members) 4 0 default_summary =
      Ok (members_spec g 0 members default_summary)"
    using assms by (intro summarize_loop_reads) (simp_all add: enc_document_def drop_document)
  moreover have "bson_document_to_json (enc_document members) = Ok (JObject (json_members members []))"
    using bson_document_to_json_reads [OF assms(1,2)] .
  moreover have "check_document (enc_document members) = Ok ()"
    using assms(2) check_document_reads [of "[enc_members members]"] by (simp add: enc_document_def)
  ultimately show ?thesis
    by (simp add: summarize_document_def query_spec_def)
qed

lemma summarize_bson_reads:
  assumes "wf_members members" "length (enc_document members) < 2 ^ 31"
  shows "summarize_bson (enc_document members) = Ok (summary_spec members)"
proof -
  have "nested_agrees (Some (summarize_document None)) (Some nested_spec)"
    by (simp add: nested_agrees_def nested_spec_def summarize_document_reads)
  with assms show ?thesis
    by (simp add: summarize_bson_def summarize_bson_inner_def summary_spec_def summarize_document_reads)
qed

end
