(* ===== verification/Command_Spec.thy ===== *)
theory Command_Spec
  imports Summary_Spec
begin

text \<open>
  The command and the reply status a BSON document stands for, stated by looking fields up: a field
  has the value of its last occurrence, and what an authentication exchange says is taken from the document
  or from the \<open>speculativeAuthenticate\<close> document inside it, whichever comes last. The summaries of
  \<open>crates/mongo-protocol/src/lib.rs\<close>, which are built up element by element, agree with it.
\<close>

subsection \<open>Looking fields up\<close>

fun latest :: "('a \<Rightarrow> 'b option) \<Rightarrow> 'a list \<Rightarrow> 'b option" where
  "latest pick [] = None"
| "latest pick (m # members) = option_or (latest pick members) (pick m)"

definition value_at :: "string \<Rightarrow> (string \<times> bson) list \<Rightarrow> bson option" where
  "value_at key members = map_of (rev members) key"

definition text_at :: "string \<Rightarrow> (string \<times> bson) list \<Rightarrow> string option" where
  "text_at key members = latest (\<lambda>(k, v). if k = key then string_of v else None) members"

fun speculative_document :: "string \<times> bson \<Rightarrow> (string \<times> bson) list option" where
  "speculative_document (k, BDocument inner) = (if k = ''speculativeAuthenticate'' then Some inner else None)"
| "speculative_document (k, _) = None"

definition starts_sasl :: "(string \<times> bson) list \<Rightarrow> bool" where
  "starts_sasl inner = (case inner of [] \<Rightarrow> False | (name, _) # _ \<Rightarrow> eq_ignore_ascii_case name ''saslStart'')"

fun deletes_array :: "string \<times> bson \<Rightarrow> bson list option" where
  "deletes_array (k, BArray vs) = (if k = ''deletes'' then Some vs else None)"
| "deletes_array (k, _) = None"

text \<open>What \<open>pick\<close> finds last, in the document or in a \<open>speculativeAuthenticate\<close> document.\<close>

definition latest_auth :: "(string \<times> bson \<Rightarrow> 'b option) \<Rightarrow> (string \<times> bson) list \<Rightarrow> 'b option" where
  "latest_auth pick members =
     latest (\<lambda>m. case speculative_document m of Some inner \<Rightarrow> latest pick inner | None \<Rightarrow> pick m) members"

definition mechanism_field :: "string \<times> bson \<Rightarrow> string option" where
  "mechanism_field m = (if fst m = ''mechanism'' then string_of (snd m) else None)"

definition principal_field :: "string \<times> bson \<Rightarrow> string option" where
  "principal_field m =
     (if fst m = ''user'' then string_of (snd m)
      else if fst m = ''payload'' then Option.bind (binary_of (snd m)) parse_scram_principal else None)"

text \<open>A \<open>done\<close> that is no truth value erases what was known, unless it is nested.\<close>

definition done_field :: "string \<times> bson \<Rightarrow> bool option option" where
  "done_field m =
     (case speculative_document m of
        Some inner \<Rightarrow> map_option Some (Option.bind (value_at ''done'' inner) boolish)
      | None \<Rightarrow> if fst m = ''done'' then Some (boolish (snd m)) else None)"

subsection \<open>Commands and replies\<close>

definition command_meaning :: "(string \<times> bson) list \<Rightarrow> mongo_command option" where
  "command_meaning members =
     (case members of
        [] \<Rightarrow> None
      | (name, argument) # _ \<Rightarrow>
          let command = to_ascii_lowercase name;
              deletes = map_option (delete_summary \<circ> statement_limits) (latest deletes_array members) in
          Some \<lparr>cmd_name = name,
            cmd_database = text_at ''$db'' members,
            cmd_collection =
              (if command_has_collection_argument command
               then option_or (string_of argument) (text_at ''collection'' members) else None),
            cmd_auth_mechanism = latest_auth mechanism_field members,
            cmd_principal = option_or (latest_auth principal_field members)
              (if command_has_principal_argument command then string_of argument else None),
            cmd_speculative_auth =
              (case latest speculative_document members of
                 Some inner \<Rightarrow> starts_sasl inner | None \<Rightarrow> False),
            cmd_delete_scope = (if command = ''delete'' then Option.bind deletes fst else None),
            cmd_delete_statements = (if command = ''delete'' then map_option snd deletes else None),
            cmd_query =
              (if command_captures_query command then Some (JObject (json_members members [])) else None)\<rparr>)"

definition status_meaning :: "(string \<times> bson) list \<Rightarrow> response_status" where
  "status_meaning members =
     \<lparr>rs_ok = Option.bind (value_at ''ok'' members) boolish,
      rs_code = Option.bind (value_at ''code'' members) i32ish,
      rs_code_name = text_at ''codeName'' members,
      rs_affected_count = Option.bind (value_at ''n'' members) u64ish,
      rs_auth_done = Option.bind (latest done_field members) (\<lambda>finished. finished)\<rparr>"

subsection \<open>The summary holds what is looked up\<close>

lemma latest_written:
  assumes "\<And>k v s. f (element_spec nested k v s) = (case w (k, v) of None \<Rightarrow> f s | Some x \<Rightarrow> x)"
    and "\<And>k v s. f (first_spec k v s) = f s"
  shows "f (members_spec nested ordinal members s) = (case latest w members of None \<Rightarrow> f s | Some x \<Rightarrow> x)"
  by (induction members arbitrary: ordinal s) (auto simp: assms split: option.split)

lemma latest_map: "latest (\<lambda>m. map_option g (w m)) members = map_option g (latest w members)"
  by (induction members) (auto simp: option_or_def split: option.split)

lemma latest_filled:
  assumes "\<And>k v s. f (element_spec nested k v s) = option_or (w (k, v)) (f s)"
    and "\<And>k v s. f (first_spec k v s) = f s"
  shows "f (members_spec nested ordinal members s) = option_or (latest w members) (f s)"
proof -
  have "f (members_spec nested ordinal members s) =
      (case latest (\<lambda>m. map_option Some (w m)) members of None \<Rightarrow> f s | Some x \<Rightarrow> x)"
    by (rule latest_written) (auto simp: assms split: option.split)
  then show ?thesis unfolding latest_map by (auto split: option.split)
qed

lemma value_at_latest: "value_at key members = latest (\<lambda>(k, v). if k = key then Some v else None) members"
  by (induction members) (auto simp: value_at_def map_add_def option_or_def split: option.split)

lemma latest_overwritten:
  assumes "\<And>k v s. f (element_spec nested k v s) = (if k = key then g v else f s)"
    and "\<And>k v s. f (first_spec k v s) = f s"
  shows "f (members_spec nested ordinal members s) = (case value_at key members of None \<Rightarrow> f s | Some v \<Rightarrow> g v)"
proof -
  have "f (members_spec nested ordinal members s) =
      (case latest (\<lambda>m. map_option g (case m of (k, v) \<Rightarrow> if k = key then Some v else None)) members of
         None \<Rightarrow> f s | Some x \<Rightarrow> x)"
    by (rule latest_written) (simp_all add: assms)
  then show ?thesis unfolding latest_map value_at_latest by (auto split: option.split)
qed

lemma first_spec_simps [simp]:
  "bs_database (first_spec k v s) = bs_database s" "bs_collection (first_spec k v s) = bs_collection s"
  "bs_ok (first_spec k v s) = bs_ok s" "bs_code (first_spec k v s) = bs_code s"
  "bs_code_name (first_spec k v s) = bs_code_name s" "bs_auth_mechanism (first_spec k v s) = bs_auth_mechanism s"
  "bs_principal (first_spec k v s) = bs_principal s" "bs_speculative_auth (first_spec k v s) = bs_speculative_auth s"
  "bs_delete_scope (first_spec k v s) = bs_delete_scope s"
  "bs_delete_statements (first_spec k v s) = bs_delete_statements s"
  "bs_affected_count (first_spec k v s) = bs_affected_count s" "bs_auth_done (first_spec k v s) = bs_auth_done s"
  by (simp_all add: first_spec_def)

lemmas element_specs = element_spec_def field_spec_def merge_speculative_def

text \<open>Fields that no nested document contributes to.\<close>

lemma plain_fields:
  fixes nested ordinal members s
  defines "s' \<equiv> members_spec nested ordinal members s"
  shows "bs_database s' = option_or (text_at ''$db'' members) (bs_database s)"
    and "bs_collection s' = option_or (text_at ''collection'' members) (bs_collection s)"
    and "bs_code_name s' = option_or (text_at ''codeName'' members) (bs_code_name s)"
    and "bs_ok s' = (case value_at ''ok'' members of None \<Rightarrow> bs_ok s | Some v \<Rightarrow> boolish v)"
    and "bs_code s' = (case value_at ''code'' members of None \<Rightarrow> bs_code s | Some v \<Rightarrow> i32ish v)"
    and "bs_affected_count s' = (case value_at ''n'' members of None \<Rightarrow> bs_affected_count s | Some v \<Rightarrow> u64ish v)"
  unfolding s'_def text_at_def
  by (rule latest_filled latest_overwritten;
      auto simp: element_specs option_or_def split: bson.split option.split)+

text \<open>Inside a \<open>speculativeAuthenticate\<close> document a further one is not looked into.\<close>

lemma nested_fields:
  fixes ordinal members s
  defines "s' \<equiv> members_spec None ordinal members s"
  shows "bs_auth_mechanism s' = option_or (latest mechanism_field members) (bs_auth_mechanism s)"
    and "bs_principal s' = option_or (latest principal_field members) (bs_principal s)"
    and "bs_auth_done s' = (case value_at ''done'' members of None \<Rightarrow> bs_auth_done s | Some v \<Rightarrow> boolish v)"
  unfolding s'_def
  by (rule latest_filled latest_overwritten;
      auto simp: element_specs mechanism_field_def principal_field_def option_or_def split: bson.split option.split)+

lemma element_spec_simps [simp]:
  "bs_first_key (element_spec nested k v s) = bs_first_key s"
  "bs_first_string (element_spec nested k v s) = bs_first_string s"
  "bs_query (element_spec nested k v s) = bs_query s"
  by (simp_all add: element_specs split: bson.split)

lemma kept_past_first:
  assumes "\<And>k v s. f (element_spec nested k v s) = f s"
  shows "f (members_spec nested (Suc ordinal) members s) = f s"
  by (induction members arbitrary: ordinal s) (auto simp: assms)

lemma first_fields:
  "bs_first_key (members_spec nested 0 members default_summary) =
     (case members of [] \<Rightarrow> None | (key, _) # _ \<Rightarrow> Some key)"
  "bs_first_string (members_spec nested 0 members default_summary) =
     (case members of [] \<Rightarrow> None | (_, v) # _ \<Rightarrow> string_of v)"
  "bs_query (members_spec nested 0 members default_summary) = None"
  by (cases members; force simp: kept_past_first first_spec_def default_summary_def option_or_def
      split: option.split)+

lemma query_spec_simps [simp]:
  "bs_first_key (query_spec members s) = bs_first_key s" "bs_first_string (query_spec members s) = bs_first_string s"
  "bs_database (query_spec members s) = bs_database s" "bs_collection (query_spec members s) = bs_collection s"
  "bs_ok (query_spec members s) = bs_ok s" "bs_code (query_spec members s) = bs_code s"
  "bs_code_name (query_spec members s) = bs_code_name s"
  "bs_auth_mechanism (query_spec members s) = bs_auth_mechanism s"
  "bs_principal (query_spec members s) = bs_principal s"
  "bs_speculative_auth (query_spec members s) = bs_speculative_auth s"
  "bs_delete_scope (query_spec members s) = bs_delete_scope s"
  "bs_delete_statements (query_spec members s) = bs_delete_statements s"
  "bs_affected_count (query_spec members s) = bs_affected_count s"
  "bs_auth_done (query_spec members s) = bs_auth_done s"
  by (simp_all add: query_spec_def)

lemma nested_spec_fields:
  "bs_auth_mechanism (nested_spec members) = latest mechanism_field members"
  "bs_principal (nested_spec members) = latest principal_field members"
  "bs_auth_done (nested_spec members) = Option.bind (value_at ''done'' members) boolish"
  "bs_first_key (nested_spec members) = (case members of [] \<Rightarrow> None | (key, _) # _ \<Rightarrow> Some key)"
  by (simp_all add: nested_spec_def nested_fields first_fields)
    (simp_all add: default_summary_def option_or_def split: option.split)

text \<open>How one element of a command document changes what is known about authentication.\<close>

lemma element_spec_auth:
  fixes k v s
  defines "s' \<equiv> element_spec (Some nested_spec) k v s"
  shows "bs_auth_mechanism s' = option_or (case speculative_document (k, v) of
      Some inner \<Rightarrow> latest mechanism_field inner | None \<Rightarrow> mechanism_field (k, v)) (bs_auth_mechanism s)"
    and "bs_principal s' = option_or (case speculative_document (k, v) of
      Some inner \<Rightarrow> latest principal_field inner | None \<Rightarrow> principal_field (k, v)) (bs_principal s)"
    and "bs_auth_done s' = (case done_field (k, v) of None \<Rightarrow> bs_auth_done s | Some x \<Rightarrow> x)"
    and "bs_speculative_auth s' = (case map_option starts_sasl (speculative_document (k, v)) of
      None \<Rightarrow> bs_speculative_auth s | Some x \<Rightarrow> x)"
  unfolding s'_def
  by (cases v; auto simp: element_specs nested_spec_fields mechanism_field_def principal_field_def
      done_field_def starts_sasl_def option_or_def split: option.split list.split)+

lemma auth_fields:
  fixes ordinal members s
  defines "s' \<equiv> members_spec (Some nested_spec) ordinal members s"
  shows "bs_auth_mechanism s' = option_or (latest_auth mechanism_field members) (bs_auth_mechanism s)"
    and "bs_principal s' = option_or (latest_auth principal_field members) (bs_principal s)"
    and "bs_auth_done s' = (case latest done_field members of None \<Rightarrow> bs_auth_done s | Some x \<Rightarrow> x)"
    and "bs_speculative_auth s' = (case map_option starts_sasl (latest speculative_document members) of
      None \<Rightarrow> bs_speculative_auth s | Some x \<Rightarrow> x)"
  unfolding s'_def latest_auth_def latest_map [symmetric]
  by (rule latest_filled latest_written; simp only: element_spec_auth first_spec_simps)+

lemma delete_fields:
  fixes nested ordinal members s
  defines "s' \<equiv> members_spec nested ordinal members s"
    and "deletes \<equiv> map_option (delete_summary \<circ> statement_limits) (latest deletes_array members)"
  shows "bs_delete_scope s' = (case map_option fst deletes of None \<Rightarrow> bs_delete_scope s | Some x \<Rightarrow> x)"
    and "bs_delete_statements s' = option_or (map_option snd deletes) (bs_delete_statements s)"
proof -
  have element: "bs_delete_scope (element_spec nested k v t) =
      (case map_option fst (map_option (delete_summary \<circ> statement_limits) (deletes_array (k, v))) of
         None \<Rightarrow> bs_delete_scope t | Some x \<Rightarrow> x)"
    "bs_delete_statements (element_spec nested k v t) =
      option_or (map_option snd (map_option (delete_summary \<circ> statement_limits) (deletes_array (k, v))))
        (bs_delete_statements t)" for k v t
    by (cases v; simp add: element_specs)+
  show "bs_delete_scope s' = (case map_option fst deletes of None \<Rightarrow> bs_delete_scope s | Some x \<Rightarrow> x)"
    unfolding s'_def deletes_def latest_map [symmetric] by (rule latest_written) (simp_all only: element first_spec_simps)
  show "bs_delete_statements s' = option_or (map_option snd deletes) (bs_delete_statements s)"
    unfolding s'_def deletes_def latest_map [symmetric] by (rule latest_filled) (simp_all only: element first_spec_simps)
qed

subsection \<open>The sensor's view is the meaning\<close>

lemma summary_spec_query:
  "bs_query (summary_spec members) =
     (case members of [] \<Rightarrow> None
      | (name, _) # _ \<Rightarrow> if command_captures_query (to_ascii_lowercase name)
          then Some (JObject (json_members members [])) else None)"
  by (auto simp: summary_spec_def query_spec_def first_key_captures_query_def first_fields split: list.split)

lemma command_from_summary_spec: "command_from_summary (summary_spec members) = command_meaning members"
proof (cases members)
  case Nil
  then show ?thesis
    by (simp add: command_from_summary_def command_meaning_def summary_spec_def default_summary_def)
next
  case (Cons m rest)
  obtain name argument where m: "m = (name, argument)" by (cases m)
  let ?s = "summary_spec members"
  have fields: "bs_first_key ?s = Some name" "bs_first_string ?s = string_of argument"
    using Cons m by (simp_all add: summary_spec_def first_fields del: members_spec.simps)
  have "bs_database ?s = text_at ''$db'' members" "bs_collection ?s = text_at ''collection'' members"
    "bs_auth_mechanism ?s = latest_auth mechanism_field members"
    "bs_principal ?s = latest_auth principal_field members"
    "bs_speculative_auth ?s = (case latest speculative_document members of Some inner \<Rightarrow> starts_sasl inner | None \<Rightarrow> False)"
    by (simp_all add: summary_spec_def plain_fields auth_fields)
      (auto simp: default_summary_def option_or_def split: option.split)
  moreover have "bs_delete_scope ?s =
      Option.bind (map_option (delete_summary \<circ> statement_limits) (latest deletes_array members)) fst"
    "bs_delete_statements ?s =
      map_option snd (map_option (delete_summary \<circ> statement_limits) (latest deletes_array members))"
    by (simp_all add: summary_spec_def delete_fields)
      (auto simp: default_summary_def option_or_def split: option.split)
  ultimately show ?thesis
    using fields summary_spec_query [of members] Cons m
    by (simp add: command_from_summary_def command_meaning_def Let_def starts_sasl_def
        del: latest.simps split: option.split list.split)
qed

lemma status_of_summary_spec: "status_of_summary (summary_spec members) = status_meaning members"
  by (simp add: status_of_summary_def status_meaning_def summary_spec_def plain_fields auth_fields)
    (auto simp: default_summary_def option_or_def split: option.split)

end
