(* ===== verification/Message_Spec.thy ===== *)
theory Message_Spec
  imports Command_Spec
begin

text \<open>
  Wire messages and what they mean, \<open>crates/mongo-protocol/src/lib.rs\<close>: \<open>OP_MSG\<close> with document
  sequences and checksum, the legacy \<open>OP_QUERY\<close> and \<open>OP_REPLY\<close>, and \<open>OP_COMPRESSED\<close> around any of
  them. Every encoded message decodes to its meaning.
\<close>

subsection \<open>Messages, encoding and meaning\<close>

datatype wire_message =
    Msg (msg_flags: u32) "(string \<times> bson) list" "(string \<times> (string \<times> bson) list list) list" bytes
  | Query u32 string string i32 i32 "(string \<times> bson) list" "(string \<times> bson) list option"
  | Reply u32 i64 i32 "(string \<times> bson) list list"

text \<open>
  \<open>Msg\<close> has flags, body, document sequences and checksum; \<open>Query\<close> has flags, database, collection,
  the number to skip and to return, the query and a selector; \<open>Reply\<close> has flags, cursor, position and documents.
\<close>

definition enc_documents :: "(string \<times> bson) list list \<Rightarrow> bytes" where
  "enc_documents documents = concat (map enc_document documents)"

definition enc_sequence :: "string \<times> (string \<times> bson) list list \<Rightarrow> bytes" where
  "enc_sequence sec =
     1 # to_le_bytes (i32_of_usize (5 + length (fst sec) + length (enc_documents (snd sec)))) @
     as_bytes (fst sec) @ 0 # enc_documents (snd sec)"

fun message_opcode :: "wire_message \<Rightarrow> i32" where
  "message_opcode (Msg _ _ _ _) = OP_MSG"
| "message_opcode (Query _ _ _ _ _ _ _) = OP_QUERY"
| "message_opcode (Reply _ _ _ _) = OP_REPLY"

fun enc_payload :: "wire_message \<Rightarrow> bytes" where
  "enc_payload (Msg flags body sequences checksum) =
     to_le_bytes flags @ 0 # enc_document body @ concat (map enc_sequence sequences) @ checksum"
| "enc_payload (Query flags database collection skip count query selector) =
     to_le_bytes flags @ as_bytes (database @ ''.'' @ collection) @ 0 # to_le_bytes skip @ to_le_bytes count @
     enc_document query @ (case selector of None \<Rightarrow> [] | Some members \<Rightarrow> enc_document members)"
| "enc_payload (Reply flags cursor start documents) =
     to_le_bytes flags @ to_le_bytes cursor @ to_le_bytes start @
     to_le_bytes (i32_of_usize (length documents)) @ enc_documents documents"

fun wf_message :: "wire_message \<Rightarrow> bool" where
  "wf_message (Msg flags body sequences checksum) \<longleftrightarrow>
     wf_members body \<and> list_all (\<lambda>(identifier, documents). c_string identifier \<and> list_all wf_members documents) sequences \<and>
     length checksum = (if flags AND 1 \<noteq> 0 then 4 else 0)"
| "wf_message (Query flags database collection skip count query selector) \<longleftrightarrow>
     c_string (database @ ''.'' @ collection) \<and> CHR ''.'' \<notin> set database \<and> wf_members query"
| "wf_message (Reply flags cursor start documents) \<longleftrightarrow> list_all wf_members documents"

definition json_documents :: "(string \<times> bson) list list \<Rightarrow> json_value" where
  "json_documents documents = JArray (map (\<lambda>members. JObject (json_members members [])) documents)"

text \<open>
  A document sequence stands for an array member of the body: it joins the query, and statements of a
  \<open>delete\<close> sent this way are classified like those in the body.
\<close>

definition with_sequences ::
  "(string \<times> (string \<times> bson) list list) list \<Rightarrow> mongo_command \<Rightarrow> mongo_command" where
  "with_sequences sequences command =
     (let statements = latest (\<lambda>(identifier, documents). if identifier = ''deletes'' then Some documents else None) sequences;
          command = (case cmd_query command of
              Some (JObject query) \<Rightarrow> command\<lparr>cmd_query := Some (JObject
                (fold (\<lambda>(identifier, documents). hm_insert identifier (json_documents documents)) sequences query))\<rparr>
            | _ \<Rightarrow> command) in
      if to_ascii_lowercase (cmd_name command) = ''delete'' \<and> statements \<noteq> None
      then command\<lparr>cmd_delete_scope := fst (delete_summary (map limit_of (the statements))),
        cmd_delete_statements := Some (snd (delete_summary (map limit_of (the statements))))\<rparr>
      else command)"

definition legacy_command :: "string \<Rightarrow> string \<Rightarrow> (string \<times> bson) list \<Rightarrow> mongo_command option" where
  "legacy_command database collection query =
     (if collection = ''$cmd'' \<or> starts_with ''$cmd.'' collection
      then map_option (\<lambda>command. command\<lparr>cmd_database := option_or (cmd_database command) (Some database)\<rparr>)
        (command_meaning query)
      else Some \<lparr>cmd_name = ''find'', cmd_database = Some database, cmd_collection = Some collection,
        cmd_auth_mechanism = None, cmd_principal = None, cmd_speculative_auth = False,
        cmd_delete_scope = None, cmd_delete_statements = None,
        cmd_query = Option.bind (command_meaning query) cmd_query\<rparr>)"

text \<open>A legacy reply without an \<open>ok\<close> of its own failed if its flags say so.\<close>

definition legacy_status :: "u32 \<Rightarrow> (string \<times> bson) list list \<Rightarrow> response_status" where
  "legacy_status flags documents =
     (let status = (case documents of [] \<Rightarrow> status_meaning [] | members # _ \<Rightarrow> status_meaning members) in
      status\<lparr>rs_ok := option_or (rs_ok status) (Some (flags AND 3 = 0))\<rparr>)"

fun message_command :: "wire_message \<Rightarrow> mongo_command option" where
  "message_command (Msg _ body sequences _) = map_option (with_sequences sequences) (command_meaning body)"
| "message_command (Query _ database collection _ _ query _) = legacy_command database collection query"
| "message_command (Reply _ _ _ _) = None"

fun message_status :: "wire_message \<Rightarrow> response_status option" where
  "message_status (Msg _ body _ _) = Some (status_meaning body)"
| "message_status (Query _ _ _ _ _ _ _) = None"
| "message_status (Reply flags _ _ documents) = Some (legacy_status flags documents)"

fun message_flags :: "wire_message \<Rightarrow> u32" where
  "message_flags (Msg flags _ _ _) = flags"
| "message_flags (Query flags _ _ _ _ _ _) = flags"
| "message_flags (Reply flags _ _ _) = flags"

text \<open>A message that answers another has a status; a reply is an answer by its kind.\<close>

definition message_meaning :: "i32 \<Rightarrow> i32 \<Rightarrow> usize \<Rightarrow> bool \<Rightarrow> wire_message \<Rightarrow> decoded_message" where
  "message_meaning request_id response_to wire_bytes compressed message =
     \<lparr>dm_request_id = request_id, dm_response_to = response_to,
      dm_wire_bytes = u32_of_usize wire_bytes, dm_flags = message_flags message,
      dm_more_to_come = (message_opcode message = OP_MSG \<and> message_flags message AND 2 \<noteq> 0), dm_compressed = compressed,
      dm_command = (if response_to = 0 then message_command message else None),
      dm_status = (if response_to \<noteq> 0 \<or> message_opcode message = OP_REPLY then message_status message else None)\<rparr>"

subsection \<open>Documents inside a message\<close>

lemma option_or_None [simp]: "option_or a None = a"
  by (cases a) simp_all

lemma length_enc_document: "5 \<le> length (enc_document members)"
  by (simp add: enc_document_def)

lemma enc_document_not_Nil [simp]: "enc_document members \<noteq> []"
  using length_enc_document [of members] by auto

lemma embedded_document_reads:
  assumes bs: "drop offset bs = enc_document members @ b" and offset: "offset \<le> length bs" and small: "length bs < 2 ^ 31"
  shows "read_i32 bs offset = Ok (i32_of_usize (length (enc_document members)))"
    and "\<not> sint (i32_of_usize (length (enc_document members))) < 5"
    and "i32_as_usize (i32_of_usize (length (enc_document members))) = length (enc_document members)"
    and "checked_add offset (length (enc_document members)) = Some (offset + length (enc_document members))"
    and "(slice_sub bs offset (offset + length (enc_document members)) :: bytes decode) = Ok (enc_document members)"
    and "drop (offset + length (enc_document members)) bs = b"
    and "length bs = offset + length (enc_document members) + length b"
proof -
  show len: "length bs = offset + length (enc_document members) + length b"
    using drop_length [OF bs offset] .
  then show "\<not> sint (i32_of_usize (length (enc_document members))) < 5"
    "i32_as_usize (i32_of_usize (length (enc_document members))) = length (enc_document members)"
    "checked_add offset (length (enc_document members)) = Some (offset + length (enc_document members))"
    using small length_enc_document [of members]
    by (simp_all add: i32_of_usize_sint i32_as_usize_of_usize checked_add_def usize_max_def)
  show "read_i32 bs offset = Ok (i32_of_usize (length (enc_document members)))"
    using document_length_reads [of offset bs "[enc_members members]" b] bs offset by (simp add: enc_document_def)
  show "(slice_sub bs offset (offset + length (enc_document members)) :: bytes decode) = Ok (enc_document members)"
    using bs len by simp
  show "drop (offset + length (enc_document members)) bs = b"
    using drop_next [OF bs] .
qed

lemma enc_documents_simps [simp]:
  "enc_documents [] = []" "enc_documents (members # documents) = enc_document members @ enc_documents documents"
  by (simp_all add: enc_documents_def)

lemma sequence_document_end_reads:
  assumes "drop offset bs = enc_document members @ b" and "offset \<le> length bs" and "length bs < 2 ^ 31"
  shows "sequence_document_end bs offset = Ok (offset + length (enc_document members))"
  using embedded_document_reads [OF assms] end_within_reads [OF assms]
  by (simp add: sequence_document_end_def)

lemma bson_document_sequence_loop_reads:
  "drop offset bs = enc_documents documents \<Longrightarrow> offset \<le> length bs \<Longrightarrow> length bs < 2 ^ 31 \<Longrightarrow>
   list_all wf_members documents \<Longrightarrow>
   bson_document_sequence_loop bs offset result =
     Ok (result @ map (\<lambda>members. JObject (json_members members [])) documents)"
proof (induction documents arbitrary: offset result)
  case Nil
  then show ?case by (simp add: bson_document_sequence_loop.simps [of bs offset])
next
  case (Cons members documents)
  have bs: "drop offset bs = enc_document members @ enc_documents documents" using Cons.prems(1) by simp
  note parts = embedded_document_reads [OF bs Cons.prems(2,3)]
  show ?case
    using parts(5,7) sequence_document_end_reads [OF bs Cons.prems(2,3)] Cons.prems(3,4)
      bson_document_to_json_reads [of members] Cons.IH [OF parts(6)] length_enc_document [of members]
    by (simp add: bson_document_sequence_loop.simps [of bs offset] del: slice_sub_eq_Inr)
qed

lemma summarize_delete_sequence_loop_reads:
  "drop offset bs = enc_documents documents \<Longrightarrow> offset \<le> length bs \<Longrightarrow> length bs < 2 ^ 31 \<Longrightarrow>
   list_all wf_members documents \<Longrightarrow>
   summarize_delete_sequence_loop bs offset n single multi =
     Ok (scope_of (single \<or> Some 1 \<in> set (map limit_of documents)) (multi \<or> Some 0 \<in> set (map limit_of documents)),
       ((\<lambda>n. saturating_add n 1) ^^ length documents) n)"
proof (induction documents arbitrary: offset n single multi)
  case Nil
  then show ?case by (simp add: summarize_delete_sequence_loop.simps [of bs offset])
next
  case (Cons members documents)
  have bs: "drop offset bs = enc_document members @ enc_documents documents" using Cons.prems(1) by simp
  note parts = embedded_document_reads [OF bs Cons.prems(2,3)]
  have "delete_statement_limit (enc_document members) = Ok (limit_of members)"
    using delete_statement_limit_reads [of members] parts(7) Cons.prems(3,4) by (simp add: enc_document_def)
  then show ?case
    using parts(5,7) sequence_document_end_reads [OF bs Cons.prems(2,3)] Cons.prems(3,4)
      Cons.IH [OF parts(6)] length_enc_document [of members]
    by (simp add: summarize_delete_sequence_loop.simps [of bs offset] funpow_swap1 [of "\<lambda>n. saturating_add n 1"] disj_assoc
        eq_commute [of "Some 1"] eq_commute [of "Some 0"]
        del: slice_sub_eq_Inr)
qed

lemma document_sequence_reads:
  assumes "list_all wf_members documents" and "length (enc_documents documents) < 2 ^ 31"
  shows "bson_document_sequence_to_json (enc_documents documents) =
      Ok (map (\<lambda>members. JObject (json_members members [])) documents)"
    and "summarize_delete_document_sequence (enc_documents documents) = Ok (delete_summary (map limit_of documents))"
  using bson_document_sequence_loop_reads [of 0 "enc_documents documents" documents "[]"]
    summarize_delete_sequence_loop_reads [of 0 "enc_documents documents" documents 0 False False] assms
  by (simp_all add: bson_document_sequence_to_json_def summarize_delete_document_sequence_def
      delete_summary_def saturating_count)

subsection \<open>OP_MSG\<close>

lemma length_enc_sequence:
  "length (enc_sequence sec) = 6 + length (fst sec) + length (enc_documents (snd sec))"
  by (simp add: enc_sequence_def)

abbreviation deletes_sequence :: "string \<times> (string \<times> bson) list list \<Rightarrow> (string \<times> bson) list list option" where
  "deletes_sequence \<equiv> \<lambda>(identifier, documents). if identifier = ''deletes'' then Some documents else None"

lemma op_msg_section_reads:
  assumes bs: "drop offset payload = enc_sequence (identifier, documents) @ b @ checksum"
    and prems: "offset \<le> length payload" "length payload < 2 ^ 31" "c_string identifier" "list_all wf_members documents"
  shows "op_msg_sections payload (length payload - length checksum) offset summary deletes sequences =
    op_msg_sections payload (length payload - length checksum) (offset + length (enc_sequence (identifier, documents)))
      summary (if identifier = ''deletes'' then Some (delete_summary (map limit_of documents)) else deletes)
      (sequences @ [(identifier, map (\<lambda>members. JObject (json_members members [])) documents)])"
proof -
  let ?size = "i32_of_usize (5 + length identifier + length (enc_documents documents))"
  have len: "length payload = offset + (6 + length identifier + length (enc_documents documents)) + length (b @ checksum)"
    using drop_length [OF bs prems(1)] by (simp add: length_enc_sequence)
  have d: "drop offset payload = [1] @ to_le_bytes ?size @ as_bytes identifier @ 0 # enc_documents documents @ b @ checksum"
    using bs by (simp add: enc_sequence_def)
  have kind: "(slice_index payload offset :: u8 decode) = Ok 1"
    using d prems(1) by (intro slice_index_reads) auto
  have d1: "drop (offset + 1) payload = to_le_bytes ?size @ as_bytes identifier @ 0 # enc_documents documents @ b @ checksum"
    using drop_next [OF d] by simp
  then have section_size: "read_i32 payload (offset + 1) = Ok ?size"
    using len by (intro read_i32_reads) auto
  have d5: "drop (offset + 1 + 4) payload = as_bytes identifier @ 0 # enc_documents documents @ b @ checksum"
    using drop_next [OF d1] by simp
  define start stop where "start = offset + 1 + 4 + length identifier + 1"
    and "stop = start + length (enc_documents documents)"
  note bounds = start_def stop_def
  have name: "read_cstring payload (offset + 1 + 4) = Ok (identifier, start)"
    using d5 len prems(3) unfolding start_def by (intro read_cstring_reads) auto
  have "drop start payload = enc_documents documents @ b @ checksum"
    using drop_next [of "offset + 1 + 4" payload "as_bytes identifier @ [0]"] d5 by (simp add: start_def)
  then have slice: "slice_range payload start stop = Some (enc_documents documents)"
    using len unfolding stop_def by (intro slice_range_reads) (auto simp: start_def)
  have small: "length (enc_documents documents) < 2 ^ 31" using len prems(2) by simp
  have "\<not> sint ?size < 5" "checked_add (offset + 1) (i32_as_usize ?size) = Some stop" "\<not> stop < start"
    "\<not> length payload - length checksum < stop" "offset < length payload - length checksum"
    "offset + length (enc_sequence (identifier, documents)) = stop"
    using len prems(2)
    by (simp_all add: i32_of_usize_sint i32_as_usize_of_usize checked_add_def usize_max_def length_enc_sequence bounds)
  then show ?thesis
    unfolding op_msg_sections.simps [of payload _ offset]
    using kind section_size name slice document_sequence_reads [OF prems(4) small]
    by (simp del: slice_index_eq_Inr slice_range_eq_Some checked_add_eq_Some)
qed

lemma op_msg_sequences_read:
  "drop offset payload = concat (map enc_sequence secs) @ checksum \<Longrightarrow> offset \<le> length payload \<Longrightarrow>
   length payload < 2 ^ 31 \<Longrightarrow>
   list_all (\<lambda>(identifier, documents). c_string identifier \<and> list_all wf_members documents) secs \<Longrightarrow>
   op_msg_sections payload (length payload - length checksum) offset summary deletes sequences =
     Ok (summary, option_or (map_option (delete_summary \<circ> map limit_of) (latest deletes_sequence secs)) deletes,
       sequences @ map (\<lambda>(identifier, documents).
         (identifier, map (\<lambda>members. JObject (json_members members [])) documents)) secs)"
proof (induction secs arbitrary: offset deletes sequences)
  case Nil
  then show ?case
    using drop_length [of offset payload checksum "[]"] by (simp add: op_msg_sections.simps [of payload])
next
  case (Cons sec secs)
  obtain key documents where sec: "sec = (key, documents)" by (cases sec)
  have bs: "drop offset payload = enc_sequence (key, documents) @ concat (map enc_sequence secs) @ checksum"
    using Cons.prems(1) sec by simp
  have "offset + length (enc_sequence (key, documents)) \<le> length payload"
    using drop_length [OF bs Cons.prems(2)] by simp
  with Cons.IH [OF drop_next [OF bs]] op_msg_section_reads [OF bs Cons.prems(2,3)] Cons.prems(3,4) sec
  show ?case by (auto simp: option_or_def split: option.split)
qed

text \<open>The sequences change the summary as they change the command.\<close>

definition summary_with_sequences ::
  "(string \<times> (string \<times> bson) list list) list \<Rightarrow> bson_summary \<Rightarrow> bson_summary" where
  "summary_with_sequences secs s =
     attach_sequences (map (\<lambda>(identifier, documents).
         (identifier, map (\<lambda>members. JObject (json_members members [])) documents)) secs)
       (case map_option (delete_summary \<circ> map limit_of) (latest deletes_sequence secs) of
          None \<Rightarrow> s
        | Some (scope, statements) \<Rightarrow> s\<lparr>bs_delete_scope := scope, bs_delete_statements := Some statements\<rparr>)"

lemma fold_sequences:
  "fold (\<lambda>(identifier, documents). hm_insert identifier (JArray documents))
     (map (\<lambda>(identifier, documents). (identifier, map (\<lambda>members. JObject (json_members members [])) documents)) secs) =
   fold (\<lambda>(identifier, documents). hm_insert identifier (json_documents documents)) secs"
  by (simp add: fold_map comp_def case_prod_unfold json_documents_def)

lemma attach_sequences_fields [simp]:
  "bs_first_key (attach_sequences q s) = bs_first_key s" "bs_first_string (attach_sequences q s) = bs_first_string s"
  "bs_database (attach_sequences q s) = bs_database s" "bs_collection (attach_sequences q s) = bs_collection s"
  "bs_auth_mechanism (attach_sequences q s) = bs_auth_mechanism s" "bs_principal (attach_sequences q s) = bs_principal s"
  "bs_speculative_auth (attach_sequences q s) = bs_speculative_auth s"
  "bs_delete_scope (attach_sequences q s) = bs_delete_scope s"
  "bs_delete_statements (attach_sequences q s) = bs_delete_statements s"
  "status_of_summary (attach_sequences q s) = status_of_summary s"
  by (simp_all add: attach_sequences_def status_of_summary_def split: option.split json_value.split)

lemma status_with_sequences: "status_of_summary (summary_with_sequences secs s) = status_of_summary s"
  by (simp add: summary_with_sequences_def split: option.split prod.split) (simp add: status_of_summary_def)

lemma attach_sequences_query:
  "bs_query (attach_sequences q s) =
     (case bs_query s of
        Some (JObject query) \<Rightarrow>
          if first_key_captures_query s
          then Some (JObject (fold (\<lambda>(identifier, documents). hm_insert identifier (JArray documents)) q query))
          else bs_query s
      | j \<Rightarrow> j)"
  by (simp add: attach_sequences_def split: option.split json_value.split)

lemma command_with_sequences:
  assumes "bs_query s \<noteq> None \<Longrightarrow> first_key_captures_query s"
  shows "command_from_summary (summary_with_sequences secs s) =
    map_option (with_sequences secs) (command_from_summary s)"
proof (cases "bs_first_key s")
  case None
  then show ?thesis
    by (simp add: summary_with_sequences_def command_from_summary_def split: option.split prod.split)
next
  case (Some name)
  obtain deletes where deletes: "latest deletes_sequence secs = deletes" by blast
  note defs = command_from_summary_def with_sequences_def summary_with_sequences_def deletes Some Let_def
    attach_sequences_query fold_sequences first_key_captures_query_def
  have captures: "command_captures_query (to_ascii_lowercase name)" if "bs_query s = Some j" for j
    using assms that Some by (simp add: first_key_captures_query_def)
  obtain scope statements where pair: "delete_summary (map limit_of (the deletes)) = (scope, statements)" by force
  show ?thesis
  proof (cases "bs_query s")
    case None
    then show ?thesis using pair by (cases deletes) (simp_all add: defs)
  next
    case (Some j)
    note query = captures [OF Some] Some
    show ?thesis
    proof (cases "\<exists>members. j = JObject members")
      case True
      then show ?thesis using pair query by (cases deletes) (auto simp: defs)
    next
      case False
      then show ?thesis using pair query by (cases j; cases deletes) (simp_all add: defs)
    qed
  qed
qed

lemma op_msg_body_reads:
  assumes bs: "drop 4 payload = 0 # enc_document body @ concat (map enc_sequence secs) @ checksum"
    and "length payload < 2 ^ 31" and "4 \<le> length payload" and "wf_members body"
    and "list_all (\<lambda>(identifier, documents). c_string identifier \<and> list_all wf_members documents) secs"
  shows "op_msg_sections payload (length payload - length checksum) 4 None None [] =
    Ok (Some (summary_spec body), map_option (delete_summary \<circ> map limit_of) (latest deletes_sequence secs),
      map (\<lambda>(identifier, documents).
         (identifier, map (\<lambda>members. JObject (json_members members [])) documents)) secs)"
proof -
  have kind: "(slice_index payload 4 :: u8 decode) = Ok 0"
    using bs assms(3) by (intro slice_index_reads) auto
  have d5: "drop 5 payload = enc_document body @ concat (map enc_sequence secs) @ checksum"
    using drop_next [of 4 payload "[0]"] bs by simp
  have start: "5 \<le> length payload" using bs assms(3) by (cases "length payload = 4") auto
  note parts = embedded_document_reads [OF d5 start assms(2)]
  have "summarize_bson (enc_document body) = Ok (summary_spec body)"
    using summarize_bson_reads [OF assms(4)] parts(7) assms(2) by simp
  then show ?thesis
    unfolding op_msg_sections.simps [of payload _ 4]
    using kind parts(1-5,7) op_msg_sequences_read [OF parts(6) _ assms(2,5)] length_enc_document [of body]
    by (simp del: slice_index_eq_Inr slice_sub_eq_Inr checked_add_eq_Some)
qed

lemma summary_spec_captures: "bs_query (summary_spec members) \<noteq> None \<Longrightarrow> first_key_captures_query (summary_spec members)"
  by (auto simp: summary_spec_def query_spec_def first_fields first_key_captures_query_def
      split: if_splits option.splits list.splits)

lemma decode_op_msg_reads:
  assumes "wf_message (Msg flags body secs checksum)" and "length payload < 2 ^ 31"
    and payload: "payload = enc_payload (Msg flags body secs checksum)"
  shows "decode_op_msg request_id response_to wire_bytes payload compressed =
    Ok (message_meaning request_id response_to wire_bytes compressed (Msg flags body secs checksum))"
proof -
  let ?rest = "enc_document body @ concat (map enc_sequence secs) @ checksum"
  have "read_u32 payload 0 = Ok flags"
    using payload by (intro read_u32_reads [where b = "0 # ?rest"]) auto
  moreover have "\<not> length payload < 5" "\<not> length payload < 4 + length checksum"
    using payload by simp_all
  moreover note op_msg_body_reads [of payload body secs checksum]
  ultimately show ?thesis
    using assms command_with_sequences [OF summary_spec_captures [of body], of secs]
      status_with_sequences [of secs "summary_spec body"]
    by (simp add: decode_op_msg_def message_meaning_def Let_def opcode_defs summary_with_sequences_def
        command_from_summary_spec status_of_summary_spec)
qed

subsection \<open>OP_QUERY and OP_REPLY\<close>

lemma split_legacy_namespace_reads:
  "CHR ''.'' \<notin> set database \<Longrightarrow> split_legacy_namespace (database @ ''.'' @ collection) =
     (if collection = ''$cmd'' \<or> starts_with ''$cmd.'' collection then (Some database, None, True)
      else (Some database, Some collection, False))"
  by (simp add: split_legacy_namespace_def split_once_append)

lemma summary_query: "bs_query (summary_spec members) = Option.bind (command_meaning members) cmd_query"
  by (cases members) (auto simp: summary_spec_query command_meaning_def Let_def)

lemma decoded_query_meaning:
  "CHR ''.'' \<notin> set database \<Longrightarrow>
   decoded_op_query request_id response_to wire_bytes flags (database @ ''.'' @ collection) (summary_spec query) compressed =
     message_meaning request_id response_to wire_bytes compressed (Query flags database collection skip count query selector)"
  using split_legacy_namespace_reads [of database collection]
  by (auto simp: decoded_op_query_def message_meaning_def legacy_command_def Let_def opcode_defs
      command_from_summary_spec summary_query option_or_def intro!: option.map_cong split: option.split)

lemma decode_op_query_reads:
  assumes wf: "wf_message message" and small: "length payload < 2 ^ 31" and payload: "payload = enc_payload message"
    and message: "message = Query flags database collection skip count query selector"
  shows "decode_op_query request_id response_to wire_bytes payload compressed =
    Ok (message_meaning request_id response_to wire_bytes compressed message)"
proof -
  let ?namespace = "database @ ''.'' @ collection"
  define tail where "tail = (case selector of None \<Rightarrow> [] | Some members \<Rightarrow> enc_document members)"
  define start where "start = 4 + length ?namespace + 1 + 8"
  have d: "payload = to_le_bytes flags @ as_bytes ?namespace @ 0 # to_le_bytes skip @ to_le_bytes count @ enc_document query @ tail"
    using payload message by (simp add: tail_def)
  have flags: "read_u32 payload 0 = Ok flags"
    by (rule read_u32_reads [where b = "drop 4 payload"]) (simp_all add: d)
  have name: "read_cstring payload 4 = Ok (?namespace, 4 + length ?namespace + 1)"
    using wf message by (intro read_cstring_reads) (auto simp: d)
  have len: "start \<le> length payload" by (simp add: start_def d)
  have "drop start payload = enc_document query @ tail"
    by (simp add: start_def d)
  note parts = embedded_document_reads [OF this len small]
  have summary: "summarize_bson (enc_document query) = Ok (summary_spec query)"
    using summarize_bson_reads [of query] wf message parts(7) small by simp
  have "checked_add (4 + length ?namespace + 1) 8 = Some start" "\<not> length payload < 13"
    using parts(7) small length_enc_document [of query] by (simp_all add: start_def checked_add_def usize_max_def)
  then have "decode_op_query request_id response_to wire_bytes payload compressed =
      Ok (decoded_op_query request_id response_to wire_bytes flags ?namespace (summary_spec query) compressed)"
    using flags name parts(1-5,7) summary
    by (simp add: decode_op_query_def del: slice_sub_eq_Inr checked_add_eq_Some)
  also have "decoded_op_query request_id response_to wire_bytes flags ?namespace (summary_spec query) compressed =
      message_meaning request_id response_to wire_bytes compressed message"
    unfolding message by (rule decoded_query_meaning) (use wf message in simp)
  finally show ?thesis .
qed

lemma length_enc_documents: "length documents \<le> length (enc_documents documents)"
proof (induction documents)
  case (Cons members documents)
  then show ?case using length_enc_document [of members] by simp
qed simp

lemma legacy_status_decoded:
  "dm_status (decoded_op_reply request_id response_to wire_bytes flags
      (case documents of [] \<Rightarrow> None | members # _ \<Rightarrow> Some (summary_spec members)) compressed) =
    Some (legacy_status flags documents)"
  by (auto simp: decoded_op_reply_def legacy_status_def status_of_summary_spec [symmetric] status_of_summary_def
      Let_def summary_spec_def default_summary_def query_spec_def first_key_captures_query_def split: list.split)

lemma decoded_reply_meaning:
  "decoded_op_reply request_id response_to wire_bytes flags
      (case documents of [] \<Rightarrow> None | members # _ \<Rightarrow> Some (summary_spec members)) compressed =
    message_meaning request_id response_to wire_bytes compressed (Reply flags cursor start documents)"
  using legacy_status_decoded [of request_id response_to wire_bytes flags documents compressed]
  by (simp add: message_meaning_def decoded_op_reply_def opcode_defs Let_def)

lemma decode_op_reply_reads:
  assumes wf: "wf_message message" and small: "length payload < 2 ^ 31" and payload: "payload = enc_payload message"
    and message: "message = Reply flags cursor start documents"
  shows "decode_op_reply request_id response_to wire_bytes payload compressed =
    Ok (message_meaning request_id response_to wire_bytes compressed message)"
proof -
  have d: "payload = to_le_bytes flags @ to_le_bytes cursor @ to_le_bytes start @
      to_le_bytes (i32_of_usize (length documents)) @ enc_documents documents"
    using payload message by simp
  have flags: "read_u32 payload 0 = Ok flags"
    by (rule read_u32_reads [where b = "drop 4 payload"]) (simp_all add: d)
  have returned: "read_i32 payload 16 = Ok (i32_of_usize (length documents))"
    by (rule read_i32_reads [where b = "enc_documents documents"]) (simp_all add: d)
  have summary: "decode_op_reply request_id response_to wire_bytes payload compressed =
      Ok (decoded_op_reply request_id response_to wire_bytes flags
        (case documents of [] \<Rightarrow> None | members # _ \<Rightarrow> Some (summary_spec members)) compressed)"
  proof (cases documents)
    case Nil
    then have "length payload = 20" by (simp add: d)
    with Nil flags returned show ?thesis by (simp add: decode_op_reply_def)
  next
    case (Cons members rest)
    have d20: "drop 20 payload = enc_document members @ enc_documents rest" and len: "20 \<le> length payload"
      using Cons by (simp_all add: d)
    note parts = embedded_document_reads [OF d20 len small]
    have "length documents < 2 ^ 31"
      using length_enc_documents [of documents] small by (simp add: d)
    then have count: "0 < sint (i32_of_usize (length documents))"
      using Cons by (simp add: i32_of_usize_sint)
    have "summarize_bson (enc_document members) = Ok (summary_spec members)"
      using summarize_bson_reads [of members] wf message Cons parts(7) small by simp
    with flags returned count parts(1-5,7) Cons length_enc_document [of members] show ?thesis
      by (simp add: decode_op_reply_def del: slice_sub_eq_Inr checked_add_eq_Some)
  qed
  then show ?thesis
    unfolding message by (simp add: decoded_reply_meaning [where cursor = cursor and start = start])
qed

subsection \<open>Frames\<close>

lemma length_wire_frame [simp]: "length (wire_frame request_id response_to opcode payload) = 16 + length payload"
  by (simp add: wire_frame_def)

lemma wire_frame_reads:
  fixes payload :: bytes and request_id response_to opcode :: i32
  defines "frame \<equiv> wire_frame request_id response_to opcode payload"
  assumes "16 + length payload < 2 ^ 31"
  shows "length frame = 16 + length payload" and "read_i32 frame 0 = Ok (i32_of_usize (length frame))"
    and "read_i32 frame 4 = Ok request_id" and "read_i32 frame 8 = Ok response_to"
    and "read_i32 frame 12 = Ok opcode" and "drop 16 frame = payload"
proof -
  show len: "length frame = 16 + length payload" by (simp add: frame_def)
  have d: "drop 4 frame = to_le_bytes request_id @ to_le_bytes response_to @ to_le_bytes opcode @ payload"
    by (simp add: frame_def wire_frame_def)
  show "read_i32 frame 0 = Ok (i32_of_usize (length frame))"
    by (rule read_i32_reads [where b = "drop 4 frame"]) (simp_all add: d len, simp add: frame_def wire_frame_def)
  show "read_i32 frame 4 = Ok request_id"
    using d len by (intro read_i32_reads) auto
  have d8: "drop 8 frame = to_le_bytes response_to @ to_le_bytes opcode @ payload"
    using drop_next [OF d] by simp
  then show "read_i32 frame 8 = Ok response_to" using len by (intro read_i32_reads) auto
  have d12: "drop 12 frame = to_le_bytes opcode @ payload" using drop_next [OF d8] by simp
  then show "read_i32 frame 12 = Ok opcode" using len by (intro read_i32_reads) auto
  show "drop 16 frame = payload" using drop_next [OF d12] by simp
qed

lemma decode_wire_frame:
  assumes "16 + length payload < 2 ^ 31" and "16 + length payload \<le> max_message"
  shows "decode_frame codec (wire_frame request_id response_to opcode payload) max_message =
    (let wire_bytes = 16 + length payload in
     if opcode = OP_MSG then decode_op_msg request_id response_to wire_bytes payload False
     else if opcode = OP_QUERY then decode_op_query request_id response_to wire_bytes payload False
     else if opcode = OP_REPLY then decode_op_reply request_id response_to wire_bytes payload False
     else if opcode = OP_COMPRESSED then
       decode_compressed codec request_id response_to wire_bytes payload max_message
     else Fail (UnsupportedOpcode opcode))"
proof -
  note parts = wire_frame_reads [OF assms(1), of request_id response_to opcode]
  have "(slice_sub (wire_frame request_id response_to opcode payload) 16 (16 + length payload) :: bytes decode) = Ok payload"
    using parts(1,6) by simp
  with parts assms show ?thesis
    by (simp add: decode_frame_def Let_def i32_of_usize_sint i32_as_usize_of_usize del: slice_sub_eq_Inr)
qed

definition op_compressed :: "i32 \<Rightarrow> i32 \<Rightarrow> i32 \<Rightarrow> usize \<Rightarrow> u8 \<Rightarrow> bytes \<Rightarrow> bytes" where
  "op_compressed request_id response_to opcode uncompressed_size compressor packed =
     wire_frame request_id response_to OP_COMPRESSED
       (to_le_bytes opcode @ to_le_bytes (i32_of_usize uncompressed_size) @ compressor # packed)"

text \<open>The decompression library returns \<open>plain\<close> for \<open>packed\<close>, without an error.\<close>

definition unpacks_to :: "codec \<Rightarrow> u8 \<Rightarrow> bytes \<Rightarrow> bytes \<Rightarrow> bool" where
  "unpacks_to codec compressor packed plain \<longleftrightarrow>
     (compressor = 0 \<and> packed = plain) \<or>
     (compressor = 1 \<and> snap_decompress_len codec packed = Inr (length plain) \<and>
        snap_decompress_vec codec packed = Inr plain) \<or>
     (compressor = 2 \<and> zlib_stream codec packed = (plain, None)) \<or>
     (compressor = 3 \<and> zstd_open codec packed = None \<and> zstd_stream codec packed = (plain, None))"

lemma decompress_unpacks:
  "unpacks_to codec compressor packed plain \<Longrightarrow> decompress codec compressor (length plain) packed = Ok plain"
  by (auto simp: unpacks_to_def decompress_def take_read_to_end_def)


lemma decode_compressed_unpacks:
  assumes "unpacks_to codec compressor packed plain" and "length plain \<le> max_message - 16"
    and "max_message < 2 ^ 31"
    and "payload = to_le_bytes opcode @ to_le_bytes (i32_of_usize (length plain)) @ compressor # packed"
  shows "decode_compressed codec request_id response_to wire_bytes payload max_message =
    (if opcode = OP_MSG then decode_op_msg request_id response_to wire_bytes plain True
     else if opcode = OP_QUERY then decode_op_query request_id response_to wire_bytes plain True
     else if opcode = OP_REPLY then decode_op_reply request_id response_to wire_bytes plain True
     else Fail (UnsupportedOpcode opcode))"
proof -
  have d4: "drop 4 payload = to_le_bytes (i32_of_usize (length plain)) @ compressor # packed"
    using assms(4) by simp
  have d8: "drop 8 payload = compressor # packed" using assms(4) by simp
  have len: "length payload = 9 + length packed" using assms(4) by simp
  have "read_i32 payload 0 = Ok opcode" using assms(4) by (intro read_i32_reads) auto
  moreover have "read_i32 payload 4 = Ok (i32_of_usize (length plain))"
    using d4 len by (intro read_i32_reads) auto
  moreover have "(slice_index payload 8 :: u8 decode) = Ok compressor"
    using d8 len by (intro slice_index_reads) auto
  moreover have "(slice_sub payload 9 (length payload) :: bytes decode) = Ok packed"
    using drop_next [of 8 payload "[compressor]" packed] d8 len by simp
  moreover have small: "length plain < 2 ^ 31" using assms(2,3) by simp
  ultimately show ?thesis
    using len assms(2) decompress_unpacks [OF assms(1)]
    by (simp add: decode_compressed_def i32_of_usize_sint i32_as_usize_of_usize
        del: slice_index_eq_Inr slice_sub_eq_Inr)
qed

text \<open>The three payload decoders agree with the meaning, whichever opcode selects them.\<close>

lemma decode_payload_reads:
  assumes "wf_message message" and "length (enc_payload message) < 2 ^ 31"
  shows "(if message_opcode message = OP_MSG
      then decode_op_msg request_id response_to wire_bytes (enc_payload message) compressed
      else if message_opcode message = OP_QUERY
      then decode_op_query request_id response_to wire_bytes (enc_payload message) compressed
      else if message_opcode message = OP_REPLY
      then decode_op_reply request_id response_to wire_bytes (enc_payload message) compressed
      else other) = Ok (message_meaning request_id response_to wire_bytes compressed message)"
proof (cases message)
  case (Msg flags body secs checksum)
  with assms decode_op_msg_reads [of flags body secs checksum] show ?thesis by simp
next
  case (Query flags database collection skip count query selector)
  with decode_op_query_reads [OF assms refl Query] show ?thesis by (simp add: opcode_defs)
next
  case (Reply flags cursor start documents)
  with decode_op_reply_reads [OF assms refl Reply] show ?thesis by (simp add: opcode_defs)
qed

text \<open>The message builders of the test module build such messages.\<close>

lemma test_messages:
  "op_msg request_id response_to flags (enc_document members) =
     wire_frame request_id response_to OP_MSG (enc_payload (Msg flags members [] []))"
  "op_msg_with_document_sequence request_id (enc_document members) identifier (map enc_document documents) =
     wire_frame request_id 0 OP_MSG (enc_payload (Msg 0 members [(identifier, documents)] []))"
  "op_query request_id (database @ ''.'' @ collection) (enc_document members) =
     wire_frame request_id 0 OP_QUERY (enc_payload (Query 0 database collection 0 (- 1) members None))"
  "op_reply request_id response_to flags (enc_document members) =
     wire_frame request_id response_to OP_REPLY (enc_payload (Reply flags 0 0 [members]))"
  by (simp_all add: op_msg_def op_msg_with_document_sequence_def op_query_def op_reply_def enc_sequence_def
      enc_documents_def i32_of_usize_def add.assoc)

text \<open>
  C6: decoding inverts encoding. Every well-formed message that fits the size limit decodes to its
  meaning: an \<open>OP_MSG\<close> with any BSON document as its body, any document sequences and a checksum or
  none, and the legacy \<open>OP_QUERY\<close> and \<open>OP_REPLY\<close>. The meaning has the command name, database, collection,
  authentication, delete classification, reply status and query, with the message's own
  identifiers, flags and size.
\<close>

theorem message_decodes_to_its_meaning:
  assumes "wf_message message" and "16 + length (enc_payload message) \<le> max_message" and "max_message < 2 ^ 31"
  shows "decode_frame codec
      (wire_frame request_id response_to (message_opcode message) (enc_payload message)) max_message =
    Ok (message_meaning request_id response_to (16 + length (enc_payload message)) False message)"
proof -
  have fits: "16 + length (enc_payload message) < 2 ^ 31" using assms(2,3) by simp
  then have "length (enc_payload message) < 2 ^ 31" by simp
  then show ?thesis
    unfolding decode_wire_frame [OF fits assms(2)] Let_def by (rule decode_payload_reads [OF assms(1)])
qed

text \<open>
  C34: compression is transparent. If the decompression library inverts the compressor (none, snappy,
  zlib or zstd), an \<open>OP_COMPRESSED\<close> frame around the payload of any well-formed message decodes to
  the meaning of that message, marked as compressed.
\<close>

theorem compressed_message_decodes_to_its_meaning:
  assumes "wf_message message" and "unpacks_to codec compressor packed (enc_payload message)"
    and "length (enc_payload message) \<le> max_message - 16" and "25 + length packed \<le> max_message"
    and "max_message < 2 ^ 31"
  shows "decode_frame codec
      (op_compressed request_id response_to (message_opcode message) (length (enc_payload message)) compressor packed)
      max_message =
    Ok (message_meaning request_id response_to (25 + length packed) True message)"
proof -
  have small: "length (enc_payload message) < 2 ^ 31" using assms(3,5) by simp
  let ?payload = "to_le_bytes (message_opcode message) @
    to_le_bytes (i32_of_usize (length (enc_payload message))) @ compressor # packed"
  have "decode_frame codec (wire_frame request_id response_to OP_COMPRESSED ?payload) max_message =
      decode_compressed codec request_id response_to (25 + length packed) ?payload max_message"
    using assms(4,5) by (simp add: decode_wire_frame opcode_defs)
  also have "\<dots> = Ok (message_meaning request_id response_to (25 + length packed) True message)"
    unfolding decode_compressed_unpacks [OF assms(2,3,5) refl] by (rule decode_payload_reads [OF assms(1) small])
  finally show ?thesis by (simp add: op_compressed_def)
qed

subsection \<open>Witnesses\<close>

definition sample_delete :: wire_message where
  "sample_delete = Msg 1 [(''delete'', BString ''orders''), (''$db'', BString ''sales'')]
     [(''deletes'', [[(''q'', BDocument [(''qty'', BInt32 5)]), (''limit'', BInt32 1)]])] [1, 2, 3, 4]"

lemma sample_delete_wf: "wf_message sample_delete" "length (enc_payload sample_delete) = 94"
  by code_simp+

theorem message_decodes_to_its_meaning_witness:
  "decode_frame stored_codec (wire_frame 17 0 OP_MSG (enc_payload sample_delete)) 256 =
     Ok (message_meaning 17 0 110 False sample_delete) \<and>
   map_option (\<lambda>c. (cmd_collection c, cmd_delete_statements c))
     (dm_command (message_meaning 17 0 110 False sample_delete)) = Some (Some ''orders'', Some 1)"
proof
  have "message_opcode sample_delete = OP_MSG" by (simp add: sample_delete_def)
  then show "decode_frame stored_codec (wire_frame 17 0 OP_MSG (enc_payload sample_delete)) 256 =
      Ok (message_meaning 17 0 110 False sample_delete)"
    using message_decodes_to_its_meaning [of sample_delete 256 stored_codec 17 0] by (simp add: sample_delete_wf)
  show "map_option (\<lambda>c. (cmd_collection c, cmd_delete_statements c))
     (dm_command (message_meaning 17 0 110 False sample_delete)) = Some (Some ''orders'', Some 1)"
    by code_simp
qed

definition sample_reply :: wire_message where
  "sample_reply = Reply 2 0 0 [[(''code'', BInt32 13)]]"

lemma sample_reply_wf: "wf_message sample_reply" "length (enc_payload sample_reply) = 35"
  by code_simp+

theorem compressed_message_decodes_to_its_meaning_witness:
  "unpacks_to stored_codec 2 (enc_payload sample_reply) (enc_payload sample_reply) \<and>
   decode_frame stored_codec (op_compressed 18 17 OP_REPLY 35 2 (enc_payload sample_reply)) 256 =
     Ok (message_meaning 18 17 60 True sample_reply) \<and>
   map_option rs_ok (dm_status (message_meaning 18 17 60 True sample_reply)) = Some (Some False)"
proof (intro conjI)
  show stored: "unpacks_to stored_codec 2 (enc_payload sample_reply) (enc_payload sample_reply)"
    by (simp add: unpacks_to_def stored_codec_def)
  have "message_opcode sample_reply = OP_REPLY" by (simp add: sample_reply_def)
  then show "decode_frame stored_codec (op_compressed 18 17 OP_REPLY 35 2 (enc_payload sample_reply)) 256 =
     Ok (message_meaning 18 17 60 True sample_reply)"
    using compressed_message_decodes_to_its_meaning [OF sample_reply_wf(1) stored, of 256 18 17]
    by (simp add: sample_reply_wf)
  show "map_option rs_ok (dm_status (message_meaning 18 17 60 True sample_reply)) = Some (Some False)"
    by code_simp
qed

end
