(* ===== verification/Wire_Spec.thy ===== *)
theory Wire_Spec
  imports Message_Spec
begin

text \<open>
  Safety properties of message decoding, \<open>crates/mongo-protocol/src/lib.rs\<close>: decompression is bounded;
  a truncated document still yields its command name and no query; collections, principals and query
  content leave the decoder only for the commands that the tables list; user names are recovered
  exactly.
\<close>

subsection \<open>Decompression\<close>

text \<open>
  Decompression is bounded. Whatever the decompression library does, a compressed message is
  decoded only if it declares at most \<open>max_message_bytes - 16\<close> bytes and unpacks to exactly that
  many; a zlib or zstd stream is read no further than one byte past the declared size.
\<close>

theorem decompression_is_bounded:
  "(decode_compressed codec request_id response_to wire_bytes payload max_message = Ok m \<longrightarrow>
      (\<exists>size' compressor out. read_i32 payload 4 = Ok size' \<and> slice_get payload 8 = Some compressor \<and>
         decompress codec compressor (i32_as_usize size') (drop 9 payload) = Ok out \<and>
         length out = i32_as_usize size' \<and> length out \<le> max_message - 16)) \<and>
   (decompress codec compressor limit packed = Ok out \<longrightarrow> compressor \<in> {2, 3} \<longrightarrow> length out \<le> limit + 1)"
proof (intro conjI impI)
  assume "decode_compressed codec request_id response_to wire_bytes payload max_message = Ok m"
  then show "\<exists>size' compressor out. read_i32 payload 4 = Ok size' \<and> slice_get payload 8 = Some compressor \<and>
         decompress codec compressor (i32_as_usize size') (drop 9 payload) = Ok out \<and>
         length out = i32_as_usize size' \<and> length out \<le> max_message - 16"
    by (auto simp: decode_compressed_def slice_get_def split: if_splits)
next
  assume "decompress codec compressor limit packed = Ok out" "compressor \<in> {2, 3}"
  then show "length out \<le> limit + 1"
    by (auto simp: decompress_def take_read_to_end_def split: prod.splits option.splits if_splits)
qed

subsection \<open>Fields the summarizers leave alone\<close>

text \<open>Past the first element, the first key and the query are never written.\<close>

abbreviation keeps :: "bson_summary \<Rightarrow> bson_summary \<Rightarrow> bool" where
  "keeps s s' \<equiv> bs_first_key s' = bs_first_key s \<and> bs_query s' = bs_query s"

lemma summarize_first_keeps_query:
  "yields (summarize_first bs key t start ordinal s)
     (\<lambda>s'. bs_query s' = bs_query s \<and> bs_first_key s' = (if ordinal = 0 then Some key else bs_first_key s))"
  unfolding summarize_first_def Let_def by (intro yield_rules) simp_all

lemma summarize_field_keeps: "yields (summarize_field bs key t start s) (keeps s)"
  unfolding summarize_field_def by (intro yield_rules) simp_all

lemma merge_speculative_keeps: "keeps s (merge_speculative inner s)"
  by (simp add: merge_speculative_def)

lemma summarize_element_keeps: "yields (summarize_element f bs key t start offset s) (keeps s)"
  unfolding summarize_element_def
  by (intro yield_rules summarize_field_keeps) (auto simp: merge_speculative_keeps split: option.splits)

lemma summarize_prefix_element_keeps: "yields (summarize_prefix_element bs key t start n s) (keeps s)"
  unfolding summarize_prefix_element_def
  by (intro yield_rules summarize_field_keeps) (auto simp: merge_speculative_keeps split: option.splits)

lemma summarize_loop_keeps_query:
  "yields (summarize_loop f bs offset ordinal s) (\<lambda>s'. bs_query s' = bs_query s)"
proof (induction f bs offset ordinal s rule: summarize_loop.induct)
  case (1 f bs offset ordinal s)
  show ?case
    unfolding summarize_loop.simps [of f bs offset]
  proof (intro yield_rules)
    fix t p key start n s1 s2
    assume step: "offset < length bs - 1" "(slice_index bs offset :: u8 decode) = Ok t"
      "read_cstring bs (offset + 1) = Ok p" "p = (key, start)" "skip_value bs start t = Ok n" "\<not> length bs - 1 < n"
      "summarize_first bs key t start ordinal s = Ok s1" "summarize_element f bs key t start n s1 = Ok s2"
    have "bs_query s2 = bs_query s"
      using yieldsD [OF summarize_first_keeps_query step(7)] yieldsD [OF summarize_element_keeps step(8)] by simp
    then show "yields (summarize_loop f bs n (ordinal + 1) s2) (\<lambda>s'. bs_query s' = bs_query s)"
      using "1.IH" [OF step(1-3) step(4) [symmetric] step(5-8)] by simp
  qed simp_all
qed

subsection \<open>Deny by default\<close>

text \<open>Query content is present only under a command that captures it.\<close>

definition query_guarded :: "bson_summary \<Rightarrow> bool" where
  "query_guarded s \<longleftrightarrow> bs_query s = None \<or> first_key_captures_query s"

lemma query_guarded_update:
  "query_guarded s \<Longrightarrow> bs_first_key s' = bs_first_key s \<Longrightarrow> (bs_query s = None \<longrightarrow> bs_query s' = None) \<Longrightarrow>
   query_guarded s'"
  by (auto simp: query_guarded_def first_key_captures_query_def)

lemma summarize_document_guarded: "yields (summarize_document f bs) query_guarded"
  unfolding summarize_document_def
proof (intro yield_rules)
  fix s q
  assume "first_key_captures_query s"
  then show "query_guarded (s\<lparr>bs_query := q\<rparr>)"
    by (simp add: query_guarded_def first_key_captures_query_def)
next
  fix s
  assume "summarize_loop f bs 4 0 default_summary = Ok s"
  from yieldsD [OF summarize_loop_keeps_query this] show "query_guarded s"
    by (simp add: query_guarded_def default_summary_def)
qed

lemma summarize_bson_guarded: "yields (summarize_bson bs) query_guarded"
  unfolding summarize_bson_def summarize_bson_inner_def by (rule summarize_document_guarded)

lemma summarize_bson_inner_guarded: "yields (summarize_bson_inner bs allow) query_guarded"
  unfolding summarize_bson_inner_def by (rule summarize_document_guarded)

lemma summarize_prefix_loop_keeps:
  "yields (summarize_prefix_loop bs available offset ordinal s)
     (\<lambda>s'. bs_query s' = bs_query s \<and> (0 < ordinal \<longrightarrow> bs_first_key s' = bs_first_key s))"
proof (induction bs available offset ordinal s rule: summarize_prefix_loop.induct)
  case (1 bs available offset ordinal s)
  show ?case
    unfolding summarize_prefix_loop.simps [of bs available offset]
  proof (intro yield_rules)
    fix t r p key start n s1 s2
    assume step: "offset < available" "slice_get bs offset = Some t"
      "(attempt (read_cstring bs (offset + 1)) :: (string \<times> usize) option decode) = Ok r"
      "r = Some p" "p = (key, start)" "(attempt (skip_value bs start t) :: usize option decode) = Ok n"
      "summarize_first bs key t start ordinal s = Ok s1" "summarize_prefix_element bs key t start n s1 = Ok s2"
    have keep: "bs_query s2 = bs_query s \<and> (0 < ordinal \<longrightarrow> bs_first_key s2 = bs_first_key s)"
      using yieldsD [OF summarize_first_keeps_query step(7)] yieldsD [OF summarize_prefix_element_keeps step(8)] by simp
    then show "bs_query s2 = bs_query s \<and> (0 < ordinal \<longrightarrow> bs_first_key s2 = bs_first_key s)" .
    then show "bs_query s2 = bs_query s \<and> (0 < ordinal \<longrightarrow> bs_first_key s2 = bs_first_key s)" .
    fix n'
    assume "n = Some n'" "n' > start \<and> n' \<le> available"
    note rest = "1.IH" [OF step(1-4) step(5) [symmetric] step(6-8) this]
    show "yields (summarize_prefix_loop bs available n' (ordinal + 1) s2)
        (\<lambda>s'. bs_query s' = bs_query s \<and> (0 < ordinal \<longrightarrow> bs_first_key s' = bs_first_key s))"
      by (rule yields_mono [OF rest]) (use keep in simp)
  qed simp_all
qed

lemma summarize_bson_prefix_guarded: "yields (summarize_bson_prefix bs) query_guarded"
  unfolding summarize_bson_prefix_def Let_def
proof (intro yield_rules summarize_bson_inner_guarded)
  fix s available
  assume "summarize_prefix_loop bs available 4 0 default_summary = Ok s"
  from yieldsD [OF summarize_prefix_loop_keeps this] show "query_guarded s"
    by (simp add: query_guarded_def default_summary_def)
qed

text \<open>What a decoded command may carry.\<close>

definition deny_by_default :: "decoded_message \<Rightarrow> bool" where
  "deny_by_default m \<longleftrightarrow>
     (case dm_command m of
        None \<Rightarrow> True
      | Some c \<Rightarrow>
          (cmd_query c \<noteq> None \<longrightarrow> command_captures_query (to_ascii_lowercase (cmd_name c))) \<and>
          (cmd_collection c \<noteq> None \<longrightarrow> command_has_collection_argument (to_ascii_lowercase (cmd_name c))) \<and>
          (cmd_delete_scope c \<noteq> None \<or> cmd_delete_statements c \<noteq> None \<longrightarrow>
             to_ascii_lowercase (cmd_name c) = ''delete''))"

lemma command_from_summary_guarded:
  assumes "query_guarded s"
  shows "deny_by_default (m\<lparr>dm_command := command_from_summary s\<rparr>)"
proof (cases "bs_first_key s")
  case None
  then show ?thesis by (simp add: deny_by_default_def command_from_summary_def)
next
  case (Some name)
  with assms show ?thesis
    unfolding deny_by_default_def command_from_summary_def
    by (auto simp add: Let_def query_guarded_def first_key_captures_query_def)
qed

lemma deny_by_defaultI:
  assumes "query_guarded s" and "dm_command m = None \<or> dm_command m = command_from_summary s"
  shows "deny_by_default m"
proof (cases "dm_command m")
  case None
  then show ?thesis by (simp add: deny_by_default_def)
next
  case (Some c)
  with assms(2) have "m\<lparr>dm_command := command_from_summary s\<rparr> = m" by (cases m) simp
  with command_from_summary_guarded [OF assms(1), of m] show ?thesis by simp
qed

lemma op_msg_sections_guarded:
  "(\<forall>s. summary = Some s \<longrightarrow> query_guarded s) \<Longrightarrow>
   yields (op_msg_sections payload end' offset summary deletes sequences)
     (\<lambda>r. \<forall>s. fst r = Some s \<longrightarrow> query_guarded s)"
proof (induction "end' - offset" arbitrary: offset summary deletes sequences rule: less_induct)
  case less
  have later: "yields (op_msg_sections payload end' offset' s' d q)
      (\<lambda>r. \<forall>s. fst r = Some s \<longrightarrow> query_guarded s)"
    if "offset < end'" "\<not> sint size' < 5"
      "ok_or (checked_add (offset + 1) (i32_as_usize size')) InvalidBson = Inr offset'"
      "\<forall>s. s' = Some s \<longrightarrow> query_guarded s" for offset' size' s' d q
    using less.hyps [of offset' s' d q] that by (simp add: diff_less_mono2)
  show ?case
    unfolding op_msg_sections.simps [of payload end' offset]
  proof (intro yield_rules)
    fix document_length document_end s'
    assume head: "offset < end'" "\<not> sint document_length < 5"
      "ok_or (checked_add (offset + 1) (i32_as_usize document_length)) InvalidBson = Inr document_end"
      and s': "(case summary of
          None \<Rightarrow> rbind (slice_sub payload (offset + 1) document_end)
                    (\<lambda>document. rbind (summarize_bson document) (\<lambda>s. Ok (Some s)))
        | Some s \<Rightarrow> Ok (Some s)) = Ok s'"
    have "\<forall>s. s' = Some s \<longrightarrow> query_guarded s"
      using s' less.prems yieldsD [OF summarize_bson_guarded]
      by (auto simp del: slice_sub_eq_Inr split: option.splits)
    with head show "yields (op_msg_sections payload end' document_end s' deletes sequences)
        (\<lambda>r. \<forall>s. fst r = Some s \<longrightarrow> query_guarded s)"
      by (intro later)
  qed ((rule later; (assumption | rule less.prems)) | (use less.prems in simp))+
qed

lemma attach_sequences_guarded: "query_guarded s \<Longrightarrow> query_guarded (attach_sequences q s)"
  by (erule query_guarded_update) (auto simp: attach_sequences_def split: option.splits json_value.splits)

lemma delete_sequence_guarded:
  "query_guarded s \<Longrightarrow> query_guarded (case deletes of None \<Rightarrow> s
     | Some (scope, n) \<Rightarrow> s\<lparr>bs_delete_scope := scope, bs_delete_statements := Some n\<rparr>)"
  by (erule query_guarded_update) (auto split: option.splits)

lemma decode_op_msg_denies: "yields (decode_op_msg rid rto n payload compressed) deny_by_default"
  unfolding decode_op_msg_def Let_def
proof (intro yield_rules, goal_cases)
  case (1 flags r s rest deletes sequences summary)
  then have "query_guarded summary"
    using yieldsD [OF op_msg_sections_guarded, of None] by fastforce
  then show ?case
    by (intro deny_by_defaultI [OF attach_sequences_guarded [OF delete_sequence_guarded],
        where q1 = sequences and deletes2 = deletes]) (simp_all, intro impI disjI2 refl)
qed

lemma decode_op_msg_prefix_denies: "yields (decode_op_msg_prefix rid rto n payload) deny_by_default"
  unfolding decode_op_msg_prefix_def
  by (intro yield_rules) (rule deny_by_defaultI [OF yieldsD [OF summarize_bson_prefix_guarded]], assumption, simp)

lemma decoded_op_query_denies:
  assumes "query_guarded s"
  shows "deny_by_default (decoded_op_query rid rto n flags namespace s compressed)"
proof -
  obtain database collection is_command where split: "split_legacy_namespace namespace = (database, collection, is_command)"
    by (cases "split_legacy_namespace namespace") auto
  note base = command_from_summary_guarded [OF assms, of "decoded_op_query rid rto n flags namespace s compressed"]
  have legacy: "command_captures_query (to_ascii_lowercase ''find'')"
    "command_has_collection_argument (to_ascii_lowercase ''find'')"
    by code_simp+
  show ?thesis
  proof (cases "rto = 0 \<and> is_command")
    case True
    with base split show ?thesis
      by (cases "command_from_summary s")
        (simp_all add: decoded_op_query_def deny_by_default_def)
  next
    case False
    with split legacy show ?thesis
      by (simp add: decoded_op_query_def deny_by_default_def)
  qed
qed

lemma decode_op_query_denies: "yields (decode_op_query rid rto n payload compressed) deny_by_default"
  unfolding decode_op_query_def
  by (intro yield_rules) (rule decoded_op_query_denies [OF yieldsD [OF summarize_bson_guarded]])

lemma decode_op_query_prefix_denies: "yields (decode_op_query_prefix rid rto n payload) deny_by_default"
  unfolding decode_op_query_prefix_def
  by (intro yield_rules) (rule decoded_op_query_denies [OF yieldsD [OF summarize_bson_prefix_guarded]])

lemma decoded_op_reply_denies: "deny_by_default (decoded_op_reply rid rto n flags s compressed)"
  by (simp add: deny_by_default_def decoded_op_reply_def Let_def)

lemma decode_op_reply_denies:
  "yields (decode_op_reply rid rto n payload compressed) deny_by_default"
  "yields (decode_op_reply_prefix rid rto n payload) deny_by_default"
  unfolding decode_op_reply_def decode_op_reply_prefix_def
  by (intro yield_rules decoded_op_reply_denies)+

lemma decode_compressed_denies: "yields (decode_compressed codec rid rto n payload max_message) deny_by_default"
  unfolding decode_compressed_def
  by (intro yield_rules decode_op_msg_denies decode_op_query_denies decode_op_reply_denies)

lemma decode_frame_denies: "yields (decode_frame codec frame max_message) deny_by_default"
  unfolding decode_frame_def
  by (intro yield_rules decode_op_msg_denies decode_op_query_denies decode_op_reply_denies decode_compressed_denies)

lemma decode_frame_prefix_denies: "yields (decode_frame_prefix codec prefix max_message) deny_by_default"
  unfolding decode_frame_prefix_def Let_def
  by (intro yield_rules decode_frame_denies decode_op_msg_prefix_denies decode_op_query_prefix_denies
      decode_op_reply_denies)

text \<open>
  C35: deny by default. Whatever bytes arrive, a command decoded from a complete or a truncated frame
  carries query content only if its name is \<open>find\<close>, \<open>aggregate\<close>, \<open>insert\<close>, \<open>update\<close> or \<open>delete\<close>,
  a collection only if the command takes a collection argument, and delete facts only if it is a
  \<open>delete\<close>; names are compared without regard to ASCII case.
\<close>

theorem decoded_commands_deny_by_default:
  "yields (decode_frame codec frame max_message) deny_by_default \<and>
   yields (decode_frame_prefix codec prefix max_message) deny_by_default"
  by (intro conjI decode_frame_denies decode_frame_prefix_denies)

subsection \<open>Truncated messages\<close>

lemma summarize_first_succeeds: "succeeds (summarize_first bs key t start ordinal s)"
  unfolding summarize_first_def Let_def by (intro succeed_rules read_bson_string_safe)

lemma summarize_field_succeeds: "succeeds (summarize_field bs key t start s)"
  unfolding summarize_field_def by (intro succeed_rules read_bson_string_safe read_bson_binary_safe)

lemma summarize_prefix_element_succeeds: "succeeds (summarize_prefix_element bs key t start n s)"
  unfolding summarize_prefix_element_def
  by (intro succeed_rules summarize_field_succeeds summarize_bson_inner_safe summarize_delete_statements_safe)

text \<open>Reading a truncated document cannot fail once its length field was read.\<close>

lemma summarize_prefix_loop_succeeds: "succeeds (summarize_prefix_loop bs available offset ordinal s)"
proof (induction bs available offset ordinal s rule: summarize_prefix_loop.induct)
  case (1 bs available offset ordinal s)
  show ?case
    unfolding summarize_prefix_loop.simps [of bs available offset]
    by (intro succeed_rules read_cstring_safe skip_value_safe summarize_first_succeeds
        summarize_prefix_element_succeeds; (rule "1.IH"; (assumption | rule sym, assumption)))
qed

text \<open>The first element of a truncated document names the command.\<close>

lemma prefix_loop_first_key:
  assumes bs: "drop 4 bs = element_header t key @ rest" and len: "4 \<le> length bs" and "4 < available"
    and "c_string key"
    and loop: "summarize_prefix_loop bs available 4 0 s = Ok s'"
  shows "bs_first_key s' = Some key"
proof -
  have "slice_get bs 4 = Some t"
    using bs len by (intro slice_get_reads) (auto simp: element_header_def)
  have "drop 5 bs = as_bytes key @ 0 # rest"
    using drop_next [of 4 bs "[t]"] bs by (simp add: element_header_def)
  then have name: "read_cstring bs (4 + 1) = Ok (key, 5 + length key + 1)"
    using assms(4) drop_length [OF bs len] read_cstring_reads [of 5 bs key rest] by simp
  have "yields (summarize_prefix_loop bs available 4 0 s) (\<lambda>s'. bs_first_key s' = Some key)"
    unfolding summarize_prefix_loop.simps [of bs available 4]
  proof (intro yield_rules)
    fix t' r p key' start n s1 s2
    assume step: "(attempt (read_cstring bs (4 + 1)) :: (string \<times> usize) option decode) = Ok r"
      "r = Some p" "p = (key', start)" "summarize_first bs key' t' start 0 s = Ok s1"
      "summarize_prefix_element bs key' t' start n s1 = Ok s2"
    have first: "bs_first_key s2 = Some key"
      using name step(1-3) yieldsD [OF summarize_first_keeps_query step(4)]
        yieldsD [OF summarize_prefix_element_keeps step(5)] by simp
    then show "bs_first_key s2 = Some key" .
    then show "bs_first_key s2 = Some key" .
    show "yields (summarize_prefix_loop bs available n' (0 + 1) s2) (\<lambda>s'. bs_first_key s' = Some key)" for n'
      by (rule yields_mono [OF summarize_prefix_loop_keeps]) (use first in simp)
  qed (use \<open>slice_get bs 4 = Some t\<close> name assms(3) in simp_all)
  with loop show ?thesis by (auto dest: yieldsD)
qed

lemma read_i32_take: "offset + 4 \<le> k \<Longrightarrow> read_i32 (take k bs) offset = read_i32 bs offset"
  by (simp add: read_i32_def slice_range_def drop_take)

lemma read_u32_take: "offset + 4 \<le> k \<Longrightarrow> read_u32 (take k bs) offset = read_u32 bs offset"
  by (simp add: read_u32_def slice_range_def drop_take)

lemma summarize_bson_prefix_truncated:
  assumes document_def: "document = enc_document ((key, v) # members)"
    and "c_string key" and "length document < 2 ^ 31" and "6 + length key \<le> j" and "j < length document"
  shows "\<exists>s. summarize_bson_prefix (take j document) = Ok s \<and> bs_first_key s = Some key \<and> bs_query s = None"
proof -
  let ?bs = "take j document"
  have "read_i32 document 0 = Ok (i32_of_usize (length document))"
    using document_length_reads [of 0 document "[enc_members ((key, v) # members)]" "[]"]
    by (simp add: document_def enc_document_def)
  then have declared: "read_i32 ?bs 0 = Ok (i32_of_usize (length document))"
    using assms(4) by (simp add: read_i32_take)
  have body: "drop 4 document = element_header (bson_tag v) key @ enc_value v @ enc_members members @ [0]"
    by (simp add: document_def enc_document_def drop_document)
  have "take (j - 4) (drop 4 document) =
      element_header (bson_tag v) key @ take (j - 6 - length key) (enc_value v @ enc_members members @ [0])"
    unfolding body using assms(4) by simp
  then have bs: "drop 4 ?bs = element_header (bson_tag v) key @ take (j - 6 - length key) (enc_value v @ enc_members members @ [0])"
    by (simp add: drop_take)
  obtain s where s: "summarize_prefix_loop ?bs (min j (length document - 1)) 4 0 default_summary = Ok s"
    using summarize_prefix_loop_succeeds unfolding succeeds_def by blast
  have key: "bs_first_key s = Some key"
    using assms(4,5) by (intro prefix_loop_first_key [OF bs _ _ assms(2) s]) auto
  have query: "bs_query s = None"
    using yieldsD [OF summarize_prefix_loop_keeps s] by (simp add: default_summary_def)
  have "\<not> length ?bs < 5" "\<not> sint (i32_of_usize (length document)) < 5"
      "\<not> i32_as_usize (i32_of_usize (length document)) \<le> length ?bs"
    using assms(3-5) by (simp_all add: i32_of_usize_sint i32_as_usize_of_usize)
  with declared s key query assms(3,5) show ?thesis
    by (simp add: summarize_bson_prefix_def Let_def i32_as_usize_of_usize)
qed

subsection \<open>SCRAM user names\<close>

text \<open>The escaping of RFC 5802, and the first message of a SCRAM client.\<close>

fun scram_escape :: "string \<Rightarrow> string" where
  "scram_escape [] = []"
| "scram_escape (c # s) =
     (if c = CHR ''='' then ''=3D'' else if c = CHR '','' then ''=2C'' else [c]) @ scram_escape s"

definition scram_client_first :: "string \<Rightarrow> string \<Rightarrow> string" where
  "scram_client_first user nonce = ''n,,n='' @ scram_escape user @ '',r='' @ nonce"

fun scram_half_escape :: "string \<Rightarrow> string" where
  "scram_half_escape [] = []"
| "scram_half_escape (c # s) = (if c = CHR ''='' then ''=3D'' else [c]) @ scram_half_escape s"

lemma scram_escape_comma: "CHR '','' \<notin> set (scram_escape user)"
  by (induction user) auto

lemma scram_escape_length: "length (scram_escape user) \<le> 3 * length user"
  by (induction user) auto

lemma scram_escape_Nil: "scram_escape user = [] \<longleftrightarrow> user = []"
  by (cases user) auto

lemma replace_commas: "str_replace ''=2C'' '','' (scram_escape user) = scram_half_escape user"
  by (induction user) auto

lemma replace_equals: "str_replace ''=3D'' ''='' (scram_half_escape user) = user"
  by (induction user) auto

text \<open>
  C37: the user name a client sends in its first SCRAM message is recovered exactly, with its
  escaped equals signs and commas, if it is not empty, has at most 256 bytes and no control
  character.
\<close>

theorem scram_user_name_round_trip:
  assumes "user \<noteq> []" and "length user \<le> 256" and "\<not> has_control user"
    and "utf8_string (scram_client_first user nonce)"
  shows "parse_scram_principal (as_bytes (scram_client_first user nonce)) = Some user"
proof -
  have parts: "split_on (CHR '','') (scram_client_first user nonce) =
      ''n'' # [] # (''n='' @ scram_escape user) # split_on (CHR '','') (''r='' @ nonce)"
    using split_on_append [of "CHR '',''" "''n='' @ scram_escape user" "''r='' @ nonce"] scram_escape_comma
    by (simp add: scram_client_first_def)
  have "length (scram_escape user) \<le> 768"
    using scram_escape_length [of user] assms(2) by simp
  with assms parts show ?thesis
    by (simp add: parse_scram_principal_def utf8_string_def from_utf8_as_bytes scram_escape_Nil
        replace_commas replace_equals Let_def)
qed
subsection \<open>Witnesses\<close>

definition sample_members :: "(string \<times> bson) list" where
  "sample_members = [(''find'', BString ''orders''), (''filter'', BDocument [(''qty'', BInt32 5)]), (''$db'', BString ''sales'')]"

lemma sample_members_wf: "wf_members sample_members" "length (enc_document sample_members) = 59"
  by code_simp+

theorem decompression_is_bounded_witness:
  "length (projr (decompress stored_codec 2 3 [1, 2, 3, 4, 5])) \<le> 3 + 1"
  using decompression_is_bounded [of stored_codec 0 0 0 "[]" 256 undefined 2 3 "[1, 2, 3, 4, 5]" "[1, 2, 3, 4]"]
  by (simp add: decompress_def take_read_to_end_def stored_codec_def)

theorem scram_user_name_round_trip_witness:
  "parse_scram_principal (as_bytes (scram_client_first ''a=b,c'' ''xyz'')) = Some ''a=b,c''"
  by (rule scram_user_name_round_trip) code_simp+
subsection \<open>Document sequences cut off by the capture\<close>

text \<open>
  An \<open>insert\<close> whose documents travel in a kind-1 section, captured up to the end of its body
  document: the prefix decoder takes the body for the complete command and returns it as query
  content, without the documents that the complete message carries.
\<close>

definition cut_insert :: bytes where
  "cut_insert = op_msg_with_document_sequence 9 (enc_document [(''insert'', BString ''c'')]) ''documents''
     [enc_document [(''a'', BInt32 1)]]"

lemma cut_sequence_yields_partial_query:
  "map_option cmd_query (dm_command (projr (decode_frame_prefix stored_codec (take 45 cut_insert) 256))) =
     Some (Some (JObject [(''insert'', JString ''c'')])) \<and>
   map_option cmd_query (dm_command (projr (decode_frame stored_codec cut_insert 256))) =
     Some (Some (JObject [(''insert'', JString ''c''),
       (''documents'', JArray [JObject [(''a'', JNumber (PosInt 1))]])]))"
  by code_simp

end
