(* ===== verification/Prefix_Spec.thy ===== *)
theory Prefix_Spec
  imports Wire_Spec
begin

text \<open>
  Messages longer than the capture limit. The kernel copies a bounded prefix of a large message, and
  \<open>summarize_bson_prefix\<close> of \<open>crates/mongo-protocol/src/lib.rs\<close> reads what it can of the cut document. This
  theory says which members of a document are visible in a prefix of its encoding, proves that the
  summarizer computes the meaning of exactly those, and concludes that what the sensor reports of a
  truncated message agrees with the complete message.
\<close>

subsection \<open>Readers on an extended slice\<close>

text \<open>A reader that succeeds on a slice returns the same on every slice that extends it.\<close>

definition survives :: "('e, 'a) result \<Rightarrow> ('e, 'a) result \<Rightarrow> bool" where
  "survives r r' \<longleftrightarrow> (\<forall>x. r = Inr x \<longrightarrow> r' = Inr x)"

named_theorems survive_rules \<open>readers whose result an extension of the slice keeps\<close>

lemma survives_refl [survive_rules]: "survives r r" by (simp add: survives_def)

lemma survivesD: "survives r r' \<Longrightarrow> r = Inr x \<Longrightarrow> r' = Inr x" by (simp add: survives_def)

lemma survives_Fail [survive_rules]: "survives (Fail e) r" by (simp add: survives_def)

lemma survives_rbind [survive_rules]:
  "survives r r' \<Longrightarrow> (\<And>x. survives (f x) (f' x)) \<Longrightarrow> survives (rbind r f) (rbind r' f')"
  by (auto simp: survives_def)

lemma survives_if [survive_rules]:
  "survives x x' \<Longrightarrow> survives y y' \<Longrightarrow> survives (if c then x else y) (if c then x' else y')"
  by simp

lemma survives_prod [survive_rules]:
  "(\<And>a b. survives (f a b) (f' a b)) \<Longrightarrow> survives (case p of (a, b) \<Rightarrow> f a b) (case p of (a, b) \<Rightarrow> f' a b)"
  by (cases p) simp

lemma survives_option [survive_rules]:
  "survives x x' \<Longrightarrow> (\<And>a. survives (f a) (f' a)) \<Longrightarrow>
   survives (case p of None \<Rightarrow> x | Some a \<Rightarrow> f a) (case p of None \<Rightarrow> x' | Some a \<Rightarrow> f' a)"
  by (cases p) simp_all

lemma read_i32_append [survive_rules]: "survives (read_i32 bs offset) (read_i32 (bs @ b) offset)"
  by (auto simp: survives_def read_i32_def slice_range_def split: if_splits)

lemma position_append_Some: "position p xs = Some i \<Longrightarrow> position p (xs @ ys) = Some i"
  by (induction xs arbitrary: i) (auto split: if_splits)

lemma read_cstring_append [survive_rules]: "survives (read_cstring bs offset) (read_cstring (bs @ b) offset)"
  by (auto simp: survives_def read_cstring_def slice_from_def position_append_Some split: if_splits dest: position_SomeD)

lemma end_within_append [survive_rules]: "survives (end_within bs offset n) (end_within (bs @ b) offset n)"
  by (auto simp: survives_def)

lemma skip_value_append [survive_rules]: "survives (skip_value bs offset t) (skip_value (bs @ b) offset t)"
  unfolding skip_value_def by (intro survive_rules)

text \<open>Where a value can be read it can be skipped.\<close>

lemma skip_value_of_string:
  assumes "read_bson_string bs offset = Inr s"
  shows "\<exists>e. skip_value bs offset 0x02 = Inr e"
proof -
  obtain len where "read_i32 bs offset = Inr len" "\<not> sint len < 1"
    "offset + 4 + i32_as_usize len \<le> usize_max" "\<not> length bs < offset + 4 + i32_as_usize len"
    using assms unfolding read_bson_string_def by (auto split: if_splits simp del: slice_index_eq_Inr slice_sub_eq_Inr)
  then show ?thesis by (simp add: skip_value_def fixed_size_def)
qed

lemma skip_value_of_binary:
  assumes "read_bson_binary bs offset = Inr d"
  shows "\<exists>e. skip_value bs offset 0x05 = Inr e"
proof -
  obtain len where "read_i32 bs offset = Inr len" "\<not> sint len < 0"
    "offset + 5 + i32_as_usize len \<le> usize_max" "offset + 5 + i32_as_usize len \<le> length bs"
    using assms unfolding read_bson_binary_def by (auto split: if_splits)
  then show ?thesis by (simp add: skip_value_def fixed_size_def)
qed

lemma read_f64_bits_bound: "read_f64_bits bs offset = Some w \<Longrightarrow> offset + 8 \<le> length bs"
  by (auto simp: read_f64_bits_def)

lemma fixed_values:
  "t \<in> {0x01, 0x12} \<Longrightarrow> offset + 8 \<le> length bs \<Longrightarrow> length bs \<le> usize_max \<Longrightarrow> skip_value bs offset t = Inr (offset + 8)"
  "offset + 4 \<le> length bs \<Longrightarrow> length bs \<le> usize_max \<Longrightarrow> skip_value bs offset 0x10 = Inr (offset + 4)"
  "offset < length bs \<Longrightarrow> length bs \<le> usize_max \<Longrightarrow> skip_value bs offset 0x08 = Inr (offset + 1)"
  by (auto simp: skip_value_def fixed_size_def)

lemma skip_value_of_scalars:
  assumes "length bs \<le> usize_max"
  shows "read_boolish bs offset t \<noteq> None \<Longrightarrow> \<exists>e. skip_value bs offset t = Inr e"
    and "read_i32ish bs offset t \<noteq> None \<Longrightarrow> \<exists>e. skip_value bs offset t = Inr e"
    and "read_u64ish bs offset t \<noteq> None \<Longrightarrow> \<exists>e. skip_value bs offset t = Inr e"
  using fixed_values read_f64_bits_bound [of bs offset] read_i32_bound [of bs offset] assms
  by (auto simp: read_boolish_def read_i32ish_def read_u64ish_def result_ok_def slice_get_def
      split: if_splits sum.splits Option.bind_splits)

subsection \<open>What is visible in a prefix\<close>

text \<open>
  Of a document whose members take up \<open>r\<close> captured bytes: the members read completely, and the one whose
  key is complete and whose value is cut, if there is one. The loop also ends at a value that takes
  no bytes (null, undefined and the key markers), although the members after it may be captured.
\<close>

fun visible :: "nat \<Rightarrow> (string \<times> bson) list \<Rightarrow> (string \<times> bson) list \<times> (string \<times> bson) option" where
  "visible r [] = ([], None)"
| "visible r ((key, v) # members) =
     (if r < length key + 2 then ([], None)
      else if r < length key + 2 + length (enc_value v) then ([], Some (key, v))
      else if enc_value v = [] then ([(key, v)], None)
      else apfst ((#) (key, v)) (visible (r - (length key + 2 + length (enc_value v))) members))"

text \<open>A cut value is not read: the field it would have filled is empty.\<close>

definition cut_field :: "string \<Rightarrow> bson \<Rightarrow> bson_summary \<Rightarrow> bson_summary" where
  "cut_field key v summary =
     (if key = ''$db'' \<and> string_of v \<noteq> None then summary\<lparr>bs_database := None\<rparr>
      else if key = ''collection'' \<and> string_of v \<noteq> None then summary\<lparr>bs_collection := None\<rparr>
      else if key = ''ok'' then summary\<lparr>bs_ok := None\<rparr>
      else if key = ''code'' then summary\<lparr>bs_code := None\<rparr>
      else if key = ''n'' then summary\<lparr>bs_affected_count := None\<rparr>
      else if key = ''done'' then summary\<lparr>bs_auth_done := None\<rparr>
      else if key = ''codeName'' \<and> string_of v \<noteq> None then summary\<lparr>bs_code_name := None\<rparr>
      else if key = ''mechanism'' \<and> string_of v \<noteq> None then summary\<lparr>bs_auth_mechanism := None\<rparr>
      else if key = ''user'' \<and> string_of v \<noteq> None then summary\<lparr>bs_principal := None\<rparr>
      else summary)"

definition cut_first :: "string \<Rightarrow> bson \<Rightarrow> bson_summary \<Rightarrow> bson_summary" where
  "cut_first key v summary =
     (let summary = summary\<lparr>bs_first_key := Some key\<rparr> in
      if string_of v \<noteq> None then summary\<lparr>bs_first_string := None\<rparr> else summary)"

definition cut_spec :: "nat \<Rightarrow> (string \<times> bson) option \<Rightarrow> bson_summary \<Rightarrow> bson_summary" where
  "cut_spec ordinal partial summary =
     (case partial of
        None \<Rightarrow> summary
      | Some (key, v) \<Rightarrow> cut_field key v (if ordinal = 0 then cut_first key v summary else summary))"

text \<open>The meaning of a document of which \<open>r\<close> bytes of members were captured.\<close>

definition prefix_spec :: "nat \<Rightarrow> nat \<Rightarrow> (string \<times> bson) list \<Rightarrow> bson_summary \<Rightarrow> bson_summary" where
  "prefix_spec ordinal r members summary =
     (case visible r members of (seen, partial) \<Rightarrow>
        cut_spec (ordinal + length seen) partial (members_spec (Some nested_spec) ordinal seen summary))"

lemma prefix_spec_Nil: "prefix_spec ordinal r [] summary = summary"
  by (simp add: prefix_spec_def cut_spec_def)

lemma prefix_spec_Cons:
  "r < length key + 2 \<Longrightarrow> prefix_spec ordinal r ((key, v) # members) summary = summary"
  "length key + 2 \<le> r \<Longrightarrow> r < length key + 2 + length (enc_value v) \<Longrightarrow>
   prefix_spec ordinal r ((key, v) # members) summary = cut_spec ordinal (Some (key, v)) summary"
  "length key + 2 + length (enc_value v) \<le> r \<Longrightarrow>
   prefix_spec ordinal r ((key, v) # members) summary =
     (let complete = element_spec (Some nested_spec) key v (if ordinal = 0 then first_spec key v summary else summary) in
      if enc_value v = [] then complete
      else prefix_spec (Suc ordinal) (r - (length key + 2 + length (enc_value v))) members complete)"
  by (cases "visible (r - (length key + 2 + length (enc_value v))) members";
      simp add: prefix_spec_def cut_spec_def Let_def)+

lemma failed_attempt: "safe r \<Longrightarrow> \<nexists>x. r = Inr x \<Longrightarrow> attempt r = Ok None"
  by (auto simp: safe_def attempt_def split: sum.splits fault.splits)

subsection \<open>A value that is cut off\<close>

lemma skip_value_cut:
  assumes "drop start document = enc_value v @ b" and "start \<le> j" and "j < start + length (enc_value v)"
    and "length document < 2 ^ 31" and "wf_bson v" 
  shows "skip_value (take j document) start (bson_tag v) \<noteq> Inr e"
proof
  assume "skip_value (take j document) start (bson_tag v) = Inr e"
  from survivesD [OF skip_value_append this, of "drop j document"] skip_value_bounds [OF this]
  have "skip_value document start (bson_tag v) = Inr e" and "e \<le> j" by simp_all
  moreover have "start \<le> length document" 
    using assms(1-3) by (cases "start \<le> length document") auto
  ultimately show False
    using skip_value_reads [OF assms(1) _ assms(4,5)] assms(3) by simp
qed

lemma summarize_cut:
  assumes cut: "\<And>e. skip_value bs start (bson_tag v) \<noteq> Inr e" and small: "length bs < 2 ^ 31"
  shows "summarize_first bs key (bson_tag v) start ordinal summary =
      Ok (if ordinal = 0 then cut_first key v summary else summary)"
    and "summarize_prefix_element bs key (bson_tag v) start None summary = Ok (cut_field key v summary)"
proof -
  have str: "(attempt (read_bson_string bs start) :: string option decode) = Ok None" if "string_of v \<noteq> None"
    using that cut skip_value_of_string [of bs start] string_of_tag [of v]
    by (intro failed_attempt) auto
  have bin: "(attempt (read_bson_binary bs start) :: bytes option decode) = Ok None" if "binary_of v \<noteq> None"
    using that cut skip_value_of_binary [of bs start] binary_of_tag [of v]
    by (intro failed_attempt) auto
  have "length bs \<le> usize_max" using small by (simp add: usize_max_def)
  from skip_value_of_scalars [OF this, of start "bson_tag v"] cut
  have scalars: "read_boolish bs start (bson_tag v) = None" "read_i32ish bs start (bson_tag v) = None"
    "read_u64ish bs start (bson_tag v) = None"
    by blast+
  show "summarize_first bs key (bson_tag v) start ordinal summary =
      Ok (if ordinal = 0 then cut_first key v summary else summary)"
    using str by (simp add: summarize_first_def cut_first_def string_of_tag Let_def)
  have "summarize_field bs key (bson_tag v) start summary = Ok (cut_field key v summary)"
    unfolding summarize_field_def cut_field_def string_of_tag binary_of_tag if_distrib [of Inr] scalars
    using str bin by (cases "string_of v"; cases "binary_of v") simp_all
  then show "summarize_prefix_element bs key (bson_tag v) start None summary = Ok (cut_field key v summary)"
    by (auto simp: summarize_prefix_element_def cut_field_def)
qed

lemma summarize_prefix_element_reads:
  assumes at: "drop start bs = enc_value v @ b" "start \<le> length bs" "length bs < 2 ^ 31" "wf_bson v"
  shows "summarize_prefix_element bs key (bson_tag v) start (Some (start + length (enc_value v))) summary =
    Ok (element_spec (Some nested_spec) key v summary)"
proof -
  have nested: "nested_agrees (Some (\<lambda>value. summarize_bson_inner value False)) (Some nested_spec)"
    by (simp add: nested_agrees_def nested_spec_def summarize_bson_inner_def summarize_document_reads)
  have "slice_range bs start (start + length (enc_value v)) = Some (enc_value v)"
    using slice_range_reads [OF at(1,2)] .
  then have "summarize_prefix_element bs key (bson_tag v) start (Some (start + length (enc_value v))) summary =
    summarize_element (Some (\<lambda>value. summarize_bson_inner value False)) bs key (bson_tag v) start
      (start + length (enc_value v)) summary"
    by (simp add: summarize_prefix_element_def summarize_element_def del: slice_range_eq_Some)
  with summarize_element_reads [OF at nested] show ?thesis by simp
qed

subsection \<open>The loop\<close>

lemma read_cstring_cut:
  assumes "drop offset document = as_bytes s @ b" and "c_string s" and "j \<le> offset + length s" 
  shows "(attempt (read_cstring (take j document) offset) :: (string \<times> usize) option decode) = Ok None"
proof (intro failed_attempt read_cstring_safe notI)
  assume "\<exists>x. read_cstring (take j document) offset = Inr x"
  then obtain i where "position (\<lambda>b. b = 0) (drop offset (take j document)) = Some i"
    by (auto simp: read_cstring_def slice_from_def split: if_splits)
  then have i: "i < j - offset" "drop offset (take j document) ! i = 0"
    by (auto dest: position_SomeD)
  moreover have "drop offset (take j document) ! i = as_bytes s ! i"
    using i(1) assms(1,3) by (simp add: drop_take nth_append)
  moreover have "as_bytes s ! i \<noteq> 0"
  proof -
    have "i < length s" using assms(3) i(1) by simp
    then show ?thesis
      using assms(2) nth_mem [of i s] by (auto simp: c_string_def as_bytes_def char_byte_zero simp del: nth_mem)
  qed
  ultimately show False by simp
qed

lemma header_reads:
  assumes bs: "drop offset bs = element_header t key @ b" and offset: "offset \<le> length bs" and key: "c_string key"
  shows "slice_get bs offset = Some t" and "read_cstring bs (offset + 1) = Ok (key, offset + length key + 2)"
proof -
  show "slice_get bs offset = Some t"
    using bs offset by (intro slice_get_reads) (auto simp: element_header_def)
  have "drop (offset + 1) bs = as_bytes key @ 0 # b"
    using drop_next [of offset bs "[t]"] bs by (simp add: element_header_def)
  then show "read_cstring bs (offset + 1) = Ok (key, offset + length key + 2)"
    using read_cstring_reads [of "offset + 1" bs key b] key drop_length [OF bs offset] by simp
qed

text \<open>One round of the loop: the key is cut, the value is cut, or the element is complete.\<close>

lemma prefix_loop_cut_key:
  assumes whole: "drop offset document = element_header t key @ b" and "c_string key"
    and "offset \<le> j" "j < offset + length key + 2"
  shows "summarize_prefix_loop (take j document) j offset ordinal summary = Ok summary"
proof -
  have "drop (offset + 1) document = as_bytes key @ 0 # b"
    using drop_next [of offset document "[t]"] whole by (simp add: element_header_def)
  then have "(attempt (read_cstring (take j document) (offset + 1)) :: (string \<times> usize) option decode) = Ok None"
    using assms by (intro read_cstring_cut) auto
  then show ?thesis
    by (simp add: summarize_prefix_loop.simps [of _ _ offset] split: option.split)
qed

lemma prefix_loop_cut_value:
  assumes whole: "drop offset document = element_header (bson_tag v) key @ enc_value v @ b"
    and wf: "c_string key" "wf_bson v" and small: "length document < 2 ^ 31"
    and j: "offset + length key + 2 \<le> j" "j < offset + length key + 2 + length (enc_value v)" "j < length document"
  shows "summarize_prefix_loop (take j document) j offset ordinal summary = Ok (cut_spec ordinal (Some (key, v)) summary)"
proof -
  let ?bs = "take j document" and ?start = "offset + length key + 2"
  have "drop offset ?bs = take (j - offset) (drop offset document)" by (simp add: drop_take)
  also have "\<dots> = element_header (bson_tag v) key @ take (j - ?start) (enc_value v @ b)"
    unfolding whole using j by simp
  finally have bs: "drop offset ?bs = \<dots>" .
  have within: "offset \<le> length ?bs" "offset < j" "offset \<le> length document" "length ?bs < 2 ^ 31"
    using j small by simp_all
  note header = header_reads [OF bs within(1) wf(1)]
  have skipped: "skip_value ?bs ?start (bson_tag v) \<noteq> Inr e" for e
    using skip_value_cut [OF element_reads(3) [OF whole within(3) small wf(1)] j(1,2) small wf(2)] .
  then have "(attempt (skip_value ?bs ?start (bson_tag v)) :: usize option decode) = Ok None"
    by (intro failed_attempt) auto
  with header within(2) summarize_cut [OF skipped within(4)] show ?thesis
    by (simp add: summarize_prefix_loop.simps [of _ _ offset] cut_spec_def del: add_2_eq_Suc')
qed

lemma prefix_loop_complete:
  fixes ordinal summary
  assumes whole: "drop offset document = element_header (bson_tag v) key @ enc_value v @ b"
    and wf: "c_string key" "wf_bson v" and small: "length document < 2 ^ 31"
    and j: "offset + length key + 2 + length (enc_value v) \<le> j" "j < length document"
  defines "after_element \<equiv> element_spec (Some nested_spec) key v (if ordinal = 0 then first_spec key v summary else summary)"
  shows "summarize_prefix_loop (take j document) j offset ordinal summary =
    (if enc_value v = [] then Ok after_element
     else summarize_prefix_loop (take j document) j (offset + length key + 2 + length (enc_value v)) (Suc ordinal) after_element)"
proof -
  let ?bs = "take j document" and ?start = "offset + length key + 2"
  have "drop offset ?bs = take (j - offset) (drop offset document)" by (simp add: drop_take)
  also have "\<dots> = element_header (bson_tag v) key @ enc_value v @ take (j - (?start + length (enc_value v))) b"
    unfolding whole using j by simp
  finally have bs: "drop offset ?bs = \<dots>" .
  have within: "offset \<le> length ?bs" "offset < j" "length ?bs < 2 ^ 31" using j small by simp_all
  note parts = element_reads [OF bs within(1,3) wf(1)]
  have start: "?start \<le> length ?bs" using parts(5) by simp
  note at = parts(3) start within(3) wf(2)
  show ?thesis
    using header_reads [OF bs within(1) wf(1)] within(2) skip_value_reads [OF at] summarize_first_reads [OF at] j(1)
      summarize_prefix_element_reads [OF at]
    by (simp add: summarize_prefix_loop.simps [of _ _ offset] after_element_def del: add_2_eq_Suc')
qed

lemma summarize_prefix_loop_reads:
  "drop offset document = enc_members members @ [0] \<Longrightarrow> offset \<le> j \<Longrightarrow> j < length document \<Longrightarrow>
   length document < 2 ^ 31 \<Longrightarrow> wf_members members \<Longrightarrow>
   summarize_prefix_loop (take j document) j offset ordinal summary =
     Ok (prefix_spec ordinal (j - offset) members summary)"
proof (induction members arbitrary: offset ordinal summary)
  case Nil
  then have "length document = offset + 1" using drop_length [of offset document "[0]" "[]"] by simp
  with Nil show ?case by (simp add: summarize_prefix_loop.simps prefix_spec_Nil)
next
  case (Cons m members)
  obtain key v where m: "m = (key, v)" by (cases m)
  let ?start = "offset + length key + 2"
  have whole: "drop offset document = element_header (bson_tag v) key @ enc_value v @ enc_members members @ [0]"
    using Cons.prems(1) m by simp
  have wf: "c_string key" "wf_bson v" "wf_members members" using Cons.prems(5) m by simp_all
  consider "j < ?start" | "?start \<le> j" "j < ?start + length (enc_value v)" | "?start + length (enc_value v) \<le> j"
    by linarith
  then show ?case
  proof cases
    case 1
    then have "j - offset < length key + 2" using Cons.prems(2) by simp
    then show ?thesis
      using prefix_loop_cut_key [OF whole wf(1) Cons.prems(2) 1] by (simp add: m prefix_spec_Cons(1))
  next
    case 2
    then show ?thesis
      using prefix_loop_cut_value [OF whole wf(1,2) Cons.prems(4) 2 Cons.prems(3)]
      by (simp add: m prefix_spec_Cons(2) del: add_2_eq_Suc')
  next
    case 3
    have "offset \<le> length document" using Cons.prems(2,3) by simp
    note after = element_reads(4) [OF whole this Cons.prems(4) wf(1)]
    have "length key + 2 + length (enc_value v) \<le> j - offset"
      "j - (?start + length (enc_value v)) = j - offset - (length key + 2 + length (enc_value v))"
      using 3 by simp_all
    with prefix_loop_complete [OF whole wf(1,2) Cons.prems(4) 3 Cons.prems(3)]
      Cons.IH [OF after 3 Cons.prems(3,4) wf(3)]
    show ?thesis by (simp add: m prefix_spec_Cons(3) Let_def del: add_2_eq_Suc')
  qed
qed

lemma summarize_bson_prefix_reads:
  assumes document_def: "document = enc_document ((key, v) # members)" and wf: "wf_members ((key, v) # members)"
    and small: "length document < 2 ^ 31" and j: "6 + length key \<le> j" "j < length document"
  shows "summarize_bson_prefix (take j document) = Ok (prefix_spec 0 (j - 4) ((key, v) # members) default_summary)"
proof -
  have loop: "summarize_prefix_loop (take j document) j 4 0 default_summary =
      Ok (prefix_spec 0 (j - 4) ((key, v) # members) default_summary)"
    using wf small j document_def
    by (intro summarize_prefix_loop_reads) (simp_all add: enc_document_def drop_document)
  have "read_i32 document 0 = Ok (i32_of_usize (length document))"
    using document_length_reads [of 0 document "[enc_members ((key, v) # members)]" "[]"]
    by (simp add: document_def enc_document_def)
  then have declared: "read_i32 (take j document) 0 = Ok (i32_of_usize (length document))"
    using j(1) by (simp add: read_i32_take)
  obtain s where s: "summarize_bson_prefix (take j document) = Ok s"
    using summarize_bson_prefix_truncated [OF document_def _ small j] wf by auto
  have "\<not> length (take j document) < 5" "\<not> sint (i32_of_usize (length document)) < 5"
      "\<not> i32_as_usize (i32_of_usize (length document)) \<le> length (take j document)"
      "min (length (take j document)) (i32_as_usize (i32_of_usize (length document)) - 1) = j"
    using small j by (simp_all add: i32_of_usize_sint i32_as_usize_of_usize)
  with s loop declared show ?thesis
    by (simp add: summarize_bson_prefix_def Let_def del: length_take split: if_splits)
qed

subsection \<open>What is visible agrees with the whole\<close>

text \<open>What is known of a field is what the field is.\<close>

definition known :: "'a option \<Rightarrow> 'a option \<Rightarrow> bool" where
  "known x y \<longleftrightarrow> x = None \<or> x = y"

lemma known_simps [simp]: "known None y" "known x x" "known (Some a) y \<longleftrightarrow> y = Some a" "known x None \<longleftrightarrow> x = None"
  by (auto simp: known_def)

lemma known_bind: "known x y \<Longrightarrow> known (Option.bind x f) (Option.bind y f)"
  by (auto simp: known_def)

lemma known_map: "known x y \<Longrightarrow> known (map_option f x) (map_option f y)"
  by (auto simp: known_def)

lemma latest_append: "latest w (xs @ ys) = option_or (latest w ys) (latest w xs)"
  by (induction xs) (auto simp: option_or_def split: option.split)

lemma latest_None: "latest w xs = None \<longleftrightarrow> (\<forall>x \<in> set xs. w x = None)"
  by (induction xs) (auto simp: option_or_def split: option.splits)

lemma latest_known:
  assumes "distinct (map fst (seen @ rest))" and "\<And>m. w m \<noteq> None \<Longrightarrow> fst m = key"
  shows "known (latest w seen) (latest w (seen @ rest))"
proof (cases "latest w seen")
  case (Some x)
  then have "\<exists>m \<in> set seen. fst m = key"
    using latest_None [of w seen] assms(2) by auto
  then have "key \<notin> fst ` set rest" using assms(1) by force
  then have "latest w rest = None"
    unfolding latest_None using assms(2) by (metis imageI)
  with Some show ?thesis by (simp add: latest_append)
qed simp

text \<open>At most one member fills the field.\<close>

definition one_source :: "('a \<Rightarrow> 'b option) \<Rightarrow> 'a list \<Rightarrow> bool" where
  "one_source w members \<longleftrightarrow> length (filter (\<lambda>m. w m \<noteq> None) members) \<le> 1"

lemma one_source_known:
  assumes "one_source w (seen @ rest)"
  shows "known (latest w seen) (latest w (seen @ rest))"
proof (cases "latest w seen")
  case (Some x)
  then have "filter (\<lambda>m. w m \<noteq> None) seen \<noteq> []"
    using latest_None [of w seen] by (auto simp: filter_empty_conv)
  then have "filter (\<lambda>m. w m \<noteq> None) rest = []"
    using assms by (cases "filter (\<lambda>m. w m \<noteq> None) seen") (auto simp: one_source_def)
  then have "latest w rest = None" unfolding latest_None filter_empty_conv by simp
  with Some show ?thesis by (simp add: latest_append)
qed simp

text \<open>
  A document that says everything once: its member names are distinct, at most one member names the
  mechanism, the user or the end of an authentication, and a command whose argument is a user name has no other.
\<close>

definition auth_field :: "(string \<times> bson \<Rightarrow> 'b option) \<Rightarrow> string \<times> bson \<Rightarrow> 'b option" where
  "auth_field pick m = (case speculative_document m of Some inner \<Rightarrow> latest pick inner | None \<Rightarrow> pick m)"

lemma latest_auth_field: "latest_auth pick members = latest (auth_field pick) members"
  by (simp add: latest_auth_def auth_field_def [abs_def])

definition says_once :: "(string \<times> bson) list \<Rightarrow> bool" where
  "says_once members \<longleftrightarrow> distinct (map fst members) \<and>
     one_source (auth_field mechanism_field) members \<and> one_source (auth_field principal_field) members \<and>
     one_source done_field members \<and>
     (members \<noteq> [] \<and> command_has_principal_argument (to_ascii_lowercase (fst (hd members))) \<longrightarrow>
        latest_auth principal_field members = None)"

text \<open>The visible members are the first ones of the document, and the cut one follows them.\<close>

lemma visible_split:
  "visible r members = (seen, partial) \<Longrightarrow>
   \<exists>rest. members = seen @ rest \<and> (case partial of None \<Rightarrow> True | Some m \<Rightarrow> rest \<noteq> [] \<and> hd rest = m)"
proof (induction r members arbitrary: seen partial rule: visible.induct)
  case (2 r key v members)
  obtain seen' partial' where rest: "visible (r - (length key + 2 + length (enc_value v))) members = (seen', partial')"
    by fastforce
  from 2 rest show ?case by (auto split: if_splits option.splits)
qed simp

definition summary_agrees :: "bson_summary \<Rightarrow> bson_summary \<Rightarrow> bool" where
  "summary_agrees p f \<longleftrightarrow>
     bs_first_key p = bs_first_key f \<and> bs_query p = None \<and>
     known (bs_database p) (bs_database f) \<and> known (bs_collection p) (bs_collection f) \<and>
     (bs_first_string p = bs_first_string f \<or> bs_first_string p = None \<and> bs_collection p = None) \<and>
     known (bs_ok p) (bs_ok f) \<and> known (bs_code p) (bs_code f) \<and> known (bs_code_name p) (bs_code_name f) \<and>
     known (bs_affected_count p) (bs_affected_count f) \<and>
     known (bs_delete_scope p) (bs_delete_scope f) \<and> known (bs_delete_statements p) (bs_delete_statements f) \<and>
     known (bs_auth_mechanism p) (bs_auth_mechanism f) \<and> known (bs_principal p) (bs_principal f) \<and>
     known (bs_auth_done p) (bs_auth_done f) \<and> (bs_speculative_auth p \<longrightarrow> bs_speculative_auth f) \<and>
     (\<forall>name. bs_first_key f = Some name \<and> command_has_principal_argument (to_ascii_lowercase name) \<longrightarrow> bs_principal f = None)"

lemma text_known: "distinct (map fst (seen @ rest)) \<Longrightarrow> known (text_at key seen) (text_at key (seen @ rest))"
  unfolding text_at_def by (rule latest_known) (auto split: if_splits)

lemma value_known: "distinct (map fst (seen @ rest)) \<Longrightarrow> known (value_at key seen) (value_at key (seen @ rest))"
  unfolding value_at_latest by (rule latest_known) (auto split: if_splits)

lemma deletes_known:
  "distinct (map fst (seen @ rest)) \<Longrightarrow> known (latest deletes_array seen) (latest deletes_array (seen @ rest))"
  by (rule latest_known [where key = "''deletes''"]) (auto elim!: deletes_array.elims split: if_splits)

lemma speculative_known:
  "distinct (map fst (seen @ rest)) \<Longrightarrow>
   known (latest speculative_document seen) (latest speculative_document (seen @ rest))"
  by (rule latest_known [where key = "''speculativeAuthenticate''"]) (auto elim!: speculative_document.elims split: if_splits)

lemma known_case: "known x y \<Longrightarrow> d = None \<Longrightarrow> known (case_option d g x) (case_option d g y)"
  by (auto simp: known_def)

lemma default_fields [simp]:
  "bs_database default_summary = None" "bs_collection default_summary = None" "bs_ok default_summary = None"
  "bs_code default_summary = None" "bs_code_name default_summary = None" "bs_affected_count default_summary = None"
  "bs_delete_scope default_summary = None" "bs_delete_statements default_summary = None"
  "bs_first_key default_summary = None" "bs_first_string default_summary = None" "bs_query default_summary = None"
  "bs_auth_mechanism default_summary = None" "bs_principal default_summary = None" "bs_auth_done default_summary = None"
  "bs_speculative_auth default_summary = False"
  by (simp_all add: default_summary_def)

lemma visible_fields_known:
  fixes seen rest
  defines "s \<equiv> members_spec (Some nested_spec) 0 seen default_summary" and "f \<equiv> summary_spec (seen @ rest)"
  assumes keys: "distinct (map fst (seen @ rest))"
  shows "known (bs_database s) (bs_database f)" "known (bs_collection s) (bs_collection f)"
    "known (bs_ok s) (bs_ok f)" "known (bs_code s) (bs_code f)" "known (bs_code_name s) (bs_code_name f)"
    "known (bs_affected_count s) (bs_affected_count f)" "known (bs_delete_scope s) (bs_delete_scope f)"
    "known (bs_delete_statements s) (bs_delete_statements f)"
  using text_known [OF keys] value_known [OF keys] deletes_known [OF keys]
  by (simp_all add: s_def f_def summary_spec_def plain_fields delete_fields known_case known_map option.map_comp)

lemma visible_auth_known:
  fixes seen rest
  defines "s \<equiv> members_spec (Some nested_spec) 0 seen default_summary" and "f \<equiv> summary_spec (seen @ rest)"
  assumes once: "says_once (seen @ rest)"
  shows "known (bs_auth_mechanism s) (bs_auth_mechanism f)" "known (bs_principal s) (bs_principal f)"
    "known (bs_auth_done s) (bs_auth_done f)" "bs_speculative_auth s \<longrightarrow> bs_speculative_auth f"
proof -
  have sources: "one_source (auth_field mechanism_field) (seen @ rest)" "one_source (auth_field principal_field) (seen @ rest)"
    "one_source done_field (seen @ rest)" "distinct (map fst (seen @ rest))"
    using once by (simp_all add: says_once_def)
  show "known (bs_auth_mechanism s) (bs_auth_mechanism f)" "known (bs_principal s) (bs_principal f)"
    using one_source_known [OF sources(1)] one_source_known [OF sources(2)]
    by (simp_all add: s_def f_def summary_spec_def auth_fields latest_auth_field)
  show "known (bs_auth_done s) (bs_auth_done f)"
    using one_source_known [OF sources(3)] by (simp add: s_def f_def summary_spec_def auth_fields known_case)
  show "bs_speculative_auth s \<longrightarrow> bs_speculative_auth f"
    using speculative_known [OF sources(4)]
    by (auto simp: s_def f_def summary_spec_def auth_fields known_def split: option.splits)
qed

lemma says_once_principal:
  assumes "says_once members" and "bs_first_key (summary_spec members) = Some name"
    and "command_has_principal_argument (to_ascii_lowercase name)"
  shows "bs_principal (summary_spec members) = None"
proof -
  have "members \<noteq> []" "name = fst (hd members)"
    using assms(2) by (cases members; auto simp: summary_spec_def first_fields simp del: members_spec.simps)+
  with assms(1,3) show ?thesis by (simp add: says_once_def summary_spec_def auth_fields)
qed

lemma cut_spec_fields:
  "bs_first_key (cut_spec n None s) = bs_first_key s"
  "bs_query (cut_spec n c s) = bs_query s"
  "known (bs_database (cut_spec n c s)) (bs_database s)" "known (bs_collection (cut_spec n c s)) (bs_collection s)"
  "known (bs_ok (cut_spec n c s)) (bs_ok s)" "known (bs_code (cut_spec n c s)) (bs_code s)"
  "known (bs_code_name (cut_spec n c s)) (bs_code_name s)"
  "known (bs_affected_count (cut_spec n c s)) (bs_affected_count s)"
  "bs_delete_scope (cut_spec n c s) = bs_delete_scope s" "bs_delete_statements (cut_spec n c s) = bs_delete_statements s"
  "n \<noteq> 0 \<Longrightarrow> bs_first_key (cut_spec n c s) = bs_first_key s"
  "n \<noteq> 0 \<Longrightarrow> bs_first_string (cut_spec n c s) = bs_first_string s"
  "bs_first_key (cut_spec 0 (Some (key, v)) s) = Some key"
  "bs_first_string s = None \<Longrightarrow> bs_first_string (cut_spec n c s) = None"
  "known (bs_auth_mechanism (cut_spec n c s)) (bs_auth_mechanism s)" "known (bs_principal (cut_spec n c s)) (bs_principal s)"
  "known (bs_auth_done (cut_spec n c s)) (bs_auth_done s)" "bs_speculative_auth (cut_spec n c s) = bs_speculative_auth s"
  by (auto simp: cut_spec_def cut_field_def cut_first_def Let_def split: option.split)

lemma known_trans: "known x y \<Longrightarrow> known y z \<Longrightarrow> known x z"
  by (auto simp: known_def)

lemma prefix_agrees:
  assumes members: "members = (key, v) # others" and once: "says_once members" and r: "length key + 2 \<le> r"
  shows "summary_agrees (prefix_spec 0 r members default_summary) (summary_spec members)"
proof -
  obtain seen partial where visible: "visible r members = (seen, partial)" by fastforce
  obtain rest where rest: "members = seen @ rest"
    and partial: "case partial of None \<Rightarrow> True | Some m \<Rightarrow> rest \<noteq> [] \<and> hd rest = m"
    using visible_split [OF visible] by blast
  let ?s = "members_spec (Some nested_spec) 0 seen default_summary"
  let ?p = "cut_spec (length seen) partial ?s" and ?f = "summary_spec members"
  have p: "prefix_spec 0 r members default_summary = ?p" using visible by (simp add: prefix_spec_def)
  have keys: "distinct (map fst members)" using once by (simp add: says_once_def)
  note s = visible_fields_known [OF keys [unfolded rest], folded rest]
  note auth = visible_auth_known [OF once [unfolded rest], folded rest]
  have known_auth: "known (bs_auth_mechanism ?p) (bs_auth_mechanism ?f)" "known (bs_principal ?p) (bs_principal ?f)"
    "known (bs_auth_done ?p) (bs_auth_done ?f)" "bs_speculative_auth ?p \<longrightarrow> bs_speculative_auth ?f"
    using auth by (auto simp: cut_spec_fields intro: known_trans [OF cut_spec_fields(15)]
        known_trans [OF cut_spec_fields(16)] known_trans [OF cut_spec_fields(17)])
  have known: "known (bs_database ?p) (bs_database ?f)" "known (bs_collection ?p) (bs_collection ?f)"
    "known (bs_ok ?p) (bs_ok ?f)" "known (bs_code ?p) (bs_code ?f)" "known (bs_code_name ?p) (bs_code_name ?f)"
    "known (bs_affected_count ?p) (bs_affected_count ?f)" "known (bs_delete_scope ?p) (bs_delete_scope ?f)"
    "known (bs_delete_statements ?p) (bs_delete_statements ?f)"
    using s by (auto simp: cut_spec_fields intro: known_trans [OF cut_spec_fields(3)] known_trans [OF cut_spec_fields(4)]
        known_trans [OF cut_spec_fields(5)] known_trans [OF cut_spec_fields(6)]
        known_trans [OF cut_spec_fields(7)] known_trans [OF cut_spec_fields(8)])
  have first: "bs_first_key ?f = Some key" "bs_first_string ?f = string_of v"
    by (simp_all add: members summary_spec_def first_fields del: members_spec.simps)
  have "bs_first_key ?p = Some key \<and> (bs_first_string ?p = string_of v \<or> bs_first_string ?p = None \<and> bs_collection ?p = None)"
  proof (cases seen)
    case Nil
    then have "partial = Some (key, v)"
      using visible members r by (auto simp: apfst_def map_prod_def split: if_splits prod.splits)
    with Nil show ?thesis
      using cut_spec_fields(4) [of 0 partial default_summary]
      by (auto simp: cut_spec_fields known_def)
  next
    case (Cons m seen')
    then have "m = (key, v)" using rest members by simp
    with Cons show ?thesis
      by (simp add: cut_spec_fields first_fields del: members_spec.simps)
  qed
  with known known_auth first says_once_principal [OF once] show ?thesis
    unfolding p summary_agrees_def by (simp add: cut_spec_fields first_fields)
qed

subsection \<open>Truncated messages\<close>

text \<open>
  What is reported of a truncated message agrees with the complete one: the same identifiers, flags and
  size, the same command name, no query, and of every other field nothing or what the complete
  message has. Where the outcome of a reply was not captured, \<open>assumed\<close> is what the report says
  instead.
\<close>

definition command_agrees :: "mongo_command \<Rightarrow> mongo_command \<Rightarrow> bool" where
  "command_agrees c f \<longleftrightarrow>
     cmd_name c = cmd_name f \<and> cmd_query c = None \<and>
     known (cmd_database c) (cmd_database f) \<and> known (cmd_collection c) (cmd_collection f) \<and>
     known (cmd_delete_scope c) (cmd_delete_scope f) \<and> known (cmd_delete_statements c) (cmd_delete_statements f) \<and>
     known (cmd_auth_mechanism c) (cmd_auth_mechanism f) \<and> known (cmd_principal c) (cmd_principal f) \<and>
     (cmd_speculative_auth c \<longrightarrow> cmd_speculative_auth f)"

definition status_agrees :: "bool option \<Rightarrow> response_status \<Rightarrow> response_status \<Rightarrow> bool" where
  "status_agrees assumed c f \<longleftrightarrow>
     (rs_ok c = rs_ok f \<or> rs_ok c = assumed) \<and> known (rs_code c) (rs_code f) \<and> known (rs_code_name c) (rs_code_name f) \<and>
     known (rs_affected_count c) (rs_affected_count f) \<and> known (rs_auth_done c) (rs_auth_done f)"

definition message_agrees :: "bool option \<Rightarrow> decoded_message \<Rightarrow> decoded_message \<Rightarrow> bool" where
  "message_agrees assumed m f \<longleftrightarrow>
     dm_request_id m = dm_request_id f \<and> dm_response_to m = dm_response_to f \<and>
     dm_wire_bytes m = dm_wire_bytes f \<and> dm_flags m = dm_flags f \<and>
     dm_more_to_come m = dm_more_to_come f \<and> dm_compressed m = dm_compressed f \<and>
     rel_option command_agrees (dm_command m) (dm_command f) \<and> rel_option (status_agrees assumed) (dm_status m) (dm_status f)"

text \<open>
  The place of the first document of a message in its frame; when its fields mean the same however
  many are visible; and the outcome a truncated reply is taken to have.
\<close>

fun first_document :: "wire_message \<Rightarrow> nat \<times> (string \<times> bson) list" where
  "first_document (Msg _ body _ _) = (21, body)"
| "first_document (Query _ database collection _ _ query _) = (30 + length database + length collection, query)"
| "first_document (Reply _ _ _ documents) = (36, case documents of [] \<Rightarrow> [] | members # _ \<Rightarrow> members)"

fun unambiguous :: "wire_message \<Rightarrow> bool" where
  "unambiguous (Msg _ body sequences _) \<longleftrightarrow> says_once body \<and> distinct (map fst body @ map fst sequences)"
| "unambiguous (Query _ _ _ _ _ query _) \<longleftrightarrow> says_once query \<and> ''$db'' \<notin> fst ` set query"
| "unambiguous (Reply _ _ _ documents) \<longleftrightarrow> (case documents of [] \<Rightarrow> True | members # _ \<Rightarrow> says_once members)"

fun assumed_outcome :: "wire_message \<Rightarrow> bool option" where
  "assumed_outcome (Reply flags _ _ _) = Some (flags AND 3 = 0)"
| "assumed_outcome _ = None"

lemma status_of_summary_agrees: "summary_agrees p f \<Longrightarrow> status_agrees None (status_of_summary p) (status_of_summary f)"
  by (cases "bs_ok p") (simp_all add: summary_agrees_def status_agrees_def status_of_summary_def)

lemma command_from_summary_agrees:
  "summary_agrees p f \<Longrightarrow> rel_option command_agrees (command_from_summary p) (command_from_summary f)"
proof (cases "bs_first_key f")
  case (Some name)
  assume agrees: "summary_agrees p f"
  then have "known (option_or (bs_first_string p) (bs_collection p)) (option_or (bs_first_string f) (bs_collection f))"
    by (cases "bs_first_string f") (auto simp: summary_agrees_def)
  moreover have "known (option_or (bs_principal p) (if command_has_principal_argument (to_ascii_lowercase name) then bs_first_string p else None))
      (option_or (bs_principal f) (if command_has_principal_argument (to_ascii_lowercase name) then bs_first_string f else None))"
  proof (cases "command_has_principal_argument (to_ascii_lowercase name)")
    case True
    with agrees Some have "bs_principal f = None" "bs_principal p = None" "bs_first_string p = bs_first_string f \<or> bs_first_string p = None"
      by (auto simp: summary_agrees_def)
    then show ?thesis by (auto simp: known_def)
  next
    case False
    with agrees show ?thesis by (simp add: summary_agrees_def)
  qed
  ultimately show ?thesis
    using Some agrees by (simp add: summary_agrees_def command_agrees_def command_from_summary_def Let_def)
qed (simp add: summary_agrees_def command_from_summary_def)

text \<open>A \<open>deletes\<close> sequence says something about statements that the body then leaves open.\<close>

lemma command_agrees_with_sequences:
  assumes "command_agrees c f" and "''deletes'' \<in> fst ` set sequences \<Longrightarrow> cmd_delete_scope c = None \<and> cmd_delete_statements c = None"
  shows "command_agrees c (with_sequences sequences f)"
proof -
  let ?pick = "\<lambda>(identifier, documents). if identifier = ''deletes'' then Some documents else None"
  have "latest ?pick sequences = None" if "''deletes'' \<notin> fst ` set sequences"
    unfolding latest_None using that by force
  then show ?thesis
    using assms by (cases "''deletes'' \<in> fst ` set sequences")
      (auto simp: command_agrees_def with_sequences_def Let_def split: option.split json_value.split)
qed

lemma command_from_summary_deletes:
  "command_from_summary s = Some c \<Longrightarrow> bs_delete_scope s = None \<Longrightarrow> cmd_delete_scope c = None"
  "command_from_summary s = Some c \<Longrightarrow> bs_delete_statements s = None \<Longrightarrow> cmd_delete_statements c = None"
  by (auto simp: command_from_summary_def Let_def split: option.splits)

lemma command_with_sequences_agrees:
  assumes agrees: "summary_agrees p f"
    and deletes: "''deletes'' \<in> fst ` set sequences \<Longrightarrow> bs_delete_scope p = None \<and> bs_delete_statements p = None"
  shows "rel_option command_agrees (command_from_summary p)
    (map_option (with_sequences sequences) (command_from_summary f))"
proof (cases "command_from_summary p")
  case None
  with command_from_summary_agrees [OF agrees] show ?thesis by simp
next
  case (Some c)
  with command_from_summary_agrees [OF agrees] obtain c' where c': "command_from_summary f = Some c'" "command_agrees c c'"
    by (cases "command_from_summary f") auto
  then have "command_agrees c (with_sequences sequences c')"
    using deletes command_from_summary_deletes [OF Some] by (intro command_agrees_with_sequences) auto
  with Some c' show ?thesis by simp
qed

lemma prefix_spec_no_deletes:
  assumes "''deletes'' \<notin> fst ` set members"
  shows "bs_delete_scope (prefix_spec 0 r members default_summary) = None"
    and "bs_delete_statements (prefix_spec 0 r members default_summary) = None"
proof -
  obtain seen partial where visible: "visible r members = (seen, partial)" by fastforce
  then obtain rest where "members = seen @ rest" using visible_split by blast
  with assms have "''deletes'' \<notin> fst ` set seen" by auto
  then have "latest deletes_array seen = None"
    unfolding latest_None by (force elim!: deletes_array.elims split: if_splits)
  then show "bs_delete_scope (prefix_spec 0 r members default_summary) = None"
    "bs_delete_statements (prefix_spec 0 r members default_summary) = None"
    using visible by (simp_all add: prefix_spec_def cut_spec_fields delete_fields)
qed

lemma decode_op_msg_prefix_reads:
  assumes "payload = to_le_bytes flags @ 0 # b" and "b \<noteq> []" and "summarize_bson_prefix b = Ok s"
  shows "decode_op_msg_prefix request_id response_to declared payload =
    Ok \<lparr>dm_request_id = request_id, dm_response_to = response_to, dm_wire_bytes = u32_of_usize declared,
       dm_flags = flags, dm_more_to_come = (flags AND 2 \<noteq> 0), dm_compressed = False,
       dm_command = (if response_to = 0 then command_from_summary s else None),
       dm_status = (if response_to \<noteq> 0 then Some (status_of_summary s) else None)\<rparr>"
proof -
  have "read_u32 payload 0 = Ok flags" unfolding assms(1) by (intro read_u32_reads) auto
  moreover have "(slice_index payload 4 :: u8 decode) = Ok 0"
    unfolding assms(1) by (intro slice_index_reads) auto
  moreover have "(slice_sub payload 5 (length payload) :: bytes decode) = Ok b"
    unfolding assms(1) by simp
  moreover have "\<not> length payload < 6" unfolding assms(1) using assms(2) by (cases b) auto
  ultimately show ?thesis
    using assms(3) by (simp add: decode_op_msg_prefix_def del: slice_index_eq_Inr slice_sub_eq_Inr)
qed

lemma take_payload:
  "n \<le> length document \<Longrightarrow>
   take (n + 5) (to_le_bytes (flags :: u32) @ 0 # document @ b) = to_le_bytes flags @ 0 # take n document"
  by simp

lemma take_headed: "n \<le> length document \<Longrightarrow> take (length head + n) (head @ document @ b) = head @ take n document"
  by simp

lemma decode_op_query_prefix_reads:
  assumes payload: "payload = to_le_bytes flags @ as_bytes namespace @ 0 # to_le_bytes (skip :: i32) @ to_le_bytes (count :: i32) @ b"
    and "c_string namespace" and "length payload < 2 ^ 31" and "b \<noteq> []" and "summarize_bson_prefix b = Ok s"
  shows "decode_op_query_prefix request_id response_to declared payload =
    Ok (decoded_op_query request_id response_to declared flags namespace s False)"
proof -
  let ?start = "4 + length namespace + 1 + 8"
  have "read_u32 payload 0 = Ok flags" unfolding payload by (intro read_u32_reads) auto
  moreover have "read_cstring payload 4 = Ok (namespace, 4 + length namespace + 1)"
    using assms(2) by (intro read_cstring_reads) (auto simp: payload)
  moreover have "drop ?start payload = b" and len: "length payload = ?start + length b" by (simp_all add: payload)
  then have "slice_from payload ?start = Some b" by (simp add: slice_from_def)
  moreover have "checked_add (4 + length namespace + 1) 8 = Some ?start"
    using len assms(3) by (simp add: usize_max_def)
  moreover have "\<not> length payload < 13" using len by simp
  ultimately show ?thesis
    using assms(5) by (simp add: decode_op_query_prefix_def del: checked_add_eq_Some)
qed

lemma decode_op_reply_prefix_reads:
  assumes payload: "payload = to_le_bytes flags @ to_le_bytes (cursor :: u64) @ to_le_bytes (start :: i32) @ to_le_bytes (returned :: i32) @ b"
    and "0 < sint returned" and "b \<noteq> []" and "summarize_bson_prefix b = Ok s"
  shows "decode_op_reply_prefix request_id response_to declared payload =
    Ok (decoded_op_reply request_id response_to declared flags (Some s) False)"
proof -
  have "read_u32 payload 0 = Ok flags" unfolding payload by (intro read_u32_reads) auto
  moreover have "read_i32 payload 16 = Ok returned"
    by (rule read_i32_reads [where b = b]) (simp_all add: payload)
  moreover have "(slice_sub payload 20 (length payload) :: bytes decode) = Ok b"
    by (simp add: payload)
  moreover have "length payload > 20" using assms(3) by (simp add: payload)
  ultimately show ?thesis
    using assms(2,4) by (simp add: decode_op_reply_prefix_def del: slice_sub_eq_Inr)
qed

lemma decoded_op_query_agrees:
  assumes agrees: "summary_agrees p f" and "bs_database f = None"
  shows "message_agrees None (decoded_op_query request_id response_to declared flags namespace p False)
    (decoded_op_query request_id response_to declared flags namespace f False)"
proof -
  obtain database collection is_command where split: "split_legacy_namespace namespace = (database, collection, is_command)"
    by (cases "split_legacy_namespace namespace") auto
  have none: "bs_database p = None" "bs_query p = None" using assms by (auto simp: summary_agrees_def known_def)
  have "rel_option command_agrees
      (map_option (\<lambda>c. if cmd_database c = None then c\<lparr>cmd_database := database\<rparr> else c) (command_from_summary p))
      (map_option (\<lambda>c. if cmd_database c = None then c\<lparr>cmd_database := database\<rparr> else c) (command_from_summary f))"
  proof (cases "command_from_summary p")
    case None
    with command_from_summary_agrees [OF agrees] show ?thesis by simp
  next
    case (Some c)
    with command_from_summary_agrees [OF agrees] obtain c' where c': "command_from_summary f = Some c'" "command_agrees c c'"
      by (cases "command_from_summary f") auto
    have "cmd_database c = None" "cmd_database c' = None"
      using Some c'(1) none assms(2) by (auto simp: command_from_summary_def Let_def split: option.splits)
    with Some c' show ?thesis by (simp add: command_agrees_def)
  qed
  then show ?thesis
    using none by (simp add: message_agrees_def decoded_op_query_def split Let_def command_agrees_def)
qed

lemma decoded_op_reply_agrees:
  assumes "summary_agrees p f"
  shows "message_agrees (Some (flags AND 3 = 0)) (decoded_op_reply request_id response_to declared flags (Some p) False)
    (decoded_op_reply request_id response_to declared flags (Some f) False)"
  using assms
  by (cases "bs_ok p") (auto simp: message_agrees_def decoded_op_reply_def Let_def status_agrees_def summary_agrees_def)

subsection \<open>Each kind of message\<close>

text \<open>A message whose first document starts at \<open>start\<close> of its frame, cut after its first key.\<close>

definition cut_message :: "wire_message \<Rightarrow> string \<Rightarrow> bson \<Rightarrow> (string \<times> bson) list \<Rightarrow> nat \<Rightarrow> bool" where
  "cut_message message key v members k \<longleftrightarrow>
     wf_message message \<and> unambiguous message \<and> length (enc_payload message) < 2 ^ 31 \<and>
     (\<exists>start. first_document message = (start, (key, v) # members) \<and> start + 6 + length key \<le> k \<and>
        k < start + length (enc_document ((key, v) # members)))"

lemma cut_messageD:
  assumes "cut_message message key v members k" and "first_document message = (start, body)"
  shows "body = (key, v) # members" "start + 6 + length key \<le> k" "k < start + length (enc_document body)"
    "wf_message message" "unambiguous message" "length (enc_payload message) < 2 ^ 31"
  using assms by (auto simp: cut_message_def)

lemma cut_document_reads:
  assumes "wf_members body" and "body = (key, v) # members" and "says_once body"
    and "start + 6 + length key \<le> k" and "k < start + length (enc_document body)" and "length (enc_document body) < 2 ^ 31"
  shows "\<exists>p. summarize_bson_prefix (take (k - start) (enc_document body)) = Ok p \<and> summary_agrees p (summary_spec body) \<and>
    (''deletes'' \<notin> fst ` set body \<longrightarrow> bs_delete_scope p = None \<and> bs_delete_statements p = None) \<and>
    take (k - start) (enc_document body) \<noteq> []"
proof (intro exI conjI impI)
  let ?p = "prefix_spec 0 (k - start - 4) body default_summary"
  show "summarize_bson_prefix (take (k - start) (enc_document body)) = Ok ?p"
    unfolding assms(2) using assms by (intro summarize_bson_prefix_reads) auto
  show "summary_agrees ?p (summary_spec body)"
    using assms by (intro prefix_agrees [OF assms(2)]) auto
  show "bs_delete_scope ?p = None" "bs_delete_statements ?p = None" if "''deletes'' \<notin> fst ` set body"
    using prefix_spec_no_deletes [OF that] by simp_all
  show "take (k - start) (enc_document body) \<noteq> []" using assms(4,5) by auto
qed

lemma truncated_msg_agrees:
  assumes "cut_message message key v members k" and message: "message = Msg flags body sequences checksum"
  shows "\<exists>m. decode_op_msg_prefix request_id response_to declared (take (k - 16) (enc_payload message)) = Ok m \<and>
    message_agrees (assumed_outcome message) m (message_meaning request_id response_to declared False message)"
proof -
  let ?rest = "concat (map enc_sequence sequences) @ checksum"
  have body: "wf_members body" "body = (key, v) # members" "says_once body" "21 + 6 + length key \<le> k"
    "k < 21 + length (enc_document body)" "length (enc_document body) < 2 ^ 31"
    using cut_messageD [OF assms(1), of 21 body] by (simp_all add: message)
  from cut_document_reads [OF this] obtain p where p: "summarize_bson_prefix (take (k - 21) (enc_document body)) = Ok p"
    and agrees: "summary_agrees p (summary_spec body)"
    and deletes: "''deletes'' \<notin> fst ` set body \<longrightarrow> bs_delete_scope p = None \<and> bs_delete_statements p = None"
    and nonempty: "take (k - 21) (enc_document body) \<noteq> []" by blast
  have "take (k - 16) (enc_payload message) = to_le_bytes flags @ 0 # take (k - 21) (enc_document body)"
    using take_payload [of "k - 21" "enc_document body" flags ?rest] body(4,5) by (simp add: message)
  note prefix = decode_op_msg_prefix_reads [OF this nonempty p, of request_id response_to declared]
  have "''deletes'' \<in> fst ` set sequences \<Longrightarrow> ''deletes'' \<notin> fst ` set body"
    using cut_messageD(5) [OF assms(1), of 21 body] by (auto simp: message)
  with deletes have "rel_option command_agrees (command_from_summary p)
      (map_option (with_sequences sequences) (command_from_summary (summary_spec body)))"
    by (intro command_with_sequences_agrees [OF agrees]) blast
  with prefix status_of_summary_agrees [OF agrees] show ?thesis
    by (simp add: message_agrees_def message_meaning_def message opcode_defs command_from_summary_spec status_of_summary_spec)
qed

lemma truncated_query_agrees:
  assumes "cut_message message key v members k"
    and message: "message = Query flags database collection skip count query selector"
  shows "\<exists>m. decode_op_query_prefix request_id response_to declared (take (k - 16) (enc_payload message)) = Ok m \<and>
    message_agrees (assumed_outcome message) m (message_meaning request_id response_to declared False message)"
proof -
  let ?namespace = "database @ ''.'' @ collection"
  let ?start = "30 + length database + length collection"
  let ?head = "to_le_bytes flags @ as_bytes ?namespace @ 0 # to_le_bytes skip @ to_le_bytes count"
  have query: "wf_members query" "query = (key, v) # members" "says_once query" "?start + 6 + length key \<le> k"
    "k < ?start + length (enc_document query)" "length (enc_document query) < 2 ^ 31"
    and names: "c_string ?namespace" "CHR ''.'' \<notin> set database" "''$db'' \<notin> fst ` set query"
    using cut_messageD [OF assms(1), of ?start query] by (simp_all add: message)
  from cut_document_reads [OF query] obtain p where p: "summarize_bson_prefix (take (k - ?start) (enc_document query)) = Ok p"
    and agrees: "summary_agrees p (summary_spec query)" and nonempty: "take (k - ?start) (enc_document query) \<noteq> []" by blast
  have payload: "enc_payload message = ?head @ enc_document query @ (case selector of None \<Rightarrow> [] | Some others \<Rightarrow> enc_document others)"
    by (simp add: message)
  have size: "k - 16 = length ?head + (k - ?start)" "k - ?start \<le> length (enc_document query)"
    using query(4,5) by simp_all
  have "take (k - 16) (enc_payload message) = ?head @ take (k - ?start) (enc_document query)"
    unfolding payload size(1) by (rule take_headed [OF size(2)])
  then have "take (k - 16) (enc_payload message) = to_le_bytes flags @ as_bytes ?namespace @ 0 # to_le_bytes skip @
      to_le_bytes count @ take (k - ?start) (enc_document query)" by simp
  moreover have "length (take (k - 16) (enc_payload message)) < 2 ^ 31"
    using assms(1) by (auto simp: cut_message_def min_def)
  ultimately have "decode_op_query_prefix request_id response_to declared (take (k - 16) (enc_payload message)) =
      Ok (decoded_op_query request_id response_to declared flags ?namespace p False)"
    by (rule decode_op_query_prefix_reads [OF _ names(1) _ nonempty p])
  moreover have "bs_database (summary_spec query) = None"
    using names(3) by (simp add: summary_spec_def plain_fields text_at_def latest_None) force
  ultimately show ?thesis
    using decoded_op_query_agrees [OF agrees] decoded_query_meaning [OF names(2)] by (simp add: message)
qed

lemma truncated_reply_agrees:
  assumes "cut_message message key v members k" and message: "message = Reply flags cursor start documents"
  shows "\<exists>m. decode_op_reply_prefix request_id response_to declared (take (k - 16) (enc_payload message)) = Ok m \<and>
    message_agrees (assumed_outcome message) m (message_meaning request_id response_to declared False message)"
proof -
  obtain body others where documents: "documents = body # others"
    using assms by (cases documents) (auto simp: cut_message_def)
  have body: "wf_members body" "body = (key, v) # members" "says_once body" "36 + 6 + length key \<le> k"
    "k < 36 + length (enc_document body)" "length (enc_document body) < 2 ^ 31"
    using cut_messageD [OF assms(1), of 36 body] by (simp_all add: message documents enc_documents_def)
  from cut_document_reads [OF this] obtain p where p: "summarize_bson_prefix (take (k - 36) (enc_document body)) = Ok p"
    and agrees: "summary_agrees p (summary_spec body)" and nonempty: "take (k - 36) (enc_document body) \<noteq> []" by blast
  have "take (k - 16) (enc_payload message) = to_le_bytes flags @ to_le_bytes cursor @ to_le_bytes start @
      to_le_bytes (i32_of_usize (length documents)) @ take (k - 36) (enc_document body)"
    using body(4,5) by (simp add: message documents enc_documents_def)
  moreover have "length documents < 2 ^ 31"
    using length_enc_documents [of documents] assms by (auto simp: cut_message_def)
  then have "0 < sint (i32_of_usize (length documents))" by (simp add: i32_of_usize_sint documents)
  ultimately have "decode_op_reply_prefix request_id response_to declared (take (k - 16) (enc_payload message)) =
      Ok (decoded_op_reply request_id response_to declared flags (Some p) False)"
    by (rule decode_op_reply_prefix_reads [OF _ _ nonempty p])
  then show ?thesis
    using decoded_op_reply_agrees [OF agrees] decoded_reply_meaning [of request_id response_to declared flags documents False]
    by (simp add: message documents)
qed

lemma decode_wire_frame_prefix:
  assumes frame_def: "frame = wire_frame request_id response_to opcode payload" and k: "16 \<le> k" "k < length frame"
    and "length frame \<le> max_message" and "max_message < 2 ^ 31"
  shows "decode_frame_prefix codec (take k frame) max_message =
    (let b = take (k - 16) payload in
     if opcode = OP_COMPRESSED then Fail Truncated
     else if opcode = OP_MSG then decode_op_msg_prefix request_id response_to (length frame) b
     else if opcode = OP_QUERY then decode_op_query_prefix request_id response_to (length frame) b
     else if opcode = OP_REPLY then decode_op_reply_prefix request_id response_to (length frame) b
     else Fail (UnsupportedOpcode opcode))"
proof -
  have small: "16 + length payload < 2 ^ 31" using assms by simp
  note parts = wire_frame_reads [OF small, of request_id response_to opcode, folded frame_def]
  have reads: "read_i32 (take k frame) 0 = Ok (i32_of_usize (length frame))"
    "read_i32 (take k frame) 4 = Ok request_id" "read_i32 (take k frame) 8 = Ok response_to"
    "read_i32 (take k frame) 12 = Ok opcode"
    using parts k by (simp_all add: read_i32_take)
  have payload: "(slice_sub (take k frame) 16 (length (take k frame)) :: bytes decode) = Ok (take (k - 16) payload)"
    using parts(6) k by (simp add: drop_take)
  have "\<not> length (take k frame) < 16" "\<not> sint (i32_of_usize (length frame)) < 16"
    "i32_as_usize (i32_of_usize (length frame)) = length frame" "\<not> length frame \<le> length (take k frame)"
    using assms by (simp_all add: i32_of_usize_sint i32_as_usize_of_usize)
  then show ?thesis
    using reads payload assms(4) by (simp add: decode_frame_prefix_def Let_def del: slice_sub_eq_Inr length_take)
qed

lemma first_document_within:
  "first_document message = (start, m # members) \<Longrightarrow>
   16 \<le> start \<and> start + length (enc_document (m # members)) \<le> 16 + length (enc_payload message)"
  by (cases message) (auto simp: enc_documents_def split: list.splits)

text \<open>
  C36: a truncated message is reported truthfully. Of an \<open>OP_MSG\<close>, \<open>OP_QUERY\<close> or \<open>OP_REPLY\<close> whose captured prefix
  ends inside its first document but after the first key, the sensor reports the identifiers, flags, size
  and command name that the complete message has, no query, and every database, collection, principal,
  mechanism, speculative authentication, delete classification, outcome, completion of an authentication, error code and count it
  reports is that of the complete message; only the outcome of an \<open>OP_REPLY\<close> may be the one its flags suggest.
  The document says everything once: member names are distinct, at most one member (a nested
  \<open>speculativeAuthenticate\<close> counts as one) gives the mechanism, the user and the completion, a command that takes a user name
  as its argument has no other, and an \<open>OP_QUERY\<close> names its database in the namespace alone.
\<close>

theorem truncated_message_agrees_with_the_complete_one:
  assumes frame_def: "frame = wire_frame request_id response_to (message_opcode message) (enc_payload message)"
    and wf: "wf_message message" "unambiguous message"
    and cut: "first_document message = (start, (key, v) # members)" "start + 6 + length key \<le> k"
      "k < start + length (enc_document ((key, v) # members))"
    and fits: "length frame \<le> max_message" "max_message < 2 ^ 31"
  shows "\<exists>m f. decode_frame_prefix codec (take k frame) max_message = Ok m \<and>
    decode_frame codec frame max_message = Ok f \<and> message_agrees (assumed_outcome message) m f"
proof -
  have small: "16 + length (enc_payload message) < 2 ^ 31" "16 + length (enc_payload message) \<le> max_message"
    using fits by (simp_all add: frame_def)
  have cut_message: "cut_message message key v members k" using wf cut small(1) by (auto simp: cut_message_def)
  have within: "16 \<le> k" "k < length frame" using first_document_within [OF cut(1)] cut(2,3) by (simp_all add: frame_def)
  have whole: "decode_frame codec frame max_message =
      Ok (message_meaning request_id response_to (length frame) False message)"
    unfolding frame_def decode_wire_frame [OF small] Let_def length_wire_frame
    by (rule decode_payload_reads) (use wf small in simp_all)
  note prefix = decode_wire_frame_prefix [OF frame_def within fits, of codec]
  show ?thesis
  proof (cases message)
    case (Msg flags body sequences checksum)
    with truncated_msg_agrees [OF cut_message Msg, of request_id response_to "length frame"] prefix whole
    show ?thesis by (simp add: opcode_defs)
  next
    case (Query flags database collection skip count query selector)
    with truncated_query_agrees [OF cut_message Query, of request_id response_to "length frame"] prefix whole
    show ?thesis by (simp add: opcode_defs)
  next
    case (Reply flags cursor position documents)
    with truncated_reply_agrees [OF cut_message Reply, of request_id response_to "length frame"] prefix whole
    show ?thesis by (simp add: opcode_defs)
  qed
qed

subsection \<open>Members after a null\<close>

text \<open>
  A captured member that follows a null is not read, although the complete document shows it.
\<close>

definition null_members :: "(string \<times> bson) list" where
  "null_members = [(''ping'', BInt32 1), (''comment'', BNull), (''$db'', BString ''admin''), (''pad'', BString ''xxxx'')]"

lemma null_hides_later_members:
  "visible 46 null_members = ([(''ping'', BInt32 1), (''comment'', BNull)], None)"
  "visible 37 (filter (\<lambda>m. snd m \<noteq> BNull) null_members) =
     ([(''ping'', BInt32 1), (''$db'', BString ''admin'')], Some (''pad'', BString ''xxxx''))"
  "map_option cmd_database (command_from_summary (summary_spec null_members)) = Some (Some ''admin'')"
  "map_option cmd_database (command_from_summary
     (projr (summarize_bson_prefix (take 50 (enc_document null_members))))) = Some None"
  by code_simp+

subsection \<open>The outcome of a truncated reply\<close>

text \<open>
  An \<open>OP_REPLY\<close> whose document says that the command failed is reported as a success if the capture ends before
  the member \<open>ok\<close>.
\<close>

definition failed_reply :: wire_message where
  "failed_reply = Reply 0 0 0 [[(''note'', BString ''xxxx''), (''ok'', BInt32 0)]]"

lemma truncated_reply_reports_success:
  "map_option rs_ok (dm_status (projr (decode_frame stored_codec (wire_frame 8 7 OP_REPLY (enc_payload failed_reply)) 256))) =
     Some (Some False)"
  "map_option rs_ok (dm_status (projr (decode_frame_prefix stored_codec
     (take 56 (wire_frame 8 7 OP_REPLY (enc_payload failed_reply))) 256))) = Some (Some True)"
  by code_simp+

subsection \<open>Witnesses\<close>

lemma sample_says_once: "says_once sample_members"
  by code_simp

theorem truncated_message_agrees_with_the_complete_one_witness:
  "\<exists>m f. decode_frame_prefix stored_codec
      (take 75 (wire_frame 17 0 OP_MSG (enc_payload (Msg 0 sample_members [] [])))) 256 = Ok m \<and>
    decode_frame stored_codec (wire_frame 17 0 OP_MSG (enc_payload (Msg 0 sample_members [] []))) 256 = Ok f \<and>
    message_agrees None m f"
proof -
  have "wf_message (Msg 0 sample_members [] [])" "unambiguous (Msg 0 sample_members [] [])"
    "first_document (Msg 0 sample_members [] []) = (21, (''find'', BString ''orders'') # tl sample_members)"
    "(''find'', BString ''orders'') # tl sample_members = sample_members"
    using sample_members_wf(1) sample_says_once by (simp_all add: sample_members_def)
  from truncated_message_agrees_with_the_complete_one [OF refl this(1-3), of 75 17 0 256 stored_codec] this(4)
  show ?thesis by (simp add: sample_members_wf(2))
qed

end
