(* ===== verification/Protocol_Tests.thy ===== *)
theory Protocol_Tests
  imports Prefix_Spec Stream_Decoder
begin

text \<open>
  The unit tests of \<open>crates/mongo-protocol/src/lib.rs\<close>, run on the model. Each test is a definition with the
  inputs and assertions of the source, and a lemma that it holds. \<open>stored_codec\<close> stands for the
  compression library, which the one test that compresses does not look into. The three tests on messages
  of several kilobytes are not evaluated byte by byte: they rest on what \<open>Prefix_Spec\<close> proves of every cut
  document.
\<close>

definition decoded :: "bytes \<Rightarrow> decoded_message decode" where
  "decoded frame = decode_frame stored_codec frame DEFAULT_MAX_MESSAGE_BYTES"

definition command_in :: "decoded_message decode \<Rightarrow> mongo_command option" where
  "command_in r = (case r of Inl _ \<Rightarrow> None | Inr m \<Rightarrow> dm_command m)"

definition status_in :: "decoded_message decode \<Rightarrow> response_status option" where
  "status_in r = (case r of Inl _ \<Rightarrow> None | Inr m \<Rightarrow> dm_status m)"

definition decodes_fragmented_find_with_query_content :: bool where
  "decodes_fragmented_find_with_query_content \<longleftrightarrow>
     (let bson = bson_document [string_element ''find'' ''orders'', string_element ''$db'' ''sales''];
          frame = op_msg 41 0 0 bson;
          split = length frame div 2;
          decoder = new_stream_decoder default_decoder_config;
          (decoder, first) = push stored_codec decoder (take split frame);
          (decoder, messages) = push stored_codec decoder (drop split frame) in
      first = Ok [] \<and>
      (case messages of
         Inr [message] \<Rightarrow> dm_command message = Some
           \<lparr>cmd_name = ''find'', cmd_database = Some ''sales'', cmd_collection = Some ''orders'',
            cmd_auth_mechanism = None, cmd_principal = None, cmd_speculative_auth = False,
            cmd_delete_scope = None, cmd_delete_statements = None,
            cmd_query = Some (JObject [(''find'', JString ''orders''), (''$db'', JString ''sales'')])\<rparr>
       | _ \<Rightarrow> False))"

definition captures_complete_find_query_content :: bool where
  "captures_complete_find_query_content \<longleftrightarrow>
     (let query = bson_document [string_element ''customer_id'' ''cust-001''];
          bson = bson_document [string_element ''find'' ''orders'', embedded_element 0x03 ''filter'' query,
            string_element ''$db'' ''dam_demo''];
          frame = op_msg 42 0 0 bson in
      map_option cmd_query (command_in (decoded frame)) =
        Some (Some (JObject [(''find'', JString ''orders''),
          (''filter'', JObject [(''customer_id'', JString ''cust-001'')]), (''$db'', JString ''dam_demo'')])))"

definition extracts_bulk_delete_scope_affected_count_and_query :: bool where
  "extracts_bulk_delete_scope_affected_count_and_query \<longleftrightarrow>
     (let private_filter = bson_document [string_element ''customer_email'' ''private@example.invalid''];
          statement = bson_document [embedded_element 0x03 ''q'' private_filter, int_element ''limit'' 0];
          statements = bson_document [embedded_element 0x03 ''0'' statement];
          request = op_msg 61 0 0 (bson_document [string_element ''delete'' ''customer_records'',
            embedded_element 0x04 ''deletes'' statements, string_element ''$db'' ''dam_demo'']);
          response = op_msg 62 61 0 (bson_document [int_element ''n'' 35, double_element ''ok'' 0x3FF0000000000000]) in
      (case command_in (decoded request) of
         Some command \<Rightarrow> cmd_name command = ''delete'' \<and> cmd_database command = Some ''dam_demo'' \<and>
           cmd_collection command = Some ''customer_records'' \<and> cmd_delete_scope command = Some Multi \<and>
           cmd_delete_statements command = Some 1 \<and>
           map_option (\<lambda>query. json_get ''customer_email'' (json_get ''q'' (json_at 0 (json_get ''deletes'' query)))) (cmd_query command) =
             Some (JString ''private@example.invalid'')
       | None \<Rightarrow> False) \<and>
      (case status_in (decoded response) of
         Some status \<Rightarrow> rs_affected_count status = Some 35 \<and> rs_ok status = Some True
       | None \<Rightarrow> False))"

definition extracts_bulk_delete_from_op_msg_document_sequence :: bool where
  "extracts_bulk_delete_from_op_msg_document_sequence \<longleftrightarrow>
     (let private_filter = bson_document [string_element ''tenant'' ''private-tenant''];
          statement = bson_document [embedded_element 0x03 ''q'' private_filter, int_element ''limit'' 0];
          request = op_msg_with_document_sequence 63
            (bson_document [string_element ''delete'' ''customer_records'', string_element ''$db'' ''dam_demo''])
            ''deletes'' [statement] in
      (case command_in (decoded request) of
         Some command \<Rightarrow> cmd_delete_scope command = Some Multi \<and> cmd_delete_statements command = Some 1 \<and>
           map_option (\<lambda>query. json_get ''tenant'' (json_get ''q'' (json_at 0 (json_get ''deletes'' query)))) (cmd_query command) =
             Some (JString ''private-tenant'')
       | None \<Rightarrow> False))"

definition treats_user_management_argument_as_principal_not_collection :: bool where
  "treats_user_management_argument_as_principal_not_collection \<longleftrightarrow>
     (let bson = bson_document [string_element ''createUser'' ''alice@example.com'', string_element ''$db'' ''admin''];
          frame = op_msg 43 0 0 bson in
      (case command_in (decoded frame) of
         Some command \<Rightarrow> cmd_name command = ''createUser'' \<and> cmd_database command = Some ''admin'' \<and>
           cmd_collection command = None \<and> cmd_principal command = Some ''alice@example.com''
       | None \<Rightarrow> False))"

definition extracts_scram_principal_without_retaining_the_auth_payload :: bool where
  "extracts_scram_principal_without_retaining_the_auth_payload \<longleftrightarrow>
     (let bson = bson_document [int_element ''saslStart'' 1, string_element ''mechanism'' ''SCRAM-SHA-256'',
            binary_element ''payload'' (as_bytes ''n,,n=alice=2Cops,r=client-nonce''), string_element ''$db'' ''admin''];
          frame = op_msg 45 0 0 bson in
      (case command_in (decoded frame) of
         Some command \<Rightarrow> cmd_name command = ''saslStart'' \<and> cmd_auth_mechanism command = Some ''SCRAM-SHA-256'' \<and>
           cmd_principal command = Some ''alice,ops'' \<and> cmd_query command = None
       | None \<Rightarrow> False))"

definition extracts_speculative_scram_principal_and_completion_state :: bool where
  "extracts_speculative_scram_principal_and_completion_state \<longleftrightarrow>
     (let speculative_request = bson_document [int_element ''saslStart'' 1, string_element ''mechanism'' ''SCRAM-SHA-256'',
            binary_element ''payload'' (as_bytes ''n,,n=alice,r=client-nonce'')];
          request = op_msg 47 0 0 (bson_document [int_element ''hello'' 1,
            embedded_element 0x03 ''speculativeAuthenticate'' speculative_request, string_element ''$db'' ''admin'']);
          speculative_response = bson_document [int_element ''conversationId'' 1, bool_element ''done'' False,
            double_element ''ok'' 0x3FF0000000000000];
          response = op_msg 48 47 0 (bson_document [double_element ''ok'' 0x3FF0000000000000,
            embedded_element 0x03 ''speculativeAuthenticate'' speculative_response]) in
      (case command_in (decoded request) of
         Some command \<Rightarrow> cmd_name command = ''hello'' \<and> cmd_speculative_auth command \<and>
           cmd_principal command = Some ''alice'' \<and> cmd_auth_mechanism command = Some ''SCRAM-SHA-256'' \<and>
           cmd_query command = None
       | None \<Rightarrow> False) \<and>
      map_option rs_auth_done (status_in (decoded response)) = Some (Some False))"

definition decodes_legacy_op_query_and_reply_metadata :: bool where
  "decodes_legacy_op_query_and_reply_metadata \<longleftrightarrow>
     (let query = op_query 51 ''sales.$cmd''
            (bson_document [string_element ''find'' ''orders'', string_element ''$db'' ''sales'']);
          reply = op_reply 52 51 0 (bson_document [double_element ''ok'' 0x3FF0000000000000]) in
      (case command_in (decoded query) of
         Some command \<Rightarrow> cmd_name command = ''find'' \<and> cmd_database command = Some ''sales'' \<and>
           cmd_collection command = Some ''orders''
       | None \<Rightarrow> False) \<and>
      (case decoded reply of Inr response \<Rightarrow> dm_response_to response = 51 | Inl _ \<Rightarrow> False) \<and>
      map_option rs_ok (status_in (decoded reply)) = Some (Some True))"

definition maps_legacy_collection_queries_to_find :: bool where
  "maps_legacy_collection_queries_to_find \<longleftrightarrow>
     (let query = op_query 53 ''sales.orders'' (bson_document [string_element ''secret'' ''must-not-be-exported'']) in
      (case command_in (decoded query) of
         Some command \<Rightarrow> cmd_name command = ''find'' \<and> cmd_database command = Some ''sales'' \<and>
           cmd_collection command = Some ''orders'' \<and> cmd_principal command = None
       | None \<Rightarrow> False))"

definition never_exports_an_unknown_command_string_as_a_collection :: bool where
  "never_exports_an_unknown_command_string_as_a_collection \<longleftrightarrow>
     (let bson = bson_document [string_element ''futureCommand'' ''possibly-sensitive-value'', string_element ''$db'' ''admin''];
          frame = op_msg 44 0 0 bson in
      (case command_in (decoded frame) of
         Some command \<Rightarrow> cmd_collection command = None \<and> cmd_principal command = None
       | None \<Rightarrow> False))"

definition decodes_metadata_from_a_truncated_large_message_prefix :: bool where
  "decodes_metadata_from_a_truncated_large_message_prefix \<longleftrightarrow>
     (let bson = bson_document [string_element ''find'' ''orders'', string_element ''$db'' ''sales'',
            string_element ''comment'' (concat (replicate 256 ''sensitive''))];
          frame = op_msg 77 0 0 bson;
          message = decode_frame_prefix stored_codec (take 96 frame) DEFAULT_MAX_MESSAGE_BYTES in
      (case message of
         Inr m \<Rightarrow> unat (dm_wire_bytes m) = length frame
       | Inl _ \<Rightarrow> False) \<and>
      (case command_in message of
         Some command \<Rightarrow> cmd_name command = ''find'' \<and> cmd_collection command = Some ''orders'' \<and>
           cmd_database command = Some ''sales'' \<and> cmd_query command = None
       | None \<Rightarrow> False))"

definition truncated_chunk_includes_a_header_from_an_earlier_short_read :: bool where
  "truncated_chunk_includes_a_header_from_an_earlier_short_read \<longleftrightarrow>
     (let bson = bson_document [string_element ''find'' ''orders'', string_element ''$db'' ''sales'',
            string_element ''padding'' (concat (replicate 2000 ''x''))];
          frame = op_msg 42 0 0 bson;
          decoder = new_stream_decoder default_decoder_config;
          (decoder, first) = push stored_codec decoder (take 16 frame);
          (decoder, message) = push_truncated stored_codec decoder (take (528 - 16) (drop 16 frame)) in
      first = Ok [] \<and>
      (case message of
         Inr m \<Rightarrow> dm_request_id m = 42 \<and> unat (dm_wire_bytes m) = length frame
       | Inl _ \<Rightarrow> False) \<and>
      map_option cmd_name (command_in message) = Some ''find'' \<and> buffered_bytes decoder = 0)"

definition bounds_a_large_frame_split_across_short_reads_to_its_prefix :: bool where
  "bounds_a_large_frame_split_across_short_reads_to_its_prefix \<longleftrightarrow>
     (let bson = bson_document [string_element ''find'' ''orders'', string_element ''$db'' ''sales'',
            string_element ''filter'' (concat (replicate 256 ''private-value''))];
          frame = op_msg 91 0 0 bson;
          decoder = new_stream_decoder
            \<lparr>max_message_bytes = DEFAULT_MAX_MESSAGE_BYTES, max_buffer_bytes = 2048\<rparr>;
          (decoder, first) = push_bounded_prefix stored_codec decoder (take 512 frame) 1024;
          (decoder, messages) = push_bounded_prefix stored_codec decoder (take (1024 - 512) (drop 512 frame)) 1024 in
      first = Ok [] \<and>
      (case messages of
         Inr [message] \<Rightarrow>
           (case dm_command message of
              Some command \<Rightarrow> cmd_name command = ''find'' \<and> cmd_database command = Some ''sales'' \<and>
                cmd_query command = None
            | None \<Rightarrow> False)
       | _ \<Rightarrow> False) \<and>
      buffered_bytes decoder = 0)"

definition decodes_response_status :: bool where
  "decodes_response_status \<longleftrightarrow>
     (let bson = bson_document [double_element ''ok'' 0, int_element ''code'' 13, string_element ''codeName'' ''Unauthorized''];
          frame = op_msg 42 41 0 bson in
      status_in (decoded frame) = Some \<lparr>rs_ok = Some False, rs_code = Some 13, rs_code_name = Some ''Unauthorized'',
        rs_affected_count = None, rs_auth_done = None\<rparr>)"

definition decodes_zlib_compressed_op_msg :: bool where
  "decodes_zlib_compressed_op_msg \<longleftrightarrow>
     (let bson = bson_document [string_element ''aggregate'' ''orders'', string_element ''$db'' ''sales''];
          inner = op_msg 9 0 0 bson;
          inner_payload = drop 16 inner;
          frame = op_compressed 9 0 OP_MSG (length inner_payload) 2 inner_payload in
      (case decoded frame of Inr message \<Rightarrow> dm_compressed message | Inl _ \<Rightarrow> False) \<and>
      map_option cmd_name (command_in (decoded frame)) = Some ''aggregate'')"

definition rejects_oversized_frame_before_buffering_body :: bool where
  "rejects_oversized_frame_before_buffering_body \<longleftrightarrow>
     snd (push stored_codec (new_stream_decoder \<lparr>max_message_bytes = 32, max_buffer_bytes = 64\<rparr>) (to_le_bytes (100 :: i32))) =
       Fail FrameTooLarge"

subsection \<open>Every test passes\<close>

text \<open>
  Complete messages are decoded by what \<open>Message_Spec\<close> proves of encoded documents, so that only their meaning is
  evaluated; the tests that feed bytes to the stream decoder or the decompressor are run as they are.
\<close>

lemma nat_string_0: "nat_string 0 = ''0''"
  by code_simp

lemma test_members:
  "string_element key v = enc_members [(key, BString v)]" "int_element key i = enc_members [(key, BInt32 i)]"
  "double_element key d = enc_members [(key, BDouble d)]" "bool_element key b = enc_members [(key, BBool b)]"
  "binary_element key bs = enc_members [(key, BBinary 0 bs)]"
  "embedded_element 0x03 key (enc_document members) = enc_members [(key, BDocument members)]"
  "embedded_element 0x04 key (enc_document [(''0'', v')]) = enc_members [(key, BArray [v'])]"
  by (simp_all add: string_element_def int_element_def double_element_def bool_element_def binary_element_def
      embedded_element_def enc_document_def nat_string_0)

lemma enc_members_append: "enc_members (a @ b) = enc_members a @ enc_members b"
  by (induction a) auto

lemma test_documents:
  "bson_document [enc_members a] = enc_document a"
  "bson_document [enc_members a, enc_members b] = enc_document (a @ b)"
  "bson_document [enc_members a, enc_members b, enc_members c] = enc_document (a @ b @ c)"
  "bson_document [enc_members a, enc_members b, enc_members c, enc_members d] = enc_document (a @ b @ c @ d)"
  by (simp_all add: enc_document_def enc_members_append bson_document_def)

lemmas test_encoding = test_members test_documents append.simps

lemma decoded_message:
  assumes "wf_message message" and "length (enc_payload message) \<le> 1000"
  shows "decoded (wire_frame request_id response_to (message_opcode message) (enc_payload message)) =
    Ok (message_meaning request_id response_to (16 + length (enc_payload message)) False message)"
proof -
  have fits: "16 + length (enc_payload message) < 2 ^ 31" "16 + length (enc_payload message) \<le> DEFAULT_MAX_MESSAGE_BYTES"
    using assms(2) by (simp_all add: DEFAULT_MAX_MESSAGE_BYTES_def)
  show ?thesis
    unfolding decoded_def decode_wire_frame [OF fits] Let_def using assms by (intro decode_payload_reads) simp_all
qed

lemma decoded_op_msg:
  "wf_message (Msg 0 members [] []) \<Longrightarrow> length (enc_payload (Msg 0 members [] [])) \<le> 1000 \<Longrightarrow>
   decoded (op_msg request_id response_to 0 (enc_document members)) =
     Ok (message_meaning request_id response_to (16 + length (enc_payload (Msg 0 members [] []))) False (Msg 0 members [] []))"
  unfolding test_messages(1) using decoded_message [of "Msg 0 members [] []"] by simp

lemma decoded_op_msg_with_document_sequence:
  fixes members documents key
  defines "message \<equiv> Msg 0 members [(key, documents)] []"
  assumes "wf_message message" and "length (enc_payload message) \<le> 1000"
  shows "decoded (op_msg_with_document_sequence request_id (enc_document members) key (map enc_document documents)) =
     Ok (message_meaning request_id 0 (16 + length (enc_payload message)) False message)"
  unfolding test_messages(2) using decoded_message [OF assms(2,3)] by (simp add: message_def)

lemma decoded_op_query:
  fixes members database collection
  defines "message \<equiv> Query 0 database collection 0 (- 1) members None"
  assumes "wf_message message" and "length (enc_payload message) \<le> 1000"
  shows "decoded (op_query request_id (database @ ''.'' @ collection) (enc_document members)) =
     Ok (message_meaning request_id 0 (16 + length (enc_payload message)) False message)"
  unfolding test_messages(3) using decoded_message [OF assms(2,3)] by (simp add: message_def)

lemma decoded_op_reply:
  fixes members
  defines "message \<equiv> Reply 0 0 0 [members]"
  assumes "wf_message message" and "length (enc_payload message) \<le> 1000"
  shows "decoded (op_reply request_id response_to 0 (enc_document members)) =
     Ok (message_meaning request_id response_to (16 + length (enc_payload message)) False message)"
  unfolding test_messages(4) using decoded_message [OF assms(2,3)] by (simp add: message_def)

lemma captures_complete_find_query_content_holds: captures_complete_find_query_content
  unfolding captures_complete_find_query_content_def Let_def test_encoding
  by (subst decoded_op_msg, code_simp, code_simp, code_simp)

lemma treats_user_management_argument_as_principal_not_collection_holds: treats_user_management_argument_as_principal_not_collection
  unfolding treats_user_management_argument_as_principal_not_collection_def Let_def test_encoding
  by (subst decoded_op_msg, code_simp, code_simp, code_simp)

lemma extracts_scram_principal_without_retaining_the_auth_payload_holds: extracts_scram_principal_without_retaining_the_auth_payload
  unfolding extracts_scram_principal_without_retaining_the_auth_payload_def Let_def test_encoding
  by (subst decoded_op_msg, code_simp, code_simp, code_simp)

lemma never_exports_an_unknown_command_string_as_a_collection_holds: never_exports_an_unknown_command_string_as_a_collection
  unfolding never_exports_an_unknown_command_string_as_a_collection_def Let_def test_encoding
  by (subst decoded_op_msg, code_simp, code_simp, code_simp)

lemma decodes_response_status_holds: decodes_response_status
  unfolding decodes_response_status_def Let_def test_encoding
  by (subst decoded_op_msg, code_simp, code_simp, code_simp)

lemma extracts_bulk_delete_scope_affected_count_and_query_holds: extracts_bulk_delete_scope_affected_count_and_query
  unfolding extracts_bulk_delete_scope_affected_count_and_query_def Let_def test_encoding
  by (subst decoded_op_msg, code_simp, code_simp, subst decoded_op_msg, code_simp, code_simp, code_simp)

lemma extracts_speculative_scram_principal_and_completion_state_holds: extracts_speculative_scram_principal_and_completion_state
  unfolding extracts_speculative_scram_principal_and_completion_state_def Let_def test_encoding
  by (subst decoded_op_msg, code_simp, code_simp, subst decoded_op_msg, code_simp, code_simp, code_simp)

lemma extracts_bulk_delete_from_op_msg_document_sequence_holds: extracts_bulk_delete_from_op_msg_document_sequence
proof -
  let ?statement = "[(''q'', BDocument [(''tenant'', BString ''private-tenant'')]), (''limit'', BInt32 0)]"
  have one: "[enc_document ?statement] = map enc_document [?statement]" by simp
  show ?thesis
    unfolding extracts_bulk_delete_from_op_msg_document_sequence_def Let_def test_encoding one
    by (subst decoded_op_msg_with_document_sequence, code_simp, code_simp, code_simp)
qed

lemma maps_legacy_collection_queries_to_find_holds: maps_legacy_collection_queries_to_find
proof -
  have namespace: "''sales.orders'' = ''sales'' @ ''.'' @ ''orders''" by simp
  show ?thesis
    unfolding maps_legacy_collection_queries_to_find_def Let_def test_members test_documents namespace
    by (subst decoded_op_query, code_simp, code_simp, code_simp)
qed

lemma decodes_legacy_op_query_and_reply_metadata_holds: decodes_legacy_op_query_and_reply_metadata
proof -
  have namespace: "''sales.$cmd'' = ''sales'' @ ''.'' @ ''$cmd''" by simp
  have reply: "decoded (op_reply 52 51 0 (bson_document [double_element ''ok'' 0x3FF0000000000000])) =
      Ok (message_meaning 52 51 53 False (Reply 0 0 0 [[(''ok'', BDouble 0x3FF0000000000000)]]))"
    unfolding test_encoding by (subst decoded_op_reply, code_simp, code_simp, code_simp)
  show ?thesis
    unfolding decodes_legacy_op_query_and_reply_metadata_def Let_def reply test_members test_documents namespace
    by (subst decoded_op_query, code_simp, code_simp, code_simp)
qed

lemma decodes_fragmented_find_with_query_content_holds: decodes_fragmented_find_with_query_content
  by code_simp

lemma decodes_zlib_compressed_op_msg_holds: decodes_zlib_compressed_op_msg
  by code_simp

lemma rejects_oversized_frame_before_buffering_body_holds: rejects_oversized_frame_before_buffering_body
  by code_simp

subsection \<open>Large messages\<close>

text \<open>A \<open>find\<close> whose last member is cut, wherever the cut falls inside its text.\<close>

definition large_find :: "string \<Rightarrow> string \<Rightarrow> (string \<times> bson) list" where
  "large_find key pad = [(''find'', BString ''orders''), (''$db'', BString ''sales''), (key, BString pad)]"

lemma large_find_length: "length (enc_document (large_find key pad)) = length key + length pad + 44"
  by (simp add: large_find_def enc_document_def)

definition large_find_summary :: bson_summary where
  "large_find_summary = default_summary\<lparr>bs_first_key := Some ''find'', bs_first_string := Some ''orders'',
     bs_database := Some ''sales''\<rparr>"

lemma c_string_find: "c_string ''find''" "utf8_string ''orders''" "c_string ''$db''" "utf8_string ''sales''"
  by code_simp+

lemma large_find_visible:
  assumes "length key + 34 \<le> r" "r < length key + 39 + length pad" "key \<noteq> ''$db''"
  shows "prefix_spec 0 r (large_find key pad) default_summary = large_find_summary"
proof -
  have "visible r (large_find key pad) =
      ([(''find'', BString ''orders''), (''$db'', BString ''sales'')], Some (key, BString pad))"
    using assms(1,2) by (simp add: large_find_def string_value_def) arith
  then show ?thesis
    using assms(3) by (simp add: prefix_spec_def cut_spec_def cut_field_def element_specs first_spec_def
        large_find_summary_def default_summary_def)
qed

lemma large_find_prefix:
  assumes "c_string key" "utf8_string pad" "key \<noteq> ''$db''"
    and k: "length key + 59 \<le> k" "k < length key + 64 + length pad" and small: "length key + length pad \<le> 10000"
  shows "decode_frame_prefix codec (take k (op_msg request_id 0 0 (enc_document (large_find key pad)))) DEFAULT_MAX_MESSAGE_BYTES =
    Ok \<lparr>dm_request_id = request_id, dm_response_to = 0, dm_wire_bytes = u32_of_usize (length key + length pad + 65),
       dm_flags = 0, dm_more_to_come = False, dm_compressed = False,
       dm_command = Some \<lparr>cmd_name = ''find'', cmd_database = Some ''sales'', cmd_collection = Some ''orders'',
         cmd_auth_mechanism = None, cmd_principal = None, cmd_speculative_auth = False,
         cmd_delete_scope = None, cmd_delete_statements = None, cmd_query = None\<rparr>, dm_status = None\<rparr>"
proof -
  let ?document = "enc_document (large_find key pad)"
  have len: "length ?document = length key + length pad + 44" by (rule large_find_length)
  have "wf_members (large_find key pad)"
    using assms(1,2) c_string_find by (simp add: large_find_def)
  then have "summarize_bson_prefix (take (k - 21) ?document) = Ok (prefix_spec 0 (k - 21 - 4) (large_find key pad) default_summary)"
    unfolding large_find_def using k small len [unfolded large_find_def]
    by (intro summarize_bson_prefix_reads) simp_all
  also have "prefix_spec 0 (k - 21 - 4) (large_find key pad) default_summary = large_find_summary"
    using k assms(3) by (intro large_find_visible) simp_all
  finally have "decode_op_msg_prefix request_id 0 (length key + length pad + 65) (to_le_bytes (0 :: u32) @ 0 # take (k - 21) ?document) =
    Ok \<lparr>dm_request_id = request_id, dm_response_to = 0, dm_wire_bytes = u32_of_usize (length key + length pad + 65),
       dm_flags = 0, dm_more_to_come = False, dm_compressed = False,
       dm_command = command_from_summary large_find_summary, dm_status = None\<rparr>"
    using k len by (subst decode_op_msg_prefix_reads [OF refl, where s = large_find_summary]) auto
  moreover have "take (k - 16) (to_le_bytes (0 :: u32) @ 0 # ?document) = to_le_bytes (0 :: u32) @ 0 # take (k - 21) ?document"
    using take_payload [of "k - 21" ?document 0 "[]"] k len by simp
  moreover have "command_from_summary large_find_summary = Some \<lparr>cmd_name = ''find'', cmd_database = Some ''sales'',
      cmd_collection = Some ''orders'', cmd_auth_mechanism = None, cmd_principal = None, cmd_speculative_auth = False,
      cmd_delete_scope = None, cmd_delete_statements = None, cmd_query = None\<rparr>"
    by code_simp
  ultimately show ?thesis
    using k small len decode_wire_frame_prefix [OF op_msg_def, of k request_id 0 0 ?document DEFAULT_MAX_MESSAGE_BYTES codec]
    by (simp add: op_msg_def opcode_defs DEFAULT_MAX_MESSAGE_BYTES_def ac_simps)
qed

lemma short_reads:
  assumes frame_def: "frame = op_msg request_id 0 0 (enc_document (large_find key pad))"
    and small: "length key + length pad \<le> 10000" and k: "16 \<le> k" "k < length key + length pad + 65"
  shows "from_le_bytes (take 4 frame) = i32_of_usize (length key + length pad + 65)"
    and "push_loop codec DEFAULT_MAX_MESSAGE_BYTES (take k frame) [] = (take k frame, Ok [])"
proof -
  let ?n = "length key + length pad + 65"
  have fits: "16 + length (to_le_bytes (0 :: u32) @ 0 # enc_document (large_find key pad)) < 2 ^ 31"
    using small by (simp add: large_find_length)
  note parts = wire_frame_reads [OF fits, of request_id 0 OP_MSG, folded op_msg_def, folded frame_def]
  have "length frame = ?n" using parts(1) by (simp add: large_find_length)
  with parts(2) show declared: "from_le_bytes (take 4 frame) = i32_of_usize ?n"
    by (simp add: read_i32_def)
  have n: "sint (i32_of_usize ?n) = int ?n" "i32_as_usize (i32_of_usize ?n) = ?n"
    using small by (simp_all add: i32_of_usize_sint i32_as_usize_of_usize)
  have "take 4 (take k frame) = take 4 frame" using k by (simp add: min_def)
  with declared n k small \<open>length frame = ?n\<close>
  show "push_loop codec DEFAULT_MAX_MESSAGE_BYTES (take k frame) [] = (take k frame, Ok [])"
    by (simp add: push_loop.simps Let_def DEFAULT_MAX_MESSAGE_BYTES_def)
qed

lemma repeated_ascii: "list_all (\<lambda>c. char_byte c < 0x80) s \<Longrightarrow> utf8_string (concat (replicate n s))"
  unfolding utf8_string_def as_bytes_def
  by (rule utf8_valid_ascii) (auto simp: list_all_iff)

lemma large_documents:
  "bson_document [string_element ''find'' ''orders'', string_element ''$db'' ''sales'', string_element key pad] =
     enc_document (large_find key pad)"
  unfolding test_encoding by (simp add: large_find_def)

lemma test_pads:
  "utf8_string (concat (replicate 256 ''sensitive''))" "utf8_string (concat (replicate 2000 ''x''))"
  "utf8_string (concat (replicate 256 ''private-value''))"
  "c_string ''comment''" "c_string ''padding''" "c_string ''filter''"
  by (intro repeated_ascii, code_simp)+ code_simp+

lemma length_repeated [simp]: "length (concat (replicate n s)) = n * length s"
  by (induction n) auto

lemma u32_sizes: "unat (u32_of_usize 2376) = 2376" "unat (u32_of_usize 2072) = 2072" "unat (u32_of_usize 3399) = 3399"
  by (simp_all add: unat_u32_of_usize)

lemma decodes_metadata_from_a_truncated_large_message_prefix_holds: decodes_metadata_from_a_truncated_large_message_prefix
  unfolding decodes_metadata_from_a_truncated_large_message_prefix_def Let_def large_documents
  using large_find_prefix [of "''comment''" "concat (replicate 256 ''sensitive'')" 96 stored_codec 77]
  by (simp add: test_pads large_find_length command_in_def unat_u32_of_usize op_msg_def)

text \<open>Two reads of one frame: the first stays in the buffer, the second completes the prefix.\<close>

definition reading :: "usize \<Rightarrow> bytes \<Rightarrow> stream_decoder" where
  "reading max_buffer buffer = \<lparr>sd_config = \<lparr>max_message_bytes = DEFAULT_MAX_MESSAGE_BYTES, max_buffer_bytes = max_buffer\<rparr>,
     sd_buffer = buffer\<rparr>"

lemma push_short:
  "push_loop codec DEFAULT_MAX_MESSAGE_BYTES bs [] = (bs, Ok []) \<Longrightarrow> length bs \<le> max_buffer \<Longrightarrow>
   push codec (reading max_buffer []) bs = (reading max_buffer bs, Ok [])"
  by (simp add: push_def reading_def saturating_add_usize_def)

lemma push_truncated_rest:
  "m + n \<le> max_buffer \<Longrightarrow>
   push_truncated codec (reading max_buffer (take m frame)) (take n (drop m frame)) =
     (reading max_buffer [], decode_frame_prefix codec (take (m + n) frame) DEFAULT_MAX_MESSAGE_BYTES)"
proof -
  assume "m + n \<le> max_buffer"
  then have "length (take m frame) + length (take n (drop m frame)) \<le> max_buffer" by (auto simp: min_def)
  then show ?thesis
    by (simp add: push_truncated_def reading_def saturating_add_usize_def clear_decoder_def take_add del: length_take)
qed

lemma truncated_chunk_includes_a_header_from_an_earlier_short_read_holds:
  truncated_chunk_includes_a_header_from_an_earlier_short_read
proof -
  define frame where "frame = op_msg 42 0 0 (enc_document (large_find ''padding'' (concat (replicate 2000 ''x''))))"
  have len: "length frame = 2072" by (simp add: frame_def op_msg_def large_find_length)
  let ?decoder = "reading (DEFAULT_MAX_MESSAGE_BYTES * 2)"
  have new: "new_stream_decoder default_decoder_config = ?decoder []"
    by (simp add: new_stream_decoder_def default_decoder_config_def reading_def)
  have "push stored_codec (?decoder []) (take 16 frame) = (?decoder (take 16 frame), Ok [])"
    using short_reads(2) [OF frame_def, of 16 stored_codec]
    by (intro push_short) (simp_all add: DEFAULT_MAX_MESSAGE_BYTES_def)
  moreover have "push_truncated stored_codec (?decoder (take 16 frame)) (take (528 - 16) (drop 16 frame)) =
      (?decoder [], decode_frame_prefix stored_codec (take 528 frame) DEFAULT_MAX_MESSAGE_BYTES)"
    using push_truncated_rest [of 16 512 _ stored_codec frame] by (simp add: DEFAULT_MAX_MESSAGE_BYTES_def)
  moreover note large_find_prefix [OF test_pads(5,2), of 528 stored_codec 42, folded frame_def]
  ultimately show ?thesis
    unfolding truncated_chunk_includes_a_header_from_an_earlier_short_read_def Let_def large_documents
      frame_def [symmetric] new
    by (simp add: test_pads len command_in_def unat_u32_of_usize buffered_bytes_def reading_def)
qed

lemma bounds_a_large_frame_split_across_short_reads_to_its_prefix_holds:
  bounds_a_large_frame_split_across_short_reads_to_its_prefix
proof -
  define frame where "frame = op_msg 91 0 0 (enc_document (large_find ''filter'' (concat (replicate 256 ''private-value''))))"
  have len: "length frame = 3399" by (simp add: frame_def op_msg_def large_find_length)
  note short = short_reads(1) [OF frame_def, of 512] short_reads(2) [OF frame_def, of 512 stored_codec]
  have new: "new_stream_decoder \<lparr>max_message_bytes = DEFAULT_MAX_MESSAGE_BYTES, max_buffer_bytes = 2048\<rparr> = reading 2048 []"
    by (simp add: new_stream_decoder_def reading_def)
  have size: "sint (i32_of_usize 3399) = 3399" "i32_as_usize (i32_of_usize 3399) = 3399"
    by (simp_all add: i32_of_usize_sint i32_as_usize_of_usize)
  have header: "next_frame_length (reading 2048 []) (take 512 frame) = Ok (Some 3399)"
    "next_frame_length (reading 2048 (take 512 frame)) (take (1024 - 512) (drop 512 frame)) = Ok (Some 3399)"
    using short(1) len size by (simp_all add: next_frame_length_def reading_def DEFAULT_MAX_MESSAGE_BYTES_def)
  have "push stored_codec (reading 2048 []) (take 512 frame) = (reading 2048 (take 512 frame), Ok [])"
    using short(2) by (intro push_short) simp_all
  with header(1) have "push_bounded_prefix stored_codec (reading 2048 []) (take 512 frame) 1024 =
      (reading 2048 (take 512 frame), Ok [])"
    using len by (simp add: push_bounded_prefix_def reading_def saturating_add_usize_def usize_max_def)
  moreover have "push_truncated stored_codec (reading 2048 (take 512 frame)) (take (1024 - 512) (drop 512 frame)) =
      (reading 2048 [], decode_frame_prefix stored_codec (take 1024 frame) DEFAULT_MAX_MESSAGE_BYTES)"
    using push_truncated_rest [of 512 512 _ stored_codec frame] by simp
  with header(2) have "push_bounded_prefix stored_codec (reading 2048 (take 512 frame)) (take (1024 - 512) (drop 512 frame)) 1024 =
      (reading 2048 [], rbind (decode_frame_prefix stored_codec (take 1024 frame) DEFAULT_MAX_MESSAGE_BYTES) (\<lambda>message. Ok [message]))"
    using len by (simp add: push_bounded_prefix_def reading_def saturating_add_usize_def usize_max_def)
  moreover note large_find_prefix [OF test_pads(6,3), of 1024 stored_codec 91, folded frame_def]
  ultimately show ?thesis
    unfolding bounds_a_large_frame_split_across_short_reads_to_its_prefix_def Let_def large_documents
      frame_def [symmetric] new
    by (simp add: test_pads buffered_bytes_def reading_def)
qed

end
