(* ===== verification/Attribution.thy ===== *)
theory Attribution
  imports Processor_Spec
begin

text \<open>
  Requests, responses and the principal an activity is attributed to, in \<open>process_message\<close>: which
  response answers which request, and when a connection counts as authenticated.
\<close>

subsection \<open>Requests wait for their response\<close>

abbreviation conn_key :: "kernel_event \<Rightarrow> u32 \<times> u64" where
  "conn_key raw \<equiv> (ke_tgid raw, ke_connection_key raw)"

definition conn_state :: "event_processor \<Rightarrow> u32 \<times> u64 \<Rightarrow> connection_state" where
  "conn_state p key = hm_get_or default_connection_state (pr_connections p) key"

definition request_key :: "kernel_event \<Rightarrow> i32 \<Rightarrow> u32 \<times> u64 \<times> i32" where
  "request_key raw request_id = (ke_tgid raw, ke_connection_key raw, request_id)"

lemma conn_state_insert:
  "conn_state (p\<lparr>pr_connections := hm_insert key state (pr_connections p)\<rparr>) k =
     (if k = key then state else conn_state p k)"
  by (simp add: conn_state_def hm_get_or_def hm_get_insert)

lemma conn_state_frame [simp]:
  "conn_state (p\<lparr>pr_pending := m\<rparr>) k = conn_state p k"
  "conn_state (p\<lparr>pr_streams := s\<rparr>) k = conn_state p k"
  "conn_state (fst (event_from_seed env p seed payload)) k = conn_state p k"
  "conn_state (fst (connection_metadata_of env p raw)) k = conn_state p k"
  "conn_state (prune_pending_requests p now) k = conn_state p k"
  by (auto simp: conn_state_def hm_get_or_def prune_pending_requests_def Let_def split: option.split)

lemma prune_config [simp]: "pr_config (prune_pending_requests p now) = pr_config p"
  by (auto simp: prune_pending_requests_def Let_def split: option.split)

definition request_of :: "env \<Rightarrow> event_processor \<Rightarrow> kernel_event \<Rightarrow> bool \<Rightarrow> decoded_message \<Rightarrow> mongo_command \<Rightarrow> pending_request" where
  "request_of env p raw truncated message command = snd (register_request env p raw truncated message command)"

lemma request_of_simps [simp]:
  "pq_command (request_of env p raw truncated message command) = command\<lparr>cmd_principal := None\<rparr>"
  "pq_actor_principal_hash (request_of env p raw truncated message command) =
     cs_authenticated_principal_hash (conn_state p (conn_key raw))"
  "pq_target_principal_hash (request_of env p raw truncated message command) =
     Option.bind (cmd_principal command) (\<lambda>name.
       map_option (\<lambda>salt. hash_principal (env_crypto env) salt name) (pc_principal_hash_salt (pr_config p)))"
  "pq_connection_state_key (request_of env p raw truncated message command) = conn_key raw"
  "pq_request_id (request_of env p raw truncated message command) = dm_request_id message"
  "pq_request_bytes (request_of env p raw truncated message command) = dm_wire_bytes message"
  "pq_compressed (request_of env p raw truncated message command) = dm_compressed message"
  "pq_expects_response (request_of env p raw truncated message command) = (\<not> dm_more_to_come message)"
  "seed_monotonic_timestamp_ns (pq_seed (request_of env p raw truncated message command)) = ke_timestamp_ns raw"
  by (simp_all add: request_of_def register_request_def Let_def case_prod_unfold take_hashed_principal_def
      conn_state_def seed_of_def)

lemma carries_authentication_principal [simp]:
  "command_carries_authentication (command\<lparr>cmd_principal := x\<rparr>) = command_carries_authentication command"
  by (simp add: command_carries_authentication_def)

lemma exchange_completed_principal [simp]:
  "authentication_exchange_completed (command\<lparr>cmd_principal := x\<rparr>) = authentication_exchange_completed command"
  by (simp add: authentication_exchange_completed_def fun_eq_iff)

text \<open>A request is kept without an event; it records the acting principal and, if it authenticates, the claimed one.\<close>

lemma request_waits:
  assumes "dm_response_to message = 0" "dm_command message = Some command" "\<not> dm_more_to_come message"
    and target_def: "target = pq_target_principal_hash (request_of env p raw truncated message command)"
  obtains p' where
    "process_message env p raw truncated message = (p', [])"
    "hm_get (pr_pending p') (request_key raw (dm_request_id message)) =
       Some (request_of env p raw truncated message command)"
    "pr_config p' = pr_config p"
    "\<And>k. conn_state p' k =
       (if k = conn_key raw \<and> command_carries_authentication command \<and> target \<noteq> None
        then (conn_state p k)\<lparr>cs_pending_auth_principal_hash := target\<rparr> else conn_state p k)"
proof (rule that)
  let ?q = "fst (register_request env p raw truncated message command)"
  let ?request = "request_of env p raw truncated message command"
  have q: "conn_state ?q k =
       (if k = conn_key raw \<and> command_carries_authentication command \<and> target \<noteq> None
        then (conn_state p k)\<lparr>cs_pending_auth_principal_hash := target\<rparr> else conn_state p k)" for k
    unfolding register_request_def target_def
    by (auto simp: Let_def case_prod_unfold conn_state_insert take_hashed_principal_def) (simp_all add: conn_state_def)
  have expects: "pq_expects_response (snd (register_request env p raw truncated message command))"
    using assms(3) request_of_simps(8) [of env p raw truncated message command] by (simp add: request_of_def)
  have "pr_config ?q = pr_config p"
    by (simp add: register_request_def Let_def case_prod_unfold)
  let ?p = "prune_pending_requests ?q (ke_timestamp_ns raw)"
  let ?p' = "?p\<lparr>pr_pending := hm_insert (request_key raw (dm_request_id message)) ?request (pr_pending ?p)\<rparr>"
  show "process_message env p raw truncated message = (?p', [])"
    using assms(1,2) expects request_of_simps(5) [of env p raw truncated message command]
    by (simp add: process_message_def process_request_def case_prod_unfold Let_def request_key_def request_of_def)
  show "hm_get (pr_pending ?p') (request_key raw (dm_request_id message)) = Some ?request"
    by (simp add: hm_get_insert)
  show "pr_config ?p' = pr_config p" by simp fact
  show "conn_state ?p' k =
       (if k = conn_key raw \<and> command_carries_authentication command \<and> target \<noteq> None
        then (conn_state p k)\<lparr>cs_pending_auth_principal_hash := target\<rparr> else conn_state p k)" for k
    using q by simp
qed

subsection \<open>A response completes its request\<close>

text \<open>The effect of a completed request on the state of its connection.\<close>

definition authenticated_by :: "pending_request \<Rightarrow> bool option \<Rightarrow> bool option \<Rightarrow> connection_state \<Rightarrow> connection_state" where
  "authenticated_by request succeeded auth_done state =
     (if \<not> command_carries_authentication (pq_command request) then state
      else if succeeded = Some False then state\<lparr>cs_pending_auth_principal_hash := None\<rparr>
      else if succeeded = Some True \<and> authentication_exchange_completed (pq_command request) auth_done
      then state\<lparr>cs_authenticated_principal_hash :=
             option_or (pq_target_principal_hash request) (cs_pending_auth_principal_hash state),
           cs_pending_auth_principal_hash := None\<rparr>
      else state)"

lemma session_authentication_frame [simp]:
  "pr_config (fst (session_authentication p request succeeded auth_done)) = pr_config p"
  "pr_pending (fst (session_authentication p request succeeded auth_done)) = pr_pending p"
  by (simp_all add: session_authentication_def Let_def)

lemma session_authentication_conn:
  "conn_state (fst (session_authentication p request succeeded auth_done)) k =
     (if k = pq_connection_state_key request then authenticated_by request succeeded auth_done (conn_state p k)
      else conn_state p k)"
  by (auto simp: session_authentication_def Let_def authenticated_by_def conn_state_insert)
    (simp_all add: conn_state_def)

lemma completed_frame [simp]:
  "pr_config (fst (events_for_completed_request env p request response response_id response_bytes)) = pr_config p"
  "pr_pending (fst (events_for_completed_request env p request response response_id response_bytes)) = pr_pending p"
  by (simp_all add: events_for_completed_request_def Let_def case_prod_unfold)

lemma completed_conn:
  "conn_state (fst (events_for_completed_request env p request response response_id response_bytes)) k =
     (if k = pq_connection_state_key request
      then authenticated_by request (fst (snd (response_parts response)))
        (snd (snd (snd (snd (snd (response_parts response)))))) (conn_state p k)
      else conn_state p k)"
  by (simp add: events_for_completed_request_def Let_def case_prod_unfold session_authentication_conn)

lemma response_answers:
  assumes "dm_response_to message \<noteq> 0"
    and "hm_get (pr_pending p) (request_key raw (dm_response_to message)) = Some request"
  obtains p' events where
    "process_message env p raw truncated message = (p', events)"
    "pr_pending p' = hm_remove (request_key raw (dm_response_to message)) (pr_pending p)"
    "pr_config p' = pr_config p"
    "\<And>k. conn_state p' k =
       (if k = pq_connection_state_key request
        then authenticated_by request (Option.bind (dm_status message) rs_ok)
          (Option.bind (dm_status message) rs_auth_done) (conn_state p k)
        else conn_state p k)"
proof (rule that [OF surjective_pairing])
  let ?q = "p\<lparr>pr_pending := hm_remove (request_key raw (dm_response_to message)) (pr_pending p)\<rparr>"
  have run: "process_message env p raw truncated message = events_for_completed_request env ?q request
      (Some (message, saturating_sub (ke_timestamp_ns raw) (seed_monotonic_timestamp_ns (pq_seed request)) div 1000))
      (Some (dm_request_id message)) (Some (dm_wire_bytes message))"
    using assms by (simp add: process_message_def Let_def request_key_def)
  show "pr_pending (fst (process_message env p raw truncated message)) =
      hm_remove (request_key raw (dm_response_to message)) (pr_pending p)"
    "pr_config (fst (process_message env p raw truncated message)) = pr_config p"
    by (simp_all add: run)
  show "conn_state (fst (process_message env p raw truncated message)) k =
       (if k = pq_connection_state_key request
        then authenticated_by request (Option.bind (dm_status message) rs_ok)
          (Option.bind (dm_status message) rs_auth_done) (conn_state p k)
        else conn_state p k)" for k
    by (simp add: run completed_conn response_parts_def)
qed

lemma response_activity:
  assumes "dm_response_to message \<noteq> 0"
    and "hm_get (pr_pending p) (request_key raw (dm_response_to message)) = Some request"
  shows "\<exists>activity rest. snd (process_message env p raw truncated message) = activity # rest \<and>
    ev_payload activity = MongodbActivity (mongodb_activity_of request
      (if pc_capture_query_content (pr_config p) then cmd_query (pq_command request) else None)
      (Some (dm_request_id message)) (Some (dm_wire_bytes message))
      (response_parts (Some (message,
        saturating_sub (ke_timestamp_ns raw) (seed_monotonic_timestamp_ns (pq_seed request)) div 1000))))"
  using assms
  by (simp add: process_message_def Let_def request_key_def events_for_completed_request_def case_prod_unfold)
    (simp add: event_from_seed_def Let_def)

text \<open>
  C25: a response completes its request, once. A request that expects a response yields no event and
  waits; the response with its identifier on the same connection yields the activity event of that
  request, with its command, the outcome and count of the response and the time between the two; a
  second response with that identifier yields nothing and changes nothing.
\<close>

theorem response_completes_its_request_once:
  assumes "dm_response_to request = 0" and "dm_command request = Some command" and "\<not> dm_more_to_come request"
    and "dm_response_to response = dm_request_id request" and "dm_request_id request \<noteq> 0"
    and "conn_key raw' = conn_key raw"
    and "process_message env p raw truncated request = (waiting, events)"
    and "process_message env' waiting raw' truncated' response = (p', completed)"
  shows "events = [] \<and>
    (\<exists>activity rest. ev_payload (hd completed) = MongodbActivity activity \<and> completed = hd completed # rest \<and>
      act_command activity = cmd_name command \<and> act_database activity = cmd_database command \<and>
      act_collection activity = cmd_collection command \<and>
      act_request_id activity = dm_request_id request \<and> act_response_id activity = Some (dm_request_id response) \<and>
      act_principal activity = cs_authenticated_principal_hash (conn_state p (conn_key raw)) \<and>
      act_succeeded activity = Option.bind (dm_status response) rs_ok \<and>
      act_affected_documents activity = Option.bind (dm_status response) rs_affected_count \<and>
      act_duration_us activity = Some (saturating_sub (ke_timestamp_ns raw') (ke_timestamp_ns raw) div 1000)) \<and>
    process_message env'' p' raw' truncated'' response = (p', [])"
proof -
  let ?request = "request_of env p raw truncated request command"
  obtain q where q: "process_message env p raw truncated request = (q, [])"
    and waits: "hm_get (pr_pending q) (request_key raw (dm_request_id request)) = Some ?request"
    using request_waits [OF assms(1-3) refl] .
  have q': "q = waiting" "events = []" using q assms(7) by simp_all
  have key: "request_key raw' (dm_response_to response) = request_key raw (dm_request_id request)"
    using assms(4,6) by (simp add: request_key_def)
  have found: "hm_get (pr_pending waiting) (request_key raw' (dm_response_to response)) = Some ?request"
    using waits q' by (simp add: key)
  have nonzero: "dm_response_to response \<noteq> 0" using assms(4,5) by simp
  obtain activity rest where activity: "completed = activity # rest"
    "ev_payload activity = MongodbActivity (mongodb_activity_of ?request
      (if pc_capture_query_content (pr_config waiting) then cmd_query (pq_command ?request) else None)
      (Some (dm_request_id response)) (Some (dm_wire_bytes response))
      (response_parts (Some (response, saturating_sub (ke_timestamp_ns raw') (ke_timestamp_ns raw) div 1000))))"
    using response_activity [OF nonzero found, of env' truncated'] assms(8) by (auto simp del: request_of_simps(1))
  have "pr_pending p' = hm_remove (request_key raw' (dm_response_to response)) (pr_pending waiting)"
    using response_answers [OF nonzero found, of env' truncated'] assms(8) by (metis prod.inject)
  then have "process_message env'' p' raw' truncated'' response = (p', [])"
    using nonzero by (simp add: process_message_def Let_def hm_get_remove request_key_def)
  with q'(2) activity show ?thesis
    by (simp add: mongodb_activity_of_def response_parts_def)
qed

text \<open>
  C24: a connection becomes authenticated, or changes its principal, only by a successful response that
  ends an authentication exchange on it; it then belongs to the principal that exchange claimed. No
  other message changes who acts on a connection.
\<close>

theorem authentication_changes_only_on_success:
  "cs_authenticated_principal_hash (conn_state (fst (process_message env p raw truncated message)) k) =
     (case (if dm_response_to message = 0 then None
            else hm_get (pr_pending p) (ke_tgid raw, ke_connection_key raw, dm_response_to message)) of
        None \<Rightarrow> cs_authenticated_principal_hash (conn_state p k)
      | Some request \<Rightarrow>
          if k = pq_connection_state_key request \<and> command_carries_authentication (pq_command request) \<and>
             Option.bind (dm_status message) rs_ok = Some True \<and>
             authentication_exchange_completed (pq_command request) (Option.bind (dm_status message) rs_auth_done)
          then option_or (pq_target_principal_hash request) (cs_pending_auth_principal_hash (conn_state p k))
          else cs_authenticated_principal_hash (conn_state p k))"
proof -
  have registered: "cs_authenticated_principal_hash
      (conn_state (fst (register_request env p raw truncated message command)) key) =
      cs_authenticated_principal_hash (conn_state p key)" for command key
    by (simp add: register_request_def Let_def case_prod_unfold conn_state_insert) (simp add: conn_state_def)
  show ?thesis
  proof (cases "dm_response_to message = 0")
    case True
    then show ?thesis
      by (simp add: process_message_def process_request_def Let_def case_prod_unfold completed_conn
          response_parts_def authenticated_by_def registered split: option.split)
  next
    case False
    then show ?thesis
      by (simp add: process_message_def Let_def completed_conn response_parts_def authenticated_by_def
          split: option.split)
  qed
qed

text \<open>Messages as they are delivered: each with the kernel event that carried it.\<close>

definition deliver ::
  "event_processor \<Rightarrow> env \<times> kernel_event \<times> bool \<times> decoded_message \<Rightarrow> event_processor \<times> dam_event list" where
  "deliver p input = (case input of (env, raw, truncated, message) \<Rightarrow> process_message env p raw truncated message)"

definition carried_by :: "crypto \<Rightarrow> u32 \<times> u64 \<Rightarrow> env \<times> kernel_event \<times> bool \<times> decoded_message \<Rightarrow> bool" where
  "carried_by crypto key input \<longleftrightarrow>
     (case input of (env, raw, _) \<Rightarrow> env_crypto env = crypto \<and> (ke_tgid raw, ke_connection_key raw) = key)"

lemma sasl_lowercase:
  "to_ascii_lowercase ''saslStart'' = ''saslstart''"
  "to_ascii_lowercase ''saslContinue'' = ''saslcontinue''"
  by code_simp+

lemma sasl_exchange:
  assumes "cmd_name command \<in> {''saslStart'', ''saslContinue''}" "\<not> cmd_speculative_auth command"
  shows "command_carries_authentication command"
    "authentication_exchange_completed command auth_done \<longleftrightarrow> auth_done = Some True"
  using assms by (auto simp: command_carries_authentication_def is_session_auth_command_def
      authentication_exchange_completed_def sasl_lowercase)

text \<open>
  C23: a SCRAM exchange attributes what follows. When \<open>saslStart\<close> names a user, the server answers
  without finishing, \<open>saslContinue\<close> follows and the server finishes the exchange with success, the
  next request on that connection waits under the salted hash of that user name, whatever was
  authenticated before.
\<close>

theorem scram_exchange_attributes_later_requests:
  assumes salt: "pc_principal_hash_salt (pr_config p) = Some salt"
    and start: "dm_response_to start = 0" "dm_command start = Some command1" "\<not> dm_more_to_come start"
      "cmd_name command1 = ''saslStart''" "cmd_principal command1 = Some user" "\<not> cmd_speculative_auth command1"
    and challenge: "dm_response_to challenge = dm_request_id start" "dm_request_id start \<noteq> 0"
      "dm_status challenge = Some status1" "rs_ok status1 = Some True" "rs_auth_done status1 = Some False"
    and continue: "dm_response_to continue = 0" "dm_command continue = Some command2" "\<not> dm_more_to_come continue"
      "cmd_name command2 = ''saslContinue''" "cmd_principal command2 = None" "\<not> cmd_speculative_auth command2"
    and outcome: "dm_response_to outcome = dm_request_id continue" "dm_request_id continue \<noteq> 0"
      "dm_status outcome = Some status2" "rs_ok status2 = Some True" "rs_auth_done status2 = Some True"
    and later: "dm_response_to later = 0" "dm_command later = Some command3" "\<not> dm_more_to_come later"
    and carried: "list_all (carried_by crypto (tgid, connection))
      [(e1, r1, t1, start), (e2, r2, t2, challenge), (e3, r3, t3, continue), (e4, r4, t4, outcome), (e5, r5, t5, later)]"
    and run: "run_steps deliver p
      [(e1, r1, t1, start), (e2, r2, t2, challenge), (e3, r3, t3, continue), (e4, r4, t4, outcome), (e5, r5, t5, later)] =
      (p', events)"
  shows "\<exists>request. hm_get (pr_pending p') (tgid, connection, dm_request_id later) = Some request \<and>
    pq_command request = command3\<lparr>cmd_principal := None\<rparr> \<and>
    pq_actor_principal_hash request = Some (hash_principal crypto salt user)"
proof -
  let ?key = "(tgid, connection)"
  let ?hash = "hash_principal crypto salt user"
  have keys: "conn_key r1 = ?key" "conn_key r2 = ?key" "conn_key r3 = ?key" "conn_key r4 = ?key" "conn_key r5 = ?key"
    "env_crypto e1 = crypto"
    using carried by (simp_all add: carried_by_def)
  have auth: "command_carries_authentication command1" "command_carries_authentication command2"
    "\<not> authentication_exchange_completed command1 (Some False)"
    "authentication_exchange_completed command2 (Some True)"
    using sasl_exchange start(4,6) continue(4,6) by auto
  obtain p1 where p1: "process_message e1 p r1 t1 start = (p1, [])"
    "hm_get (pr_pending p1) (request_key r1 (dm_request_id start)) = Some (request_of e1 p r1 t1 start command1)"
    "pr_config p1 = pr_config p" "cs_pending_auth_principal_hash (conn_state p1 ?key) = Some ?hash"
    by (rule request_waits [OF start(1-3) refl, of e1 p r1 t1]) (use keys in \<open>simp add: start salt auth\<close>)
  obtain p2 out2 where p2: "process_message e2 p1 r2 t2 challenge = (p2, out2)" "pr_config p2 = pr_config p"
    "cs_pending_auth_principal_hash (conn_state p2 ?key) = Some ?hash"
    by (rule response_answers [of challenge p1 r2 "request_of e1 p r1 t1 start command1" e2 t2])
      (use p1 challenge auth keys in \<open>auto simp: authenticated_by_def request_key_def\<close>)
  obtain p3 where p3: "process_message e3 p2 r3 t3 continue = (p3, [])"
    "hm_get (pr_pending p3) (request_key r3 (dm_request_id continue)) = Some (request_of e3 p2 r3 t3 continue command2)"
    "pr_config p3 = pr_config p" "cs_pending_auth_principal_hash (conn_state p3 ?key) = Some ?hash"
    by (rule request_waits [OF continue(1-3) refl, of e3 p2 r3 t3]) (simp add: continue p2)
  obtain p4 out4 where p4: "process_message e4 p3 r4 t4 outcome = (p4, out4)"
    "cs_authenticated_principal_hash (conn_state p4 ?key) = Some ?hash"
    by (rule response_answers [of outcome p3 r4 "request_of e3 p2 r3 t3 continue command2" e4 t4])
      (use p3 outcome auth continue keys in \<open>auto simp: authenticated_by_def request_key_def\<close>)
  obtain p5 where p5: "process_message e5 p4 r5 t5 later = (p5, [])"
    "hm_get (pr_pending p5) (request_key r5 (dm_request_id later)) = Some (request_of e5 p4 r5 t5 later command3)"
    using request_waits [OF later refl] .
  have "p5 = p'" using run p1(1) p2(1) p3(1) p4(1) p5(1) by (simp add: deliver_def)
  with p4(2) p5(2) keys show ?thesis by (simp add: request_key_def)
qed

subsection \<open>Endpoints of a closed connection\<close>

text \<open>
  Closing a connection leaves its descriptor's entry in the endpoint cache: another connection on the
  same descriptor is reported with the endpoints of the closed one until the entry is five seconds old.
\<close>

lemma closing_keeps_cached_endpoints:
  assumes "hm_get (pr_endpoint_cache p) (ke_tgid raw, ke_fd raw) = Some cached"
    and "env_instant env - ec_inserted_at cached < 5000000000" and "0 \<le> sint (ke_fd raw)"
  shows "conn_remote (snd (connection_metadata_of env (release_connection key p) raw)) = Some (ec_remote cached)"
  using assms by (simp add: connection_metadata_of_def socket_endpoints_def release_connection_def Let_def)

subsection \<open>Sample exchanges\<close>

definition sample_message :: "i32 \<Rightarrow> i32 \<Rightarrow> mongo_command option \<Rightarrow> response_status option \<Rightarrow> decoded_message" where
  "sample_message request_id response_to command status =
     \<lparr>dm_request_id = request_id, dm_response_to = response_to, dm_wire_bytes = 128, dm_flags = 0,
      dm_more_to_come = False, dm_compressed = False, dm_command = command, dm_status = status\<rparr>"

definition sample_command :: "string \<Rightarrow> string option \<Rightarrow> mongo_command" where
  "sample_command name user =
     \<lparr>cmd_name = name, cmd_database = Some ''admin'', cmd_collection = None, cmd_auth_mechanism = None,
      cmd_principal = user, cmd_speculative_auth = False, cmd_delete_scope = None,
      cmd_delete_statements = None, cmd_query = None\<rparr>"

definition sample_status :: "bool \<Rightarrow> response_status" where
  "sample_status auth_done =
     \<lparr>rs_ok = Some True, rs_code = None, rs_code_name = None, rs_affected_count = None,
      rs_auth_done = Some auth_done\<rparr>"

theorem response_completes_its_request_once_witness:
  "snd (process_message sample_env (new_processor sample_processor_config) (sample_raw 1 0 []) False
     (sample_message 7 0 (Some (sample_command ''drop'' None)) None)) = []"
proof -
  let ?p = "new_processor sample_processor_config"
  let ?raw = "sample_raw 1 0 []"
  let ?request = "sample_message 7 0 (Some (sample_command ''drop'' None)) None"
  let ?response = "sample_message 70 7 None (Some (sample_status False))"
  show ?thesis
    by (rule response_completes_its_request_once [of ?request "sample_command ''drop'' None" ?response ?raw ?raw
          sample_env ?p False _ _ sample_env False, OF _ _ _ _ _ _ surjective_pairing surjective_pairing,
          THEN conjunct1])
      (simp_all add: sample_message_def)
qed

theorem scram_exchange_attributes_later_requests_witness:
  "\<exists>request. hm_get (pr_pending (fst (run_steps deliver (new_processor sample_processor_config)
     [(sample_env, sample_raw 1 0 [], False, sample_message 1 0 (Some (sample_command ''saslStart'' (Some ''alice''))) None),
      (sample_env, sample_raw 1 0 [], False, sample_message 11 1 None (Some (sample_status False))),
      (sample_env, sample_raw 1 0 [], False, sample_message 2 0 (Some (sample_command ''saslContinue'' None)) None),
      (sample_env, sample_raw 1 0 [], False, sample_message 12 2 None (Some (sample_status True))),
      (sample_env, sample_raw 1 0 [], False, sample_message 3 0 (Some (sample_command ''delete'' None)) None)])))
     (42, 77, 3) = Some request \<and>
     pq_actor_principal_hash request = Some (hash_principal sample_crypto ''customer-salt'' ''alice'')"
proof -
  note attributed = scram_exchange_attributes_later_requests
    [of "new_processor sample_processor_config" "''customer-salt''"
      "sample_message 1 0 (Some (sample_command ''saslStart'' (Some ''alice''))) None"
      "sample_command ''saslStart'' (Some ''alice'')" "''alice''"
      "sample_message 11 1 None (Some (sample_status False))" "sample_status False"
      "sample_message 2 0 (Some (sample_command ''saslContinue'' None)) None" "sample_command ''saslContinue'' None"
      "sample_message 12 2 None (Some (sample_status True))" "sample_status True"
      "sample_message 3 0 (Some (sample_command ''delete'' None)) None" "sample_command ''delete'' None"
      sample_crypto 42 77 sample_env "sample_raw 1 0 []" False sample_env "sample_raw 1 0 []" False
      sample_env "sample_raw 1 0 []" False sample_env "sample_raw 1 0 []" False sample_env "sample_raw 1 0 []" False]
  have "carried_by sample_crypto (42, 77) (sample_env, sample_raw 1 0 [], t, m)" for t m
    by (simp add: carried_by_def sample_env_def sample_raw_def)
  then show ?thesis
    using attributed [OF _ _ _ _ _ _ _ _ _ _ _ _ _ _ _ _ _ _ _ _ _ _ _ _ _ _ _ surjective_pairing]
    by (simp add: new_processor_def sample_processor_config_def sample_message_def sample_command_def
        sample_status_def del: run_steps.simps) blast
qed

end
