(* ===== verification/Observer_Tests.thy ===== *)
theory Observer_Tests
  imports Attribution "HOL-Library.Sublist"
begin

text \<open>
  The unit tests of \<open>crates/observer/src/lib.rs\<close>, run on the model: each is a definition with the inputs and
  assertions of the source, and a lemma that it holds. The digest is a parameter of the tests that hash.
\<close>

subsection \<open>Inputs\<close>

definition test_processor :: event_processor where
  "test_processor = new_processor
     \<lparr>pc_customer_id = ''customer'', pc_tenant_id = ''tenant'', pc_source_id = ''source'',
      pc_regional_cell_id = ''cell'', pc_sensor_id = ''sensor'', pc_node_name = ''node'',
      pc_cluster_name = ''cluster'', pc_host_proc = ''/definitely-not-proc'', pc_max_message_bytes = 1024 * 1024,
      pc_cpu_profile_hz = 0, pc_principal_hash_salt = Some ''customer-salt'', pc_capture_query_content = True\<rparr>"

definition test_raw :: "u64 \<Rightarrow> kernel_event" where
  "test_raw timestamp_ns =
     \<lparr>ke_timestamp_ns = timestamp_ns, ke_connection_key = 77, ke_cgroup_id = 88, ke_duration_ns = 0,
      ke_bytes = 0, ke_result = 0, ke_pid = 42, ke_tgid = 42, ke_uid = 999, ke_gid = 999,
      ke_fd = 9, ke_original_len = 0, ke_captured_len = 0,
      ke_event_type = EVENT_IO_CHUNK, ke_direction = 0, ke_source = 1, ke_operation = 0,
      ke_comm = as_bytes ''mongod'' @ replicate 10 0, ke_data = replicate MAX_CAPTURE_BYTES 0\<rparr>"

definition request_message :: "i32 \<Rightarrow> mongo_command \<Rightarrow> decoded_message" where
  "request_message request_id command =
     \<lparr>dm_request_id = request_id, dm_response_to = 0, dm_wire_bytes = 128, dm_flags = 0, dm_more_to_come = False,
      dm_compressed = False, dm_command = Some command, dm_status = None\<rparr>"

definition response_message :: "i32 \<Rightarrow> i32 \<Rightarrow> u64 option \<Rightarrow> bool option \<Rightarrow> decoded_message" where
  "response_message request_id response_to affected_count auth_done =
     \<lparr>dm_request_id = request_id, dm_response_to = response_to, dm_wire_bytes = 96, dm_flags = 0, dm_more_to_come = False,
      dm_compressed = False, dm_command = None,
      dm_status = Some \<lparr>rs_ok = Some True, rs_code = None, rs_code_name = None, rs_affected_count = affected_count,
        rs_auth_done = auth_done\<rparr>\<rparr>"

text \<open>A command with nothing but its name and database.\<close>

definition plain_command :: "string \<Rightarrow> string \<Rightarrow> mongo_command" where
  "plain_command name database =
     \<lparr>cmd_name = name, cmd_database = Some database, cmd_collection = None, cmd_auth_mechanism = None, cmd_principal = None,
      cmd_speculative_auth = False, cmd_delete_scope = None, cmd_delete_statements = None, cmd_query = None\<rparr>"

subsection \<open>Readers\<close>

definition extracts_systemd_and_cgroupfs_pod_uids :: bool where
  "extracts_systemd_and_cgroupfs_pod_uids \<longleftrightarrow>
     (let uid = ''08f20c35-9ab0-4a41-94b8-2e19e20c14c8'' in
      extract_pod_uid (''0::/kubepods.slice/kubepods-burstable-pod'' @ map (\<lambda>c. if c = CHR ''-'' then CHR ''_'' else c) uid @
        ''.slice/cri-containerd-deadbeef.scope'') = Some uid \<and>
      extract_pod_uid (''0::/kubepods/burstable/pod'' @ uid @ ''/deadbeef'') = Some uid)"

lemma extracts_systemd_and_cgroupfs_pod_uids_holds: extracts_systemd_and_cgroupfs_pod_uids
  by code_simp

definition parses_proc_ipv4_endpoint :: bool where
  "parses_proc_ipv4_endpoint \<longleftrightarrow>
     (case parse_endpoint ''0100007F:6989'' False of
        Some endpoint \<Rightarrow> ep_address endpoint = Some ''127.0.0.1'' \<and> ep_port endpoint = Some 27017
      | None \<Rightarrow> False)"

lemma parses_proc_ipv4_endpoint_holds: parses_proc_ipv4_endpoint
  by code_simp

definition dns_srv_query :: "u8 \<Rightarrow> u8 \<Rightarrow> bytes" where
  "dns_srv_query flags_high flags_low =
     [0x12, 0x34, flags_high, flags_low, 0x00, 0x01, 0x00, 0x00, 0x00, 0x00, 0x00, 0x00] @
     concat (map (\<lambda>label. word_of_nat (length label) # as_bytes label) [''_mongodb'', ''_tcp'', ''example'', ''com'']) @
     [0, 0, 33, 0, 1]"

definition decodes_dns_srv_query_and_response_metadata :: bool where
  "decodes_dns_srv_query_and_response_metadata \<longleftrightarrow>
     (case decode_dns_message (dns_srv_query 0x01 0x00) of
        Inr m \<Rightarrow> dd_query_id m = 0x1234 \<and> \<not> dd_response m \<and> dd_name m = Some ''_mongodb._tcp.example.com'' \<and>
          dd_record_type m = Some ''SRV''
      | Inl _ \<Rightarrow> False) \<and>
     (case decode_dns_message (dns_srv_query 0x81 0x83) of
        Inr m \<Rightarrow> dd_response m \<and> dd_response_code m = 3
      | Inl _ \<Rightarrow> False)"

lemma decodes_dns_srv_query_and_response_metadata_holds: decodes_dns_srv_query_and_response_metadata
  by code_simp

subsection \<open>Principals and attribution\<close>

definition user_management_principals_are_treated_as_auth_and_hashed :: "crypto \<Rightarrow> bool" where
  "user_management_principals_are_treated_as_auth_and_hashed crypto \<longleftrightarrow>
     is_auth_command ''createUser'' \<and>
     (let command = (plain_command ''createUser'' ''admin'')\<lparr>cmd_principal := Some ''alice@example.com''\<rparr>;
          (command, hashed) = take_hashed_principal crypto command (Some ''customer-salt'') in
      (case hashed of
         Some hashed \<Rightarrow> starts_with ''sha256:'' hashed \<and> \<not> sublist ''alice'' hashed
       | None \<Rightarrow> False) \<and> cmd_principal command = None)"

lemma user_management_principals_are_treated_as_auth_and_hashed_holds:
  assumes "\<And>bs. list_all is_ascii_hexdigit (hex_encode crypto bs)"
  shows "user_management_principals_are_treated_as_auth_and_hashed crypto"
proof -
  let ?hashed = "hash_principal crypto ''customer-salt'' ''alice@example.com''"
  have "\<not> is_ascii_hexdigit (CHR ''l'')" by (simp add: is_ascii_hexdigit_def is_ascii_digit_def in_range_def)
  then have "CHR ''l'' \<notin> set ?hashed"
    using assms by (auto simp: hash_principal_def list_all_iff)
  then have "\<not> sublist ''alice'' ?hashed" by (auto dest: set_mono_sublist)
  moreover have "is_auth_command ''createUser''" by code_simp
  ultimately show ?thesis
    by (simp add: user_management_principals_are_treated_as_auth_and_hashed_def take_hashed_principal_def plain_command_def
        hash_principal_def starts_with_def)
qed

definition attributes_bulk_delete_to_scram_principal_and_exports_query_content :: "env \<Rightarrow> bool" where
  "attributes_bulk_delete_to_scram_principal_and_exports_query_content env \<longleftrightarrow>
     (let processor = test_processor;
          speculative_hello = (plain_command ''hello'' ''admin'')\<lparr>cmd_auth_mechanism := Some ''SCRAM-SHA-256'',
            cmd_principal := Some ''alice'', cmd_speculative_auth := True\<rparr>;
          (processor, none) = process_message env processor (test_raw 1000) False (request_message 10 speculative_hello);
          (processor, _) = process_message env processor (test_raw 2000) False (response_message 11 10 None (Some False));
          sasl_continue = plain_command ''saslContinue'' ''admin'';
          (processor, _) = process_message env processor (test_raw 3000) False (request_message 12 sasl_continue);
          (processor, _) = process_message env processor (test_raw 4000) False (response_message 13 12 None (Some True));
          delete = (plain_command ''delete'' ''dam_demo'')\<lparr>cmd_collection := Some ''customer_records'',
            cmd_delete_scope := Some Multi, cmd_delete_statements := Some 1,
            cmd_query := Some (JObject [(''delete'', JString ''customer_records''),
              (''deletes'', JArray [JObject [(''q'', JObject [(''demo_batch'', JString ''iam-bulk-delete'')]),
                (''limit'', JNumber (PosInt 0))]]),
              (''$db'', JString ''dam_demo'')])\<rparr>;
          (processor, _) = process_message env processor (test_raw 5000) False (request_message 14 delete);
          (processor, events) = process_message env processor (test_raw 10005000) False (response_message 15 14 (Some 35) None) in
      none = [] \<and>
      (case events of
         [event] \<Rightarrow>
           (case ev_payload event of
              MongodbActivity activity \<Rightarrow>
                act_principal activity = Some (hash_principal (env_crypto env) ''customer-salt'' ''alice'') \<and>
                act_delete_scope activity = Some ''multi'' \<and> act_affected_documents activity = Some 35 \<and>
                map_option (\<lambda>query. json_get ''demo_batch'' (json_get ''q'' (json_at 0 (json_get ''deletes'' query)))) (act_query activity) =
                  Some (JString ''iam-bulk-delete'') \<and>
                \<not> cap_metadata_only (ev_capture event)
            | _ \<Rightarrow> False)
       | _ \<Rightarrow> False))"

definition keeps_activity_metadata_only_when_query_capture_is_disabled :: "env \<Rightarrow> bool" where
  "keeps_activity_metadata_only_when_query_capture_is_disabled env \<longleftrightarrow>
     (let processor = test_processor\<lparr>pr_config := (pr_config test_processor)\<lparr>pc_capture_query_content := False\<rparr>\<rparr>;
          find = (plain_command ''find'' ''dam_demo'')\<lparr>cmd_collection := Some ''orders'',
            cmd_query := Some (JObject [(''find'', JString ''orders''),
              (''filter'', JObject [(''customer_id'', JString ''cust-001'')]), (''$db'', JString ''dam_demo'')])\<rparr>;
          (processor, _) = process_message env processor (test_raw 5000) False (request_message 20 find);
          (processor, events) = process_message env processor (test_raw 10005000) False (response_message 21 20 None None) in
      (case events of
         [event] \<Rightarrow>
           (case ev_payload event of
              MongodbActivity activity \<Rightarrow> act_query activity = None \<and> cap_metadata_only (ev_capture event)
            | _ \<Rightarrow> False)
       | _ \<Rightarrow> False))"

text \<open>The messages of the tests, for any environment: requests wait, and a response yields the one event of its request.\<close>

lemma test_message_simps [simp]:
  "dm_response_to (request_message request_id command) = 0" "dm_command (request_message request_id command) = Some command"
  "\<not> dm_more_to_come (request_message request_id command)" "dm_request_id (request_message request_id command) = request_id"
  "dm_response_to (response_message request_id response_to affected auth_done) = response_to"
  "dm_status (response_message request_id response_to affected auth_done) =
     Some \<lparr>rs_ok = Some True, rs_code = None, rs_code_name = None, rs_affected_count = affected, rs_auth_done = auth_done\<rparr>"
  "ke_tgid (test_raw t) = 42" "ke_connection_key (test_raw t) = 77"
  by (simp_all add: request_message_def response_message_def test_raw_def)

lemma request_message_waits:
  obtains p' where
    "process_message env p (test_raw t) False (request_message request_id command) = (p', [])"
    "hm_get (pr_pending p') (42, 77, request_id) = Some (request_of env p (test_raw t) False (request_message request_id command) command)"
    "pr_config p' = pr_config p"
    "conn_state p' (42, 77) =
       (if command_carries_authentication command \<and> cmd_principal command \<noteq> None \<and> pc_principal_hash_salt (pr_config p) \<noteq> None
        then (conn_state p (42, 77))\<lparr>cs_pending_auth_principal_hash :=
          Some (hash_principal (env_crypto env) (the (pc_principal_hash_salt (pr_config p))) (the (cmd_principal command)))\<rparr>
        else conn_state p (42, 77))"
proof -
  let ?m = "request_message request_id command"
  obtain p' where p': "process_message env p (test_raw t) False ?m = (p', [])"
    "hm_get (pr_pending p') (request_key (test_raw t) (dm_request_id ?m)) = Some (request_of env p (test_raw t) False ?m command)"
    "pr_config p' = pr_config p"
    "\<And>k. conn_state p' k =
       (if k = conn_key (test_raw t) \<and> command_carries_authentication command \<and>
           pq_target_principal_hash (request_of env p (test_raw t) False ?m command) \<noteq> None
        then (conn_state p k)\<lparr>cs_pending_auth_principal_hash :=
          pq_target_principal_hash (request_of env p (test_raw t) False ?m command)\<rparr> else conn_state p k)"
    by (rule request_waits [of ?m command, OF _ _ _ refl, of env p "test_raw t" False]) simp_all
  show thesis
    by (rule that [OF p'(1) _ p'(3)]) (use p'(2,4) in \<open>auto simp: request_key_def bind_eq_Some_conv\<close>)
qed

lemma response_message_answers:
  assumes "hm_get (pr_pending p) (42, 77, response_to) = Some request" and "response_to \<noteq> 0"
    and "pq_connection_state_key request = (42, 77)"
  obtains p' out where
    "process_message env p (test_raw t) False (response_message request_id response_to affected auth_done) = (p', out)"
    "pr_config p' = pr_config p"
    "conn_state p' (42, 77) = authenticated_by request (Some True) auth_done (conn_state p (42, 77))"
  by (rule response_answers [of "response_message request_id response_to affected auth_done" p "test_raw t" request env False])
    (use assms in \<open>auto simp: request_key_def\<close>)

lemma response_message_event:
  assumes "hm_get (pr_pending p) (42, 77, response_to) = Some request" and "response_to \<noteq> 0"
    and "\<not> is_auth_command (cmd_name (pq_command request))" and "\<not> cmd_speculative_auth (pq_command request)"
    and query_def: "query = (if pc_capture_query_content (pr_config p) then cmd_query (pq_command request) else None)"
  obtains p' event activity where
    "process_message env p (test_raw t) False (response_message request_id response_to affected None) = (p', [event])"
    "ev_payload event = MongodbActivity activity" "act_principal activity = pq_actor_principal_hash request"
    "act_delete_scope activity = map_option delete_scope_name (cmd_delete_scope (pq_command request))"
    "act_affected_documents activity = affected" "act_query activity = query"
    "cap_metadata_only (ev_capture event) \<longleftrightarrow> query = None \<and> cap_metadata_only (seed_capture (pq_seed request))"
  using assms(1-4) that unfolding query_def
  by (simp add: process_message_def Let_def events_for_completed_request_def
      case_prod_unfold event_from_seed_def mongodb_activity_of_def response_parts_def)

lemma request_of_metadata_only [simp]:
  "cap_metadata_only (seed_capture (pq_seed (request_of env p raw truncated message command)))"
  by (simp add: request_of_def register_request_def Let_def case_prod_unfold seed_of_def)

lemma plain_command_names:
  "\<not> is_auth_command ''find''" "\<not> is_auth_command ''delete''" "is_session_auth_command ''saslContinue''"
  "to_ascii_lowercase ''saslContinue'' = ''saslcontinue''"
  by code_simp+

lemma keeps_activity_metadata_only_when_query_capture_is_disabled_holds:
  "keeps_activity_metadata_only_when_query_capture_is_disabled env"
proof -
  let ?p = "test_processor\<lparr>pr_config := (pr_config test_processor)\<lparr>pc_capture_query_content := False\<rparr>\<rparr>"
  let ?find = "(plain_command ''find'' ''dam_demo'')\<lparr>cmd_collection := Some ''orders'',
      cmd_query := Some (JObject [(''find'', JString ''orders''),
        (''filter'', JObject [(''customer_id'', JString ''cust-001'')]), (''$db'', JString ''dam_demo'')])\<rparr>"
  obtain p1 where p1: "process_message env ?p (test_raw 5000) False (request_message 20 ?find) = (p1, [])"
    "hm_get (pr_pending p1) (42, 77, 20) = Some (request_of env ?p (test_raw 5000) False (request_message 20 ?find) ?find)"
    "pr_config p1 = pr_config ?p"
    by (rule request_message_waits)
  obtain p2 event activity where
    "process_message env p1 (test_raw 10005000) False (response_message 21 20 None None) = (p2, [event])"
    "ev_payload event = MongodbActivity activity" "act_query activity = None" "cap_metadata_only (ev_capture event)"
    by (rule response_message_event [OF p1(2) _ _ _ refl, of env 10005000 21 None])
      (use p1(3) in \<open>simp_all add: plain_command_def plain_command_names\<close>)
  with p1(1) show ?thesis
    by (simp add: keeps_activity_metadata_only_when_query_capture_is_disabled_def Let_def)
qed

lemma attributes_bulk_delete_to_scram_principal_and_exports_query_content_holds:
  "attributes_bulk_delete_to_scram_principal_and_exports_query_content env"
proof -
  let ?hello = "(plain_command ''hello'' ''admin'')\<lparr>cmd_auth_mechanism := Some ''SCRAM-SHA-256'',
      cmd_principal := Some ''alice'', cmd_speculative_auth := True\<rparr>"
  let ?continue = "plain_command ''saslContinue'' ''admin''"
  let ?query = "JObject [(''delete'', JString ''customer_records''),
      (''deletes'', JArray [JObject [(''q'', JObject [(''demo_batch'', JString ''iam-bulk-delete'')]),
        (''limit'', JNumber (PosInt 0))]]), (''$db'', JString ''dam_demo'')]"
  let ?delete = "(plain_command ''delete'' ''dam_demo'')\<lparr>cmd_collection := Some ''customer_records'',
      cmd_delete_scope := Some Multi, cmd_delete_statements := Some 1, cmd_query := Some ?query\<rparr>"
  let ?hash = "hash_principal (env_crypto env) ''customer-salt'' ''alice''"
  have config: "pc_principal_hash_salt (pr_config test_processor) = Some ''customer-salt''"
      "pc_capture_query_content (pr_config test_processor)"
    by (simp_all add: test_processor_def new_processor_def)
  note auth = authenticated_by_def command_carries_authentication_def authentication_exchange_completed_def
    plain_command_def plain_command_names config
  obtain p1 where p1: "process_message env test_processor (test_raw 1000) False (request_message 10 ?hello) = (p1, [])"
      "hm_get (pr_pending p1) (42, 77, 10) = Some (request_of env test_processor (test_raw 1000) False (request_message 10 ?hello) ?hello)"
      "pr_config p1 = pr_config test_processor" "cs_pending_auth_principal_hash (conn_state p1 (42, 77)) = Some ?hash"
    by (rule request_message_waits [of env test_processor 1000 10 ?hello]) (simp add: auth)
  obtain p2 out2 where p2: "process_message env p1 (test_raw 2000) False (response_message 11 10 None (Some False)) = (p2, out2)"
      "pr_config p2 = pr_config test_processor" "cs_pending_auth_principal_hash (conn_state p2 (42, 77)) = Some ?hash"
    by (rule response_message_answers [OF p1(2), of env 2000 11 None "Some False"])
      (use p1 in \<open>simp_all add: auth\<close>)
  obtain p3 where p3: "process_message env p2 (test_raw 3000) False (request_message 12 ?continue) = (p3, [])"
      "hm_get (pr_pending p3) (42, 77, 12) = Some (request_of env p2 (test_raw 3000) False (request_message 12 ?continue) ?continue)"
      "pr_config p3 = pr_config test_processor" "cs_pending_auth_principal_hash (conn_state p3 (42, 77)) = Some ?hash"
    by (rule request_message_waits [of env p2 3000 12 ?continue]) (use p2 in \<open>simp add: plain_command_def\<close>)
  obtain p4 out4 where p4: "process_message env p3 (test_raw 4000) False (response_message 13 12 None (Some True)) = (p4, out4)"
      "pr_config p4 = pr_config test_processor" "cs_authenticated_principal_hash (conn_state p4 (42, 77)) = Some ?hash"
    by (rule response_message_answers [OF p3(2), of env 4000 13 None "Some True"])
      (use p3 in \<open>simp_all add: auth\<close>)
  obtain p5 where p5: "process_message env p4 (test_raw 5000) False (request_message 14 ?delete) = (p5, [])"
      "hm_get (pr_pending p5) (42, 77, 14) = Some (request_of env p4 (test_raw 5000) False (request_message 14 ?delete) ?delete)"
      "pr_config p5 = pr_config test_processor"
    by (rule request_message_waits [of env p4 5000 14 ?delete]) (use p4 in simp)
  obtain p6 event activity where
    "process_message env p5 (test_raw 10005000) False (response_message 15 14 (Some 35) None) = (p6, [event])"
    "ev_payload event = MongodbActivity activity" "act_principal activity = Some ?hash"
    "act_delete_scope activity = Some ''multi''" "act_affected_documents activity = Some 35"
    "act_query activity = Some ?query" "\<not> cap_metadata_only (ev_capture event)"
    by (rule response_message_event [OF p5(2) _ _ _ refl, of env 10005000 15 "Some 35"])
      (use p4(3) p5(3) config in \<open>simp_all add: plain_command_def plain_command_names delete_scope_name_def\<close>)
  with p1(1) p2(1) p3(1) p4(1) p5(1) show ?thesis
    by (simp add: attributes_bulk_delete_to_scram_principal_and_exports_query_content_def Let_def)
qed

end
