(* ===== verification/Store_Tests.thy ===== *)
theory Store_Tests
  imports Wire_Json Outpost_Spec "HOL-Library.Sublist"
begin

text \<open>
  The unit tests of the crates \<open>schema\<close>, \<open>spool\<close> and \<open>outpost\<close>, run on the model: each is a definition with the
  inputs and assertions of the source, and a lemma that it holds. Left out are the test against an S3 server and
  the one that reads the examples of the documentation, which exercise libraries and files.
\<close>

subsection \<open>Schema\<close>

definition test_event :: "capture_source \<Rightarrow> bool \<Rightarrow> event_payload \<Rightarrow> dam_event" where
  "test_event source metadata_only payload =
     \<lparr>ev_schema_version = EVENT_SCHEMA_VERSION, ev_event_id = ''evt-1'', ev_observed_at = 0, ev_monotonic_timestamp_ns = 1,
      ev_customer_id = ''customer'', ev_tenant_id = ''tenant'', ev_source_id = ''source'', ev_regional_cell_id = ''cell'',
      ev_capture = \<lparr>cap_sensor_id = ''sensor'', cap_node_name = ''node'', cap_source = source, cap_confidence = Complete,
        cap_metadata_only = metadata_only, cap_truncated = False\<rparr>,
      ev_kubernetes = None, ev_process = None, ev_identity = None, ev_payload = payload\<rparr>"

text \<open>The texts inside a JSON value: its strings and member names.\<close>

fun json_texts :: "json_value \<Rightarrow> string list" where
  "json_texts (JString s) = [s]"
| "json_texts (JArray vs) = concat (map json_texts vs)"
| "json_texts (JObject members) = concat (map (\<lambda>(key, v). key # json_texts v) members)"
| "json_texts _ = []"

definition json_contains :: "string \<Rightarrow> json_value \<Rightarrow> bool" where
  "json_contains s v \<longleftrightarrow> list_ex (sublist s) (json_texts v)"

definition serialized_activity_can_include_query_content :: bool where
  "serialized_activity_can_include_query_content \<longleftrightarrow>
     (let identity = \<lparr>xid_provider = ''aws'', xid_principal_type = ''iam_user'',
            xid_principal_arn = ''arn:aws:iam::111122223333:user/dam-demo-alice'', xid_account_id = ''111122223333'',
            xid_credential_source = ''aws_secrets_manager'',
            xid_credential_resource = ''arn:aws:secretsmanager:ap-south-1:111122223333:secret:mongodb-dam-demo''\<rparr>;
          query = JObject [(''find'', JString ''orders''), (''filter'', JObject [(''customer_id'', JString ''cust-001'')]),
            (''$db'', JString ''sales'')];
          activity = \<lparr>act_command = ''find'', act_database = Some ''sales'', act_collection = Some ''orders'',
            act_principal = Some ''sha256:redacted'', act_principal_hashed = True, act_delete_scope = None,
            act_delete_statements = None, act_affected_documents = None, act_query = Some query, act_request_id = 7,
            act_response_id = Some 8, act_request_bytes = 64, act_response_bytes = Some 32, act_duration_us = Some 100,
            act_succeeded = Some True, act_error_code = None, act_error_name = None, act_expects_response = True,
            act_compressed = False,
            act_connection = \<lparr>conn_connection_id = ''1:4'', conn_fd = 4, conn_local = None, conn_remote = None,
              conn_tcp_srtt_us = None, conn_retransmits = None, conn_tls = None\<rparr>\<rparr>;
          event = (test_event OpenSslUprobe False (MongodbActivity activity))\<lparr>ev_identity := Some identity\<rparr> in
      (case dam_event_json sample_rfc3339 event of
         Some json \<Rightarrow> list_all (\<lambda>s. json_contains s json)
           [''filter'', ''cust-001'', ''mongodb_activity'', ''dam-demo-alice'', ''aws_secrets_manager'']
       | None \<Rightarrow> False))"

definition batch_rejects_cross_tenant_or_non_metadata_events :: bool where
  "batch_rejects_cross_tenant_or_non_metadata_events \<longleftrightarrow>
     (let activity = test_event CleartextSyscall True (SensorHealth
            \<lparr>sh_status = ''ok'', sh_component = ''observer'', sh_reason = ''test'', sh_dropped_events = 0, sh_parse_errors = 0,
             sh_spool_bytes = 0\<rparr>);
          batch = (\<lambda>event. \<lparr>ba_schema_version = BATCH_SCHEMA_VERSION, ba_batch_id = ''batch-1'', ba_customer_id = ''customer'',
            ba_tenant_id = ''tenant'', ba_source_id = ''source'', ba_regional_cell_id = ''cell'', ba_created_at = 0,
            ba_events = [event]\<rparr>) in
      validate (batch (activity\<lparr>ev_customer_id := ''other-customer''\<rparr>)) =
        Fail ''event identity does not match batch identity'' \<and>
      validate (batch (activity\<lparr>ev_capture := (ev_capture activity)\<lparr>cap_metadata_only := False\<rparr>\<rparr>)) =
        Fail ''capture metadata does not match MongoDB query-content presence'')"

lemma serialized_activity_can_include_query_content_holds: serialized_activity_can_include_query_content
  by code_simp

lemma batch_rejects_cross_tenant_or_non_metadata_events_holds: batch_rejects_cross_tenant_or_non_metadata_events
  by code_simp

subsection \<open>Spool\<close>

text \<open>A digest that tells bodies of at most 32 bytes apart, in place of SHA-256.\<close>

definition short_digest :: "bytes \<Rightarrow> string" where
  "short_digest body = take 64 (encode_hex body @ replicate 64 (CHR ''0''))"

definition test_spool :: "usize \<Rightarrow> spool" where
  "test_spool max_bytes = fst (open_spool short_digest None [] [] max_bytes)"

definition exceeded :: "(spool_error, string) result \<Rightarrow> bool" where
  "exceeded r \<longleftrightarrow> (case r of Inl (Err (CapacityExceeded _ _ _)) \<Rightarrow> True | _ \<Rightarrow> False)"

definition enqueue_is_content_idempotent_and_acknowledge_is_repeatable :: bool where
  "enqueue_is_content_idempotent_and_acknowledge_is_repeatable \<longleftrightarrow>
     (let body = as_bytes ''{\"hello\":\"world\"}'';
          (spool, first) = spool_enqueue short_digest None (test_spool 1024) body;
          (spool, second) = spool_enqueue short_digest None spool body in
      first = second \<and> \<not> isl first \<and> map_sum id st_items (spool_root_stats None spool) = Ok 1 \<and>
      (case spool_pending None spool of
         Inr [item] \<Rightarrow>
           (let (acknowledged, r) = spool_acknowledge None spool item;
                (again, r') = spool_acknowledge None acknowledged item in
            spool_read None spool item = Ok body \<and> r = Ok () \<and> r' = Ok () \<and>
            spool_root_stats None again = Ok \<lparr>st_items = 0, st_bytes = 0\<rparr>)
       | _ \<Rightarrow> False))"

definition capacity_is_enforced_before_write :: bool where
  "capacity_is_enforced_before_write \<longleftrightarrow>
     (let (spool, r) = spool_enqueue short_digest None (test_spool 3) (as_bytes ''four'') in
      exceeded r \<and> map_sum id st_items (spool_root_stats None spool) = Ok 0)"

definition quarantined_items_are_not_retried_and_count_toward_capacity :: bool where
  "quarantined_items_are_not_retried_and_count_toward_capacity \<longleftrightarrow>
     (let (spool, _) = spool_enqueue short_digest None (test_spool 20) (as_bytes ''first'') in
      (case spool_pending None spool of
         Inr [item] \<Rightarrow>
           (let (spool, r) = spool_quarantine None spool item in
            r = Ok () \<and> spool_root_stats None spool = Ok \<lparr>st_items = 0, st_bytes = 0\<rparr> \<and>
            map_sum id st_items (spool_quarantine_stats None spool) = Ok 1 \<and> spool_pending None spool = Ok [] \<and>
            exceeded (snd (spool_enqueue short_digest None spool (as_bytes ''a different payload''))))
       | _ \<Rightarrow> False))"

definition restart_recovers_complete_temporary_writes_and_removes_partial_ones :: bool where
  "restart_recovers_complete_temporary_writes_and_removes_partial_ones \<longleftrightarrow>
     (let complete = as_bytes ''{\"batch\":\"complete\"}'';
          complete_id = short_digest complete;
          partial_id = short_digest (as_bytes ''expected complete body'');
          partial_path = temporary_name partial_id;
          (spool, r) = open_spool short_digest None [(temporary_name complete_id, complete), (partial_path, as_bytes ''partial'')] [] 1024 in
      r = Ok () \<and>
      (case spool_pending None spool of
         Inr [item] \<Rightarrow> pi_id item = complete_id \<and> spool_read None spool item = Ok complete
       | _ \<Rightarrow> False) \<and>
      \<not> exists_in (sp_root spool) partial_path)"

text \<open>The lock lets one of the two writers go first.\<close>

definition concurrent_writers_cannot_overcommit_capacity :: bool where
  "concurrent_writers_cannot_overcommit_capacity \<longleftrightarrow>
     list_all (\<lambda>(first, second).
       (let (spool, r) = spool_enqueue short_digest None (test_spool 4) (as_bytes first);
            (spool, r') = spool_enqueue short_digest None spool (as_bytes second) in
        length (filter (\<lambda>r. \<not> isl r) [r, r']) = 1 \<and> length (filter exceeded [r, r']) = 1 \<and>
        map_sum id st_bytes (spool_root_stats None spool) = Ok 4))
       [(''aaaa'', ''bbbb''), (''bbbb'', ''aaaa'')]"

lemma enqueue_is_content_idempotent_and_acknowledge_is_repeatable_holds:
  enqueue_is_content_idempotent_and_acknowledge_is_repeatable
  by code_simp

lemma capacity_is_enforced_before_write_holds: capacity_is_enforced_before_write
  by code_simp

lemma quarantined_items_are_not_retried_and_count_toward_capacity_holds:
  quarantined_items_are_not_retried_and_count_toward_capacity
  by code_simp

lemma restart_recovers_complete_temporary_writes_and_removes_partial_ones_holds:
  restart_recovers_complete_temporary_writes_and_removes_partial_ones
  by code_simp

lemma concurrent_writers_cannot_overcommit_capacity_holds: concurrent_writers_cannot_overcommit_capacity
  by code_simp

subsection \<open>Outpost\<close>

definition test_config :: "destination_config \<Rightarrow> outpost_config" where
  "test_config destination =
     \<lparr>oc_customer_id = ''customer'', oc_tenant_id = ''tenant'', oc_source_id = ''source'', oc_regional_cell_id = ''cell'',
      oc_cluster_name = ''cluster'', oc_internal_token = None, oc_destination = destination, oc_spool_dir = ''/tmp/not-used'',
      oc_spool_max_bytes = 1024, oc_max_request_bytes = 1024, oc_export_seconds = 1, oc_kubernetes_api_url = None,
      oc_kubernetes_token_path = [], oc_kubernetes_ca_path = [], oc_kubernetes_refresh_seconds = 60,
      oc_identity_mapping_file = None\<rparr>"

definition http_to :: "string \<Rightarrow> destination_config" where
  "http_to endpoint = Http \<lparr>hd_endpoint = endpoint, hd_bearer_token = ''token'', hd_ca_file = None\<rparr>"

definition s3_to :: "string \<Rightarrow> s3_destination_config" where
  "s3_to key_prefix = \<lparr>s3_bucket = ''dam-demo-events'', s3_prefix = key_prefix, s3_endpoint_url = None, s3_force_path_style = False\<rparr>"

text \<open>The parts of the two URLs of the test, as \<open>Url::parse\<close> returns them.\<close>

definition test_urls :: url_parser where
  "test_urls url = map_option
     (\<lambda>host. \<lparr>url_scheme = ''http'', url_host = Some host, url_username = [], url_password = None\<rparr>)
     (map_of [(''http://remote.example/ingest'', ''remote.example''),
        (''http://mock-endpoint.attacker.example/v1/ingest/mongodb-dam'', ''mock-endpoint.attacker.example'')] url)"

definition rejects_non_tls_remote_endpoint :: bool where
  "rejects_non_tls_remote_endpoint \<longleftrightarrow>
     isl (validate_config test_urls (test_config (http_to ''http://remote.example/ingest''))) \<and>
     isl (validate_config test_urls (test_config (http_to ''http://mock-endpoint.attacker.example/v1/ingest/mongodb-dam'')))"

definition validates_s3_destination :: bool where
  "validates_s3_destination \<longleftrightarrow>
     \<not> isl (validate_config test_urls (test_config (S3 (s3_to ''/mongodb-dam/events/'')))) \<and>
     isl (validate_config test_urls (test_config (S3 (s3_to ''///''))))"

text \<open>The batch of \<open>tests/fixtures/dam-batch.json\<close>. Instants are nanoseconds; the two of the fixture have these texts.\<close>

definition new_year :: instant where
  "new_year = 1767225600000000000"

definition fixture_rfc3339 :: "instant \<Rightarrow> string option" where
  "fixture_rfc3339 = map_of [(new_year, ''2026-01-01T00:00:00Z''), (new_year + 1000000000, ''2026-01-01T00:00:01Z'')]"

definition fixture_event :: "string \<Rightarrow> instant \<Rightarrow> u64 \<Rightarrow> capture_source \<Rightarrow> external_identity option \<Rightarrow> event_payload \<Rightarrow> dam_event" where
  "fixture_event event_id observed_at monotonic source identity payload =
     \<lparr>ev_schema_version = 1, ev_event_id = event_id, ev_observed_at = observed_at, ev_monotonic_timestamp_ns = monotonic,
      ev_customer_id = ''integration-customer'', ev_tenant_id = ''integration-tenant'', ev_source_id = ''integration-source'',
      ev_regional_cell_id = ''integration-cell'',
      ev_capture = \<lparr>cap_sensor_id = ''integration-sensor'', cap_node_name = ''integration-node'', cap_source = source,
        cap_confidence = Complete, cap_metadata_only = True, cap_truncated = False\<rparr>,
      ev_kubernetes = None, ev_process = None, ev_identity = identity, ev_payload = payload\<rparr>"

definition fixture_batch :: dam_batch where
  "fixture_batch =
     \<lparr>ba_schema_version = 1, ba_batch_id = ''integration-batch-0001'', ba_customer_id = ''integration-customer'',
      ba_tenant_id = ''integration-tenant'', ba_source_id = ''integration-source'',
      ba_regional_cell_id = ''integration-cell'', ba_created_at = new_year, ba_events =
       [fixture_event ''integration-event-0001'' new_year 1 Sensor None (SensorHealth
          \<lparr>sh_status = ''ok'', sh_component = ''observer'', sh_reason = ''integration test'', sh_dropped_events = 0,
           sh_parse_errors = 0, sh_spool_bytes = 0\<rparr>),
        fixture_event ''integration-event-0002'' (new_year + 1000000000) 2 CleartextSyscall
          (Some \<lparr>xid_provider = ''aws'', xid_principal_type = ''iam_user'',
             xid_principal_arn = ''arn:aws:iam::999900001111:user/untrusted-input'', xid_account_id = ''999900001111'',
             xid_credential_source = ''aws_secrets_manager'',
             xid_credential_resource = ''arn:aws:secretsmanager:ap-south-1:999900001111:secret:untrusted-input''\<rparr>)
          (MongodbActivity \<lparr>act_command = ''delete'', act_database = Some ''dam_demo'', act_collection = Some ''customer_records'',
            act_principal = Some ''sha256:0123456789abcdef0123456789abcdef0123456789abcdef0123456789abcdef'',
            act_principal_hashed = True, act_delete_scope = Some ''multi'', act_delete_statements = Some 1,
            act_affected_documents = Some 35, act_query = None, act_request_id = 42, act_response_id = Some 43,
            act_request_bytes = 128, act_response_bytes = Some 32, act_duration_us = Some 1000, act_succeeded = Some True,
            act_error_code = None, act_error_name = None, act_expects_response = True, act_compressed = False,
            act_connection = \<lparr>conn_connection_id = ''1234:7'', conn_fd = 7, conn_local = None, conn_remote = None,
              conn_tcp_srtt_us = None, conn_retransmits = None, conn_tls = None\<rparr>\<rparr>)]\<rparr>"

definition creates_deterministic_partitioned_s3_key :: bool where
  "creates_deterministic_partitioned_s3_key \<longleftrightarrow>
     s3_object_key (\<lambda>_. (2026, 1, 1, 0)) (s3_to ''/mongodb-dam/events/'') fixture_batch =
       ''mongodb-dam/events/customer_id=integration-customer/tenant_id=integration-tenant/regional_cell_id=integration-cell/source_id=integration-source/date=2026-01-01/hour=00/integration-batch-0001.ndjson.gz''"

text \<open>The records of the object; the stream around them is gzip's.\<close>

definition encodes_one_self_contained_json_record_per_event :: bool where
  "encodes_one_self_contained_json_record_per_event \<longleftrightarrow>
     (case traverse (s3_ndjson_record_json fixture_rfc3339 \<circ> s3_record fixture_batch) (ba_events fixture_batch) of
        Some [first, second] \<Rightarrow>
          json_get ''batch_schema_version'' first = JNumber (PosInt 1) \<and>
          json_get ''batch_id'' first = JString ''integration-batch-0001'' \<and>
          json_get ''batch_created_at'' first = JString ''2026-01-01T00:00:00Z'' \<and>
          json_get ''event_type'' first = JString ''sensor_health'' \<and>
          json_get ''event_type'' second = JString ''mongodb_activity'' \<and>
          json_get ''command'' (json_get ''details'' second) = JString ''delete''
      | _ \<Rightarrow> False)"

definition alice_mapping :: "string \<Rightarrow> identity_mapping_document" where
  "alice_mapping account =
     \<lparr>imd_schema_version = 1, imd_mappings =
       [\<lparr>im_mongodb_principal_hash = ''sha256:0123456789abcdef0123456789abcdef0123456789abcdef0123456789abcdef'',
         im_provider = ''aws'', im_principal_type = ''iam_user'',
         im_principal_arn = ''arn:aws:iam::'' @ account @ '':user/dam-demo-alice'', im_account_id = ''111122223333'',
         im_credential_source = ''aws_secrets_manager'',
         im_credential_resource = ''arn:aws:secretsmanager:ap-south-1:111122223333:secret:mongodb-dam-demo-AbCdEf''\<rparr>]\<rparr>"

definition validates_and_parses_identity_mapping :: bool where
  "validates_and_parses_identity_mapping \<longleftrightarrow>
     (case parse_identity_mappings (\<lambda>_. Some (alice_mapping ''111122223333'')) [] of
        Inr identities \<Rightarrow>
          (case hm_get identities ''sha256:0123456789abcdef0123456789abcdef0123456789abcdef0123456789abcdef'' of
             Some identity \<Rightarrow> xid_provider identity = ''aws'' \<and> xid_principal_type identity = ''iam_user'' \<and>
               xid_principal_arn identity = ''arn:aws:iam::111122223333:user/dam-demo-alice''
           | None \<Rightarrow> False)
      | Inl _ \<Rightarrow> False)"

definition rejects_identity_mapping_with_mismatched_account :: bool where
  "rejects_identity_mapping_with_mismatched_account \<longleftrightarrow>
     isl (parse_identity_mappings (\<lambda>_. Some (alice_mapping ''999900001111'')) [])"

lemma rejects_non_tls_remote_endpoint_holds: rejects_non_tls_remote_endpoint
  by code_simp

lemma validates_s3_destination_holds: validates_s3_destination
  by code_simp

lemma creates_deterministic_partitioned_s3_key_holds: creates_deterministic_partitioned_s3_key
  by code_simp

lemma encodes_one_self_contained_json_record_per_event_holds: encodes_one_self_contained_json_record_per_event
  by code_simp

lemma validates_and_parses_identity_mapping_holds: validates_and_parses_identity_mapping
  by code_simp

lemma rejects_identity_mapping_with_mismatched_account_holds: rejects_identity_mapping_with_mismatched_account
  by code_simp

end
