(* ===== verification/Spec2Isabelle.thy ===== *)
theory Spec2Isabelle
  imports Privacy Shutdown Outpost_Tasks Mock_Endpoint Protocol_Tests Observer_Tests Store_Tests
begin

text \<open>
  A verified model of \<open>mongodb-dam\<close>, a database activity sensor for MongoDB. Paths below are
  relative to \<open>src/\<close>.

  \<^bold>\<open>The program.\<close> Probes in the kernel copy what \<open>mongod\<close> and \<open>mongos\<close> read and write, TLS plaintext
  included, into a ring buffer as fixed-size records. The Observer (\<open>crates/observer\<close>) reads them.
  Its \<open>EventProcessor\<close> reassembles the MongoDB byte streams with the decoder of
  \<open>crates/mongo-protocol\<close>, pairs requests with responses and DNS queries with answers, follows
  authentication on each connection, and produces activity events (\<open>crates/schema\<close>). A filter keeps the
  selected events, a batcher stores them as JSON batches in a durable spool (\<open>crates/spool\<close>), and an
  exporter posts the spooled batches to Outpost. Outpost (\<open>crates/outpost\<close>) checks tenant and
  credential, adds Kubernetes metadata and external identities, stores the batch in a spool of its own
  and delivers it to an HTTP receiver or to S3. \<open>crates/mock-endpoint\<close> is the receiver of the test
  set-up.

  \<^bold>\<open>Theories and sources.\<close>

  \<^item> \<open>Prelude\<close>, \<open>Rust_Str\<close>, \<open>Rust_Text\<close>, \<open>Rust_Float\<close>: the part of Rust and its standard library
    the sources use. Results with errors and panics, slices, little-endian integers, hash maps, UTF-8 strings,
    \<open>lines\<close> and integer parsing, IP addresses, \<open>f64\<close> comparisons and casts on the bits.
  \<^item> \<open>Bson\<close>, \<open>Bson_Json\<close>, \<open>Summary\<close>, \<open>Wire\<close>, \<open>Stream_Decoder\<close>: \<open>crates/mongo-protocol/src/lib.rs\<close>,
    bottom up: the readers of BSON values, the conversion to JSON and the delete statements, the
    command summaries and tables, \<open>decode_frame\<close> and \<open>decode_frame_prefix\<close>, and \<open>StreamDecoder\<close> with
    all its operations. \<open>Bson_Encode\<close> holds the message builders of the test module.
  \<^item> \<open>Bson_Spec\<close>, \<open>Summary_Spec\<close>, \<open>Command_Spec\<close>, \<open>Message_Spec\<close>, \<open>Wire_Spec\<close>: BSON documents and
    wire messages as datatypes, their encoding, and their meaning by field look-up, with the proofs that the
    byte-level code computes this meaning. \<open>Prefix_Spec\<close> does the same for documents cut off by the capture
    limit: which members are visible in a prefix, and that the prefix decoder reports exactly those.
  \<^item> \<open>Schema\<close>, \<open>Schema_Json\<close>, \<open>Wire_Json\<close>: \<open>crates/schema/src/lib.rs\<close>: all records, \<open>DamBatch::validate\<close>, and the
    JSON value serde builds for each record from its attributes; the lines of an S3 object of \<open>crates/outpost\<close>.
  \<^item> \<open>Spool\<close>: \<open>crates/spool/src/lib.rs\<close>, every operation of \<open>DurableSpool\<close> with every point at which
    a system call can fail, and the recovery pass at start.
  \<^item> \<open>Proc\<close>, \<open>Dns\<close>, \<open>Processor\<close>: \<open>crates/observer/src/lib.rs\<close>: the \<open>/proc\<close> readers, the DNS
    decoder, and \<open>EventProcessor\<close> with its whole state and every handler. \<open>Processor_Spec\<close> and
    \<open>Attribution\<close> prove its properties.
  \<^item> \<open>Observer_Main\<close>, \<open>Uprobes\<close>, \<open>Probes\<close>, \<open>Shutdown\<close>: \<open>crates/observer/src/main.rs\<close>: configuration, filters,
    batcher, exporter, health and metrics pages; process and library discovery and probe bookkeeping; the eBPF
    worker \<open>run_bpf\<close> from attaching its programs to its polling loop; the order in which \<open>main\<close> ends its tasks.
  \<^item> \<open>Outpost\<close>, \<open>Outpost_Main\<close>, \<open>Outpost_Tasks\<close>: \<open>crates/outpost/src/lib.rs\<close> and \<open>main.rs\<close>: configuration, identity
    mapping, Kubernetes cache, ingestion, delivery, the routes with the body limit; the metrics registry and page, the
    clients, the background tasks and their interleaving with requests.
  \<^item> \<open>Mock_Endpoint\<close>: \<open>crates/mock-endpoint/src/main.rs\<close>.
  \<^item> \<open>Steps\<close>, \<open>Delivery\<close>, \<open>Batcher_Spec\<close>, \<open>Sensor\<close>, \<open>Outpost_Spec\<close>, \<open>Pipeline\<close>, \<open>Privacy\<close>: contracts, and the
    properties of components working together.
  \<^item> \<open>Protocol_Tests\<close>, \<open>Observer_Tests\<close>, \<open>Store_Tests\<close>: the unit tests of the crates as definitions, each shown
    to hold of the model.

  A function keeps its source name unless HOL has the name already; record fields carry a prefix (\<open>ev_\<close>,
  \<open>pr_\<close>, \<open>oc_\<close>). A \<open>&mut self\<close> method returns the new state, and every early return, \<open>?\<close> and
  out-of-range index of the source is a branch of its definition.

  \<^bold>\<open>Interfaces.\<close> The contracts the components rely on are locales, interpreted on the model itself.

  \<^item> \<open>stepper\<close> (\<open>Steps\<close>): an invariant every input keeps and a promise every output meets, hence both for
    whole runs. Interpreted for the handling of one message (\<open>messages\<close>), of one kernel event
    (\<open>kernel\<close>), for the processor task with its filter (\<open>task\<close>), for the batcher (\<open>batching\<close>, \<open>named\<close>) and for the
    running Outpost (\<open>cached\<close>, \<open>stalled\<close>).
  \<^item> \<open>counted_steps\<close> (\<open>Steps\<close>): a counter that grows by the outputs of one kind. Interpreted for the five counters
    of Outpost (\<open>accepted\<close>, \<open>rejected\<close>, \<open>delivered\<close>, \<open>failures\<close>, \<open>refused\<close>).
  \<^item> \<open>framing\<close> (\<open>Stream_Decoder\<close>): a length-prefixed frame loop. Interpreted for the loop of \<open>push\<close>
    (\<open>pl\<close>).
  \<^item> \<open>batch_store\<close> and its extension \<open>reliable_store\<close> (\<open>Delivery\<close>): what a delivery pass needs of the
    place the batches are in. Interpreted for the spool with arbitrary failures (\<open>spool_store\<close>) and for
    a spool whose disk works (\<open>working_spool\<close>); the passes of the Observer and of Outpost are both
    shown to be the walk these locales reason about.

  \<^bold>\<open>What is proved.\<close>

  \<^item> \<^bold>\<open>Decoding.\<close> No input bytes make a decoder panic, and buffers and decompression are bounded. An encoded
    BSON document of any depth converts to its JSON value; an encoded \<open>OP_MSG\<close>, \<open>OP_QUERY\<close> or \<open>OP_REPLY\<close>, plain or compressed,
    decodes to the meaning of its documents; a stream decodes to the messages of its frames however it is cut into
    reads that fit in the buffer, and the loop ends within one turn per sixteen bytes. Collections, principals and query content leave the decoder only for the listed commands. What is reported
    of a message cut off by the capture limit, authentication included, agrees with the complete message if that says everything once.
  \<^item> \<^bold>\<open>Event processor.\<close> For every sequence of kernel events: bounded tables and buffers, valid events, only salted
    hashes of principals, no query content unless enabled; each response completes its own request
    once; who acts on a connection changes only by a successful authentication; closing a connection
    releases exactly its state.
  \<^item> \<^bold>\<open>Spool.\<close> Between restarts, capacity and content addressing hold in every run with failing system calls; a restart
    recovers exactly the completely written batches; the file-system calls of an enqueue, on a disk that loses what was not synced, are
    atomic under a power loss; what is stored is read back.
  \<^item> \<^bold>\<open>Sensor.\<close> The batcher neither loses nor reorders events, its batches are valid, and an Outpost
    of the same assignment does not refuse them if they are within its body limit. The answer of \<open>/ready\<close> follows the
    worker, which holds every required probe while it runs; it lags behind for the moment after an error in which the
    worker's function has returned and dropped its links and the thread has not cleared the flag yet. Every record of the
    ring is forwarded or counted, and an orderly end loses no event in flight.
  \<^item> \<^bold>\<open>Outpost.\<close> Client errors are answered exactly to requests that are too large or bad; an accepted batch is stored before the answer;
    external identities come from validated mapping entries; object keys of different batches differ; the metrics page
    counts exactly what happened.
  \<^item> \<^bold>\<open>Formats.\<close> Reading the JSON of a batch by the schema, or the lines of an S3 object, gives back the batch or its
    events.
  \<^item> \<^bold>\<open>Privacy.\<close> In the JSON of every batch a started sensor builds, as it is sent or as Outpost enriches it, and in
    every line of an S3 object, principals are salted hashes, and queries occur only if query content is enabled.
  \<^item> \<^bold>\<open>Whole pipeline.\<close> In every interleaving of flushes, requests, lost answers, uploads, failures and restarts a
    spooled batch is held by the sensor, by Outpost, confirmed by the destination or in quarantine.

  Where the code or its documentation does something its authors did not intend, a lemma shows it:
  \<open>Wire_Spec.cut_sequence_yields_partial_query\<close>, \<open>Prefix_Spec.null_hides_later_members\<close>,
  \<open>Prefix_Spec.truncated_reply_reports_success\<close>, \<open>Spool.failed_write_blocks_retry\<close>,
  \<open>Spool.recovery_can_exceed_capacity\<close>, \<open>Attribution.closing_keeps_cached_endpoints\<close>,
  \<open>Delivery.undecodable_item_stops_the_pass\<close>,
  \<open>Sensor.blank_sensor_name_starts_and_fails\<close>, \<open>Sensor.oversized_batch_is_refused\<close>,
  \<open>Uprobes.deleted_library_is_skipped\<close>, \<open>Outpost_Tasks.failed_client_delivers_nothing\<close>,
  \<open>Mock_Endpoint.conflict_for_a_batch_that_is_not_kept\<close>.

  \<^bold>\<open>Bounds and termination.\<close> There is no fuel: every loop is a total function, structural or with a measure
  (the bytes left for the decoders, the nesting of slices for documents, the jumps left for DNS names).
  Limits are the source's constants. \<open>usize\<close> values are natural numbers below \<open>2 ^ 64\<close> where the source adds them
  with a check or saturates.

  \<^bold>\<open>Assumptions.\<close>

  \<^item> SHA-256, decompressors, the JSON codec, gzip, the calendar and the URL parser are parameters. Theorems that
    need it assume of the digest its shape (64 lower-case hexadecimal digits) and of the JSON codec that decoding inverts encoding.
    The round trips of \<open>Schema_Json\<close> and \<open>Wire_Json\<close> assume this only of the text of JSON values and of RFC 3339 times.
  \<^item> Calls into \<open>libbpf\<close> and the kernel answer as \<open>bpf_env\<close> and the turns of \<open>run_thread\<close> say; the scheduling of tasks at the
    end of the sensor is a parameter (\<open>fair_schedule\<close>).
  \<^item> The clocks, \<open>/proc\<close> and salts are read once per kernel event (\<open>env\<close>). Where a handler reads
    \<open>/proc\<close> twice for one event, the model gives it the same answer.
  \<^item> A spool operation is atomic because \<open>DurableSpool\<close> holds its lock throughout. Its arguments say where
    a system call fails. \<open>Batcher_Spec\<close> runs the batcher with its spool to itself; \<open>Pipeline\<close>
    interleaves it with the exporter.
  \<^item> The steps of \<open>Outpost_Tasks\<close> are what a task does between two points where it waits; steps of different tasks do not
    overlap. The disk of \<open>Spool\<close> keeps, after a power loss, the content of synced files and some version of
    the directory since it was last synced.
  \<^item> The answer of a receiver is a function of the request within one delivery pass, and arbitrary between passes.
  \<^item> Instants are nanoseconds of UTC.

  \<^bold>\<open>Not modelled.\<close> The eBPF programs in C and \<open>build.rs\<close>; what \<open>libbpf\<close> does to load and attach them; argument parsing, HTTP
  servers and clients, channels, timers, threads and signals (\<open>clap\<close>, \<open>axum\<close>, \<open>reqwest\<close>, \<open>tokio\<close>), apart from the
  conditions the program puts on them, such as the body limit, timeouts and redirects; serde's decoders, for which a reader
  of the schema stands; the text formats of JSON and Prometheus; Helm charts, scripts and the demo. Of the unit tests,
  the one against a live S3 server and the one that parses the documentation's examples are left out. What remains of the
  sources beside these is imports, type declarations of responses that carry no logic, and the wiring of \<open>main\<close>.
\<close>

end
